(* ===== verification/Prelude.thy ===== *)
theory Prelude
  imports Main "HOL-Library.Word"
begin

text \<open>
  What every theory of the development shares: the faults a run of the library can end
  with, the state-and-fault monad in which its operations are written, loops over
  vectors, and the automation that splits a successful run into its steps.

  The model is of the debug build, in which \<^verbatim>\<open>ILA_ASSERT\<close> is active
  (\<^verbatim>\<open>include/ilang/util/log.h\<close>): a failed \<^verbatim>\<open>ILA_ASSERT\<close>,
  \<^verbatim>\<open>ILA_CHECK\<close> or \<^verbatim>\<open>ILA_NOT_NULL\<close> logs at level FATAL and aborts the
  process.  Warnings and errors that are only logged (\<^verbatim>\<open>ILA_WARN\<close>,
  \<^verbatim>\<open>ILA_ERROR\<close>) change no state and are not recorded.
\<close>

subsection \<open>Faults\<close>

text \<open>
  A run ends with an abort (\<open>AssertFail\<close>, \<open>CheckFail\<close>), with the use of a null pointer
  (\<open>NullPtr\<close>: \<^verbatim>\<open>ILA_NOT_NULL\<close> or a dereference), or with a C++ exception that the
  caller may catch (\<open>OutOfRange\<close> of the \<^verbatim>\<open>at\<close> accessors, \<open>Thrown\<close> for the others).
  \<open>OutOfFuel\<close> is not a fault of the code: it marks a bounded recursion of the model that was
  given too little fuel, and the theorems show that it does not occur.
\<close>

datatype fault =
    AssertFail string
  | CheckFail string
  | NullPtr
  | OutOfRange
  | Thrown string
  | OutOfFuel

type_synonym 'a res = "fault + 'a"
type_synonym ('s, 'a) action = "'s \<Rightarrow> fault + 'a \<times> 's"
type_synonym u64 = "64 word"

text \<open>Can \<^verbatim>\<open>catch (...)\<close> intercept the fault?\<close>

primrec catchable :: "fault \<Rightarrow> bool" where
  "catchable (AssertFail m) = False"
| "catchable (CheckFail m) = False"
| "catchable NullPtr = False"
| "catchable OutOfRange = True"
| "catchable (Thrown m) = True"
| "catchable OutOfFuel = False"

text \<open>A conversion to \<^verbatim>\<open>int\<close>.\<close>

definition to_int32 :: "int \<Rightarrow> int" where
  "to_int32 i = sint (word_of_int i :: 32 word)"

lemma to_int32_id: "- (2 ^ 31) \<le> i \<Longrightarrow> i < 2 ^ 31 \<Longrightarrow> to_int32 i = i"
  unfolding to_int32_def by (simp add: sint_sbintrunc' signed_take_bit_int_eq_self)

named_theorems run_simps \<open>equations that execute the monad and its guards\<close>
named_theorems run_dest \<open>what a successful run of an operation says\<close>

subsection \<open>Results without state\<close>

definition bindR :: "'a res \<Rightarrow> ('a \<Rightarrow> 'b res) \<Rightarrow> 'b res" where
  "bindR r f = (case r of Inl x \<Rightarrow> Inl x | Inr a \<Rightarrow> f a)"

definition assertR :: "bool \<Rightarrow> string \<Rightarrow> unit res" where
  "assertR b m = (if b then Inr () else Inl (AssertFail m))"

definition checkR :: "bool \<Rightarrow> string \<Rightarrow> unit res" where
  "checkR b m = (if b then Inr () else Inl (CheckFail m))"

definition not_null :: "'a option \<Rightarrow> 'a res" where
  "not_null p = (case p of None \<Rightarrow> Inl NullPtr | Some a \<Rightarrow> Inr a)"

text \<open>\<^verbatim>\<open>v.at(i)\<close> of a vector: out of range throws.\<close>

definition at :: "'a list \<Rightarrow> nat \<Rightarrow> 'a res" where
  "at xs i = (if i < length xs then Inr (xs ! i) else Inl OutOfRange)"

fun mapR :: "('a \<Rightarrow> 'b res) \<Rightarrow> 'a list \<Rightarrow> 'b list res" where
  "mapR f [] = Inr []"
| "mapR f (x # xs) = bindR (f x) (\<lambda>y. bindR (mapR f xs) (\<lambda>ys. Inr (y # ys)))"

lemma bindR_simps [simp, run_simps]:
  "bindR (Inl x) f = Inl x"
  "bindR (Inr a) f = f a"
  by (simp_all add: bindR_def)

lemma bindR_Inr_iff [run_simps]:
  "bindR r f = Inr b \<longleftrightarrow> (\<exists>a. r = Inr a \<and> f a = Inr b)"
  by (cases r) auto

lemma bindR_Inl_iff:
  "bindR r f = Inl x \<longleftrightarrow> r = Inl x \<or> (\<exists>a. r = Inr a \<and> f a = Inl x)"
  by (cases r) auto

lemma assertR_Inr [simp, run_simps]: "assertR b m = Inr u \<longleftrightarrow> b"
  by (simp add: assertR_def)

lemma assertR_simps [simp]:
  "assertR True m = Inr ()" "assertR False m = Inl (AssertFail m)"
  by (simp_all add: assertR_def)

lemma checkR_Inr [simp, run_simps]: "checkR b m = Inr u \<longleftrightarrow> b"
  by (simp add: checkR_def)

lemma checkR_simps [simp]:
  "checkR True m = Inr ()" "checkR False m = Inl (CheckFail m)"
  by (simp_all add: checkR_def)

lemma not_null_simps [simp, run_simps]:
  "not_null None = Inl NullPtr" "not_null (Some a) = Inr a"
  by (simp_all add: not_null_def)

lemma not_null_Inr [simp, run_simps]: "not_null p = Inr a \<longleftrightarrow> p = Some a"
  by (cases p) auto

lemma at_Inr [simp, run_simps]: "at xs i = Inr a \<longleftrightarrow> i < length xs \<and> a = xs ! i"
  by (auto simp: at_def)

lemma at_Cons_0 [simp, run_simps]: "at (x # xs) 0 = Inr x"
  by (simp add: at_def)

lemma at_Cons_Suc [simp, run_simps]: "at (x # xs) (Suc n) = at xs n"
  by (simp add: at_def)

lemma at_Nil [simp, run_simps]: "at [] n = Inl OutOfRange"
  by (simp add: at_def)

lemma at_numeral [simp, run_simps]:
  "at (x # xs) (numeral n) = at xs (numeral n - 1)"
  by (cases "numeral n :: nat") (simp_all add: at_def)

lemma at_1 [simp, run_simps]: "at (x # xs) 1 = at xs 0"
  by (simp add: at_def)

lemma mapR_Inr_iff:
  "mapR f xs = Inr ys \<longleftrightarrow> list_all2 (\<lambda>x y. f x = Inr y) xs ys"
  by (induction xs arbitrary: ys) (auto simp: bindR_Inr_iff list_all2_Cons1)

lemma mapR_Inr_length: "mapR f xs = Inr ys \<Longrightarrow> length ys = length xs"
  by (auto simp: mapR_Inr_iff dest: list_all2_lengthD)

lemma mapR_all:
  assumes "\<And>x. x \<in> set xs \<Longrightarrow> f x = Inr (g x)"
  shows "mapR f xs = Inr (map g xs)"
  using assms by (induction xs) auto

lemma mapR_cong [fundef_cong]:
  "xs = ys \<Longrightarrow> (\<And>x. x \<in> set ys \<Longrightarrow> f x = g x) \<Longrightarrow> mapR f xs = mapR g ys"
  by (induction ys arbitrary: xs) (auto simp: bindR_def split: sum.splits)

subsection \<open>Actions on a state\<close>

definition ret :: "'a \<Rightarrow> ('s, 'a) action" where
  "ret a = (\<lambda>s. Inr (a, s))"

definition fail :: "fault \<Rightarrow> ('s, 'a) action" where
  "fail x = (\<lambda>s. Inl x)"

definition bindM :: "('s, 'a) action \<Rightarrow> ('a \<Rightarrow> ('s, 'b) action) \<Rightarrow> ('s, 'b) action" where
  "bindM m f = (\<lambda>s. case m s of Inl x \<Rightarrow> Inl x | Inr (a, s') \<Rightarrow> f a s')"

definition liftR :: "'a res \<Rightarrow> ('s, 'a) action" where
  "liftR r = (\<lambda>s. case r of Inl x \<Rightarrow> Inl x | Inr a \<Rightarrow> Inr (a, s))"

definition gets :: "('s \<Rightarrow> 'a) \<Rightarrow> ('s, 'a) action" where
  "gets f = (\<lambda>s. Inr (f s, s))"

definition modify :: "('s \<Rightarrow> 's) \<Rightarrow> ('s, unit) action" where
  "modify f = (\<lambda>s. Inr ((), f s))"

text \<open>Run an action and continue with another, dropping its result.\<close>

definition thenM :: "('s, 'a) action \<Rightarrow> ('s, 'b) action \<Rightarrow> ('s, 'b) action" where
  "thenM m k = bindM m (\<lambda>_. k)"

abbreviation ila_assert :: "bool \<Rightarrow> string \<Rightarrow> ('s, unit) action" where
  "ila_assert b m \<equiv> liftR (assertR b m)"

abbreviation ila_check :: "bool \<Rightarrow> string \<Rightarrow> ('s, unit) action" where
  "ila_check b m \<equiv> liftR (checkR b m)"

abbreviation ila_not_null :: "'a option \<Rightarrow> ('s, 'a) action" where
  "ila_not_null p \<equiv> liftR (not_null p)"

text \<open>\<^verbatim>\<open>try { m } catch (...) { h }\<close>: the handler of the model starts in the state in
  which the block was entered, whereas the code keeps what the block did before it threw.
  It is used for the syntactic simplification, which never throws (theory \<open>No_Throw\<close>), for the
  optional fields of the portable format, which are looked up before the first change, and for
  the copies of \<^verbatim>\<open>ExtrDeptModl\<close>, which only throw on an operator with too few arguments; then
  the code keeps a half-built copy that the model does not have.\<close>

definition catchM :: "('s, 'a) action \<Rightarrow> ('s, 'a) action \<Rightarrow> ('s, 'a) action" where
  "catchM m h = (\<lambda>s. case m s of
       Inl x \<Rightarrow> if catchable x then h s else Inl x
     | Inr r \<Rightarrow> Inr r)"

fun mapM :: "('a \<Rightarrow> ('s, 'b) action) \<Rightarrow> 'a list \<Rightarrow> ('s, 'b list) action" where
  "mapM f [] = ret []"
| "mapM f (x # xs) = bindM (f x) (\<lambda>y. bindM (mapM f xs) (\<lambda>ys. ret (y # ys)))"

text \<open>A loop over a vector for its effects.\<close>

fun forM :: "'a list \<Rightarrow> ('a \<Rightarrow> ('s, unit) action) \<Rightarrow> ('s, unit) action" where
  "forM [] f = ret ()"
| "forM (x # xs) f = thenM (f x) (forM xs f)"

text \<open>A loop over a vector that accumulates a value.\<close>

fun foldM :: "('b \<Rightarrow> 'a \<Rightarrow> ('s, 'b) action) \<Rightarrow> 'b \<Rightarrow> 'a list \<Rightarrow> ('s, 'b) action" where
  "foldM f b [] = ret b"
| "foldM f b (x # xs) = bindM (f b x) (\<lambda>b'. foldM f b' xs)"

lemma ret_run [simp, run_simps]: "ret a s = Inr (a, s)"
  by (simp add: ret_def)

lemma fail_run [simp, run_simps]: "fail x s = Inl x"
  by (simp add: fail_def)

lemma gets_run [simp, run_simps]: "gets f s = Inr (f s, s)"
  by (simp add: gets_def)

lemma modify_run [simp, run_simps]: "modify f s = Inr ((), f s)"
  by (simp add: modify_def)

lemma liftR_run [simp, run_simps]:
  "liftR (Inl x) s = Inl x" "liftR (Inr a) s = Inr (a, s)"
  by (simp_all add: liftR_def)

lemma liftR_Inr_iff [simp, run_simps]: "liftR r s = Inr (a, t) \<longleftrightarrow> r = Inr a \<and> t = s"
  by (cases r) auto

lemma bindM_Inr_iff [run_simps]:
  "bindM m f s = Inr (b, u) \<longleftrightarrow> (\<exists>a t. m s = Inr (a, t) \<and> f a t = Inr (b, u))"
  by (auto simp: bindM_def split: sum.splits)

lemma bindM_run [simp]:
  "m s = Inr (a, t) \<Longrightarrow> bindM m f s = f a t"
  by (simp add: bindM_def)

lemma bindM_fault [simp]: "m s = Inl x \<Longrightarrow> bindM m f s = Inl x"
  by (simp add: bindM_def)

lemma thenM_Inr_iff [run_simps]:
  "thenM m k s = Inr (b, u) \<longleftrightarrow> (\<exists>a t. m s = Inr (a, t) \<and> k t = Inr (b, u))"
  by (simp add: thenM_def bindM_Inr_iff)

lemma thenM_run [simp]: "m s = Inr (a, t) \<Longrightarrow> thenM m k s = k t"
  by (simp add: thenM_def)

lemma thenM_fault [simp]: "m s = Inl x \<Longrightarrow> thenM m k s = Inl x"
  by (simp add: thenM_def)

lemma bindM_assoc: "bindM (bindM m f) g = bindM m (\<lambda>a. bindM (f a) g)"
  by (rule ext) (auto simp: bindM_def split: sum.splits)

lemma bindM_ret [simp]: "bindM m ret = m"
  by (rule ext) (auto simp: bindM_def ret_def split: sum.splits)

lemma catchM_Inr: "m s = Inr r \<Longrightarrow> catchM m h s = Inr r"
  by (simp add: catchM_def)

lemma catchM_catch: "m s = Inl x \<Longrightarrow> catchable x \<Longrightarrow> catchM m h s = h s"
  by (simp add: catchM_def)

text \<open>Congruences, so that recursion through a loop is accepted by \<^theory_text>\<open>function\<close>.\<close>

lemma mapM_cong [fundef_cong]:
  "xs = ys \<Longrightarrow> (\<And>x. x \<in> set ys \<Longrightarrow> f x = g x) \<Longrightarrow> mapM f xs = mapM g ys"
  by (induction ys arbitrary: xs) (auto simp: bindM_def split: sum.splits)

lemma forM_cong [fundef_cong]:
  "xs = ys \<Longrightarrow> (\<And>x. x \<in> set ys \<Longrightarrow> f x = g x) \<Longrightarrow> forM xs f = forM ys g"
  by (induction ys arbitrary: xs) (auto simp: thenM_def bindM_def split: sum.splits)

subsection \<open>Loop rules\<close>

text \<open>An invariant of the loop body is an invariant of the loop.\<close>

lemma forM_invariant:
  assumes "forM xs f s = Inr (u, t)" and "P s"
    and "\<And>x s t. x \<in> set xs \<Longrightarrow> P s \<Longrightarrow> f x s = Inr ((), t) \<Longrightarrow> P t"
  shows "P t"
  using assms by (induction xs arbitrary: s) (auto simp: thenM_Inr_iff)

lemma foldM_invariant:
  assumes "foldM f b xs s = Inr (r, t)" and "P b s"
    and "\<And>b x s b' t. x \<in> set xs \<Longrightarrow> P b s \<Longrightarrow> f b x s = Inr (b', t) \<Longrightarrow> P b' t"
  shows "P r t"
  using assms
proof (induction xs arbitrary: b s)
  case Nil
  then show ?case by simp
next
  case (Cons x xs)
  from Cons.prems(1) obtain b' s' where step: "f b x s = Inr (b', s')"
    and rest: "foldM f b' xs s' = Inr (r, t)"
    by (auto simp: bindM_Inr_iff)
  have "P b' s'" by (rule Cons.prems(3) [OF _ Cons.prems(2) step]) simp
  then show ?case
    by (rule Cons.IH [OF rest]) (rule Cons.prems(3), auto)
qed

lemma mapM_Inr_length: "mapM f xs s = Inr (ys, t) \<Longrightarrow> length ys = length xs"
  by (induction xs arbitrary: s ys) (auto simp: bindM_Inr_iff)

lemma forM_append: "forM (xs @ ys) f = thenM (forM xs f) (forM ys f)"
  by (induction xs) (auto simp: thenM_def bindM_assoc fun_eq_iff bindM_def split: sum.splits)

text \<open>A run that succeeds from every state the invariant holds in.\<close>

lemma forM_total:
  assumes "P s"
    and "\<And>x s. x \<in> set xs \<Longrightarrow> P s \<Longrightarrow> \<exists>t. f x s = Inr ((), t) \<and> P t"
  shows "\<exists>t. forM xs f s = Inr ((), t) \<and> P t"
  using assms
proof (induction xs arbitrary: s)
  case Nil
  then show ?case by simp
next
  case (Cons x xs)
  then obtain t where t: "f x s = Inr ((), t)" "P t"
    by (meson list.set_intros(1))
  moreover have "\<exists>u. forM xs f t = Inr ((), u) \<and> P u"
    by (rule Cons.IH [OF t(2)]) (rule Cons.prems(2), auto)
  ultimately show ?case by (auto simp: thenM_def)
qed

end
