(* ===== verification/Containers.thy ===== *)
theory Containers
  imports Prelude "HOL-Library.AList"
begin

text \<open>
  The containers of \<^verbatim>\<open>include/ilang/util/container.h\<close>: \<^verbatim>\<open>KeyVec\<close>, a vector of
  data with a map from keys to indices, in which an ILA keeps its inputs, states,
  instructions and children, and \<^verbatim>\<open>MapSet\<close>.  The theory gives the operations as the
  class has them, the invariant that ties the map to the vector, an interface (locale
  \<open>indexed_map\<close>) with what the ILA layer relies on, its interpretation on \<open>KeyVec\<close>, and
  the aliasing of the pseudo-iterator that \<^verbatim>\<open>find\<close> returns.
\<close>

subsection \<open>KeyVec\<close>

text \<open>\<^verbatim>\<open>vec_\<close> and \<^verbatim>\<open>map_\<close>; the pseudo-iterator is added below.\<close>

record ('k, 'v) keyvec =
  vec :: "'v list"
  idx :: "'k \<rightharpoonup> nat"

definition kv_empty :: "('k, 'v) keyvec" where
  "kv_empty = \<lparr>vec = [], idx = Map.empty\<rparr>"

text \<open>\<^verbatim>\<open>clear\<close>\<close>

definition kv_clear :: "('k, 'v) keyvec \<Rightarrow> ('k, 'v) keyvec" where
  "kv_clear kv = kv\<lparr>vec := [], idx := Map.empty\<rparr>"

text \<open>\<^verbatim>\<open>push_back\<close>: \<^verbatim>\<open>try_emplace\<close> leaves an existing entry alone and reports it.\<close>

definition kv_push_back :: "'k \<Rightarrow> 'v \<Rightarrow> ('k, 'v) keyvec \<Rightarrow> bool \<times> ('k, 'v) keyvec" where
  "kv_push_back k d kv =
     (let i = length (vec kv);
          status = (idx kv k = None);
          m = (if status then (idx kv)(k \<mapsto> i) else idx kv)
      in (status, if status then kv\<lparr>vec := vec kv @ [d], idx := m\<rparr> else kv\<lparr>idx := m\<rparr>))"

text \<open>\<^verbatim>\<open>operator[]\<close>: \<^verbatim>\<open>vec_.at(idx)\<close>.\<close>

definition kv_get :: "('k, 'v) keyvec \<Rightarrow> nat \<Rightarrow> 'v res" where
  "kv_get kv i = at (vec kv) i"

definition kv_size :: "('k, 'v) keyvec \<Rightarrow> nat" where
  "kv_size kv = length (vec kv)"

text \<open>
  \<^verbatim>\<open>find\<close> followed at once by a comparison with \<^verbatim>\<open>end()\<close> and a read of
  \<^verbatim>\<open>second\<close>, the only way the library uses it.  The index is read with an unchecked
  \<^verbatim>\<open>vec_[idx]\<close>, so an index past the end would be a fault.
\<close>

definition kv_find :: "('k, 'v) keyvec \<Rightarrow> 'k \<Rightarrow> 'v option" where
  "kv_find kv k = (case idx kv k of
       None \<Rightarrow> None
     | Some i \<Rightarrow> if i < length (vec kv) then Some (vec kv ! i) else None)"

subsection \<open>The invariant\<close>

text \<open>The map is a bijection between the registered keys and the positions of the vector.\<close>

definition kv_inv :: "('k, 'v) keyvec \<Rightarrow> bool" where
  "kv_inv kv \<longleftrightarrow> inj_on (idx kv) (dom (idx kv)) \<and> ran (idx kv) = {..<length (vec kv)}"

text \<open>The key registered for a position.\<close>

definition kv_key :: "('k, 'v) keyvec \<Rightarrow> nat \<Rightarrow> 'k \<Rightarrow> bool" where
  "kv_key kv i k \<longleftrightarrow> idx kv k = Some i"

lemma kv_inv_empty [simp, intro]: "kv_inv kv_empty"
  by (auto simp: kv_inv_def kv_empty_def)

lemma kv_inv_clear [simp, intro]: "kv_inv (kv_clear kv)"
  by (auto simp: kv_inv_def kv_clear_def)

lemma kv_inv_bound: "kv_inv kv \<Longrightarrow> idx kv k = Some i \<Longrightarrow> i < length (vec kv)"
  by (auto simp: kv_inv_def ran_def)

lemma kv_inv_key_ex: "kv_inv kv \<Longrightarrow> i < length (vec kv) \<Longrightarrow> \<exists>k. idx kv k = Some i"
  by (auto simp: kv_inv_def ran_def set_eq_iff)

lemma kv_inv_key_unique:
  assumes "kv_inv kv" "idx kv k = Some i" "idx kv k' = Some i"
  shows "k = k'"
proof -
  have "inj_on (idx kv) (dom (idx kv))" using assms(1) by (simp add: kv_inv_def)
  then show ?thesis by (rule inj_onD) (use assms in auto)
qed

lemma kv_push_back_old:
  "idx kv k \<noteq> None \<Longrightarrow> kv_push_back k d kv = (False, kv)"
  by (auto simp add: kv_push_back_def Let_def)

lemma kv_push_back_new:
  "idx kv k = None \<Longrightarrow>
   kv_push_back k d kv =
     (True, kv\<lparr>vec := vec kv @ [d], idx := (idx kv)(k \<mapsto> length (vec kv))\<rparr>)"
  by (simp add: kv_push_back_def)

lemma kv_inv_push_back:
  assumes "kv_inv kv"
  shows "kv_inv (snd (kv_push_back k d kv))"
proof (cases "idx kv k")
  case (Some i)
  then show ?thesis using assms by (simp add: kv_push_back_old)
next
  case None
  let ?kv = "kv\<lparr>vec := vec kv @ [d], idx := (idx kv)(k \<mapsto> length (vec kv))\<rparr>"
  have fresh: "idx kv k' \<noteq> Some (length (vec kv))" for k'
    using kv_inv_bound [OF assms, of k'] by auto
  have "inj_on ((idx kv)(k \<mapsto> length (vec kv))) (insert k (dom (idx kv)))"
  proof (rule inj_onI)
    fix x y
    assume x: "x \<in> insert k (dom (idx kv))" and y: "y \<in> insert k (dom (idx kv))"
      and eq: "((idx kv)(k \<mapsto> length (vec kv))) x = ((idx kv)(k \<mapsto> length (vec kv))) y"
    show "x = y"
    proof (cases "x = k \<or> y = k")
      case True
      then show ?thesis
        using eq fresh [of x] fresh [of y] by (cases "x = k"; cases "y = k") (simp_all add: eq_commute)
    next
      case False
      then obtain i where "idx kv x = Some i" using x by auto
      moreover from this have "idx kv y = Some i" using False eq by simp
      ultimately show ?thesis by (rule kv_inv_key_unique [OF assms])
    qed
  qed
  moreover have "ran ((idx kv)(k \<mapsto> length (vec kv))) = {..<Suc (length (vec kv))}"
  proof -
    have "ran (idx kv) = {..<length (vec kv)}" using assms by (simp add: kv_inv_def)
    then show ?thesis using None by (simp add: lessThan_Suc)
  qed
  moreover have "dom ((idx kv)(k \<mapsto> length (vec kv))) = insert k (dom (idx kv))"
    by simp
  ultimately have "inj_on (idx ?kv) (dom (idx ?kv)) \<and> ran (idx ?kv) = {..<length (vec ?kv)}"
    by simp
  then show ?thesis
    using None by (simp only: kv_push_back_new kv_inv_def snd_conv)
qed

lemma kv_find_push_back:
  assumes "kv_inv kv"
  shows "kv_find (snd (kv_push_back k d kv)) k' =
    (if k' = k \<and> kv_find kv k = None then Some d else kv_find kv k')"
proof (cases "idx kv k")
  case (Some i)
  then have "kv_find kv k \<noteq> None"
    using kv_inv_bound [OF assms Some] by (simp add: kv_find_def)
  then show ?thesis using Some by (auto simp: kv_push_back_old)
next
  case None
  show ?thesis
  proof (cases "idx kv k'")
    case (Some j)
    then show ?thesis using None kv_inv_bound [OF assms Some]
      by (auto simp: kv_push_back_new kv_find_def nth_append)
  next
    case k': None
    then show ?thesis using None by (auto simp: kv_push_back_new kv_find_def)
  qed
qed

lemma kv_find_None_iff: "kv_inv kv \<Longrightarrow> kv_find kv k = None \<longleftrightarrow> idx kv k = None"
  using kv_inv_bound [of kv k] by (auto simp: kv_find_def split: option.splits)

lemma kv_find_Some_in: "kv_find kv k = Some d \<Longrightarrow> d \<in> set (vec kv)"
  by (auto simp: kv_find_def split: option.splits if_splits)

lemma vec_push_back:
  "vec (snd (kv_push_back k d kv)) = (if idx kv k = None then vec kv @ [d] else vec kv)"
  by (auto simp: kv_push_back_def Let_def)

lemma kv_push_back_status: "fst (kv_push_back k d kv) \<longleftrightarrow> idx kv k = None"
  by (simp add: kv_push_back_def Let_def)

lemma kv_find_ex_of_vec:
  assumes "kv_inv kv" "d \<in> set (vec kv)"
  shows "\<exists>k. kv_find kv k = Some d"
proof -
  from assms(2) obtain i where i: "i < length (vec kv)" "vec kv ! i = d"
    by (auto simp: in_set_conv_nth)
  then obtain k where "idx kv k = Some i" using kv_inv_key_ex [OF assms(1)] by blast
  then have "kv_find kv k = Some d" using i by (simp add: kv_find_def)
  then show ?thesis by blast
qed

subsection \<open>The interface the ILA layer relies on\<close>

text \<open>
  A container with lookup by key and access by index.  \<open>elems\<close> is its content in index
  order.  The laws are the ones the ILA operations use: a registered key keeps its datum,
  a new key is found and appended, and an index that exists keeps its datum for ever.
\<close>

locale indexed_map =
  fixes inv :: "'c \<Rightarrow> bool"
    and add :: "'k \<Rightarrow> 'v \<Rightarrow> 'c \<Rightarrow> bool \<times> 'c"
    and lookup :: "'c \<Rightarrow> 'k \<Rightarrow> 'v option"
    and nth_elem :: "'c \<Rightarrow> nat \<Rightarrow> 'v res"
    and elems :: "'c \<Rightarrow> 'v list"
  assumes inv_add: "inv c \<Longrightarrow> inv (snd (add k v c))"
    and add_status: "inv c \<Longrightarrow> fst (add k v c) \<longleftrightarrow> lookup c k = None"
    and lookup_add: "inv c \<Longrightarrow> lookup (snd (add k v c)) k' =
          (if k' = k \<and> lookup c k = None then Some v else lookup c k')"
    and elems_add: "inv c \<Longrightarrow> elems (snd (add k v c)) =
          (if lookup c k = None then elems c @ [v] else elems c)"
    and nth_elem_elems: "inv c \<Longrightarrow> nth_elem c i = at (elems c) i"
    and lookup_elems: "inv c \<Longrightarrow> lookup c k = Some v \<Longrightarrow> v \<in> set (elems c)"
begin

text \<open>Adding a list of entries in order.\<close>

fun add_all :: "('k \<times> 'v) list \<Rightarrow> 'c \<Rightarrow> 'c" where
  "add_all [] c = c"
| "add_all ((k, v) # kvs) c = add_all kvs (snd (add k v c))"

lemma inv_add_all: "inv c \<Longrightarrow> inv (add_all kvs c)"
  by (induction kvs c rule: add_all.induct) (auto intro: inv_add)

lemma lookup_add_all:
  "inv c \<Longrightarrow> lookup (add_all kvs c) k =
     (case lookup c k of Some v \<Rightarrow> Some v | None \<Rightarrow> map_of kvs k)"
  by (induction kvs c rule: add_all.induct)
    (auto simp: inv_add lookup_add split: option.splits)

lemma lookup_add_mono:
  "inv c \<Longrightarrow> lookup c k' = Some v' \<Longrightarrow> lookup (snd (add k v c)) k' = Some v'"
  by (auto simp: lookup_add)

lemma nth_elem_add:
  "inv c \<Longrightarrow> nth_elem c i = Inr x \<Longrightarrow> nth_elem (snd (add k v c)) i = Inr x"
  by (auto simp: nth_elem_elems inv_add elems_add nth_append)

text \<open>The first entry of each key that is new, in order.\<close>

lemma elems_add_all:
  "inv c \<Longrightarrow> elems (add_all kvs c) =
     elems c @ map snd (AList.clearjunk (filter (\<lambda>p. lookup c (fst p) = None) kvs))"
proof (induction kvs c rule: add_all.induct)
  case (1 c)
  then show ?case by simp
next
  case (2 k v kvs c)
  have "filter (\<lambda>p. lookup (snd (add k v c)) (fst p) = None) kvs =
      (if lookup c k = None then AList.delete k (filter (\<lambda>p. lookup c (fst p) = None) kvs)
       else filter (\<lambda>p. lookup c (fst p) = None) kvs)"
    by (auto simp: lookup_add [OF 2(2)] AList.delete_eq intro!: filter_cong)
  then show ?case using 2 by (simp add: inv_add elems_add)
qed

lemma elems_add_all_fresh:
  assumes "inv c" "distinct (map fst kvs)" "\<And>k. k \<in> fst ` set kvs \<Longrightarrow> lookup c k = None"
  shows "elems (add_all kvs c) = elems c @ map snd kvs"
  using assms
proof (induction kvs c rule: add_all.induct)
  case (1 c)
  then show ?case by simp
next
  case (2 k v kvs c)
  have "lookup (snd (add k v c)) k' = None" if "k' \<in> fst ` set kvs" for k'
    using 2 that by (auto simp: lookup_add)
  then have "elems (add_all kvs (snd (add k v c))) = elems (snd (add k v c)) @ map snd kvs"
    using 2 by (intro "2.IH") (auto simp: inv_add)
  then show ?case using 2 by (simp add: elems_add)
qed

end

interpretation kv: indexed_map kv_inv kv_push_back kv_find kv_get vec
  by unfold_locales
    (auto simp: kv_inv_push_back kv_find_push_back kv_push_back_status kv_find_None_iff
      vec_push_back kv_get_def intro: kv_find_Some_in)

subsection \<open>The pseudo-iterator\<close>

text \<open>
  \<^verbatim>\<open>find\<close> returns a shared pointer: either the class-wide \<^verbatim>\<open>end_\<close> or the
  container's single \<^verbatim>\<open>it_\<close>, whose fields it overwrites.  A caller therefore holds a
  reference, not a snapshot.
\<close>

datatype it_ref = EndRef | ItRef

record ('k, 'v) kv_it =
  it_first :: "'k option"
  it_second :: "'v option"

text \<open>\<^verbatim>\<open>find\<close> with its effect on \<^verbatim>\<open>*it_\<close>.\<close>

definition kv_find_it ::
  "('k, 'v) keyvec \<Rightarrow> 'k \<Rightarrow> (('k, 'v) kv_it, it_ref) action" where
  "kv_find_it kv k = (\<lambda>it. case idx kv k of
       None \<Rightarrow> Inr (EndRef, it)
     | Some i \<Rightarrow>
         if i < length (vec kv)
         then Inr (ItRef, it\<lparr>it_first := Some k, it_second := Some (vec kv ! i)\<rparr>)
         else Inl OutOfRange)"

text \<open>Reading \<^verbatim>\<open>second\<close> through a reference: \<^verbatim>\<open>end_\<close> holds the default value.\<close>

definition it_deref :: "it_ref \<Rightarrow> ('k, 'v) kv_it \<Rightarrow> 'v option" where
  "it_deref r it = (case r of EndRef \<Rightarrow> None | ItRef \<Rightarrow> it_second it)"

text \<open>An immediate read agrees with \<open>kv_find\<close>.\<close>

lemma kv_find_it_immediate:
  assumes "kv_inv kv"
  shows "\<exists>r it'. kv_find_it kv k it = Inr (r, it') \<and> it_deref r it' = kv_find kv k"
  using kv_inv_bound [OF assms]
  by (auto simp: kv_find_it_def it_deref_def kv_find_def split: option.splits)

subsection \<open>MapSet\<close>

type_synonym ('k, 't) mapset = "'k \<rightharpoonup> 't set"

text \<open>\<^verbatim>\<open>map_[k].insert(t)\<close>: the set is created empty when the key is new.\<close>

definition ms_insert :: "'k \<Rightarrow> 't \<Rightarrow> ('k, 't) mapset \<Rightarrow> ('k, 't) mapset" where
  "ms_insert k t m = m(k \<mapsto> insert t (case m k of None \<Rightarrow> {} | Some s \<Rightarrow> s))"

text \<open>\<^verbatim>\<open>map_.at(k)\<close>\<close>

definition ms_get :: "('k, 't) mapset \<Rightarrow> 'k \<Rightarrow> 't set res" where
  "ms_get m k = (case m k of None \<Rightarrow> Inl OutOfRange | Some s \<Rightarrow> Inr s)"

lemma ms_get_insert:
  "ms_get (ms_insert k t m) k' =
     (if k' = k then Inr (insert t (case ms_get m k of Inl _ \<Rightarrow> {} | Inr s \<Rightarrow> s))
      else ms_get m k')"
  by (auto simp: ms_get_def ms_insert_def split: option.splits)

subsection \<open>Ordered maps\<close>

text \<open>
  \<^verbatim>\<open>std::map\<close> as an association list in strictly increasing key order, the order in
  which it is iterated.  The comparison is a parameter: \<^verbatim>\<open>std::less\<close> of the key type.
\<close>

fun omap_emplace :: "('k \<Rightarrow> 'k \<Rightarrow> bool) \<Rightarrow> 'k \<Rightarrow> 'v \<Rightarrow> ('k \<times> 'v) list \<Rightarrow> ('k \<times> 'v) list" where
  "omap_emplace lt k v [] = [(k, v)]"
| "omap_emplace lt k v ((k', v') # m) =
     (if lt k k' then (k, v) # (k', v') # m
      else if k = k' then (k', v') # m
      else (k', v') # omap_emplace lt k v m)"

fun omap_put :: "('k \<Rightarrow> 'k \<Rightarrow> bool) \<Rightarrow> 'k \<Rightarrow> 'v \<Rightarrow> ('k \<times> 'v) list \<Rightarrow> ('k \<times> 'v) list" where
  "omap_put lt k v [] = [(k, v)]"
| "omap_put lt k v ((k', v') # m) =
     (if lt k k' then (k, v) # (k', v') # m
      else if k = k' then (k, v) # m
      else (k', v') # omap_put lt k v m)"

text \<open>A comparison that is a strict linear order.\<close>

definition strict_linear :: "('k \<Rightarrow> 'k \<Rightarrow> bool) \<Rightarrow> bool" where
  "strict_linear lt \<longleftrightarrow> (\<forall>a. \<not> lt a a) \<and> (\<forall>a b c. lt a b \<longrightarrow> lt b c \<longrightarrow> lt a c)
     \<and> (\<forall>a b. lt a b \<or> a = b \<or> lt b a)"

fun omap_ok :: "('k \<Rightarrow> 'k \<Rightarrow> bool) \<Rightarrow> ('k \<times> 'v) list \<Rightarrow> bool" where
  "omap_ok lt [] = True"
| "omap_ok lt ((k, v) # m) = ((\<forall>(k', v')\<in>set m. lt k k') \<and> omap_ok lt m)"

lemma strict_linearD:
  assumes "strict_linear lt"
  shows "\<not> lt a a" "lt a b \<Longrightarrow> lt b c \<Longrightarrow> lt a c" "lt a b \<or> a = b \<or> lt b a"
  using assms unfolding strict_linear_def by blast+

lemma omap_emplace_keys: "fst ` set (omap_emplace lt k v m) = insert k (fst ` set m)"
  by (induction lt k v m rule: omap_emplace.induct) auto

lemma omap_put_keys: "fst ` set (omap_put lt k v m) = insert k (fst ` set m)"
  by (induction lt k v m rule: omap_put.induct) auto

lemma omap_ok_keys:
  "omap_ok lt ((k, v) # m) \<longleftrightarrow> (\<forall>k'\<in>fst ` set m. lt k k') \<and> omap_ok lt m"
  by auto

declare omap_ok.simps(2) [simp del] omap_ok_keys [simp]

lemma omap_ok_emplace:
  assumes lin: "strict_linear lt"
  shows "omap_ok lt m \<Longrightarrow> omap_ok lt (omap_emplace lt k v m)"
proof (induction m)
  case Nil
  then show ?case by simp
next
  case (Cons p m)
  obtain k' v' where p: "p = (k', v')" by (cases p)
  show ?case
  proof (cases "lt k k'")
    case True
    have "lt k k''" if "k'' \<in> fst ` set m" for k''
      using Cons.prems that True strict_linearD(2) [OF lin, of k k' k''] by (auto simp: p)
    then show ?thesis using Cons.prems True by (simp add: p)
  next
    case False
    then have "k = k' \<or> lt k' k" using strict_linearD(3) [OF lin, of k k'] by blast
    then show ?thesis
      using Cons False by (auto simp only: p omap_emplace.simps if_False omap_ok_keys omap_emplace_keys split: if_split)
  qed
qed

lemma omap_ok_put:
  assumes lin: "strict_linear lt"
  shows "omap_ok lt m \<Longrightarrow> omap_ok lt (omap_put lt k v m)"
proof (induction m)
  case Nil
  then show ?case by simp
next
  case (Cons p m)
  obtain k' v' where p: "p = (k', v')" by (cases p)
  show ?case
  proof (cases "lt k k'")
    case True
    have "lt k k''" if "k'' \<in> fst ` set m" for k''
      using Cons.prems that True strict_linearD(2) [OF lin, of k k' k''] by (auto simp: p)
    then show ?thesis using Cons.prems True by (simp add: p)
  next
    case False
    then have "k = k' \<or> lt k' k" using strict_linearD(3) [OF lin, of k k'] by blast
    then show ?thesis
      using Cons False by (auto simp only: p omap_put.simps if_False omap_ok_keys omap_put_keys split: if_split)
  qed
qed

lemma omap_ok_distinct:
  assumes "strict_linear lt"
  shows "omap_ok lt m \<Longrightarrow> distinct (map fst m)"
proof (induction m)
  case (Cons p m)
  obtain k v where p: "p = (k, v)" by (cases p)
  have "k \<notin> fst ` set m" using Cons.prems strict_linearD(1) [OF assms] by (auto simp: p)
  then show ?case using Cons by (auto simp: p)
qed simp

lemma omap_ok_not_less:
  assumes "strict_linear lt" "omap_ok lt ((k', v') # m)" "lt k k'"
  shows "map_of m k = None"
proof -
  have "k \<notin> fst ` set m"
  proof
    assume "k \<in> fst ` set m"
    then have "lt k' k" using assms(2) by auto
    then show False using assms(3) strict_linearD(1,2) [OF assms(1)] by blast
  qed
  then show ?thesis by (simp add: map_of_eq_None_iff)
qed

lemma omap_emplace_lookup:
  assumes lin: "strict_linear lt"
  shows "omap_ok lt m \<Longrightarrow> map_of (omap_emplace lt k v m) =
    (if map_of m k = None then (map_of m)(k \<mapsto> v) else map_of m)"
proof (induction m)
  case Nil
  then show ?case by simp
next
  case (Cons p m)
  obtain k' v' where p: "p = (k', v')" by (cases p)
  have less: "lt k k' \<Longrightarrow> k \<noteq> k' \<and> map_of m k = None"
    using omap_ok_not_less [OF lin] Cons.prems strict_linearD(1) [OF lin] by (auto simp: p)
  show ?case
    using Cons less by (cases "lt k k'"; cases "k = k'") (simp_all add: p fun_eq_iff)
qed

lemma omap_put_lookup:
  assumes lin: "strict_linear lt"
  shows "omap_ok lt m \<Longrightarrow> map_of (omap_put lt k v m) = (map_of m)(k \<mapsto> v)"
proof (induction m)
  case Nil
  then show ?case by simp
next
  case (Cons p m)
  obtain k' v' where p: "p = (k', v')" by (cases p)
  then show ?case
    using Cons strict_linearD(1) [OF lin]
    by (cases "lt k k'"; cases "k = k'") (simp_all add: fun_eq_iff)
qed

text \<open>\<^verbatim>\<open>std::string\<close> comparison: lexicographic on unsigned bytes.\<close>

fun str_less :: "string \<Rightarrow> string \<Rightarrow> bool" where
  "str_less s [] = False"
| "str_less [] (c # cs) = True"
| "str_less (a # as) (c # cs) =
     ((of_char a :: nat) < of_char c \<or> (a = c \<and> str_less as cs))"

lemma str_less_irrefl: "\<not> str_less s s"
  by (induction s) auto

lemma str_less_trans: "str_less a b \<Longrightarrow> str_less b c \<Longrightarrow> str_less a c"
proof (induction a b arbitrary: c rule: str_less.induct)
  case (3 a as b bs)
  then show ?case by (cases c) auto
next
  case (2 b bs)
  then show ?case by (cases c) auto
qed simp

lemma str_less_total: "str_less a b \<or> a = b \<or> str_less b a"
proof (induction a b rule: str_less.induct)
  case (1 s)
  then show ?case by (cases s) auto
next
  case (3 a as c cs)
  have "(of_char a :: nat) < of_char c \<or> a = c \<or> (of_char c :: nat) < of_char a"
    using linorder_less_linear [of "of_char a :: nat" "of_char c"] by auto
  then show ?case using "3.IH" by auto
qed simp

lemma strict_linear_str_less [simp, intro]: "strict_linear str_less"
  unfolding strict_linear_def
  using str_less_irrefl str_less_trans str_less_total by blast

lemma strict_linear_word [simp, intro]: "strict_linear ((<) :: u64 \<Rightarrow> u64 \<Rightarrow> bool)"
  unfolding strict_linear_def by auto

end
