(* ===== verification/Str_Util.thy ===== *)
theory Str_Util
  imports Prelude
begin

text \<open>
  The string helpers of \<^verbatim>\<open>src/util/str_util.cc\<close>: number printing in any base, number
  parsing through the C library's \<^verbatim>\<open>strtol\<close> family, trimming, splitting, joining and
  replacing.  Characters are bytes and the C locale is assumed, as the library assumes it.
  Loops whose end depends on their arguments (\<^verbatim>\<open>Split\<close>, \<^verbatim>\<open>ReplaceAll\<close>) are partial
  functions: \<open>None\<close> is a run that does not end.
\<close>

subsection \<open>Characters\<close>

abbreviation code :: "char \<Rightarrow> nat" where
  "code c \<equiv> of_char c"

text \<open>\<^verbatim>\<open>isspace\<close>, \<^verbatim>\<open>toupper\<close> and \<^verbatim>\<open>tolower\<close> of the C locale.\<close>

definition is_space :: "char \<Rightarrow> bool" where
  "is_space c \<longleftrightarrow> code c = 32 \<or> (9 \<le> code c \<and> code c \<le> 13)"

definition to_upper :: "char \<Rightarrow> char" where
  "to_upper c = (if 97 \<le> code c \<and> code c \<le> 122 then char_of (code c - 32) else c)"

definition to_lower :: "char \<Rightarrow> char" where
  "to_lower c = (if 65 \<le> code c \<and> code c \<le> 90 then char_of (code c + 32) else c)"

text \<open>The value of a digit in bases up to 36.\<close>

definition digit_val :: "char \<Rightarrow> nat option" where
  "digit_val c =
     (if 48 \<le> code c \<and> code c \<le> 57 then Some (code c - 48)
      else if 97 \<le> code c \<and> code c \<le> 122 then Some (code c - 87)
      else if 65 \<le> code c \<and> code c \<le> 90 then Some (code c - 55)
      else None)"

subsection \<open>Printing numbers\<close>

text \<open>\<^verbatim>\<open>'0' + digit_val\<close> or \<^verbatim>\<open>'a' + digit_val - 10\<close>.\<close>

definition digit_char :: "bool \<Rightarrow> nat \<Rightarrow> char" where
  "digit_char uppercase d =
     (if d < 10 then char_of (48 + d) else char_of ((if uppercase then 65 else 97) + d - 10))"

function int_to_str_loop :: "nat \<Rightarrow> nat \<Rightarrow> bool \<Rightarrow> string \<Rightarrow> string" where
  "int_to_str_loop value base uppercase s =
     (if value \<noteq> 0 \<and> 1 < base
      then int_to_str_loop (value div base) base uppercase
             (digit_char uppercase (value mod base) # s)
      else s)"
  by pat_completeness auto
termination
  by (relation "measure (\<lambda>(v, _, _, _). v)") auto

declare int_to_str_loop.simps [simp del]

definition IntToStrCustomBase :: "u64 \<Rightarrow> nat \<Rightarrow> bool \<Rightarrow> string res" where
  "IntToStrCustomBase value base uppercase =
     bindR (assertR (base > 1 \<and> base \<le> 36) ''unsupported base'') (\<lambda>_.
       if value = 0 then Inr ''0''
       else Inr (int_to_str_loop (unat value) base uppercase []))"

text \<open>\<^verbatim>\<open>std::to_string\<close> of an unsigned number.\<close>

definition to_string :: "nat \<Rightarrow> string" where
  "to_string n = (if n = 0 then ''0'' else int_to_str_loop n 10 False [])"

subsection \<open>Case and Booleans\<close>

definition StrToUpper :: "string \<Rightarrow> string" where
  "StrToUpper s = map to_upper s"

definition StrToLower :: "string \<Rightarrow> string" where
  "StrToLower s = map to_lower s"

definition StrToBool :: "string \<Rightarrow> bool res" where
  "StrToBool s =
     (let up = StrToUpper s
      in bindR (assertR (up = ''TRUE'' \<or> up = ''FALSE'') ''Unknown boolean value'')
           (\<lambda>_. Inr (up = ''TRUE'')))"

subsection \<open>Parsing numbers\<close>

text \<open>Digits are read up to the first character that is none in the base.\<close>

fun parse_digits :: "nat \<Rightarrow> string \<Rightarrow> nat \<Rightarrow> nat" where
  "parse_digits base [] acc = acc"
| "parse_digits base (c # cs) acc =
     (case digit_val c of
        Some d \<Rightarrow> if d < base then parse_digits base cs (acc * base + d) else acc
      | None \<Rightarrow> acc)"

definition is_digit_in :: "nat \<Rightarrow> char \<Rightarrow> bool" where
  "is_digit_in base c = (case digit_val c of Some d \<Rightarrow> d < base | None \<Rightarrow> False)"

definition starts_with_digit :: "nat \<Rightarrow> string \<Rightarrow> bool" where
  "starts_with_digit base s = (case s of [] \<Rightarrow> False | c # _ \<Rightarrow> is_digit_in base c)"

text \<open>A prefix \<^verbatim>\<open>0x\<close> counts in base 16 (and, with base 0, selects it).\<close>

definition hex_prefix :: "string \<Rightarrow> bool" where
  "hex_prefix s \<longleftrightarrow> (case s of
       z # x # r \<Rightarrow> z = CHR ''0'' \<and> to_lower x = CHR ''x'' \<and> starts_with_digit 16 r
     | _ \<Rightarrow> False)"

definition strip_base :: "nat \<Rightarrow> string \<Rightarrow> nat \<times> string" where
  "strip_base base s =
     (if (base = 16 \<or> base = 0) \<and> hex_prefix s then (16, drop 2 s)
      else if base = 0 then (if take 1 s = ''0'' then (8, s) else (10, s))
      else (base, s))"

text \<open>
  \<^verbatim>\<open>strtol\<close> and its kin: white space, a sign, a prefix, digits; \<open>None\<close> when no digit is
  read (the C++ wrappers throw \<^verbatim>\<open>invalid_argument\<close>).  The value is the sign and the
  magnitude.
\<close>

definition parse_c :: "string \<Rightarrow> nat \<Rightarrow> (bool \<times> nat) option" where
  "parse_c s base =
     (let s1 = dropWhile is_space s;
          neg = (take 1 s1 = ''-'');
          s2 = (if take 1 s1 = ''-'' \<or> take 1 s1 = ''+'' then drop 1 s1 else s1);
          (b, s3) = strip_base base s2
      in if (base = 0 \<or> (2 \<le> base \<and> base \<le> 36)) \<and> starts_with_digit b s3
         then Some (neg, parse_digits b s3 0) else None)"

text \<open>\<^verbatim>\<open>std::stoi\<close>, \<^verbatim>\<open>std::stoll\<close>, \<^verbatim>\<open>std::stoull\<close> throw on no digits and on overflow; the
  wrappers catch, log and return 0.  \<^verbatim>\<open>stoull\<close> accepts a minus sign and negates modulo
  \<open>2 ^ 64\<close>.\<close>

definition signed_of :: "bool \<times> nat \<Rightarrow> int" where
  "signed_of p = (if fst p then - int (snd p) else int (snd p))"

definition StrToInt :: "string \<Rightarrow> nat \<Rightarrow> int" where
  "StrToInt s base = (case parse_c s base of
       None \<Rightarrow> 0
     | Some p \<Rightarrow> if - (2 ^ 31) \<le> signed_of p \<and> signed_of p < 2 ^ 31 then signed_of p else 0)"

definition StrToLong :: "string \<Rightarrow> nat \<Rightarrow> int" where
  "StrToLong s base = (case parse_c s base of
       None \<Rightarrow> 0
     | Some p \<Rightarrow> if - (2 ^ 63) \<le> signed_of p \<and> signed_of p < 2 ^ 63 then signed_of p else 0)"

definition StrToULongLong :: "string \<Rightarrow> nat \<Rightarrow> u64" where
  "StrToULongLong s base = (case parse_c s base of
       None \<Rightarrow> 0
     | Some (neg, n) \<Rightarrow>
         if n < 2 ^ 64 then (if neg then - of_nat n else of_nat n) else 0)"

subsection \<open>Trimming, searching, splitting\<close>

definition StrLeftTrim :: "string \<Rightarrow> string" where
  "StrLeftTrim s = dropWhile is_space s"

definition StrRightTrim :: "string \<Rightarrow> string" where
  "StrRightTrim s = rev (dropWhile is_space (rev s))"

definition StrTrim :: "string \<Rightarrow> string" where
  "StrTrim s = StrRightTrim (StrLeftTrim s)"

definition RemoveWhiteSpace :: "string \<Rightarrow> string" where
  "RemoveWhiteSpace s = filter (\<lambda>c. \<not> is_space c) s"

fun starts_with :: "string \<Rightarrow> string \<Rightarrow> bool" where
  "starts_with [] s = True"
| "starts_with (a # as) [] = False"
| "starts_with (a # as) (c # cs) = (a = c \<and> starts_with as cs)"

definition StrStartsWith :: "string \<Rightarrow> string \<Rightarrow> bool" where
  "StrStartsWith s p \<longleftrightarrow> length s \<ge> length p \<and> take (length p) s = p"

definition StrEndsWith :: "string \<Rightarrow> string \<Rightarrow> bool" where
  "StrEndsWith s p \<longleftrightarrow> length s \<ge> length p \<and> drop (length s - length p) s = p"

text \<open>\<^verbatim>\<open>str.find(a, from)\<close>\<close>

fun find_in :: "string \<Rightarrow> string \<Rightarrow> nat option" where
  "find_in a [] = (if a = [] then Some 0 else None)"
| "find_in a (c # cs) =
     (if starts_with a (c # cs) then Some 0 else map_option Suc (find_in a cs))"

definition str_find :: "string \<Rightarrow> string \<Rightarrow> nat \<Rightarrow> nat option" where
  "str_find s a from =
     (if from \<le> length s then map_option (\<lambda>i. from + i) (find_in a (drop from s)) else None)"

partial_function (option) split_loop ::
  "string \<Rightarrow> string \<Rightarrow> nat \<Rightarrow> string list \<Rightarrow> string list option" where
  "split_loop s delim prev tokens =
     (let pos = (case str_find s delim prev of None \<Rightarrow> length s | Some p \<Rightarrow> p);
          token = take (pos - prev) (drop prev s);
          tokens' = (if token \<noteq> [] then tokens @ [token] else tokens);
          prev' = pos + length delim
      in if pos < length s \<and> prev' < length s then split_loop s delim prev' tokens'
         else Some tokens')"

definition Split :: "string \<Rightarrow> string \<Rightarrow> string list option" where
  "Split s delim = split_loop s delim 0 []"

text \<open>Extraction of words from a stream.\<close>

fun words_loop :: "string \<Rightarrow> string \<Rightarrow> string list" where
  "words_loop [] w = (if w = [] then [] else [w])"
| "words_loop (c # cs) w =
     (if is_space c then (if w = [] then words_loop cs [] else w # words_loop cs [])
      else words_loop cs (w @ [c]))"

definition SplitSpaceTabEnter :: "string \<Rightarrow> string list" where
  "SplitSpaceTabEnter s = words_loop s []"

fun join_loop :: "string list \<Rightarrow> string \<Rightarrow> string \<Rightarrow> string \<Rightarrow> string" where
  "join_loop [] d delim r = r"
| "join_loop (s # ss) d delim r = join_loop ss delim delim (r @ d @ s)"

definition Join :: "string list \<Rightarrow> string \<Rightarrow> string" where
  "Join ss delim = join_loop ss [] delim []"

partial_function (option) replace_loop ::
  "string \<Rightarrow> string \<Rightarrow> string \<Rightarrow> nat \<Rightarrow> string \<Rightarrow> string option" where
  "replace_loop s a b from result =
     (case str_find s a from of
        Some pos \<Rightarrow>
          replace_loop s a b (pos + length a) (result @ take (pos - from) (drop from s) @ b)
      | None \<Rightarrow> Some (result @ drop from s))"

definition ReplaceAll :: "string \<Rightarrow> string \<Rightarrow> string \<Rightarrow> string option" where
  "ReplaceAll s a b = replace_loop s a b 0 []"

subsection \<open>Digits\<close>

lemma code_char_of [simp]: "n < 256 \<Longrightarrow> code (char_of n) = n"
  by (simp add: of_char_of)

lemma digit_val_digit_char [simp]:
  "d < 36 \<Longrightarrow> digit_val (digit_char up d) = Some d"
  by (auto simp: digit_val_def digit_char_def)

lemma digit_char_not_space: "d < 36 \<Longrightarrow> \<not> is_space (digit_char up d)"
  by (auto simp: is_space_def digit_char_def)

lemma code_digit_char_sign: "d < 36 \<Longrightarrow> digit_char up d \<noteq> CHR ''-'' \<and> digit_char up d \<noteq> CHR ''+''"
proof -
  assume d: "d < 36"
  have "code (digit_char up d) \<noteq> 45" "code (digit_char up d) \<noteq> 43"
    using d by (auto simp: digit_char_def)
  then show ?thesis by auto
qed

lemma int_to_str_loop_step:
  "v \<noteq> 0 \<Longrightarrow> 1 < b \<Longrightarrow>
   int_to_str_loop v b up s = int_to_str_loop (v div b) b up (digit_char up (v mod b) # s)"
  by (simp add: int_to_str_loop.simps [of v])

lemma int_to_str_loop_0 [simp]: "int_to_str_loop 0 b up s = s"
  by (simp add: int_to_str_loop.simps)

text \<open>Printing puts only digits of the base before what is already there.\<close>

lemma int_to_str_loop_digits:
  assumes "1 < b" "b \<le> 36"
  shows "\<exists>ds. int_to_str_loop v b up s = map (digit_char up) ds @ s \<and> (\<forall>d\<in>set ds. d < b)
          \<and> (v \<noteq> 0 \<longrightarrow> ds \<noteq> [])"
  using assms
proof (induction v b up s rule: int_to_str_loop.induct)
  case (1 v b up s)
  show ?case
  proof (cases "v = 0")
    case True
    then show ?thesis by auto
  next
    case False
    let ?s = "digit_char up (v mod b) # s"
    from 1 False obtain ds where ds: "int_to_str_loop (v div b) b up ?s = map (digit_char up) ds @ ?s"
      "\<forall>d\<in>set ds. d < b" by blast
    then have "int_to_str_loop v b up s = map (digit_char up) (ds @ [v mod b]) @ s"
      using False 1 by (simp add: int_to_str_loop_step)
    moreover have "\<forall>d\<in>set (ds @ [v mod b]). d < b" using ds 1 by auto
    ultimately show ?thesis by (intro exI [of _ "ds @ [v mod b]"]) simp
  qed
qed

text \<open>Parsing what printing produced adds the number below the accumulator.\<close>

lemma parse_int_to_str_loop:
  assumes "1 < b" "b \<le> 36"
  shows "\<exists>k. \<forall>a. parse_digits b (int_to_str_loop v b up s) a = parse_digits b s (a * b ^ k + v)"
  using assms
proof (induction v b up s rule: int_to_str_loop.induct)
  case (1 v b up s)
  show ?case
  proof (cases "v = 0")
    case True
    then show ?thesis by (intro exI [of _ 0]) simp
  next
    case False
    from 1 False obtain k where k: "\<forall>a. parse_digits b
        (int_to_str_loop (v div b) b up (digit_char up (v mod b) # s)) a =
        parse_digits b (digit_char up (v mod b) # s) (a * b ^ k + v div b)" by blast
    have digit: "v mod b < 36" "v mod b < b"
      using 1 by (auto intro: less_le_trans [OF mod_less_divisor])
    have "(a * b ^ k + v div b) * b + v mod b = a * b ^ Suc k + v" for a
      by (simp add: algebra_simps)
    then have "\<forall>a. parse_digits b (int_to_str_loop v b up s) a =
        parse_digits b s (a * b ^ Suc k + v)"
      using k digit False 1 by (simp add: int_to_str_loop_step)
    then show ?thesis by blast
  qed
qed

lemma parse_int_to_str:
  assumes "1 < b" "b \<le> 36"
  shows "parse_digits b (int_to_str_loop v b up []) 0 = v"
proof -
  obtain k where "\<forall>a. parse_digits b (int_to_str_loop v b up []) a =
      parse_digits b [] (a * b ^ k + v)"
    using parse_int_to_str_loop [OF assms] by blast
  then show ?thesis by simp
qed

text \<open>A string that starts with a digit of the base has no white space, sign or prefix
  to skip, unless it could be read as a hexadecimal prefix.\<close>

lemma parse_c_digits:
  assumes b: "1 < b" "b \<le> 36" and s: "s = map (digit_char up) ds" "ds \<noteq> []" "\<forall>d\<in>set ds. d < b"
  shows "parse_c s b = Some (False, parse_digits b s 0)"
proof -
  obtain d ds' where ds: "ds = d # ds'" "d < b" using s by (cases ds) auto
  have d36: "d < 36" using ds b by simp
  have sp: "dropWhile is_space s = s"
    using s ds d36 by (simp add: digit_char_not_space)
  have sign: "take 1 s \<noteq> ''-''" "take 1 s \<noteq> ''+''"
    using s ds code_digit_char_sign [OF d36, of up] by auto
  have hex: "\<not> (b = 16 \<and> hex_prefix s)"
  proof
    assume h: "b = 16 \<and> hex_prefix s"
    then obtain e ds'' where e: "ds' = e # ds''" "e < 16"
      and x: "to_lower (digit_char up e) = CHR ''x''"
      using s ds by (cases ds') (auto simp: hex_prefix_def)
    have "code (to_lower (digit_char up e)) < 120"
      using e(2) by (auto simp: to_lower_def digit_char_def)
    then show False using x by simp
  qed
  have "strip_base b s = (b, s)"
    using hex b by (auto simp: strip_base_def)
  moreover have "starts_with_digit b s"
    using s ds d36 by (simp add: starts_with_digit_def is_digit_in_def)
  ultimately show ?thesis
    using b sp sign by (simp add: parse_c_def Let_def)
qed

lemma int_to_str_loop_nonzero_digits:
  assumes "1 < b" "b \<le> 36" "v \<noteq> 0"
  obtains ds where "int_to_str_loop v b up [] = map (digit_char up) ds"
    "ds \<noteq> []" "\<forall>d\<in>set ds. d < b"
proof -
  obtain ds where "int_to_str_loop v b up [] = map (digit_char up) ds @ []"
    "\<forall>d\<in>set ds. d < b" "v \<noteq> 0 \<longrightarrow> ds \<noteq> []"
    using int_to_str_loop_digits [OF assms(1,2), of v up "[]"] by blast
  then show ?thesis using that assms(3) by auto
qed

lemma parse_c_int_to_str_loop:
  assumes "1 < b" "b \<le> 36" "v \<noteq> 0"
  shows "parse_c (int_to_str_loop v b up []) b = Some (False, v)"
proof -
  obtain ds where "int_to_str_loop v b up [] = map (digit_char up) ds"
    "ds \<noteq> []" "\<forall>d\<in>set ds. d < b"
    using int_to_str_loop_nonzero_digits [OF assms] .
  then show ?thesis
    using parse_c_digits [OF assms(1,2)] parse_int_to_str [OF assms(1,2), of v up] by metis
qed

lemma parse_c_zero: "1 < b \<Longrightarrow> b \<le> 36 \<Longrightarrow> parse_c ''0'' b = Some (False, 0)"
proof -
  assume b: "1 < b" "b \<le> 36"
  have "''0'' = map (digit_char False) [0]"
    by code_simp
  then have "parse_c ''0'' b = Some (False, parse_digits b ''0'' 0)"
    using b by (intro parse_c_digits [where ds = "[0]"]) auto
  moreover have "parse_digits b ''0'' 0 = 0" using b by (simp add: digit_val_def)
  ultimately show ?thesis by simp
qed

lemma parse_c_to_string [simp]: "parse_c (to_string n) 10 = Some (False, n)"
  by (simp add: to_string_def parse_c_zero parse_c_int_to_str_loop)

lemma unat_u64_less [simp]: "unat (v :: u64) < 18446744073709551616"
proof -
  have "unat v < 2 ^ LENGTH(64)" by (rule unsigned_less)
  then show ?thesis by simp
qed

lemma StrToULongLong_to_string [simp]: "StrToULongLong (to_string (unat v)) 10 = v"
  by (simp add: StrToULongLong_def)

lemma to_string_inj: "to_string m = to_string n \<Longrightarrow> m = n"
  by (metis parse_c_to_string option.inject prod.inject)

end
