(* ===== verification/Ast.thy ===== *)
theory Ast
  imports Containers Str_Util
begin

text \<open>
  The data of the abstract syntax: symbols (\<^verbatim>\<open>src/ila/symbol.cc\<close>), sorts
  (\<^verbatim>\<open>src/ila/ast/sort.cc\<close>), constant values (\<^verbatim>\<open>src/ila/ast/sort_value.cc\<close>),
  uninterpreted functions (\<^verbatim>\<open>func.cc\<close>) and expressions (\<^verbatim>\<open>expr.h\<close>).

  An expression is a tree whose nodes carry their symbol.  The identifier of a symbol is
  drawn from one global counter, so that it identifies the C++ object: two shared pointers
  are equal exactly when the identifiers of the nodes they point to are.  Nodes are not
  changed after their construction, with two exceptions that are modelled where they
  occur: the size annotation of a memory (\<open>mem_params\<close> of the world) and the sharing of
  sub-trees by \<^verbatim>\<open>ExprMngr\<close>.
\<close>

subsection \<open>Symbols\<close>

record symbol =
  sym_name :: string
  sym_id :: nat

text \<open>The constructors draw from the static counter, which is the state here.\<close>

definition Symbol_default :: "(nat, symbol) action" where
  "Symbol_default = (\<lambda>c. Inr (\<lparr>sym_name = ''$'' @ to_string (c + 1), sym_id = c + 1\<rparr>, c + 1))"

definition Symbol_str :: "string \<Rightarrow> (nat, symbol) action" where
  "Symbol_str s = (\<lambda>c. Inr (\<lparr>sym_name = s, sym_id = c + 1\<rparr>, c + 1))"

definition Symbol_copy :: "symbol \<Rightarrow> symbol" where
  "Symbol_copy rhs = \<lparr>sym_name = sym_name rhs, sym_id = sym_id rhs\<rparr>"

definition Symbol_assign :: "symbol \<Rightarrow> symbol \<Rightarrow> symbol" where
  "Symbol_assign self rhs = self\<lparr>sym_name := sym_name rhs\<rparr>"

definition Symbol_set_name :: "symbol \<Rightarrow> string \<Rightarrow> symbol" where
  "Symbol_set_name self s = self\<lparr>sym_name := s\<rparr>"

definition Symbol_eq :: "symbol \<Rightarrow> symbol \<Rightarrow> bool" where
  "Symbol_eq a b \<longleftrightarrow> sym_name a = sym_name b"

definition Symbol_less :: "symbol \<Rightarrow> symbol \<Rightarrow> bool" where
  "Symbol_less a b \<longleftrightarrow> str_less (sym_name a) (sym_name b)"

definition Symbol_to_int :: "symbol \<Rightarrow> int" where
  "Symbol_to_int s = StrToInt (sym_name s) 10"

definition sep :: string where
  "sep = ''_sEp_''"

definition format_str :: "symbol \<Rightarrow> string \<Rightarrow> string \<Rightarrow> string" where
  "format_str s prefix suffix =
     (let res = sym_name s;
          res = (if prefix \<noteq> [] then prefix @ sep @ res else res);
          res = (if suffix \<noteq> [] then res @ sep @ suffix else res)
      in res)"

subsection \<open>Sorts\<close>

datatype sort =
    SortBool
  | SortBv int
  | SortMem int int

text \<open>The enumeration \<^verbatim>\<open>AstUidSort\<close> and its numbers.\<close>

fun sort_uid :: "sort \<Rightarrow> nat" where
  "sort_uid SortBool = 1"
| "sort_uid (SortBv w) = 2"
| "sort_uid (SortMem a d) = 3"

fun is_bool :: "sort \<Rightarrow> bool" where
  "is_bool SortBool = True"
| "is_bool s = False"

text \<open>\<^verbatim>\<open>is_bv(width)\<close>, where width 0 (the default argument) stands for any width.\<close>

fun is_bv :: "sort \<Rightarrow> int \<Rightarrow> bool" where
  "is_bv (SortBv w) width = (if width = 0 then True else width = w)"
| "is_bv s width = False"

fun is_mem :: "sort \<Rightarrow> bool" where
  "is_mem (SortMem a d) = True"
| "is_mem s = False"

fun bit_width :: "sort \<Rightarrow> int res" where
  "bit_width (SortBv w) = Inr w"
| "bit_width s = Inl (AssertFail ''Query bit-width from non-bit-vector sort.'')"

fun addr_width :: "sort \<Rightarrow> int res" where
  "addr_width (SortMem a d) = Inr a"
| "addr_width s = Inl (AssertFail ''Query addr-width from non-mem sort.'')"

fun data_width :: "sort \<Rightarrow> int res" where
  "data_width (SortMem a d) = Inr d"
| "data_width s = Inl (AssertFail ''Query data-width from non-mem sort.'')"

text \<open>\<^verbatim>\<open>Equal\<close> of each class; \<^verbatim>\<open>&&\<close> guards the accessors of the right side.\<close>

fun sort_Equal :: "sort \<Rightarrow> sort \<Rightarrow> bool" where
  "sort_Equal SortBool rhs = is_bool rhs"
| "sort_Equal (SortBv w) rhs = (is_bv rhs 0 \<and> bit_width rhs = Inr w)"
| "sort_Equal (SortMem a d) rhs =
     (is_mem rhs \<and> addr_width rhs = Inr a \<and> data_width rhs = Inr d)"

text \<open>\<^verbatim>\<open>Print\<close>\<close>

definition int_to_string :: "int \<Rightarrow> string" where
  "int_to_string i = (if i < 0 then ''-'' @ to_string (nat (- i)) else to_string (nat i))"

fun sort_Print :: "sort \<Rightarrow> string" where
  "sort_Print SortBool = ''Boolean''"
| "sort_Print (SortBv w) = ''Bv('' @ int_to_string w @ '')''"
| "sort_Print (SortMem a d) =
     ''Mem('' @ int_to_string a @ '', '' @ int_to_string d @ '')''"

lemma sort_Equal_iff [simp]: "sort_Equal s t \<longleftrightarrow> s = t"
  by (cases s; cases t) auto

lemma bit_width_Inr [simp]: "bit_width s = Inr w \<longleftrightarrow> s = SortBv w"
  by (cases s) auto

lemma addr_width_Inr [simp]: "addr_width s = Inr w \<longleftrightarrow> (\<exists>d. s = SortMem w d)"
  by (cases s) auto

lemma data_width_Inr [simp]: "data_width s = Inr w \<longleftrightarrow> (\<exists>a. s = SortMem a w)"
  by (cases s) auto

lemma is_bool_iff [simp]: "is_bool s \<longleftrightarrow> s = SortBool"
  by (cases s) auto

lemma is_bv_0_iff: "is_bv s 0 \<longleftrightarrow> (\<exists>w. s = SortBv w)"
  by (cases s) auto

lemma is_bv_1_iff [simp]: "is_bv s 1 \<longleftrightarrow> s = SortBv 1"
  by (cases s) auto

lemma is_mem_iff: "is_mem s \<longleftrightarrow> (\<exists>a d. s = SortMem a d)"
  by (cases s) auto

subsection \<open>Constant values\<close>

text \<open>A memory value is a default and an ordered map from addresses to data.\<close>

datatype cval =
    BoolVal bool
  | BvVal u64
  | MemVal u64 "(u64 \<times> u64) list"

definition BoolVal_of_string :: "string \<Rightarrow> cval res" where
  "BoolVal_of_string s = bindR (StrToBool s) (\<lambda>b. Inr (BoolVal b))"

definition BvVal_of_string :: "string \<Rightarrow> cval" where
  "BvVal_of_string s = BvVal (StrToULongLong s 10)"

definition BoolVal_str :: "bool \<Rightarrow> string" where
  "BoolVal_str b = (if b then ''TRUE'' else ''FALSE'')"

definition BvVal_str :: "u64 \<Rightarrow> string" where
  "BvVal_str v = to_string (unat v)"

definition get_data :: "u64 \<Rightarrow> (u64 \<times> u64) list \<Rightarrow> u64 \<Rightarrow> u64" where
  "get_data def m addr = (case map_of m addr of None \<Rightarrow> def | Some d \<Rightarrow> d)"

text \<open>\<^verbatim>\<open>set_data\<close> uses \<^verbatim>\<open>emplace\<close>.\<close>

definition set_data :: "(u64 \<times> u64) list \<Rightarrow> u64 \<Rightarrow> u64 \<Rightarrow> (u64 \<times> u64) list" where
  "set_data m addr data = omap_emplace (<) addr data m"

fun print_pairs :: "(u64 \<times> u64) list \<Rightarrow> string" where
  "print_pairs [] = []"
| "print_pairs ((a, d) # m) =
     ''('' @ to_string (unat a) @ '', '' @ to_string (unat d) @ '')'' @ print_pairs m"

fun cval_Print :: "cval \<Rightarrow> string" where
  "cval_Print (BoolVal b) = BoolVal_str b"
| "cval_Print (BvVal v) = BvVal_str v"
| "cval_Print (MemVal def m) =
     ''[Def: '' @ to_string (unat def) @ '']['' @ print_pairs m @ '']''"

subsection \<open>Operators\<close>

text \<open>\<^verbatim>\<open>AstUidExprOp\<close>, in the order of the enumeration.\<close>

datatype AstUidExprOp =
    kInvalid | kNegate | kNot | kComplement | kAnd | kOr | kXor
  | kShiftLeft | kArithShiftRight | kLogicShiftRight
  | kAdd | kSubtract | kMultiply
  | kEqual | kLessThan | kGreaterThan | kUnsignedLessThan | kUnsignedGreaterThan
  | kLoad | kStore | kConcatenate | kExtract | kZeroExtend | kSignedExtend
  | kApplyFunc | kImply | kIfThenElse
  | kDivide | kRotateLeft | kRotateRight
  | kSignedRemainder | kUnsignedRemainder | kSignedModular

definition all_uids :: "AstUidExprOp list" where
  "all_uids =
    [kInvalid, kNegate, kNot, kComplement, kAnd, kOr, kXor,
     kShiftLeft, kArithShiftRight, kLogicShiftRight, kAdd, kSubtract, kMultiply,
     kEqual, kLessThan, kGreaterThan, kUnsignedLessThan, kUnsignedGreaterThan,
     kLoad, kStore, kConcatenate, kExtract, kZeroExtend, kSignedExtend,
     kApplyFunc, kImply, kIfThenElse, kDivide, kRotateLeft, kRotateRight,
     kSignedRemainder, kUnsignedRemainder, kSignedModular]"

text \<open>The number of an enumerator, and back.\<close>

primrec uid_num :: "AstUidExprOp \<Rightarrow> nat" where
  "uid_num kInvalid = 0" | "uid_num kNegate = 1" | "uid_num kNot = 2"
| "uid_num kComplement = 3" | "uid_num kAnd = 4" | "uid_num kOr = 5" | "uid_num kXor = 6"
| "uid_num kShiftLeft = 7" | "uid_num kArithShiftRight = 8" | "uid_num kLogicShiftRight = 9"
| "uid_num kAdd = 10" | "uid_num kSubtract = 11" | "uid_num kMultiply = 12"
| "uid_num kEqual = 13" | "uid_num kLessThan = 14" | "uid_num kGreaterThan = 15"
| "uid_num kUnsignedLessThan = 16" | "uid_num kUnsignedGreaterThan = 17"
| "uid_num kLoad = 18" | "uid_num kStore = 19" | "uid_num kConcatenate = 20"
| "uid_num kExtract = 21" | "uid_num kZeroExtend = 22" | "uid_num kSignedExtend = 23"
| "uid_num kApplyFunc = 24" | "uid_num kImply = 25" | "uid_num kIfThenElse = 26"
| "uid_num kDivide = 27" | "uid_num kRotateLeft = 28" | "uid_num kRotateRight = 29"
| "uid_num kSignedRemainder = 30" | "uid_num kUnsignedRemainder = 31"
| "uid_num kSignedModular = 32"

definition uid_of_num :: "nat \<Rightarrow> AstUidExprOp option" where
  "uid_of_num n = (if n < length all_uids then Some (all_uids ! n) else None)"

lemma uid_of_num_uid_num [simp]: "uid_of_num (uid_num u) = Some u"
  by (cases u) (simp_all add: uid_of_num_def all_uids_def)

lemma uid_num_inj [simp]: "uid_num u = uid_num v \<longleftrightarrow> u = v"
  by (metis uid_of_num_uid_num option.inject)

text \<open>Enumerators are ordered by their numbers.\<close>

instantiation AstUidExprOp :: linorder
begin

definition less_eq_AstUidExprOp :: "AstUidExprOp \<Rightarrow> AstUidExprOp \<Rightarrow> bool" where
  "less_eq_AstUidExprOp a b \<longleftrightarrow> uid_num a \<le> uid_num b"

definition less_AstUidExprOp :: "AstUidExprOp \<Rightarrow> AstUidExprOp \<Rightarrow> bool" where
  "less_AstUidExprOp a b \<longleftrightarrow> uid_num a < uid_num b"

instance
  by standard (auto simp: less_eq_AstUidExprOp_def less_AstUidExprOp_def)

end

text \<open>\<^verbatim>\<open>kOpName\<close>: there is no entry for \<open>kInvalid\<close>.\<close>

primrec op_name :: "AstUidExprOp \<Rightarrow> string res" where
  "op_name kInvalid = Inl (AssertFail ''op_name'')"
| "op_name kNegate = Inr ''NEGATE''" | "op_name kNot = Inr ''NOT''"
| "op_name kComplement = Inr ''COMPLEMENT''" | "op_name kAnd = Inr ''AND''"
| "op_name kOr = Inr ''OR''" | "op_name kXor = Inr ''XOR''"
| "op_name kShiftLeft = Inr ''SHL''" | "op_name kArithShiftRight = Inr ''ASHR''"
| "op_name kLogicShiftRight = Inr ''LSHR''" | "op_name kAdd = Inr ''ADD''"
| "op_name kSubtract = Inr ''SUB''" | "op_name kMultiply = Inr ''MUL''"
| "op_name kEqual = Inr ''EQ''" | "op_name kLessThan = Inr ''LT''"
| "op_name kGreaterThan = Inr ''GT''" | "op_name kUnsignedLessThan = Inr ''ULT''"
| "op_name kUnsignedGreaterThan = Inr ''UGT''" | "op_name kLoad = Inr ''LOAD''"
| "op_name kStore = Inr ''STORE''" | "op_name kConcatenate = Inr ''CONCAT''"
| "op_name kExtract = Inr ''EXTRACT''" | "op_name kZeroExtend = Inr ''ZERO_EXTEND''"
| "op_name kSignedExtend = Inr ''SIGN_EXTEND''" | "op_name kApplyFunc = Inr ''APP''"
| "op_name kImply = Inr ''IMPLY''" | "op_name kIfThenElse = Inr ''ITE''"
| "op_name kDivide = Inr ''DIV''" | "op_name kRotateLeft = Inr ''LEFT_ROTATE''"
| "op_name kRotateRight = Inr ''RIGHT_ROTATE''" | "op_name kSignedRemainder = Inr ''SREM''"
| "op_name kUnsignedRemainder = Inr ''UREM''" | "op_name kSignedModular = Inr ''SMOD''"

subsection \<open>Functions and expressions\<close>

text \<open>A function declaration: its symbol, range, domain and host.\<close>

datatype func = Func (f_sym: symbol) (f_out: sort) (f_args: "sort list") (f_host: "nat option")

text \<open>The host of a node is the identifier of an ILA; operators carry their arguments and
  integer parameters, and the applied function when they are applications.\<close>

datatype expr =
    ExprVar symbol sort "nat option"
  | ExprConst symbol sort cval
  | ExprOp symbol AstUidExprOp sort "expr list" "int list" "func option" "nat option"

fun sym :: "expr \<Rightarrow> symbol" where
  "sym (ExprVar y s h) = y"
| "sym (ExprConst y s v) = y"
| "sym (ExprOp y u s as ps f h) = y"

abbreviation eid :: "expr \<Rightarrow> nat" where
  "eid e \<equiv> sym_id (sym e)"

abbreviation ename :: "expr \<Rightarrow> string" where
  "ename e \<equiv> sym_name (sym e)"

fun esort :: "expr \<Rightarrow> sort" where
  "esort (ExprVar y s h) = s"
| "esort (ExprConst y s v) = s"
| "esort (ExprOp y u s as ps f h) = s"

fun host :: "expr \<Rightarrow> nat option" where
  "host (ExprVar y s h) = h"
| "host (ExprConst y s v) = None"
| "host (ExprOp y u s as ps f h) = h"

fun args :: "expr \<Rightarrow> expr list" where
  "args (ExprOp y u s as ps f h) = as"
| "args e = []"

fun params :: "expr \<Rightarrow> int list" where
  "params (ExprOp y u s as ps f h) = ps"
| "params e = []"

fun is_var :: "expr \<Rightarrow> bool" where
  "is_var (ExprVar y s h) = True"
| "is_var e = False"

fun is_const :: "expr \<Rightarrow> bool" where
  "is_const (ExprConst y s v) = True"
| "is_const e = False"

fun is_op :: "expr \<Rightarrow> bool" where
  "is_op (ExprOp y u s as ps f h) = True"
| "is_op e = False"

text \<open>\<^verbatim>\<open>GetUidExprOp\<close>: the cast of a non-operation is undefined behaviour, a fault here.\<close>

fun GetUidExprOp :: "expr \<Rightarrow> AstUidExprOp res" where
  "GetUidExprOp (ExprOp y u s as ps f h) = Inr u"
| "GetUidExprOp e = Inl NullPtr"

text \<open>Pointer equality.\<close>

definition same_node :: "expr \<Rightarrow> expr \<Rightarrow> bool" where
  "same_node a b \<longleftrightarrow> eid a = eid b"

text \<open>\<^verbatim>\<open>replace_arg(idx, arg)\<close> and \<^verbatim>\<open>replace_arg(a, b)\<close> on an argument vector; the second
  replaces the last occurrence.\<close>

definition replace_arg :: "expr list \<Rightarrow> nat \<Rightarrow> expr \<Rightarrow> expr list res" where
  "replace_arg as i a = (if i < length as then Inr (as[i := a]) else Inl OutOfRange)"

fun last_index :: "expr list \<Rightarrow> expr \<Rightarrow> nat \<Rightarrow> nat \<Rightarrow> nat" where
  "last_index [] a i found = found"
| "last_index (x # xs) a i found = last_index xs a (Suc i) (if same_node x a then i else found)"

definition replace_arg_ptr :: "expr list \<Rightarrow> expr \<Rightarrow> expr \<Rightarrow> expr list" where
  "replace_arg_ptr as a b =
     (let i = last_index as a 0 (length as) in if i \<noteq> length as then as[i := b] else as)"

lemma size_args [termination_simp]: "a \<in> set (args e) \<Longrightarrow> size a < size e"
  by (cases e) (auto dest: size_list_estimation' [of _ _ _ size])

subsection \<open>Visitors\<close>

text \<open>The two depth-first visitors of \<^verbatim>\<open>expr.h\<close>.\<close>

fun DepthFirstVisit :: "(expr \<Rightarrow> ('s, unit) action) \<Rightarrow> expr \<Rightarrow> ('s, unit) action" where
  "DepthFirstVisit func e = thenM (forM (args e) (\<lambda>a. DepthFirstVisit func a)) (func e)"

fun DepthFirstVisitPrePost ::
  "(expr \<Rightarrow> 's \<Rightarrow> bool) \<Rightarrow> (expr \<Rightarrow> ('s, unit) action) \<Rightarrow> expr \<Rightarrow> ('s, unit) action" where
  "DepthFirstVisitPrePost pre post e = (\<lambda>s.
     if pre e s then Inr ((), s)
     else thenM (forM (args e) (\<lambda>a. DepthFirstVisitPrePost pre post a)) (post e) s)"

declare DepthFirstVisit.simps [simp del] DepthFirstVisitPrePost.simps [simp del]

text \<open>The nodes of an expression, each after its arguments.\<close>

fun post_order :: "expr \<Rightarrow> expr list" where
  "post_order e = concat (map post_order (args e)) @ [e]"

declare post_order.simps [simp del]

lemma DepthFirstVisit_post_order: "DepthFirstVisit func e = forM (post_order e) func"
proof (induction e rule: measure_induct_rule [of size])
  case (less e)
  have "forM as (\<lambda>a. DepthFirstVisit func a) = forM (concat (map post_order as)) func"
    if "set as \<subseteq> set (args e)" for as
    using that by (induction as) (auto simp: less.IH size_args forM_append)
  then have "forM (args e) (\<lambda>a. DepthFirstVisit func a) =
      forM (concat (map post_order (args e))) func" by blast
  moreover have "forM [e] func = func e"
    by (rule ext) (auto simp: thenM_def bindM_def ret_def split: sum.splits)
  ultimately show ?case
    by (simp add: DepthFirstVisit.simps [of func e] post_order.simps [of e] forM_append)
qed

definition subexprs :: "expr \<Rightarrow> expr set" where
  "subexprs e = set (post_order e)"

lemma subexprs_unfold: "subexprs e = insert e (\<Union>a\<in>set (args e). subexprs a)"
  by (auto simp: subexprs_def post_order.simps [of e])

lemma subexprs_refl [simp]: "e \<in> subexprs e"
  by (simp add: subexprs_def post_order.simps [of e])

lemma subexprs_arg: "a \<in> set (args e) \<Longrightarrow> x \<in> subexprs a \<Longrightarrow> x \<in> subexprs e"
  by (subst subexprs_unfold) auto

lemma subexprs_trans: "x \<in> subexprs y \<Longrightarrow> y \<in> subexprs z \<Longrightarrow> x \<in> subexprs z"
proof (induction z rule: measure_induct_rule [of size])
  case (less z)
  consider "y = z" | a where "a \<in> set (args z)" "y \<in> subexprs a"
    using less.prems(2) subexprs_unfold [of z] by auto
  then show ?case
  proof cases
    case 1
    then show ?thesis using less.prems(1) by simp
  next
    case 2
    then have "x \<in> subexprs a" using less.IH less.prems(1) by (blast intro: size_args)
    then show ?thesis using 2(1) by (blast intro: subexprs_arg)
  qed
qed

end
