(* ===== verification/Objects.thy ===== *)
theory Objects
  imports Ast
begin

text \<open>
  The mutable objects of the library and the heap that holds them: instructions
  (\<^verbatim>\<open>include/ilang/ila/instr.h\<close>), instruction sequences
  (\<^verbatim>\<open>include/ilang/ila/transition.h\<close>) and instruction-level abstractions
  (\<^verbatim>\<open>include/ilang/ila/instr_lvl_abs.h\<close>).  A pointer to an instruction or an ILA is the
  identifier of its symbol; a null pointer is \<open>None\<close>.
\<close>

subsection \<open>Instructions\<close>

text \<open>\<open>updates\<close> is \<^verbatim>\<open>std::map<std::string, ExprPtr>\<close>, which may hold null pointers.\<close>

record instr =
  i_sym :: symbol
  decode :: "expr option"
  updates :: "(string \<times> expr option) list"
  i_host :: "nat option"
  prog :: "nat option"

subsection \<open>Instruction sequences\<close>

record tran_edge =
  e_src :: nat
  e_dst :: nat
  e_cnd :: expr

text \<open>Nodes of the transition graph refer to each other by their instructions; there is one
  node per instruction.\<close>

record tran_node =
  n_next :: "nat list"
  n_prev :: "nat list"

record instr_seq =
  s_root :: "nat option"
  s_edges :: "tran_edge list"
  s_nodes :: "nat \<rightharpoonup> tran_node"

subsection \<open>Instruction-level abstractions\<close>

text \<open>The \<^verbatim>\<open>KeyVec\<close> members are keyed by \<^verbatim>\<open>Symbol\<close>, whose order compares names only.\<close>

record ila =
  m_sym :: symbol
  parent :: "nat option"
  inputs :: "(string, expr) keyvec"
  states :: "(string, expr) keyvec"
  inits :: "expr list"
  fetch :: "expr option"
  valid :: "expr option"
  instrs :: "(string, nat) keyvec"
  childs :: "(string, nat) keyvec"
  seq :: "instr_seq option"
  is_spec :: bool

subsection \<open>The world\<close>

text \<open>
  \<open>counter\<close> is \<^verbatim>\<open>Symbol::counter_\<close>; \<open>addr\<close> gives the address of each object, which the
  containers ordered by pointers depend on and nothing is assumed about; \<open>iter_order\<close> is the
  order in which an \<^verbatim>\<open>unordered_set\<close> with the given members, listed in the order of
  their insertion, is traversed; \<open>mem_params\<close> holds the parameters that \<^verbatim>\<open>SetMemSize\<close> attaches to a memory expression.
\<close>

record world =
  counter :: nat
  addr :: "nat \<Rightarrow> nat"
  iter_order :: "expr list \<Rightarrow> expr list"
  mem_params :: "nat \<Rightarrow> int list"
  ila_heap :: "nat \<rightharpoonup> ila"
  instr_heap :: "nat \<rightharpoonup> instr"

type_synonym 'a W = "(world, 'a) action"

definition init_world :: world where
  "init_world = \<lparr>counter = 0, addr = id, iter_order = id, mem_params = (\<lambda>_. []),
     ila_heap = Map.empty, instr_heap = Map.empty\<rparr>"

text \<open>A new symbol advances the counter of the world.\<close>

definition on_counter :: "(nat, 'a) action \<Rightarrow> 'a W" where
  "on_counter m = (\<lambda>w. case m (counter w) of
       Inl x \<Rightarrow> Inl x
     | Inr (a, c) \<Rightarrow> Inr (a, w\<lparr>counter := c\<rparr>))"

definition fresh_symbol :: "world \<Rightarrow> symbol" where
  "fresh_symbol w = \<lparr>sym_name = ''$'' @ to_string (counter w + 1), sym_id = counter w + 1\<rparr>"

definition named_symbol :: "string \<Rightarrow> world \<Rightarrow> symbol" where
  "named_symbol s w = \<lparr>sym_name = s, sym_id = counter w + 1\<rparr>"

definition tick :: "world \<Rightarrow> world" where
  "tick w = w\<lparr>counter := counter w + 1\<rparr>"

lemma on_counter_default [simp, run_simps]:
  "on_counter Symbol_default w = Inr (fresh_symbol w, tick w)"
  by (simp add: on_counter_def Symbol_default_def fresh_symbol_def tick_def)

lemma on_counter_str [simp, run_simps]:
  "on_counter (Symbol_str s) w = Inr (named_symbol s w, tick w)"
  by (simp add: on_counter_def Symbol_str_def named_symbol_def tick_def)

lemma tick_simps [simp]:
  "counter (tick w) = counter w + 1" "addr (tick w) = addr w" "iter_order (tick w) = iter_order w"
  "mem_params (tick w) = mem_params w" "ila_heap (tick w) = ila_heap w"
  "instr_heap (tick w) = instr_heap w"
  by (simp_all add: tick_def)

lemma fresh_symbol_id [simp]: "sym_id (fresh_symbol w) = counter w + 1"
  by (simp add: fresh_symbol_def)

lemma named_symbol_simps [simp]:
  "sym_id (named_symbol s w) = counter w + 1" "sym_name (named_symbol s w) = s"
  by (simp_all add: named_symbol_def)

text \<open>The heaps agree: all an operation on expressions may do is draw identifiers.\<close>

definition same_heaps :: "world \<Rightarrow> world \<Rightarrow> bool" where
  "same_heaps w w' \<longleftrightarrow> ila_heap w' = ila_heap w \<and> instr_heap w' = instr_heap w
     \<and> addr w' = addr w \<and> iter_order w' = iter_order w \<and> mem_params w' = mem_params w \<and> counter w \<le> counter w'"

lemma same_heaps_refl [simp]: "same_heaps w w"
  by (simp add: same_heaps_def)

lemma same_heaps_trans: "same_heaps u v \<Longrightarrow> same_heaps v w \<Longrightarrow> same_heaps u w"
  by (simp add: same_heaps_def)

lemma same_heaps_tick [simp]: "same_heaps w (tick w)"
  by (simp add: same_heaps_def)

lemma same_heaps_counter: "same_heaps w w' \<Longrightarrow> counter w \<le> counter w'"
  by (simp add: same_heaps_def)

subsection \<open>Dereferencing\<close>

definition the_ila :: "nat \<Rightarrow> ila W" where
  "the_ila i = (\<lambda>w. case ila_heap w i of None \<Rightarrow> Inl NullPtr | Some m \<Rightarrow> Inr (m, w))"

definition the_instr :: "nat \<Rightarrow> instr W" where
  "the_instr i = (\<lambda>w. case instr_heap w i of None \<Rightarrow> Inl NullPtr | Some m \<Rightarrow> Inr (m, w))"

definition upd_ila :: "nat \<Rightarrow> (ila \<Rightarrow> ila) \<Rightarrow> unit W" where
  "upd_ila i f = (\<lambda>w. case ila_heap w i of
       None \<Rightarrow> Inl NullPtr
     | Some m \<Rightarrow> Inr ((), w\<lparr>ila_heap := (ila_heap w)(i \<mapsto> f m)\<rparr>))"

definition upd_instr :: "nat \<Rightarrow> (instr \<Rightarrow> instr) \<Rightarrow> unit W" where
  "upd_instr i f = (\<lambda>w. case instr_heap w i of
       None \<Rightarrow> Inl NullPtr
     | Some m \<Rightarrow> Inr ((), w\<lparr>instr_heap := (instr_heap w)(i \<mapsto> f m)\<rparr>))"

lemma the_ila_Inr [simp, run_simps]:
  "the_ila i w = Inr (m, w') \<longleftrightarrow> ila_heap w i = Some m \<and> w' = w"
  by (auto simp: the_ila_def split: option.splits)

lemma the_instr_Inr [simp, run_simps]:
  "the_instr i w = Inr (m, w') \<longleftrightarrow> instr_heap w i = Some m \<and> w' = w"
  by (auto simp: the_instr_def split: option.splits)

lemma upd_ila_Inr [run_simps]:
  "upd_ila i f w = Inr (u, w') \<longleftrightarrow>
     (\<exists>m. ila_heap w i = Some m \<and> w' = w\<lparr>ila_heap := (ila_heap w)(i \<mapsto> f m)\<rparr>)"
  by (auto simp: upd_ila_def split: option.splits)

lemma upd_instr_Inr [run_simps]:
  "upd_instr i f w = Inr (u, w') \<longleftrightarrow>
     (\<exists>m. instr_heap w i = Some m \<and> w' = w\<lparr>instr_heap := (instr_heap w)(i \<mapsto> f m)\<rparr>)"
  by (auto simp: upd_instr_def split: option.splits)

text \<open>The children of an ILA, in index order.\<close>

definition child_ids :: "world \<Rightarrow> nat \<Rightarrow> nat list" where
  "child_ids w i = (case ila_heap w i of None \<Rightarrow> [] | Some m \<Rightarrow> vec (childs m))"

lemma child_ids_tick [simp]: "child_ids (tick w) = child_ids w"
  by (simp add: child_ids_def fun_eq_iff)

end
