(* ===== verification/Expr_Op.thy ===== *)
theory Expr_Op
  imports Objects
begin

text \<open>
  The constructors of expression nodes: \<^verbatim>\<open>src/ila/ast/expr_var.cc\<close>,
  \<^verbatim>\<open>expr_const.cc\<close>, \<^verbatim>\<open>func.cc\<close> and \<^verbatim>\<open>expr_op.cc\<close>, one definition per class,
  each with the checks of its constructor.  A constructor of an operator computes the sort
  of the node from its arguments; \<open>op_sort\<close> states the same sorts as a table, and the lemmas
  of the collection \<open>op_run\<close> say that a constructor succeeds exactly where the table has an
  entry.
\<close>

subsection \<open>Variables\<close>

definition ExprVar_bool :: "string \<Rightarrow> expr W" where
  "ExprVar_bool name = bindM (on_counter (Symbol_str name)) (\<lambda>y. ret (ExprVar y SortBool None))"

definition ExprVar_bv :: "string \<Rightarrow> int \<Rightarrow> expr W" where
  "ExprVar_bv name w = bindM (on_counter (Symbol_str name)) (\<lambda>y. ret (ExprVar y (SortBv w) None))"

definition ExprVar_mem :: "string \<Rightarrow> int \<Rightarrow> int \<Rightarrow> expr W" where
  "ExprVar_mem name aw dw =
     bindM (on_counter (Symbol_str name)) (\<lambda>y. ret (ExprVar y (SortMem aw dw) None))"

text \<open>\<^verbatim>\<open>set_host\<close> on a node that has just been created.\<close>

fun set_host :: "nat option \<Rightarrow> expr \<Rightarrow> expr" where
  "set_host h (ExprVar y s h0) = ExprVar y s h"
| "set_host h (ExprConst y s v) = ExprConst y s v"
| "set_host h (ExprOp y u s as ps f h0) = ExprOp y u s as ps f h"

text \<open>\<^verbatim>\<open>ExprVar::Print\<close>\<close>

fun ExprVar_Print :: "expr \<Rightarrow> string res" where
  "ExprVar_Print (ExprVar y SortBool h) = Inr (sym_name y)"
| "ExprVar_Print (ExprVar y (SortBv w) h) =
     Inr (sym_name y @ ''('' @ int_to_string w @ '')'')"
| "ExprVar_Print (ExprVar y (SortMem aw dw) h) =
     Inr (sym_name y @ ''('' @ int_to_string aw @ '', '' @ int_to_string dw @ '')'')"
| "ExprVar_Print e = Inl NullPtr"

subsection \<open>Constants\<close>

definition ExprConst_bool :: "bool \<Rightarrow> expr W" where
  "ExprConst_bool b =
     bindM (on_counter Symbol_default) (\<lambda>y. ret (ExprConst y SortBool (BoolVal b)))"

definition ExprConst_bv :: "u64 \<Rightarrow> int \<Rightarrow> expr W" where
  "ExprConst_bv v bw =
     bindM (on_counter Symbol_default) (\<lambda>y.
     thenM (ila_check (bw > 0) ''Non-positive bit-width'')
    (thenM (ila_check (bw \<ge> 64 \<or> drop_bit (nat bw) v = 0) ''width'')
    (ret (ExprConst y (SortBv bw) (BvVal v)))))"

definition ExprConst_mem :: "u64 \<Rightarrow> (u64 \<times> u64) list \<Rightarrow> int \<Rightarrow> int \<Rightarrow> expr W" where
  "ExprConst_mem def m aw dw =
     bindM (on_counter Symbol_default) (\<lambda>y. ret (ExprConst y (SortMem aw dw) (MemVal def m)))"

text \<open>\<^verbatim>\<open>val_bool\<close>, \<^verbatim>\<open>val_bv\<close>, \<^verbatim>\<open>val_mem\<close>: the assertion is on the sort, the cast on the
  stored value.\<close>

fun val_bool :: "expr \<Rightarrow> bool res" where
  "val_bool (ExprConst y s v) =
     bindR (assertR (is_bool s) ''Not boolean constant'')
       (\<lambda>_. case v of BoolVal b \<Rightarrow> Inr b | _ \<Rightarrow> Inl NullPtr)"
| "val_bool e = Inl NullPtr"

fun val_bv :: "expr \<Rightarrow> u64 res" where
  "val_bv (ExprConst y s v) =
     bindR (assertR (is_bv s 0) ''Not bitvector constant'')
       (\<lambda>_. case v of BvVal b \<Rightarrow> Inr b | _ \<Rightarrow> Inl NullPtr)"
| "val_bv e = Inl NullPtr"

fun val_mem :: "expr \<Rightarrow> (u64 \<times> (u64 \<times> u64) list) res" where
  "val_mem (ExprConst y s v) =
     bindR (assertR (is_mem s) ''Not memory constant'')
       (\<lambda>_. case v of MemVal def m \<Rightarrow> Inr (def, m) | _ \<Rightarrow> Inl NullPtr)"
| "val_mem e = Inl NullPtr"

definition ExprConst_Print :: "expr \<Rightarrow> string res" where
  "ExprConst_Print e =
     (if is_bool (esort e) then bindR (val_bool e) (\<lambda>b. Inr (cval_Print (BoolVal b)))
      else if is_bv (esort e) 0 then bindR (val_bv e) (\<lambda>b. Inr (cval_Print (BvVal b)))
      else bindR (assertR (is_mem (esort e)) ''Print neither bool, bv, nor mem.'') (\<lambda>_.
             bindR (val_mem e) (\<lambda>(def, m). Inr (cval_Print (MemVal def m)))))"

subsection \<open>Functions\<close>

definition Func_New :: "string \<Rightarrow> sort \<Rightarrow> sort list \<Rightarrow> func W" where
  "Func_New name out as =
     bindM (on_counter (Symbol_str name)) (\<lambda>y. ret (Func y out as None))"

fun check_sorts :: "expr list \<Rightarrow> sort list \<Rightarrow> bool res" where
  "check_sorts [] ss = Inr True"
| "check_sorts (a # as) [] = Inl OutOfRange"
| "check_sorts (a # as) (s # ss) =
     bindR (checkR (sort_Equal (esort a) s) ''Sort mismatch'') (\<lambda>_. check_sorts as ss)"

definition CheckSort :: "func \<Rightarrow> expr list \<Rightarrow> bool res" where
  "CheckSort f as =
     bindR (checkR (length as = length (f_args f)) ''Argument number mismatch'')
       (\<lambda>_. check_sorts as (f_args f))"

lemma check_sorts_Inr:
  "length as = length ss \<Longrightarrow> check_sorts as ss = Inr b \<longleftrightarrow> b \<and> map esort as = ss"
  by (induction as ss rule: check_sorts.induct) (auto simp: bindR_Inr_iff)

lemma CheckSort_Inr [simp]: "CheckSort f as = Inr b \<longleftrightarrow> b \<and> map esort as = f_args f"
proof -
  have "map esort as = f_args f \<Longrightarrow> length as = length (f_args f)"
    by (metis length_map)
  then show ?thesis by (auto simp: CheckSort_def bindR_Inr_iff check_sorts_Inr)
qed

subsection \<open>The base of all operators\<close>

text \<open>
  \<^verbatim>\<open>GetHost\<close>: the hosts of the arguments, as a set ordered by pointers, are searched for
  the first one none of whose children is in the set.
\<close>

fun first_leaf :: "world \<Rightarrow> nat list \<Rightarrow> nat list \<Rightarrow> nat option" where
  "first_leaf w hosts [] = None"
| "first_leaf w hosts (h # hs) =
     (if child_ids w h = [] then Some h
      else if list_all (\<lambda>c. c \<notin> set hosts) (child_ids w h) then Some h
      else first_leaf w hosts hs)"

definition GetHost :: "world \<Rightarrow> expr list \<Rightarrow> nat option" where
  "GetHost w as =
     (let hosts = sort_key (addr w) (remdups (List.map_filter host as))
      in first_leaf w hosts hosts)"

text \<open>
  The constructors of \<^verbatim>\<open>ExprOp\<close>: a fresh symbol, the arguments, the parameters and the
  host.  The constructor of the derived class then checks the arguments and sets the sort,
  which is \<open>so\<close>.
\<close>

definition new_ExprOp ::
  "AstUidExprOp \<Rightarrow> sort res \<Rightarrow> expr list \<Rightarrow> int list \<Rightarrow> func option \<Rightarrow> expr W" where
  "new_ExprOp u so as ps f =
     bindM (on_counter Symbol_default) (\<lambda>y.
     bindM (gets (\<lambda>w. GetHost w as)) (\<lambda>h.
     bindM (liftR so) (\<lambda>s.
     ret (ExprOp y u s as ps f h))))"

definition ExprOp_Print :: "expr \<Rightarrow> string res" where
  "ExprOp_Print e =
     bindR (GetUidExprOp e) (\<lambda>u. bindR (op_name u) (\<lambda>n. Inr (format_str (sym e) n [])))"

definition GetSortBinaryOperation :: "expr \<Rightarrow> expr \<Rightarrow> sort res" where
  "GetSortBinaryOperation e0 e1 =
     bindR (assertR (sort_Equal (esort e0) (esort e1)) ''Mismatch sorts'') (\<lambda>_. Inr (esort e0))"

definition GetSortBinaryComparison :: "expr \<Rightarrow> expr \<Rightarrow> sort res" where
  "GetSortBinaryComparison e0 e1 =
     bindR (assertR (sort_Equal (esort e0) (esort e1)) ''Mismatch sorts'') (\<lambda>_. Inr SortBool)"

subsection \<open>Unary operators\<close>

definition ExprOpNeg :: "expr \<Rightarrow> expr W" where
  "ExprOpNeg a = new_ExprOp kNegate
     (bindR (assertR (is_bv (esort a) 0) ''Negate can only be applied to bitvector.'')
       (\<lambda>_. Inr (esort a))) [a] [] None"

definition ExprOpNot :: "expr \<Rightarrow> expr W" where
  "ExprOpNot a = new_ExprOp kNot
     (bindR (assertR (is_bool (esort a)) ''Not can only be applied to bool.'')
       (\<lambda>_. Inr (esort a))) [a] [] None"

definition ExprOpCompl :: "expr \<Rightarrow> expr W" where
  "ExprOpCompl a = new_ExprOp kComplement
     (bindR (assertR (is_bv (esort a) 0) ''Complement can only be applied to bitvector.'')
       (\<lambda>_. Inr (esort a))) [a] [] None"

subsection \<open>Binary operators\<close>

definition ExprOpAnd :: "expr \<Rightarrow> expr \<Rightarrow> expr W" where
  "ExprOpAnd a b = new_ExprOp kAnd (GetSortBinaryOperation a b) [a, b] [] None"

definition ExprOpOr :: "expr \<Rightarrow> expr \<Rightarrow> expr W" where
  "ExprOpOr a b = new_ExprOp kOr (GetSortBinaryOperation a b) [a, b] [] None"

definition ExprOpXor :: "expr \<Rightarrow> expr \<Rightarrow> expr W" where
  "ExprOpXor a b = new_ExprOp kXor (GetSortBinaryOperation a b) [a, b] [] None"

definition ExprOpShl :: "expr \<Rightarrow> expr \<Rightarrow> expr W" where
  "ExprOpShl bv n = new_ExprOp kShiftLeft
     (bindR (assertR (is_bv (esort bv) 0) ''Left shift can only be applied to bit-vectors.'')
       (\<lambda>_. GetSortBinaryOperation bv n)) [bv, n] [] None"

definition ExprOpAshr :: "expr \<Rightarrow> expr \<Rightarrow> expr W" where
  "ExprOpAshr bv n = new_ExprOp kArithShiftRight
     (bindR (assertR (is_bv (esort bv) 0) ''Right shift can only be applied to bit-vectors.'')
       (\<lambda>_. GetSortBinaryOperation bv n)) [bv, n] [] None"

definition ExprOpLshr :: "expr \<Rightarrow> expr \<Rightarrow> expr W" where
  "ExprOpLshr bv n = new_ExprOp kLogicShiftRight
     (bindR (assertR (is_bv (esort bv) 0) ''Right shift can only be applied to bit-vectors.'')
       (\<lambda>_. GetSortBinaryOperation bv n)) [bv, n] [] None"

definition ExprOpAdd :: "expr \<Rightarrow> expr \<Rightarrow> expr W" where
  "ExprOpAdd a b = new_ExprOp kAdd (GetSortBinaryOperation a b) [a, b] [] None"

definition ExprOpSub :: "expr \<Rightarrow> expr \<Rightarrow> expr W" where
  "ExprOpSub a b = new_ExprOp kSubtract (GetSortBinaryOperation a b) [a, b] [] None"

definition ExprOpDiv :: "expr \<Rightarrow> expr \<Rightarrow> expr W" where
  "ExprOpDiv a b = new_ExprOp kDivide (GetSortBinaryOperation a b) [a, b] [] None"

definition ExprOpSRem :: "expr \<Rightarrow> expr \<Rightarrow> expr W" where
  "ExprOpSRem a b = new_ExprOp kSignedRemainder (GetSortBinaryOperation a b) [a, b] [] None"

definition ExprOpURem :: "expr \<Rightarrow> expr \<Rightarrow> expr W" where
  "ExprOpURem a b = new_ExprOp kUnsignedRemainder (GetSortBinaryOperation a b) [a, b] [] None"

definition ExprOpSMod :: "expr \<Rightarrow> expr \<Rightarrow> expr W" where
  "ExprOpSMod a b = new_ExprOp kSignedModular (GetSortBinaryOperation a b) [a, b] [] None"

definition ExprOpMul :: "expr \<Rightarrow> expr \<Rightarrow> expr W" where
  "ExprOpMul a b = new_ExprOp kMultiply (GetSortBinaryOperation a b) [a, b] [] None"

subsection \<open>Comparisons\<close>

definition ExprOpEq :: "expr \<Rightarrow> expr \<Rightarrow> expr W" where
  "ExprOpEq a b = new_ExprOp kEqual (GetSortBinaryComparison a b) [a, b] [] None"

definition ExprOpLt :: "expr \<Rightarrow> expr \<Rightarrow> expr W" where
  "ExprOpLt a b = new_ExprOp kLessThan (GetSortBinaryComparison a b) [a, b] [] None"

definition ExprOpGt :: "expr \<Rightarrow> expr \<Rightarrow> expr W" where
  "ExprOpGt a b = new_ExprOp kGreaterThan (GetSortBinaryComparison a b) [a, b] [] None"

definition ExprOpUlt :: "expr \<Rightarrow> expr \<Rightarrow> expr W" where
  "ExprOpUlt a b = new_ExprOp kUnsignedLessThan (GetSortBinaryComparison a b) [a, b] [] None"

definition ExprOpUgt :: "expr \<Rightarrow> expr \<Rightarrow> expr W" where
  "ExprOpUgt a b = new_ExprOp kUnsignedGreaterThan (GetSortBinaryComparison a b) [a, b] [] None"

subsection \<open>Memory\<close>

definition ExprOpLoad :: "expr \<Rightarrow> expr \<Rightarrow> expr W" where
  "ExprOpLoad mem ad = new_ExprOp kLoad
     (bindR (addr_width (esort mem)) (\<lambda>aw.
      bindR (bit_width (esort ad)) (\<lambda>w.
      bindR (assertR (aw = w) ''Load'') (\<lambda>_.
      bindR (data_width (esort mem)) (\<lambda>dw. Inr (SortBv dw)))))) [mem, ad] [] None"

definition ExprOpStore :: "expr \<Rightarrow> expr \<Rightarrow> expr \<Rightarrow> expr W" where
  "ExprOpStore mem ad dat = new_ExprOp kStore
     (bindR (addr_width (esort mem)) (\<lambda>aw.
      bindR (bit_width (esort ad)) (\<lambda>w.
      bindR (assertR (aw = w) ''Store'') (\<lambda>_.
      bindR (data_width (esort mem)) (\<lambda>dw.
      bindR (bit_width (esort dat)) (\<lambda>w'.
      bindR (assertR (dw = w') ''Store'') (\<lambda>_. Inr (esort mem)))))))) [mem, ad, dat] [] None"

subsection \<open>Bit-vector manipulation\<close>

definition ExprOpConcat :: "expr \<Rightarrow> expr \<Rightarrow> expr W" where
  "ExprOpConcat hi lo = new_ExprOp kConcatenate
     (bindR (assertR (is_bv (esort hi) 0) ''Concat non-bv var'') (\<lambda>_.
      bindR (assertR (is_bv (esort lo) 0) ''Concat non-bv var'') (\<lambda>_.
      bindR (bit_width (esort hi)) (\<lambda>wh.
      bindR (bit_width (esort lo)) (\<lambda>wl. Inr (SortBv (wh + wl))))))) [hi, lo] [] None"

definition ExprOpExtract :: "expr \<Rightarrow> int \<Rightarrow> int \<Rightarrow> expr W" where
  "ExprOpExtract bv hi lo = new_ExprOp kExtract
     (bindR (assertR (is_bv (esort bv) 0) ''Extract can only be applied to bitvector.'') (\<lambda>_.
      bindR (assertR (hi \<ge> lo) ''Invalid boundary for extraction.'') (\<lambda>_.
      Inr (SortBv (hi - lo + 1))))) [bv] [hi, lo] None"

definition ExprOpZExt :: "expr \<Rightarrow> int \<Rightarrow> expr W" where
  "ExprOpZExt bv bw = new_ExprOp kZeroExtend
     (bindR (assertR (is_bv (esort bv) 0) ''Zero-extend can only be applied to bit-vector.'') (\<lambda>_.
      bindR (bit_width (esort bv)) (\<lambda>w.
      bindR (assertR (bw \<ge> w) ''ZExt'') (\<lambda>_. Inr (SortBv bw))))) [bv] [bw] None"

definition ExprOpSExt :: "expr \<Rightarrow> int \<Rightarrow> expr W" where
  "ExprOpSExt bv bw = new_ExprOp kSignedExtend
     (bindR (assertR (is_bv (esort bv) 0) ''Sign-extend can only be applied to bit-vector.'') (\<lambda>_.
      bindR (bit_width (esort bv)) (\<lambda>w.
      bindR (assertR (bw \<ge> w) ''SExt'') (\<lambda>_. Inr (SortBv bw))))) [bv] [bw] None"

definition ExprOpLRotate :: "expr \<Rightarrow> int \<Rightarrow> expr W" where
  "ExprOpLRotate bv n = new_ExprOp kRotateLeft
     (bindR (assertR (is_bv (esort bv) 0) ''Left-rotate can only be applied to bit-vector.'') (\<lambda>_.
      bindR (assertR (n \<ge> 0) ''Invalid number of times to rotate.'') (\<lambda>_.
      Inr (esort bv)))) [bv] [n] None"

definition ExprOpRRotate :: "expr \<Rightarrow> int \<Rightarrow> expr W" where
  "ExprOpRRotate bv n = new_ExprOp kRotateRight
     (bindR (assertR (is_bv (esort bv) 0) ''Right-rotate can only be applied to bit-vector.'') (\<lambda>_.
      bindR (assertR (n \<ge> 0) ''Invalid number of times to rotate.'') (\<lambda>_.
      Inr (esort bv)))) [bv] [n] None"

subsection \<open>Functions, implication, choice\<close>

definition ExprOpAppFunc :: "func \<Rightarrow> expr list \<Rightarrow> expr W" where
  "ExprOpAppFunc f as = new_ExprOp kApplyFunc
     (bindR (CheckSort f as) (\<lambda>ok. bindR (assertR ok ''AppFunc'') (\<lambda>_. Inr (f_out f))))
     as [] (Some f)"

definition ExprOpImply :: "expr \<Rightarrow> expr \<Rightarrow> expr W" where
  "ExprOpImply ante cons = new_ExprOp kImply
     (bindR (assertR (is_bool (esort ante)) ''Antecedent must be Boolean.'') (\<lambda>_.
      bindR (assertR (is_bool (esort cons)) ''Consequent must be Boolean.'') (\<lambda>_.
      Inr SortBool))) [ante, cons] [] None"

definition ExprOpIte :: "expr \<Rightarrow> expr \<Rightarrow> expr \<Rightarrow> expr W" where
  "ExprOpIte cnd t f = new_ExprOp kIfThenElse
     (bindR (assertR (is_bool (esort cnd)) ''Condition must be Boolean.'') (\<lambda>_.
      bindR (assertR (sort_Equal (esort t) (esort f)) ''sort mismatch'') (\<lambda>_.
      Inr (esort t)))) [cnd, t, f] [] None"

subsection \<open>The sorts as a table\<close>

text \<open>
  \<open>op_sort u ss ps f\<close> is the sort of a node with operator \<open>u\<close>, arguments of the sorts \<open>ss\<close>,
  parameters \<open>ps\<close> and function \<open>f\<close>, if its constructor accepts them.
\<close>

definition same2 :: "sort list \<Rightarrow> (sort \<Rightarrow> sort option) \<Rightarrow> sort option" where
  "same2 ss k = (case ss of [a, b] \<Rightarrow> if a = b then k a else None | _ \<Rightarrow> None)"

definition only_bv :: "sort \<Rightarrow> sort option" where
  "only_bv s = (case s of SortBv w \<Rightarrow> Some s | _ \<Rightarrow> None)"

definition bv1 :: "sort list \<Rightarrow> (int \<Rightarrow> sort option) \<Rightarrow> sort option" where
  "bv1 ss k = (case ss of [SortBv w] \<Rightarrow> k w | _ \<Rightarrow> None)"

primrec op_sort :: "AstUidExprOp \<Rightarrow> sort list \<Rightarrow> int list \<Rightarrow> func option \<Rightarrow> sort option" where
  "op_sort kInvalid = (\<lambda>ss ps f. None)"
| "op_sort kNegate = (\<lambda>ss ps f. bv1 ss (\<lambda>w. Some (SortBv w)))"
| "op_sort kNot = (\<lambda>ss ps f. if ss = [SortBool] then Some SortBool else None)"
| "op_sort kComplement = (\<lambda>ss ps f. bv1 ss (\<lambda>w. Some (SortBv w)))"
| "op_sort kAnd = (\<lambda>ss ps f. same2 ss Some)"
| "op_sort kOr = (\<lambda>ss ps f. same2 ss Some)"
| "op_sort kXor = (\<lambda>ss ps f. same2 ss Some)"
| "op_sort kShiftLeft = (\<lambda>ss ps f. same2 ss only_bv)"
| "op_sort kArithShiftRight = (\<lambda>ss ps f. same2 ss only_bv)"
| "op_sort kLogicShiftRight = (\<lambda>ss ps f. same2 ss only_bv)"
| "op_sort kAdd = (\<lambda>ss ps f. same2 ss Some)"
| "op_sort kSubtract = (\<lambda>ss ps f. same2 ss Some)"
| "op_sort kMultiply = (\<lambda>ss ps f. same2 ss Some)"
| "op_sort kEqual = (\<lambda>ss ps f. same2 ss (\<lambda>_. Some SortBool))"
| "op_sort kLessThan = (\<lambda>ss ps f. same2 ss (\<lambda>_. Some SortBool))"
| "op_sort kGreaterThan = (\<lambda>ss ps f. same2 ss (\<lambda>_. Some SortBool))"
| "op_sort kUnsignedLessThan = (\<lambda>ss ps f. same2 ss (\<lambda>_. Some SortBool))"
| "op_sort kUnsignedGreaterThan = (\<lambda>ss ps f. same2 ss (\<lambda>_. Some SortBool))"
| "op_sort kLoad = (\<lambda>ss ps f. case ss of
     [SortMem aw dw, SortBv w] \<Rightarrow> if w = aw then Some (SortBv dw) else None | _ \<Rightarrow> None)"
| "op_sort kStore = (\<lambda>ss ps f. case ss of
     [SortMem aw dw, SortBv w, SortBv w'] \<Rightarrow>
       if w = aw \<and> w' = dw then Some (SortMem aw dw) else None | _ \<Rightarrow> None)"
| "op_sort kConcatenate = (\<lambda>ss ps f. case ss of
     [SortBv wh, SortBv wl] \<Rightarrow> Some (SortBv (wh + wl)) | _ \<Rightarrow> None)"
| "op_sort kExtract = (\<lambda>ss ps f. bv1 ss (\<lambda>w. case ps of
     [hi, lo] \<Rightarrow> if hi \<ge> lo then Some (SortBv (hi - lo + 1)) else None | _ \<Rightarrow> None))"
| "op_sort kZeroExtend = (\<lambda>ss ps f. bv1 ss (\<lambda>w. case ps of
     [bw] \<Rightarrow> if bw \<ge> w then Some (SortBv bw) else None | _ \<Rightarrow> None))"
| "op_sort kSignedExtend = (\<lambda>ss ps f. bv1 ss (\<lambda>w. case ps of
     [bw] \<Rightarrow> if bw \<ge> w then Some (SortBv bw) else None | _ \<Rightarrow> None))"
| "op_sort kApplyFunc = (\<lambda>ss ps f. case f of
     Some g \<Rightarrow> if ss = f_args g then Some (f_out g) else None | None \<Rightarrow> None)"
| "op_sort kImply = (\<lambda>ss ps f. if ss = [SortBool, SortBool] then Some SortBool else None)"
| "op_sort kIfThenElse = (\<lambda>ss ps f. case ss of
     [SortBool, s, t] \<Rightarrow> if s = t then Some s else None | _ \<Rightarrow> None)"
| "op_sort kDivide = (\<lambda>ss ps f. same2 ss Some)"
| "op_sort kRotateLeft = (\<lambda>ss ps f. bv1 ss (\<lambda>w. case ps of
     [n] \<Rightarrow> if n \<ge> 0 then Some (SortBv w) else None | _ \<Rightarrow> None))"
| "op_sort kRotateRight = (\<lambda>ss ps f. bv1 ss (\<lambda>w. case ps of
     [n] \<Rightarrow> if n \<ge> 0 then Some (SortBv w) else None | _ \<Rightarrow> None))"
| "op_sort kSignedRemainder = (\<lambda>ss ps f. same2 ss Some)"
| "op_sort kUnsignedRemainder = (\<lambda>ss ps f. same2 ss Some)"
| "op_sort kSignedModular = (\<lambda>ss ps f. same2 ss Some)"

lemma same2_simps [simp]: "same2 [a, b] k = (if a = b then k a else None)"
  by (simp add: same2_def)

lemma only_bv_simps [simp]:
  "only_bv (SortBv w) = Some (SortBv w)" "only_bv SortBool = None" "only_bv (SortMem a d) = None"
  by (simp_all add: only_bv_def)

lemma only_bv_Some [simp]: "only_bv s = Some t \<longleftrightarrow> (\<exists>w. s = SortBv w \<and> t = s)"
  by (cases s) auto

lemma bv1_simps [simp]:
  "bv1 [SortBv w] k = k w" "bv1 [SortBool] k = None" "bv1 [SortMem a d] k = None"
  by (simp_all add: bv1_def)

lemma bv1_Some [simp]: "bv1 ss k = Some s \<longleftrightarrow> (\<exists>w. ss = [SortBv w] \<and> k w = Some s)"
  by (auto simp: bv1_def split: list.splits sort.splits)

lemma same2_Some: "same2 ss k = Some s \<longleftrightarrow> (\<exists>a. ss = [a, a] \<and> k a = Some s)"
  by (auto simp: same2_def split: list.splits if_splits)

text \<open>The node a constructor creates in a world.\<close>

definition mk_node ::
  "world \<Rightarrow> AstUidExprOp \<Rightarrow> sort \<Rightarrow> expr list \<Rightarrow> int list \<Rightarrow> func option \<Rightarrow> expr" where
  "mk_node w u s as ps f = ExprOp (fresh_symbol w) u s as ps f (GetHost w as)"

lemma mk_node_simps [simp]:
  "esort (mk_node w u s as ps f) = s" "args (mk_node w u s as ps f) = as"
  "eid (mk_node w u s as ps f) = counter w + 1" "params (mk_node w u s as ps f) = ps"
  by (simp_all add: mk_node_def)

text \<open>The contract of a constructor: it succeeds exactly where the table has a sort.\<close>

definition op_contract ::
  "expr W \<Rightarrow> AstUidExprOp \<Rightarrow> expr list \<Rightarrow> int list \<Rightarrow> func option \<Rightarrow> bool" where
  "op_contract m u as ps f \<longleftrightarrow> (\<forall>w e w'. m w = Inr (e, w') \<longleftrightarrow>
     (\<exists>s. op_sort u (map esort as) ps f = Some s \<and> e = mk_node w u s as ps f \<and> w' = tick w))"

named_theorems op_run \<open>contracts of the operator constructors\<close>

lemma GetHost_tick [simp]: "GetHost (tick w) as = GetHost w as"
proof -
  have "first_leaf (tick w) hosts hs = first_leaf w hosts hs" for hosts hs
    by (induction hs) auto
  then show ?thesis by (simp add: GetHost_def Let_def)
qed

lemma op_contract_new:
  assumes "\<And>s. so = Inr s \<longleftrightarrow> op_sort u (map esort as) ps f = Some s"
  shows "op_contract (new_ExprOp u so as ps f) u as ps f"
  using assms by (auto simp: op_contract_def new_ExprOp_def bindM_Inr_iff mk_node_def)

lemma op_contractD:
  "op_contract m u as ps f \<Longrightarrow> m w = Inr (e, w') \<Longrightarrow>
   op_sort u (map esort as) ps f = Some (esort e) \<and> e = mk_node w u (esort e) as ps f \<and> w' = tick w"
  by (auto simp: op_contract_def)

lemma op_contract_runs:
  "op_contract m u as ps f \<Longrightarrow> op_sort u (map esort as) ps f = Some s \<Longrightarrow>
   m w = Inr (mk_node w u s as ps f, tick w)"
  by (auto simp: op_contract_def)

lemmas sort_res_simps = bindR_Inr_iff GetSortBinaryOperation_def GetSortBinaryComparison_def
  is_bv_0_iff

lemma contract_unary [op_run]:
  "op_contract (ExprOpNeg a) kNegate [a] [] None"
  "op_contract (ExprOpNot a) kNot [a] [] None"
  "op_contract (ExprOpCompl a) kComplement [a] [] None"
  unfolding ExprOpNeg_def ExprOpNot_def ExprOpCompl_def
  by (rule op_contract_new, cases "esort a"; auto simp: sort_res_simps)+

lemma contract_logic [op_run]:
  "op_contract (ExprOpAnd a b) kAnd [a, b] [] None"
  "op_contract (ExprOpOr a b) kOr [a, b] [] None"
  "op_contract (ExprOpXor a b) kXor [a, b] [] None"
  unfolding ExprOpAnd_def ExprOpOr_def ExprOpXor_def
  by (rule op_contract_new, auto simp: sort_res_simps)+

lemma contract_shift [op_run]:
  "op_contract (ExprOpShl a b) kShiftLeft [a, b] [] None"
  "op_contract (ExprOpAshr a b) kArithShiftRight [a, b] [] None"
  "op_contract (ExprOpLshr a b) kLogicShiftRight [a, b] [] None"
  unfolding ExprOpShl_def ExprOpAshr_def ExprOpLshr_def
  by (rule op_contract_new, auto simp: sort_res_simps)+

lemma contract_arith [op_run]:
  "op_contract (ExprOpAdd a b) kAdd [a, b] [] None"
  "op_contract (ExprOpSub a b) kSubtract [a, b] [] None"
  "op_contract (ExprOpDiv a b) kDivide [a, b] [] None"
  "op_contract (ExprOpSRem a b) kSignedRemainder [a, b] [] None"
  "op_contract (ExprOpURem a b) kUnsignedRemainder [a, b] [] None"
  "op_contract (ExprOpSMod a b) kSignedModular [a, b] [] None"
  "op_contract (ExprOpMul a b) kMultiply [a, b] [] None"
  unfolding ExprOpAdd_def ExprOpSub_def ExprOpDiv_def ExprOpSRem_def ExprOpURem_def
    ExprOpSMod_def ExprOpMul_def
  by (rule op_contract_new, auto simp: sort_res_simps)+

lemma contract_compare [op_run]:
  "op_contract (ExprOpEq a b) kEqual [a, b] [] None"
  "op_contract (ExprOpLt a b) kLessThan [a, b] [] None"
  "op_contract (ExprOpGt a b) kGreaterThan [a, b] [] None"
  "op_contract (ExprOpUlt a b) kUnsignedLessThan [a, b] [] None"
  "op_contract (ExprOpUgt a b) kUnsignedGreaterThan [a, b] [] None"
  unfolding ExprOpEq_def ExprOpLt_def ExprOpGt_def ExprOpUlt_def ExprOpUgt_def
  by (rule op_contract_new, auto simp: sort_res_simps)+

lemma contract_load [op_run]: "op_contract (ExprOpLoad m a) kLoad [m, a] [] None"
  unfolding ExprOpLoad_def
  by (rule op_contract_new, cases "esort m"; cases "esort a"; auto simp: sort_res_simps)

lemma contract_store [op_run]: "op_contract (ExprOpStore m a d) kStore [m, a, d] [] None"
  unfolding ExprOpStore_def
  by (rule op_contract_new, cases "esort m"; cases "esort a"; cases "esort d";
      auto simp: sort_res_simps)

lemma contract_concat [op_run]: "op_contract (ExprOpConcat a b) kConcatenate [a, b] [] None"
  unfolding ExprOpConcat_def
  by (rule op_contract_new, cases "esort a"; cases "esort b"; auto simp: sort_res_simps)

lemma contract_bv_params [op_run]:
  "op_contract (ExprOpExtract a hi lo) kExtract [a] [hi, lo] None"
  "op_contract (ExprOpZExt a bw) kZeroExtend [a] [bw] None"
  "op_contract (ExprOpSExt a bw) kSignedExtend [a] [bw] None"
  "op_contract (ExprOpLRotate a n) kRotateLeft [a] [n] None"
  "op_contract (ExprOpRRotate a n) kRotateRight [a] [n] None"
  unfolding ExprOpExtract_def ExprOpZExt_def ExprOpSExt_def ExprOpLRotate_def ExprOpRRotate_def
  by (rule op_contract_new, cases "esort a"; auto simp: sort_res_simps)+

lemma contract_misc [op_run]:
  "op_contract (ExprOpAppFunc f as) kApplyFunc as [] (Some f)"
  "op_contract (ExprOpImply a b) kImply [a, b] [] None"
  unfolding ExprOpAppFunc_def ExprOpImply_def
  by (rule op_contract_new, auto simp: sort_res_simps)+

lemma contract_ite [op_run]: "op_contract (ExprOpIte c t f) kIfThenElse [c, t, f] [] None"
  unfolding ExprOpIte_def
  by (rule op_contract_new, cases "esort c"; auto simp: sort_res_simps)

subsection \<open>Well-formed expressions\<close>

text \<open>
  Every operator node has the sort its constructor gave it, every constant a value of its
  sort; \<open>wf_expr\<close> is what the constructors establish.
\<close>

fun wf_const :: "sort \<Rightarrow> cval \<Rightarrow> bool" where
  "wf_const SortBool (BoolVal b) = True"
| "wf_const (SortBv w) (BvVal v) = (0 < w \<and> (w \<ge> 64 \<or> drop_bit (nat w) v = 0))"
| "wf_const (SortMem a d) (MemVal def m) = True"
| "wf_const s v = False"

text \<open>Only applications carry a function, and only some operators have parameters.\<close>

definition op_shape :: "AstUidExprOp \<Rightarrow> int list \<Rightarrow> func option \<Rightarrow> bool" where
  "op_shape u ps f \<longleftrightarrow> (f \<noteq> None \<longleftrightarrow> u = kApplyFunc) \<and>
     (ps \<noteq> [] \<longrightarrow> u \<in> {kExtract, kZeroExtend, kSignedExtend, kRotateLeft, kRotateRight})"

fun wf_expr :: "expr \<Rightarrow> bool" where
  "wf_expr (ExprVar y s h) = True"
| "wf_expr (ExprConst y s v) = wf_const s v"
| "wf_expr (ExprOp y u s as ps f h) =
     (list_all wf_expr as \<and> op_sort u (map esort as) ps f = Some s \<and> op_shape u ps f)"

lemma wf_mk_node [simp]:
  "wf_expr (mk_node w u s as ps f) \<longleftrightarrow>
     list_all wf_expr as \<and> op_sort u (map esort as) ps f = Some s \<and> op_shape u ps f"
  by (simp add: mk_node_def)

lemma wf_contract:
  assumes "op_contract m u as ps f" "m w = Inr (e, w')" "list_all wf_expr as" "op_shape u ps f"
  shows "wf_expr e"
  using op_contractD [OF assms(1,2)] assms(3,4) by (metis wf_mk_node)

lemma wf_args: "wf_expr e \<Longrightarrow> a \<in> set (args e) \<Longrightarrow> wf_expr a"
  by (cases e) (auto simp: list_all_iff)

lemma wf_subexprs: "wf_expr e \<Longrightarrow> x \<in> subexprs e \<Longrightarrow> wf_expr x"
proof (induction e rule: measure_induct_rule [of size])
  case (less e)
  then show ?case using subexprs_unfold [of e] by (auto intro: wf_args size_args)
qed

end
