(* ===== verification/Ast_Hub.thy ===== *)
theory Ast_Hub
  imports Expr_Op
begin

text \<open>
  The functions of the name space \<^verbatim>\<open>asthub\<close> (\<^verbatim>\<open>src/ila/ast_hub.cc\<close>), through which
  every other part of the library builds expressions.  Overloads that take a number or a
  Boolean carry a suffix: \<open>_val\<close> for \<^verbatim>\<open>BvValType\<close>, \<open>_int\<close> for \<^verbatim>\<open>int\<close>, \<open>_bool\<close>.
\<close>

subsection \<open>Variables and constants\<close>

definition NewBoolVar :: "string \<Rightarrow> expr W" where
  "NewBoolVar name = ExprVar_bool name"

definition NewBvVar :: "string \<Rightarrow> int \<Rightarrow> expr W" where
  "NewBvVar name bw = ExprVar_bv name bw"

definition NewMemVar :: "string \<Rightarrow> int \<Rightarrow> int \<Rightarrow> expr W" where
  "NewMemVar name aw dw = ExprVar_mem name aw dw"

definition BoolConst :: "bool \<Rightarrow> expr W" where
  "BoolConst val = ExprConst_bool val"

definition BvConst :: "u64 \<Rightarrow> int \<Rightarrow> expr W" where
  "BvConst val bw = ExprConst_bv val bw"

definition MemConst_def_val :: "u64 \<Rightarrow> int \<Rightarrow> int \<Rightarrow> expr W" where
  "MemConst_def_val def aw dw = ExprConst_mem def [] aw dw"

definition MemConst :: "u64 \<Rightarrow> (u64 \<times> u64) list \<Rightarrow> int \<Rightarrow> int \<Rightarrow> expr W" where
  "MemConst def m aw dw = ExprConst_mem def m aw dw"

subsection \<open>Operators with expression arguments\<close>

definition Negate :: "expr \<Rightarrow> expr W" where
  "Negate a = ExprOpNeg a"

definition LogicNot :: "expr \<Rightarrow> expr W" where
  "LogicNot a = ExprOpNot a"

definition Complement :: "expr \<Rightarrow> expr W" where
  "Complement a = ExprOpCompl a"

definition Eq :: "expr \<Rightarrow> expr \<Rightarrow> expr W" where
  "Eq l r = ExprOpEq l r"

text \<open>\<^verbatim>\<open>Eq(l, BvValType)\<close>\<close>

definition const_like :: "expr \<Rightarrow> u64 \<Rightarrow> expr W" where
  "const_like l r =
     (if is_bool (esort l) then BoolConst (r = 1)
      else bindM (liftR (bit_width (esort l))) (\<lambda>w. BvConst r w))"

definition Eq_val :: "expr \<Rightarrow> u64 \<Rightarrow> expr W" where
  "Eq_val l r = bindM (const_like l r) (\<lambda>rc. Eq l rc)"

text \<open>
  \<^verbatim>\<open>And\<close>, \<^verbatim>\<open>Or\<close> and \<^verbatim>\<open>Xor\<close> accept a Boolean beside a bit-vector of width 1, which they
  compare with 1 before they call themselves.  The comparison is Boolean, so the second
  call has equal sorts; the fuel counts the calls.
\<close>

fun promote :: "nat \<Rightarrow> (expr \<Rightarrow> expr \<Rightarrow> expr W) \<Rightarrow> string \<Rightarrow> expr \<Rightarrow> expr \<Rightarrow> expr W" where
  "promote 0 mk msg l r = fail OutOfFuel"
| "promote (Suc n) mk msg l r =
     (if sort_Equal (esort l) (esort r) then mk l r
      else if is_bv (esort l) 1 \<and> is_bool (esort r)
      then bindM (Eq_val l 1) (\<lambda>e. promote n mk msg e r)
      else thenM (ila_assert (is_bool (esort l) \<and> is_bv (esort r) 1) msg)
             (bindM (Eq_val r 1) (\<lambda>e. promote n mk msg l e)))"

definition And :: "expr \<Rightarrow> expr \<Rightarrow> expr W" where
  "And l r = promote 2 ExprOpAnd ''AND two expressions of different sorts not supported'' l r"

definition Or :: "expr \<Rightarrow> expr \<Rightarrow> expr W" where
  "Or l r = promote 2 ExprOpOr ''OR two expressions of different sorts not supported'' l r"

definition Xor :: "expr \<Rightarrow> expr \<Rightarrow> expr W" where
  "Xor l r = promote 2 ExprOpXor ''XOR two expressions of different sorts not supported'' l r"

definition Shl :: "expr \<Rightarrow> expr \<Rightarrow> expr W" where
  "Shl l r = ExprOpShl l r"

definition Ashr :: "expr \<Rightarrow> expr \<Rightarrow> expr W" where
  "Ashr l r = ExprOpAshr l r"

definition Lshr :: "expr \<Rightarrow> expr \<Rightarrow> expr W" where
  "Lshr l r = ExprOpLshr l r"

definition Add :: "expr \<Rightarrow> expr \<Rightarrow> expr W" where
  "Add l r = ExprOpAdd l r"

definition Sub :: "expr \<Rightarrow> expr \<Rightarrow> expr W" where
  "Sub l r = ExprOpSub l r"

definition Div :: "expr \<Rightarrow> expr \<Rightarrow> expr W" where
  "Div l r = ExprOpDiv l r"

definition SRem :: "expr \<Rightarrow> expr \<Rightarrow> expr W" where
  "SRem l r = ExprOpSRem l r"

definition URem :: "expr \<Rightarrow> expr \<Rightarrow> expr W" where
  "URem l r = ExprOpURem l r"

definition SMod :: "expr \<Rightarrow> expr \<Rightarrow> expr W" where
  "SMod l r = ExprOpSMod l r"

definition Mul :: "expr \<Rightarrow> expr \<Rightarrow> expr W" where
  "Mul l r = ExprOpMul l r"

definition Ne :: "expr \<Rightarrow> expr \<Rightarrow> expr W" where
  "Ne l r = bindM (ExprOpEq l r) (\<lambda>eq. ExprOpNot eq)"

definition Lt :: "expr \<Rightarrow> expr \<Rightarrow> expr W" where
  "Lt l r = ExprOpLt l r"

definition Gt :: "expr \<Rightarrow> expr \<Rightarrow> expr W" where
  "Gt l r = ExprOpGt l r"

definition Le :: "expr \<Rightarrow> expr \<Rightarrow> expr W" where
  "Le l r = bindM (ExprOpEq l r) (\<lambda>eq. bindM (ExprOpLt l r) (\<lambda>c. ExprOpOr eq c))"

definition Ge :: "expr \<Rightarrow> expr \<Rightarrow> expr W" where
  "Ge l r = bindM (ExprOpEq l r) (\<lambda>eq. bindM (ExprOpGt l r) (\<lambda>c. ExprOpOr eq c))"

definition Ult :: "expr \<Rightarrow> expr \<Rightarrow> expr W" where
  "Ult l r = ExprOpUlt l r"

definition Ugt :: "expr \<Rightarrow> expr \<Rightarrow> expr W" where
  "Ugt l r = ExprOpUgt l r"

definition Ule :: "expr \<Rightarrow> expr \<Rightarrow> expr W" where
  "Ule l r = bindM (ExprOpEq l r) (\<lambda>eq. bindM (ExprOpUlt l r) (\<lambda>c. ExprOpOr eq c))"

definition Uge :: "expr \<Rightarrow> expr \<Rightarrow> expr W" where
  "Uge l r = bindM (ExprOpEq l r) (\<lambda>eq. bindM (ExprOpUgt l r) (\<lambda>c. ExprOpOr eq c))"

definition Load :: "expr \<Rightarrow> expr \<Rightarrow> expr W" where
  "Load mem ad = ExprOpLoad mem ad"

definition Store :: "expr \<Rightarrow> expr \<Rightarrow> expr \<Rightarrow> expr W" where
  "Store mem ad dat = ExprOpStore mem ad dat"

definition Imply :: "expr \<Rightarrow> expr \<Rightarrow> expr W" where
  "Imply p q = ExprOpImply p q"

definition Ite :: "expr \<Rightarrow> expr \<Rightarrow> expr \<Rightarrow> expr W" where
  "Ite cnd t f = ExprOpIte cnd t f"

text \<open>The two constants are created first, whether they are used or not.\<close>

definition Concat :: "expr \<Rightarrow> expr \<Rightarrow> expr W" where
  "Concat hi lo =
     bindM (BvConst 0 1) (\<lambda>const_zero.
     bindM (BvConst 1 1) (\<lambda>const_one.
     bindM (if is_bool (esort hi) then Ite hi const_one const_zero else ret hi) (\<lambda>bv_hi.
     bindM (if is_bool (esort lo) then Ite lo const_one const_zero else ret lo) (\<lambda>bv_lo.
     ExprOpConcat bv_hi bv_lo))))"

definition Extract :: "expr \<Rightarrow> int \<Rightarrow> int \<Rightarrow> expr W" where
  "Extract bv hi lo = ExprOpExtract bv hi lo"

definition ZExt :: "expr \<Rightarrow> int \<Rightarrow> expr W" where
  "ZExt bv out_width = ExprOpZExt bv out_width"

definition SExt :: "expr \<Rightarrow> int \<Rightarrow> expr W" where
  "SExt bv out_width = ExprOpSExt bv out_width"

definition LRotate :: "expr \<Rightarrow> int \<Rightarrow> expr W" where
  "LRotate bv n = ExprOpLRotate bv n"

definition RRotate :: "expr \<Rightarrow> int \<Rightarrow> expr W" where
  "RRotate bv n = ExprOpRRotate bv n"

definition AppFunc :: "func \<Rightarrow> expr list \<Rightarrow> expr W" where
  "AppFunc f as = ExprOpAppFunc f as"

subsection \<open>Operators with a constant argument\<close>

definition And_bool :: "expr \<Rightarrow> bool \<Rightarrow> expr W" where
  "And_bool l r = bindM (BoolConst r) (\<lambda>rc. And l rc)"

definition Or_bool :: "expr \<Rightarrow> bool \<Rightarrow> expr W" where
  "Or_bool l r = bindM (BoolConst r) (\<lambda>rc. Or l rc)"

definition Xor_bool :: "expr \<Rightarrow> bool \<Rightarrow> expr W" where
  "Xor_bool l r = bindM (BoolConst r) (\<lambda>rc. Xor l rc)"

text \<open>An \<^verbatim>\<open>int\<close> converts to the unsigned 64-bit type modulo \<open>2 ^ 64\<close>.\<close>

definition Shl_int :: "expr \<Rightarrow> int \<Rightarrow> expr W" where
  "Shl_int l r =
     bindM (liftR (bit_width (esort l))) (\<lambda>w. bindM (BvConst (of_int r) w) (\<lambda>rc. Shl l rc))"

definition Ashr_int :: "expr \<Rightarrow> int \<Rightarrow> expr W" where
  "Ashr_int l r =
     bindM (liftR (bit_width (esort l))) (\<lambda>w. bindM (BvConst (of_int r) w) (\<lambda>rc. Ashr l rc))"

definition Lshr_int :: "expr \<Rightarrow> int \<Rightarrow> expr W" where
  "Lshr_int l r =
     bindM (liftR (bit_width (esort l))) (\<lambda>w. bindM (BvConst (of_int r) w) (\<lambda>rc. Lshr l rc))"

definition Add_val :: "expr \<Rightarrow> u64 \<Rightarrow> expr W" where
  "Add_val l r =
     bindM (liftR (bit_width (esort l))) (\<lambda>w. bindM (BvConst r w) (\<lambda>rc. Add l rc))"

definition Sub_val :: "expr \<Rightarrow> u64 \<Rightarrow> expr W" where
  "Sub_val l r =
     bindM (liftR (bit_width (esort l))) (\<lambda>w. bindM (BvConst r w) (\<lambda>rc. Sub l rc))"

definition Mul_val :: "expr \<Rightarrow> u64 \<Rightarrow> expr W" where
  "Mul_val l r =
     bindM (liftR (bit_width (esort l))) (\<lambda>w. bindM (BvConst r w) (\<lambda>rc. Mul l rc))"

definition Ne_val :: "expr \<Rightarrow> u64 \<Rightarrow> expr W" where
  "Ne_val l r = bindM (const_like l r) (\<lambda>rc. Ne l rc)"

definition Lt_val :: "expr \<Rightarrow> u64 \<Rightarrow> expr W" where
  "Lt_val l r =
     bindM (liftR (bit_width (esort l))) (\<lambda>w. bindM (BvConst r w) (\<lambda>rc. Lt l rc))"

definition Gt_val :: "expr \<Rightarrow> u64 \<Rightarrow> expr W" where
  "Gt_val l r =
     bindM (liftR (bit_width (esort l))) (\<lambda>w. bindM (BvConst r w) (\<lambda>rc. Gt l rc))"

definition Le_val :: "expr \<Rightarrow> u64 \<Rightarrow> expr W" where
  "Le_val l r =
     bindM (liftR (bit_width (esort l))) (\<lambda>w. bindM (BvConst r w) (\<lambda>rc. Le l rc))"

definition Ge_val :: "expr \<Rightarrow> u64 \<Rightarrow> expr W" where
  "Ge_val l r =
     bindM (liftR (bit_width (esort l))) (\<lambda>w. bindM (BvConst r w) (\<lambda>rc. Ge l rc))"

definition Ult_val :: "expr \<Rightarrow> u64 \<Rightarrow> expr W" where
  "Ult_val l r =
     bindM (liftR (bit_width (esort l))) (\<lambda>w. bindM (BvConst r w) (\<lambda>rc. Ult l rc))"

definition Ugt_val :: "expr \<Rightarrow> u64 \<Rightarrow> expr W" where
  "Ugt_val l r =
     bindM (liftR (bit_width (esort l))) (\<lambda>w. bindM (BvConst r w) (\<lambda>rc. Ugt l rc))"

definition Ule_val :: "expr \<Rightarrow> u64 \<Rightarrow> expr W" where
  "Ule_val l r =
     bindM (liftR (bit_width (esort l))) (\<lambda>w. bindM (BvConst r w) (\<lambda>rc. Ule l rc))"

definition Uge_val :: "expr \<Rightarrow> u64 \<Rightarrow> expr W" where
  "Uge_val l r =
     bindM (liftR (bit_width (esort l))) (\<lambda>w. bindM (BvConst r w) (\<lambda>rc. Uge l rc))"

definition Load_val :: "expr \<Rightarrow> u64 \<Rightarrow> expr W" where
  "Load_val mem a =
     bindM (liftR (addr_width (esort mem))) (\<lambda>w. bindM (BvConst a w) (\<lambda>ac. Load mem ac))"

definition Store_val :: "expr \<Rightarrow> u64 \<Rightarrow> u64 \<Rightarrow> expr W" where
  "Store_val mem a d =
     bindM (liftR (addr_width (esort mem))) (\<lambda>aw. bindM (BvConst a aw) (\<lambda>ac.
     bindM (liftR (data_width (esort mem))) (\<lambda>dw. bindM (BvConst d dw) (\<lambda>dc.
     Store mem ac dc))))"

subsection \<open>The size of a memory\<close>

text \<open>The parameters of a memory expression are the ones \<^verbatim>\<open>SetMemSize\<close> attached to it.\<close>

definition SetMemSize :: "expr \<Rightarrow> int \<Rightarrow> bool W" where
  "SetMemSize mem sz =
     thenM (ila_assert (is_mem (esort mem)) ''Set size to non-memory variable'')
    (thenM (ila_assert (sz > 0) ''Setting non-positive memory size'')
    (\<lambda>w. if mem_params w (eid mem) \<noteq> [] then Inr (False, w)
         else Inr (True, w\<lparr>mem_params := (mem_params w)(eid mem := [sz])\<rparr>)))"

definition GetMemSize :: "expr \<Rightarrow> int W" where
  "GetMemSize mem =
     thenM (ila_assert (is_mem (esort mem)) ''Get size from non-memory variable'')
    (\<lambda>w. let ps = mem_params w (eid mem)
         in if ps = [] then Inr (0, w)
            else thenM (ila_assert (length ps = 1) ''Unrecognized memory parameter set'')
                   (liftR (at ps 0)) w)"

subsection \<open>Contracts\<close>

text \<open>
  What a function of the name space promises for arguments its operator accepts as they
  are: it returns one new operator node over exactly these arguments.  \<open>Concat\<close> draws two
  identifiers before it does so, hence the world \<open>w1\<close>.
\<close>

definition hub_contract ::
  "expr W \<Rightarrow> AstUidExprOp \<Rightarrow> expr list \<Rightarrow> int list \<Rightarrow> func option \<Rightarrow> bool" where
  "hub_contract m u as ps f \<longleftrightarrow> (\<forall>w s. op_sort u (map esort as) ps f = Some s \<longrightarrow>
     (\<exists>w1. same_heaps w w1 \<and> m w = Inr (mk_node w1 u s as ps f, tick w1)))"

named_theorems hub_run \<open>contracts of the functions of asthub\<close>

lemma hub_contractI: "op_contract m u as ps f \<Longrightarrow> hub_contract m u as ps f"
  unfolding hub_contract_def by (blast intro: op_contract_runs same_heaps_refl)

lemma hub_contractD:
  assumes "hub_contract m u as ps f" "op_sort u (map esort as) ps f = Some s"
  obtains w1 where "same_heaps w w1" "m w = Inr (mk_node w1 u s as ps f, tick w1)"
  using assms unfolding hub_contract_def by blast

lemma hub_direct [hub_run]:
  "hub_contract (Negate a) kNegate [a] [] None"
  "hub_contract (LogicNot a) kNot [a] [] None"
  "hub_contract (Complement a) kComplement [a] [] None"
  "hub_contract (Shl a b) kShiftLeft [a, b] [] None"
  "hub_contract (Ashr a b) kArithShiftRight [a, b] [] None"
  "hub_contract (Lshr a b) kLogicShiftRight [a, b] [] None"
  "hub_contract (Add a b) kAdd [a, b] [] None"
  "hub_contract (Sub a b) kSubtract [a, b] [] None"
  "hub_contract (Div a b) kDivide [a, b] [] None"
  "hub_contract (SRem a b) kSignedRemainder [a, b] [] None"
  "hub_contract (URem a b) kUnsignedRemainder [a, b] [] None"
  "hub_contract (SMod a b) kSignedModular [a, b] [] None"
  "hub_contract (Mul a b) kMultiply [a, b] [] None"
  "hub_contract (Eq a b) kEqual [a, b] [] None"
  "hub_contract (Lt a b) kLessThan [a, b] [] None"
  "hub_contract (Gt a b) kGreaterThan [a, b] [] None"
  "hub_contract (Ult a b) kUnsignedLessThan [a, b] [] None"
  "hub_contract (Ugt a b) kUnsignedGreaterThan [a, b] [] None"
  "hub_contract (Load m a) kLoad [m, a] [] None"
  "hub_contract (Store m a d) kStore [m, a, d] [] None"
  "hub_contract (Extract a hi lo) kExtract [a] [hi, lo] None"
  "hub_contract (ZExt a bw) kZeroExtend [a] [bw] None"
  "hub_contract (SExt a bw) kSignedExtend [a] [bw] None"
  "hub_contract (LRotate a n) kRotateLeft [a] [n] None"
  "hub_contract (RRotate a n) kRotateRight [a] [n] None"
  "hub_contract (Imply a b) kImply [a, b] [] None"
  "hub_contract (Ite c a b) kIfThenElse [c, a, b] [] None"
  "hub_contract (AppFunc g as) kApplyFunc as [] (Some g)"
  unfolding Negate_def LogicNot_def Complement_def Shl_def Ashr_def Lshr_def Add_def Sub_def
    Div_def SRem_def URem_def SMod_def Mul_def Eq_def Lt_def Gt_def Ult_def Ugt_def Load_def
    Store_def Extract_def ZExt_def SExt_def LRotate_def RRotate_def Imply_def Ite_def AppFunc_def
  by (rule hub_contractI, rule op_run)+

lemma promote_same_sort:
  "esort l = esort r \<Longrightarrow> promote (Suc n) mk msg l r = mk l r"
  by simp

lemma hub_logic [hub_run]:
  "hub_contract (And a b) kAnd [a, b] [] None"
  "hub_contract (Or a b) kOr [a, b] [] None"
  "hub_contract (Xor a b) kXor [a, b] [] None"
  unfolding hub_contract_def And_def Or_def Xor_def
  by (auto simp: numeral_2_eq_2 split: if_splits
      intro!: exI [of _ w for w] op_contract_runs [OF contract_logic(1)]
        op_contract_runs [OF contract_logic(2)] op_contract_runs [OF contract_logic(3)])

lemma BvConst_run:
  "0 < bw \<Longrightarrow> (bw \<ge> 64 \<or> drop_bit (nat bw) v = 0) \<Longrightarrow>
   BvConst v bw w = Inr (ExprConst (fresh_symbol w) (SortBv bw) (BvVal v), tick w)"
  by (simp add: BvConst_def ExprConst_bv_def)

lemma BoolConst_run: "BoolConst b w = Inr (ExprConst (fresh_symbol w) SortBool (BoolVal b), tick w)"
  by (simp add: BoolConst_def ExprConst_bool_def)

lemma hub_concat [hub_run]: "hub_contract (Concat a b) kConcatenate [a, b] [] None"
proof -
  have "\<exists>w1. same_heaps w w1 \<and> Concat a b w = Inr (mk_node w1 kConcatenate s [a, b] [] None, tick w1)"
    if s: "op_sort kConcatenate (map esort [a, b]) [] None = Some s" for w s
  proof -
    obtain wa wb where ab: "esort a = SortBv wa" "esort b = SortBv wb"
      using s by (auto split: sort.splits)
    have one: "drop_bit (nat 1) (1 :: u64) = 0" by simp
    have "Concat a b w = ExprOpConcat a b (tick (tick w))"
      by (simp add: Concat_def BvConst_run ab one)
    also have "\<dots> = Inr (mk_node (tick (tick w)) kConcatenate s [a, b] [] None, tick (tick (tick w)))"
      using op_contract_runs [OF contract_concat s] .
    finally show ?thesis
      by (intro exI [of _ "tick (tick w)"]) (simp add: same_heaps_def)
  qed
  then show ?thesis unfolding hub_contract_def by blast
qed

end
