(* ===== verification/Semantics.thy ===== *)
theory Semantics
  imports Ast_Hub
begin

text \<open>
  The meaning of expressions, the specification the rewriting and translation components
  are proved against.  Bit-vectors are integers below a power of two with the operations of
  the SMT-LIB theory of fixed-width bit-vectors, which the back ends of the library use;
  memories are total arrays that are zero outside their address range, so that equality of
  arrays is equality of functions.
\<close>

unbundle bit_operations_syntax

subsection \<open>Values\<close>

datatype val =
    VBool bool
  | VBv int int
  | VMem int int "int \<Rightarrow> int"

fun vsort :: "val \<Rightarrow> sort" where
  "vsort (VBool b) = SortBool"
| "vsort (VBv w v) = SortBv w"
| "vsort (VMem a d f) = SortMem a d"

definition in_bv :: "int \<Rightarrow> int \<Rightarrow> bool" where
  "in_bv w v \<longleftrightarrow> 0 < w \<and> 0 \<le> v \<and> v < 2 ^ nat w"

fun val_ok :: "val \<Rightarrow> bool" where
  "val_ok (VBool b) = True"
| "val_ok (VBv w v) = in_bv w v"
| "val_ok (VMem a d f) =
     (0 < a \<and> 0 < d \<and> (\<forall>x. in_bv d (f x) \<and> (\<not> in_bv a x \<longrightarrow> f x = 0)))"

text \<open>A value of a sort.\<close>

definition has_sort :: "val \<Rightarrow> sort \<Rightarrow> bool" where
  "has_sort v s \<longleftrightarrow> vsort v = s \<and> val_ok v"

fun pos_sort :: "sort \<Rightarrow> bool" where
  "pos_sort SortBool = True"
| "pos_sort (SortBv w) = (0 < w)"
| "pos_sort (SortMem a d) = (0 < a \<and> 0 < d)"

lemma has_sort_pos: "has_sort v s \<Longrightarrow> pos_sort s"
  by (cases v) (auto simp: has_sort_def in_bv_def)

lemma has_sort_Bool: "has_sort v SortBool \<longleftrightarrow> (\<exists>b. v = VBool b)"
  by (cases v) (auto simp: has_sort_def)

lemma has_sort_Bv: "has_sort v (SortBv w) \<longleftrightarrow> (\<exists>x. v = VBv w x \<and> in_bv w x)"
  by (cases v) (auto simp: has_sort_def)

lemma has_sort_Mem: "has_sort v (SortMem a d) \<longleftrightarrow> (\<exists>f. v = VMem a d f \<and> val_ok v)"
  by (cases v) (auto simp: has_sort_def)

subsection \<open>Bit-vector arithmetic\<close>

definition trunc :: "int \<Rightarrow> int \<Rightarrow> int" where
  "trunc w x = take_bit (nat w) x"

definition signed :: "int \<Rightarrow> int \<Rightarrow> int" where
  "signed w x = (if x < 2 ^ nat (w - 1) then x else x - 2 ^ nat w)"

definition bv_udiv :: "int \<Rightarrow> int \<Rightarrow> int \<Rightarrow> int" where
  "bv_udiv w a b = (if b = 0 then 2 ^ nat w - 1 else a div b)"

definition bv_urem :: "int \<Rightarrow> int \<Rightarrow> int \<Rightarrow> int" where
  "bv_urem w a b = (if b = 0 then a else a mod b)"

definition bv_sdiv :: "int \<Rightarrow> int \<Rightarrow> int \<Rightarrow> int" where
  "bv_sdiv w a b =
     (let s = signed w a; t = signed w b
      in if t = 0 then (if s \<ge> 0 then - 1 else 1) else sgn s * sgn t * (\<bar>s\<bar> div \<bar>t\<bar>))"

definition bv_srem :: "int \<Rightarrow> int \<Rightarrow> int \<Rightarrow> int" where
  "bv_srem w a b =
     (let s = signed w a; t = signed w b in if t = 0 then a else sgn s * (\<bar>s\<bar> mod \<bar>t\<bar>))"

definition bv_smod :: "int \<Rightarrow> int \<Rightarrow> int \<Rightarrow> int" where
  "bv_smod w a b =
     (let s = signed w a; t = signed w b in if t = 0 then a else s mod t)"

definition bv_rotl :: "int \<Rightarrow> int \<Rightarrow> int \<Rightarrow> int" where
  "bv_rotl w n a =
     (let k = nat (n mod w) in a * 2 ^ k + a div 2 ^ (nat w - k))"

definition bv_rotr :: "int \<Rightarrow> int \<Rightarrow> int \<Rightarrow> int" where
  "bv_rotr w n a = bv_rotl w (w - n mod w) a"

lemma in_bv_trunc [simp]: "0 < w \<Longrightarrow> in_bv w (trunc w x)"
  by (simp add: in_bv_def trunc_def)

lemma trunc_id: "in_bv w x \<Longrightarrow> trunc w x = x"
  by (simp add: in_bv_def trunc_def take_bit_int_eq_self)

lemma in_bv_pos: "in_bv w x \<Longrightarrow> 0 < w"
  by (simp add: in_bv_def)

lemma in_bv_0 [simp]: "0 < w \<Longrightarrow> in_bv w 0"
  by (simp add: in_bv_def)

subsection \<open>The meaning of the operators\<close>

definition bool_bv2 ::
  "(bool \<Rightarrow> bool \<Rightarrow> bool) \<Rightarrow> (int \<Rightarrow> int \<Rightarrow> int) \<Rightarrow> val list \<Rightarrow> val" where
  "bool_bv2 fb fi vs = (case vs of
       [VBool a, VBool b] \<Rightarrow> VBool (fb a b)
     | [VBv w a, VBv w' b] \<Rightarrow> VBv w (trunc w (fi a b))
     | _ \<Rightarrow> VBool False)"

definition bv2 :: "(int \<Rightarrow> int \<Rightarrow> int \<Rightarrow> int) \<Rightarrow> val list \<Rightarrow> val" where
  "bv2 f vs = (case vs of [VBv w a, VBv w' b] \<Rightarrow> VBv w (trunc w (f w a b)) | _ \<Rightarrow> VBool False)"

definition bvcmp :: "(int \<Rightarrow> int \<Rightarrow> int \<Rightarrow> bool) \<Rightarrow> val list \<Rightarrow> val" where
  "bvcmp f vs = (case vs of [VBv w a, VBv w' b] \<Rightarrow> VBool (f w a b) | _ \<Rightarrow> VBool False)"

definition bvun :: "(int \<Rightarrow> int \<Rightarrow> int) \<Rightarrow> val list \<Rightarrow> val" where
  "bvun f vs = (case vs of [VBv w a] \<Rightarrow> VBv w (trunc w (f w a)) | _ \<Rightarrow> VBool False)"

text \<open>Resizing: the width of the result comes from the parameters.\<close>

definition bvext :: "int \<Rightarrow> (int \<Rightarrow> int \<Rightarrow> int) \<Rightarrow> val list \<Rightarrow> val" where
  "bvext n f vs = (case vs of [VBv w a] \<Rightarrow> VBv n (trunc n (f w a)) | _ \<Rightarrow> VBool False)"

primrec op_sem :: "AstUidExprOp \<Rightarrow> int list \<Rightarrow> val list \<Rightarrow> val" where
  "op_sem kInvalid = (\<lambda>ps vs. VBool False)"
| "op_sem kNegate = (\<lambda>ps. bvun (\<lambda>w a. - a))"
| "op_sem kNot = (\<lambda>ps vs. case vs of [VBool b] \<Rightarrow> VBool (\<not> b) | _ \<Rightarrow> VBool False)"
| "op_sem kComplement = (\<lambda>ps. bvun (\<lambda>w a. NOT a))"
| "op_sem kAnd = (\<lambda>ps. bool_bv2 (\<and>) (AND))"
| "op_sem kOr = (\<lambda>ps. bool_bv2 (\<or>) (OR))"
| "op_sem kXor = (\<lambda>ps. bool_bv2 (\<noteq>) (XOR))"
| "op_sem kShiftLeft = (\<lambda>ps. bv2 (\<lambda>w a b. a * 2 ^ nat b))"
| "op_sem kArithShiftRight = (\<lambda>ps. bv2 (\<lambda>w a b. signed w a div 2 ^ nat b))"
| "op_sem kLogicShiftRight = (\<lambda>ps. bv2 (\<lambda>w a b. a div 2 ^ nat b))"
| "op_sem kAdd = (\<lambda>ps. bv2 (\<lambda>w a b. a + b))"
| "op_sem kSubtract = (\<lambda>ps. bv2 (\<lambda>w a b. a - b))"
| "op_sem kMultiply = (\<lambda>ps. bv2 (\<lambda>w a b. a * b))"
| "op_sem kEqual = (\<lambda>ps vs. case vs of [a, b] \<Rightarrow> VBool (a = b) | _ \<Rightarrow> VBool False)"
| "op_sem kLessThan = (\<lambda>ps. bvcmp (\<lambda>w a b. signed w a < signed w b))"
| "op_sem kGreaterThan = (\<lambda>ps. bvcmp (\<lambda>w a b. signed w a > signed w b))"
| "op_sem kUnsignedLessThan = (\<lambda>ps. bvcmp (\<lambda>w a b. a < b))"
| "op_sem kUnsignedGreaterThan = (\<lambda>ps. bvcmp (\<lambda>w a b. a > b))"
| "op_sem kLoad = (\<lambda>ps vs. case vs of
     [VMem aw dw f, VBv w a] \<Rightarrow> VBv dw (f a) | _ \<Rightarrow> VBool False)"
| "op_sem kStore = (\<lambda>ps vs. case vs of
     [VMem aw dw f, VBv w a, VBv w' d] \<Rightarrow> VMem aw dw (f(a := d)) | _ \<Rightarrow> VBool False)"
| "op_sem kConcatenate = (\<lambda>ps vs. case vs of
     [VBv wh h, VBv wl l] \<Rightarrow> VBv (wh + wl) (trunc (wh + wl) (h * 2 ^ nat wl + l)) | _ \<Rightarrow> VBool False)"
| "op_sem kExtract = (\<lambda>ps vs. case ps of
     [hi, lo] \<Rightarrow> bvext (hi - lo + 1) (\<lambda>w a. a div 2 ^ nat lo) vs | _ \<Rightarrow> VBool False)"
| "op_sem kZeroExtend = (\<lambda>ps vs. case ps of
     [bw] \<Rightarrow> bvext bw (\<lambda>w a. a) vs | _ \<Rightarrow> VBool False)"
| "op_sem kSignedExtend = (\<lambda>ps vs. case ps of
     [bw] \<Rightarrow> bvext bw (\<lambda>w a. signed w a) vs | _ \<Rightarrow> VBool False)"
| "op_sem kApplyFunc = (\<lambda>ps vs. VBool False)"
| "op_sem kImply = (\<lambda>ps vs. case vs of [VBool a, VBool b] \<Rightarrow> VBool (a \<longrightarrow> b) | _ \<Rightarrow> VBool False)"
| "op_sem kIfThenElse = (\<lambda>ps vs. case vs of
     [VBool c, a, b] \<Rightarrow> (if c then a else b) | _ \<Rightarrow> VBool False)"
| "op_sem kDivide = (\<lambda>ps. bv2 bv_sdiv)"
| "op_sem kRotateLeft = (\<lambda>ps vs. case ps of
     [n] \<Rightarrow> bvun (\<lambda>w. bv_rotl w n) vs | _ \<Rightarrow> VBool False)"
| "op_sem kRotateRight = (\<lambda>ps vs. case ps of
     [n] \<Rightarrow> bvun (\<lambda>w. bv_rotr w n) vs | _ \<Rightarrow> VBool False)"
| "op_sem kSignedRemainder = (\<lambda>ps. bv2 bv_srem)"
| "op_sem kUnsignedRemainder = (\<lambda>ps. bv2 bv_urem)"
| "op_sem kSignedModular = (\<lambda>ps. bv2 bv_smod)"

text \<open>
  What the operators need beyond the checks of their constructors: arithmetic and order on
  bit-vectors only, no logic on memories, an extraction inside its operand.
\<close>

fun smt_op :: "AstUidExprOp \<Rightarrow> sort list \<Rightarrow> int list \<Rightarrow> bool" where
  "smt_op u ss ps =
     (if u \<in> {kAnd, kOr, kXor} then list_all (\<lambda>s. \<not> is_mem s) ss
      else if u \<in> {kAdd, kSubtract, kMultiply, kDivide, kSignedRemainder, kUnsignedRemainder,
                   kSignedModular, kLessThan, kGreaterThan, kUnsignedLessThan,
                   kUnsignedGreaterThan}
      then list_all (\<lambda>s. is_bv s 0) ss
      else if u = kExtract then
        (case (ss, ps) of ([SortBv w], [hi, lo]) \<Rightarrow> 0 \<le> lo \<and> hi < w | _ \<Rightarrow> False)
      else True)"

declare smt_op.simps [simp del]

lemmas op_sem_helpers = bool_bv2_def bv2_def bvcmp_def bvun_def bvext_def

subsection \<open>Evaluation\<close>

text \<open>
  An environment gives each variable node a value; an interpretation gives each function
  one.
\<close>

type_synonym env = "expr \<Rightarrow> val"
type_synonym finterp = "func \<Rightarrow> val list \<Rightarrow> val"

fun mem_fun :: "int \<Rightarrow> int \<Rightarrow> u64 \<Rightarrow> (u64 \<times> u64) list \<Rightarrow> int \<Rightarrow> int" where
  "mem_fun aw dw def [] = (\<lambda>a. if in_bv aw a then trunc dw (uint def) else 0)"
| "mem_fun aw dw def ((a, d) # m) =
     (mem_fun aw dw def m)(trunc aw (uint a) := trunc dw (uint d))"

text \<open>The pairs of a memory constant are written in address order, so later ones win.\<close>

fun const_val :: "sort \<Rightarrow> cval \<Rightarrow> val" where
  "const_val s (BoolVal b) = VBool b"
| "const_val (SortBv w) (BvVal v) = VBv w (uint v)"
| "const_val (SortMem aw dw) (MemVal def m) = VMem aw dw (mem_fun aw dw def (rev m))"
| "const_val s v = VBool False"

fun eval :: "env \<Rightarrow> finterp \<Rightarrow> expr \<Rightarrow> val" where
  "eval \<rho> \<phi> (ExprVar y s h) = \<rho> (ExprVar y s h)"
| "eval \<rho> \<phi> (ExprConst y s v) = const_val s v"
| "eval \<rho> \<phi> (ExprOp y u s as ps f h) =
     (case f of
        Some g \<Rightarrow> \<phi> g (map (eval \<rho> \<phi>) as)
      | None \<Rightarrow> op_sem u ps (map (eval \<rho> \<phi>) as))"

text \<open>Nodes that the SMT back ends can translate.\<close>

fun smt_expr :: "expr \<Rightarrow> bool" where
  "smt_expr (ExprVar y s h) = pos_sort s"
| "smt_expr (ExprConst y s v) = (pos_sort s \<and> wf_const s v)"
| "smt_expr (ExprOp y u s as ps f h) =
     (list_all smt_expr as \<and> op_sort u (map esort as) ps f = Some s \<and>
      smt_op u (map esort as) ps \<and> op_shape u ps f \<and>
      (\<forall>g. f = Some g \<longrightarrow> pos_sort (f_out g)))"

definition env_ok :: "env \<Rightarrow> bool" where
  "env_ok \<rho> \<longleftrightarrow> (\<forall>y s h. pos_sort s \<longrightarrow> has_sort (\<rho> (ExprVar y s h)) s)"

definition finterp_ok :: "finterp \<Rightarrow> bool" where
  "finterp_ok \<phi> \<longleftrightarrow> (\<forall>g vs. pos_sort (f_out g) \<longrightarrow> list_all2 has_sort vs (f_args g)
     \<longrightarrow> has_sort (\<phi> g vs) (f_out g))"

subsection \<open>Values have the sorts of their expressions\<close>

lemma word_fits:
  fixes v :: u64
  assumes "0 < w" "w \<ge> 64 \<or> drop_bit (nat w) v = 0"
  shows "in_bv w (uint v)"
proof (cases "w \<ge> 64")
  case True
  have "uint v < 2 ^ 64" using uint_lt2p [of v] by simp
  also have "(2::int) ^ 64 \<le> 2 ^ nat w"
    using True by (intro power_increasing) auto
  finally show ?thesis using assms(1) by (simp add: in_bv_def)
next
  case False
  then have "take_bit (nat w) v = v"
    using assms(2) bits_ident [of "nat w" v] by simp
  then have "uint v = take_bit (nat w) (uint v)"
    by (metis unsigned_take_bit_eq)
  then have "uint v < 2 ^ nat w"
    by (metis take_bit_int_less_exp)
  then show ?thesis using assms(1) by (simp add: in_bv_def)
qed

lemma mem_fun_ok: "0 < aw \<Longrightarrow> 0 < dw \<Longrightarrow>
  in_bv dw (mem_fun aw dw def m x) \<and> (\<not> in_bv aw x \<longrightarrow> mem_fun aw dw def m x = 0)"
proof (induction m arbitrary: x)
  case Nil
  then show ?case by simp
next
  case (Cons p m)
  obtain a d where p: "p = (a, d)" by (cases p)
  show ?case using Cons by (auto simp: p)
qed

lemma const_val_sort: "pos_sort s \<Longrightarrow> wf_const s v \<Longrightarrow> has_sort (const_val s v) s"
  by (cases "(s, v)" rule: wf_const.cases)
     (auto simp: has_sort_def word_fits mem_fun_ok)

lemma op_sort_params:
  "op_sort kExtract ss ps f = Some s \<longleftrightarrow> (\<exists>w hi lo. ss = [SortBv w] \<and> ps = [hi, lo] \<and>
     lo \<le> hi \<and> s = SortBv (hi - lo + 1))"
  "op_sort kZeroExtend ss ps f = Some s \<longleftrightarrow> (\<exists>w n. ss = [SortBv w] \<and> ps = [n] \<and> w \<le> n \<and> s = SortBv n)"
  "op_sort kSignedExtend ss ps f = Some s \<longleftrightarrow> (\<exists>w n. ss = [SortBv w] \<and> ps = [n] \<and> w \<le> n \<and> s = SortBv n)"
  "op_sort kRotateLeft ss ps f = Some s \<longleftrightarrow> (\<exists>w n. ss = [SortBv w] \<and> ps = [n] \<and> 0 \<le> n \<and> s = SortBv w)"
  "op_sort kRotateRight ss ps f = Some s \<longleftrightarrow> (\<exists>w n. ss = [SortBv w] \<and> ps = [n] \<and> 0 \<le> n \<and> s = SortBv w)"
  by (cases ps; cases "tl ps"; auto split: list.splits if_splits)+

lemma op_sort_memory:
  "op_sort kLoad ss ps f = Some s \<longleftrightarrow> (\<exists>aw dw. ss = [SortMem aw dw, SortBv aw] \<and> s = SortBv dw)"
  "op_sort kStore ss ps f = Some s \<longleftrightarrow>
     (\<exists>aw dw. ss = [SortMem aw dw, SortBv aw, SortBv dw] \<and> s = SortMem aw dw)"
  "op_sort kConcatenate ss ps f = Some s \<longleftrightarrow>
     (\<exists>v w. ss = [SortBv v, SortBv w] \<and> s = SortBv (v + w))"
  "op_sort kIfThenElse ss ps f = Some s \<longleftrightarrow> ss = [SortBool, s, s]"
  by (auto split: list.splits sort.splits if_splits)

lemma op_sem_sort:
  assumes "op_sort u ss ps f = Some s" "smt_op u ss ps" "u \<noteq> kApplyFunc"
    and "list_all2 has_sort vs ss"
  shows "has_sort (op_sem u ps vs) s"
  using assms
proof -
  have cmp: "has_sort (VBool b) SortBool" for b by (simp add: has_sort_def)
  note simps = smt_op.simps same2_Some list_all2_Cons2 has_sort_Bool has_sort_Bv
    is_mem_iff is_bv_0_iff op_sem_helpers
  consider "u \<in> {kNegate, kComplement, kExtract, kZeroExtend, kSignedExtend, kRotateLeft, kRotateRight}"
    | "u \<in> {kAnd, kOr, kXor}" | "u \<in> {kLoad, kStore, kConcatenate}"
    | "u \<in> {kNot, kImply, kIfThenElse, kEqual, kLessThan, kGreaterThan, kUnsignedLessThan,
          kUnsignedGreaterThan}"
    | "u \<in> {kShiftLeft, kArithShiftRight, kLogicShiftRight, kAdd, kSubtract, kMultiply, kDivide,
          kSignedRemainder, kUnsignedRemainder, kSignedModular}"
    using assms(1,3) by (cases u) auto
  then show ?thesis
  proof cases
    case 1
    then show ?thesis using assms(1,2,4)
      by (elim insertE emptyE)
         (auto simp del: op_sort.simps(22-24,29,30) simp: op_sort_params simps in_bv_pos
            intro!: in_bv_trunc dest!: in_bv_pos)
  next
    case 2
    then obtain a where "ss = [a, a]" "s = a" "\<not> is_mem a"
      using assms(1,2) by (auto simp: same2_Some smt_op.simps)
    then show ?thesis using 2 assms(4)
      by (cases a) (auto simp: simps in_bv_pos)
  next
    case 3
    then show ?thesis using assms(1,4)
      by (elim insertE emptyE)
         (auto simp del: op_sort.simps(19-21) simp: op_sort_memory list_all2_Cons2 has_sort_Bv
            has_sort_Mem intro!: in_bv_trunc add_pos_pos,
          simp_all add: in_bv_def)
  next
    case 4
    then show ?thesis using assms(1,2,4)
      by (elim insertE emptyE)
         (auto simp del: op_sort.simps(27) simp: op_sort_memory simps cmp split: if_splits)
  next
    case 5
    then obtain a where a: "ss = [a, a]" "s = a" "is_bv a 0"
      using assms(1,2) by (auto simp: same2_Some smt_op.simps is_bv_0_iff)
    then show ?thesis using 5 assms(4)
      by (auto simp: simps in_bv_pos dest: in_bv_pos)
  qed
qed

lemma eval_sort:
  assumes "env_ok \<rho>" "finterp_ok \<phi>"
  shows "smt_expr e \<Longrightarrow> has_sort (eval \<rho> \<phi> e) (esort e)"
proof (induction e)
  case (ExprVar y s h)
  then show ?case using assms(1) by (simp add: env_ok_def)
next
  case (ExprConst y s v)
  then show ?case by (simp add: const_val_sort)
next
  case (ExprOp y u s as ps f h)
  have vs: "list_all2 has_sort (map (eval \<rho> \<phi>) as) (map esort as)"
    using ExprOp by (auto simp: list_all2_map1 list_all2_map2 list_all_iff list_all2_same simp del: op_sort.simps)
  show ?case
  proof (cases f)
    case None
    then show ?thesis using ExprOp.prems vs by (auto simp: op_shape_def intro: op_sem_sort)
  next
    case (Some g)
    then have "pos_sort (f_out g)" "map esort as = f_args g" "s = f_out g"
      using ExprOp.prems by (auto simp: op_shape_def split: if_splits)
    then show ?thesis
      using Some vs assms(2) by (simp add: finterp_ok_def)
  qed
qed

lemma smt_expr_wf: "smt_expr e \<Longrightarrow> wf_expr e"
  by (induction e) (auto simp: list_all_iff)

text \<open>An environment and a function interpretation of the right sorts.\<close>

definition zero_val :: "sort \<Rightarrow> val" where
  "zero_val s = (case s of SortBool \<Rightarrow> VBool False | SortBv w \<Rightarrow> VBv w 0
     | SortMem a d \<Rightarrow> VMem a d (\<lambda>_. 0))"

lemma zero_val_sort: "pos_sort s \<Longrightarrow> has_sort (zero_val s) s"
  by (cases s) (auto simp: zero_val_def has_sort_def in_bv_def)

lemma zero_env: "env_ok (\<lambda>e. zero_val (esort e))" "finterp_ok (\<lambda>g _. zero_val (f_out g))"
  by (simp_all add: env_ok_def finterp_ok_def zero_val_sort)

end
