(* ===== verification/Rewriter.thy ===== *)
theory Rewriter
  imports Semantics
begin

text \<open>
  The expression rewriter \<^verbatim>\<open>FuncObjRewrExpr\<close> (\<^verbatim>\<open>src/ila-mngr/u_rewrite_expr.cc\<close>) and
  \<^verbatim>\<open>absknob::Rewrite\<close>.  The rewriter walks an expression with
  \<^verbatim>\<open>DepthFirstVisitPrePost\<close> and fills a table from nodes to their rewritten nodes; its
  virtual member \<^verbatim>\<open>Rewrite\<close> is a parameter here.  The locale \<open>rewriting\<close> states what an
  override must promise and proves what the traversal then delivers; the copying rewriter
  of the base class is an interpretation, and so are the passes of theory \<open>Passes\<close>.
\<close>

subsection \<open>The table and the traversal\<close>

text \<open>\<^verbatim>\<open>ExprMap\<close> is keyed by pointers; its values may be null.\<close>

type_synonym expr_map = "nat \<rightharpoonup> expr option"
type_synonym 'a R = "(expr_map \<times> world, 'a) action"

definition rewr_get :: "expr_map \<Rightarrow> expr \<Rightarrow> expr option res" where
  "rewr_get rule e =
     bindR (assertR (rule (eid e) \<noteq> None) ''not found'') (\<lambda>_. Inr (the (rule (eid e))))"

definition rewr_pre :: "expr \<Rightarrow> expr_map \<times> world \<Rightarrow> bool" where
  "rewr_pre e s \<longleftrightarrow> fst s (eid e) \<noteq> None"

definition rewr_post :: "(expr_map \<Rightarrow> expr \<Rightarrow> expr option W) \<Rightarrow> expr \<Rightarrow> unit R" where
  "rewr_post rewrite e = (\<lambda>(rule, w). case rewrite rule e w of
       Inl x \<Rightarrow> Inl x
     | Inr (dst, w') \<Rightarrow>
         (case rule (eid e) of
            Some d \<Rightarrow> Inl (AssertFail ''Rewriting rule redefined (exist cycle in the AST)'')
          | None \<Rightarrow> Inr ((), (rule(eid e \<mapsto> dst), w'))))"

text \<open>\<^verbatim>\<open>Rewrite\<close>: leaves stand for themselves, \<^verbatim>\<open>RewriteOp\<close> is virtual.\<close>

definition rewr_Rewrite ::
  "(expr_map \<Rightarrow> expr \<Rightarrow> expr option W) \<Rightarrow> expr_map \<Rightarrow> expr \<Rightarrow> expr option W" where
  "rewr_Rewrite rewrite_op rule e =
     (if is_var e \<or> is_const e then ret (Some e)
      else thenM (ila_assert (is_op e) ''Unkown type'') (rewrite_op rule e))"

definition rewr_visit ::
  "(expr_map \<Rightarrow> expr \<Rightarrow> expr option W) \<Rightarrow> expr \<Rightarrow> unit R" where
  "rewr_visit rewrite_op e =
     DepthFirstVisitPrePost rewr_pre (rewr_post (rewr_Rewrite rewrite_op)) e"

subsection \<open>The default rewriting of operators\<close>

text \<open>\<^verbatim>\<open>get(e->arg(i))\<close>; a null result is dereferenced by the constructor that receives it.\<close>

definition get_arg :: "expr_map \<Rightarrow> expr \<Rightarrow> nat \<Rightarrow> expr res" where
  "get_arg rule e i =
     bindR (at (args e) i) (\<lambda>a. bindR (rewr_get rule a) (\<lambda>r. not_null r))"

definition node1 :: "(expr \<Rightarrow> expr W) \<Rightarrow> expr_map \<Rightarrow> expr \<Rightarrow> expr option W" where
  "node1 mk rule e =
     bindM (liftR (get_arg rule e 0)) (\<lambda>a0. bindM (mk a0) (\<lambda>r. ret (Some r)))"

definition node2 :: "(expr \<Rightarrow> expr \<Rightarrow> expr W) \<Rightarrow> expr_map \<Rightarrow> expr \<Rightarrow> expr option W" where
  "node2 mk rule e =
     bindM (liftR (get_arg rule e 0)) (\<lambda>a0.
     bindM (liftR (get_arg rule e 1)) (\<lambda>a1. bindM (mk a0 a1) (\<lambda>r. ret (Some r))))"

definition node3 :: "(expr \<Rightarrow> expr \<Rightarrow> expr \<Rightarrow> expr W) \<Rightarrow> expr_map \<Rightarrow> expr \<Rightarrow> expr option W" where
  "node3 mk rule e =
     bindM (liftR (get_arg rule e 0)) (\<lambda>a0.
     bindM (liftR (get_arg rule e 1)) (\<lambda>a1.
     bindM (liftR (get_arg rule e 2)) (\<lambda>a2. bindM (mk a0 a1 a2) (\<lambda>r. ret (Some r)))))"

text \<open>An argument and the first parameter.\<close>

definition node1p :: "(expr \<Rightarrow> int \<Rightarrow> expr W) \<Rightarrow> expr_map \<Rightarrow> expr \<Rightarrow> expr option W" where
  "node1p mk rule e =
     bindM (liftR (get_arg rule e 0)) (\<lambda>a0.
     bindM (liftR (at (params e) 0)) (\<lambda>p0. bindM (mk a0 p0) (\<lambda>r. ret (Some r))))"

definition node1pp :: "(expr \<Rightarrow> int \<Rightarrow> int \<Rightarrow> expr W) \<Rightarrow> expr_map \<Rightarrow> expr \<Rightarrow> expr option W" where
  "node1pp mk rule e =
     bindM (liftR (get_arg rule e 0)) (\<lambda>a0.
     bindM (liftR (at (params e) 0)) (\<lambda>p0.
     bindM (liftR (at (params e) 1)) (\<lambda>p1. bindM (mk a0 p0 p1) (\<lambda>r. ret (Some r)))))"

text \<open>The applied function, with all arguments.\<close>

fun get_func :: "expr \<Rightarrow> func res" where
  "get_func (ExprOp y u s as ps (Some f) h) = Inr f"
| "get_func e = Inl NullPtr"

definition node_app :: "expr_map \<Rightarrow> expr \<Rightarrow> expr option W" where
  "node_app rule e =
     bindM (liftR (get_func e)) (\<lambda>f.
     bindM (liftR (mapR (\<lambda>a. bindR (rewr_get rule a) (\<lambda>r. not_null r)) (args e))) (\<lambda>as.
     bindM (AppFunc f as) (\<lambda>r. ret (Some r))))"

text \<open>The switch of \<^verbatim>\<open>RewriteOp\<close>; the signed remainder and modulus have no case.\<close>

primrec rewrite_uid :: "AstUidExprOp \<Rightarrow> expr_map \<Rightarrow> expr \<Rightarrow> expr option W" where
  "rewrite_uid kInvalid = (\<lambda>rule e. ret None)"
| "rewrite_uid kNegate = node1 Negate"
| "rewrite_uid kNot = node1 LogicNot"
| "rewrite_uid kComplement = node1 Complement"
| "rewrite_uid kAnd = node2 And"
| "rewrite_uid kOr = node2 Or"
| "rewrite_uid kXor = node2 Xor"
| "rewrite_uid kShiftLeft = node2 Shl"
| "rewrite_uid kArithShiftRight = node2 Ashr"
| "rewrite_uid kLogicShiftRight = node2 Lshr"
| "rewrite_uid kAdd = node2 Add"
| "rewrite_uid kSubtract = node2 Sub"
| "rewrite_uid kMultiply = node2 Mul"
| "rewrite_uid kEqual = node2 Eq"
| "rewrite_uid kLessThan = node2 Lt"
| "rewrite_uid kGreaterThan = node2 Gt"
| "rewrite_uid kUnsignedLessThan = node2 Ult"
| "rewrite_uid kUnsignedGreaterThan = node2 Ugt"
| "rewrite_uid kLoad = node2 Load"
| "rewrite_uid kStore = node3 Store"
| "rewrite_uid kConcatenate = node2 Concat"
| "rewrite_uid kExtract = node1pp Extract"
| "rewrite_uid kZeroExtend = node1p ZExt"
| "rewrite_uid kSignedExtend = node1p SExt"
| "rewrite_uid kApplyFunc = node_app"
| "rewrite_uid kImply = node2 Imply"
| "rewrite_uid kIfThenElse = node3 Ite"
| "rewrite_uid kDivide = node2 Div"
| "rewrite_uid kRotateLeft = node1p LRotate"
| "rewrite_uid kRotateRight = node1p RRotate"
| "rewrite_uid kSignedRemainder = (\<lambda>rule e. ret None)"
| "rewrite_uid kUnsignedRemainder = node2 URem"
| "rewrite_uid kSignedModular = (\<lambda>rule e. ret None)"

definition RewriteOp :: "expr_map \<Rightarrow> expr \<Rightarrow> expr option W" where
  "RewriteOp rule e = bindM (liftR (GetUidExprOp e)) (\<lambda>u. rewrite_uid u rule e)"

text \<open>\<^verbatim>\<open>absknob::Rewrite\<close>: the rules are copied into a new function object.\<close>

definition Rewrite :: "expr option \<Rightarrow> expr_map \<Rightarrow> expr W" where
  "Rewrite e rule = (\<lambda>w.
     bindR (assertR (e \<noteq> None) ''Rewriting NULL pointer'') (\<lambda>_.
     bindR (rewr_visit RewriteOp (the e) (rule, w)) (\<lambda>(_, (rule', w')).
     bindR (rewr_get rule' (the e)) (\<lambda>rewr.
     bindR (assertR (rewr \<noteq> None) ''Fail rewriting'') (\<lambda>_.
     Inr (the rewr, w'))))))"

subsection \<open>What the traversal delivers\<close>

lemma subexprs_size: "x \<in> subexprs e \<Longrightarrow> size x \<le> size e"
proof (induction e rule: measure_induct_rule [of size])
  case (less e)
  consider "x = e" | a where "a \<in> set (args e)" "x \<in> subexprs a"
    using less.prems subexprs_unfold [of e] by auto
  then show ?case
  proof cases
    case 2
    then show ?thesis using less.IH [of a] size_args [of a e] by simp
  qed simp
qed

text \<open>A set of nodes that contains the arguments of its members and in which the identifier
  determines the node: what a heap of immutable nodes gives.\<close>

definition dag :: "expr set \<Rightarrow> bool" where
  "dag S \<longleftrightarrow> inj_on eid S \<and> (\<forall>x\<in>S. set (args x) \<subseteq> S)"

lemma dag_subexprs: "dag S \<Longrightarrow> e \<in> S \<Longrightarrow> subexprs e \<subseteq> S"
proof (induction e rule: measure_induct_rule [of size])
  case (less e)
  then have "subexprs a \<subseteq> S" if "a \<in> set (args e)" for a
    using that by (auto simp: dag_def intro!: less.IH size_args)
  then show ?case using less.prems subexprs_unfold [of e] by auto
qed

text \<open>The nodes in existence: no identifier beyond the counter.\<close>

definition node_heap :: "expr set \<Rightarrow> world \<Rightarrow> bool" where
  "node_heap T w \<longleftrightarrow> dag T \<and> (\<forall>x\<in>T. eid x \<le> counter w)"

lemma node_heap_counter: "node_heap T w \<Longrightarrow> counter w \<le> counter w' \<Longrightarrow> node_heap T w'"
  unfolding node_heap_def by (meson order_trans)

lemma node_heap_mono: "node_heap T w \<Longrightarrow> same_heaps w w' \<Longrightarrow> node_heap T w'"
  by (rule node_heap_counter) (auto simp: same_heaps_def)

lemma node_heap_inj: "node_heap T w \<Longrightarrow> x \<in> T \<Longrightarrow> y \<in> T \<Longrightarrow> eid x = eid y \<Longrightarrow> x = y"
  unfolding node_heap_def dag_def by (meson inj_onD)

lemma node_heap_add:
  assumes "node_heap T w" "same_heaps w w1" "set as \<subseteq> T"
  shows "node_heap (insert (mk_node w1 u s as ps f) T) (tick w1)"
proof -
  have "eid x < counter w1 + 1" if "x \<in> T" for x
    using assms(1,2) that by (auto simp: node_heap_def same_heaps_def intro: le_less_trans)
  then show ?thesis using assms
    by (fastforce simp: node_heap_def dag_def)
qed

text \<open>The table relates the nodes of \<open>S\<close> it has an entry for to nodes in existence.\<close>

definition mapped :: "(expr \<Rightarrow> expr \<Rightarrow> bool) \<Rightarrow> expr set \<Rightarrow> expr set \<Rightarrow> expr_map \<Rightarrow> bool" where
  "mapped rel S T rule \<longleftrightarrow>
     (\<forall>x\<in>S. \<forall>d. rule (eid x) = Some d \<longrightarrow> (\<exists>x'. d = Some x' \<and> rel x x' \<and> x' \<in> T))"

lemma mappedD:
  "mapped rel S T rule \<Longrightarrow> x \<in> S \<Longrightarrow> rule (eid x) = Some d \<Longrightarrow> \<exists>x'. d = Some x' \<and> rel x x' \<and> x' \<in> T"
  by (simp add: mapped_def)

lemma mapped_mono: "mapped rel S T rule \<Longrightarrow> T \<subseteq> T' \<Longrightarrow> mapped rel S T' rule"
  unfolding mapped_def by (meson subsetD)

lemma mapped_add:
  "mapped rel S T rule \<Longrightarrow> dag S \<Longrightarrow> e \<in> S \<Longrightarrow> rel e e' \<Longrightarrow> e' \<in> T \<Longrightarrow>
   mapped rel S T (rule(eid e \<mapsto> Some e'))"
  by (auto simp: mapped_def dag_def dest: inj_onD)

text \<open>
  The contract of an override of \<^verbatim>\<open>RewriteOp\<close>: \<open>rel e e'\<close> says that \<open>e'\<close> may stand for
  \<open>e\<close>; on a supported operator whose arguments are in the table, the override returns a node
  that may stand for it, and all nodes it creates are new.
\<close>

locale rewriting =
  fixes rw :: "expr_map \<Rightarrow> expr \<Rightarrow> expr option W"
    and sup :: "expr \<Rightarrow> bool"
    and rel :: "expr \<Rightarrow> expr \<Rightarrow> bool"
  assumes rw_op: "is_op e \<Longrightarrow> sup e \<Longrightarrow> node_heap T w \<Longrightarrow> e \<in> T \<Longrightarrow>
      (\<forall>a\<in>set (args e). \<exists>a'. rule (eid a) = Some (Some a') \<and> rel a a' \<and> a' \<in> T) \<Longrightarrow>
      \<exists>e' w' T'. rw rule e w = Inr (Some e', w') \<and> same_heaps w w' \<and> rel e e'
        \<and> T \<subseteq> T' \<and> node_heap T' w' \<and> e' \<in> T'"
begin

definition delivers :: "expr set \<Rightarrow> expr set \<Rightarrow> unit R \<Rightarrow> expr_map \<Rightarrow> world \<Rightarrow> expr set
    \<Rightarrow> expr_map \<Rightarrow> world \<Rightarrow> expr set \<Rightarrow> bool" where
  "delivers S X m rule w T rule' w' T' \<longleftrightarrow> m (rule, w) = Inr ((), (rule', w')) \<and> same_heaps w w'
     \<and> rule \<subseteq>\<^sub>m rule' \<and> dom rule' \<subseteq> dom rule \<union> eid ` X \<and> mapped rel S T' rule'
     \<and> T \<subseteq> T' \<and> node_heap T' w'"

lemma visit_args:
  assumes "\<And>a rule w T. a \<in> set as \<Longrightarrow> mapped rel S T rule \<Longrightarrow> node_heap T w \<Longrightarrow> S \<subseteq> T \<Longrightarrow> P rule \<Longrightarrow>
      \<exists>rule' w' T'. delivers S (subexprs a) (f a) rule w T rule' w' T' \<and> rule' (eid a) \<noteq> None"
    and "\<And>rule rule'. P rule \<Longrightarrow> rule \<subseteq>\<^sub>m rule' \<Longrightarrow> P rule'"
    and "mapped rel S T rule" "node_heap T w" "S \<subseteq> T" "P rule"
  shows "\<exists>rule' w' T'. delivers S (\<Union>a\<in>set as. subexprs a) (forM as f) rule w T rule' w' T'
      \<and> (\<forall>a\<in>set as. rule' (eid a) \<noteq> None)"
  using assms
proof (induction as arbitrary: rule w T)
  case Nil
  then show ?case by (auto simp: delivers_def)
next
  case (Cons a as)
  obtain r1 w1 T1 where 1: "delivers S (subexprs a) (f a) rule w T r1 w1 T1" "r1 (eid a) \<noteq> None"
    using Cons.prems(1) [of a T rule w] Cons.prems(3-6) by auto
  have p1: "mapped rel S T1 r1" "P r1" "node_heap T1 w1" "S \<subseteq> T1"
    using 1 Cons.prems(2,5,6) by (auto simp: delivers_def)
  obtain r2 w2 T2 where 2: "delivers S (\<Union>a\<in>set as. subexprs a) (forM as f) r1 w1 T1 r2 w2 T2"
    "\<forall>a\<in>set as. r2 (eid a) \<noteq> None"
    using Cons.IH [of T1 r1 w1] Cons.prems(1,2) p1 by auto
  have "r2 (eid a) \<noteq> None"
    using 1(2) 2(1) by (auto simp: delivers_def map_le_def dom_def)
  moreover have "delivers S (\<Union>a\<in>set (a # as). subexprs a) (forM (a # as) f) rule w T r2 w2 T2"
    unfolding delivers_def
  proof (intro conjI)
    show "dom r2 \<subseteq> dom rule \<union> eid ` (\<Union>a\<in>set (a # as). subexprs a)"
      using 1(1) 2(1) unfolding delivers_def by (simp add: image_Un) blast
  qed (use 1(1) 2(1) in \<open>auto simp: delivers_def intro: same_heaps_trans map_le_trans\<close>)
  ultimately show ?case using 2(2) by auto
qed

lemma visit:
  assumes S: "dag S" "\<forall>x\<in>S. sup x"
  shows "e \<in> S \<Longrightarrow> mapped rel S T rule \<Longrightarrow> node_heap T w \<Longrightarrow> S \<subseteq> T \<Longrightarrow>
    \<forall>x\<in>subexprs e. \<not> is_op x \<longrightarrow> rule (eid x) = None \<longrightarrow> rel x x \<Longrightarrow>
    \<exists>rule' w' T'. delivers S (subexprs e) (rewr_visit rw e) rule w T rule' w' T' \<and> rule' (eid e) \<noteq> None"
proof (induction e arbitrary: rule w T rule: measure_induct_rule [of size])
  case (less e)
  show ?case
  proof (cases "rule (eid e)")
    case (Some d)
    then have "rewr_visit rw e (rule, w) = Inr ((), (rule, w))"
      by (simp add: rewr_visit_def DepthFirstVisitPrePost.simps [of _ _ e] rewr_pre_def)
    then show ?thesis using Some less.prems by (auto simp: delivers_def)
  next
    case None
    let ?P = "\<lambda>r. \<forall>x\<in>subexprs e. \<not> is_op x \<longrightarrow> r (eid x) = None \<longrightarrow> rel x x"
    have mono: "?P r'" if "?P r" "r \<subseteq>\<^sub>m r'" for r r'
      using that by (metis domIff map_le_def)
    have body: "\<exists>rule' w' T'. delivers S (subexprs a) (rewr_visit rw a) rule w T rule' w' T' \<and> rule' (eid a) \<noteq> None"
      if "a \<in> set (args e)" "mapped rel S T rule" "node_heap T w" "S \<subseteq> T" "?P rule" for a rule w T
      by (rule less.IH) (use that less.prems(1) S(1) subexprs_arg in \<open>auto simp: dag_def size_args\<close>)
    have "\<exists>r1 w1 T1. delivers S (\<Union>a\<in>set (args e). subexprs a) (forM (args e) (rewr_visit rw))
        rule w T r1 w1 T1 \<and> (\<forall>a\<in>set (args e). r1 (eid a) \<noteq> None)"
    proof (rule visit_args [where P = ?P])
      show "\<forall>x\<in>subexprs e. \<not> is_op x \<longrightarrow> r' (eid x) = None \<longrightarrow> rel x x"
        if "?P r" "r \<subseteq>\<^sub>m r'" for r r' using mono [OF that] .
    qed (use body less.prems in blast)+
    then obtain r1 w1 T1 where 1:
      "delivers S (\<Union>a\<in>set (args e). subexprs a) (forM (args e) (rewr_visit rw)) rule w T r1 w1 T1"
      "\<forall>a\<in>set (args e). r1 (eid a) \<noteq> None" by blast
    have sub: "subexprs a \<subseteq> S" if "a \<in> set (args e)" for a
      using dag_subexprs [OF S(1), of a] S(1) that less.prems(1) by (auto simp: dag_def)
    have fresh: "r1 (eid e) = None"
    proof (rule ccontr)
      assume "r1 (eid e) \<noteq> None"
      then obtain a x where "a \<in> set (args e)" "x \<in> subexprs a" "eid x = eid e"
        using 1(1) None by (force simp: delivers_def)
      then have "x = e" using sub S(1) less.prems(1) by (auto simp: dag_def dest: inj_onD)
      then show False
        using subexprs_size \<open>x \<in> subexprs a\<close> size_args [OF \<open>a \<in> set (args e)\<close>] by fastforce
    qed
    have m1: "mapped rel S T1 r1" and T1: "node_heap T1 w1" "S \<subseteq> T1"
      using 1(1) less.prems(4) by (auto simp: delivers_def)
    obtain e' w2 T2 where 2: "rewr_Rewrite rw r1 e w1 = Inr (Some e', w2)" "same_heaps w1 w2" "rel e e'"
      "T1 \<subseteq> T2" "node_heap T2 w2" "e' \<in> T2"
    proof (cases "is_op e")
      case True
      have "\<forall>a\<in>set (args e). \<exists>a'. r1 (eid a) = Some (Some a') \<and> rel a a' \<and> a' \<in> T1"
      proof
        fix a assume a: "a \<in> set (args e)"
        then have "a \<in> S" using sub subexprs_refl by blast
        then show "\<exists>a'. r1 (eid a) = Some (Some a') \<and> rel a a' \<and> a' \<in> T1"
          using 1(2) a mappedD [OF m1] by auto
      qed
      from rw_op [OF True _ T1(1) _ this] S(2) less.prems(1) T1(2) obtain e' w2 T2 where
        "rw r1 e w1 = Inr (Some e', w2)" "same_heaps w1 w2" "rel e e'" "T1 \<subseteq> T2"
        "node_heap T2 w2" "e' \<in> T2" by blast
      then show thesis
        using True by (intro that) (cases e; auto simp: rewr_Rewrite_def thenM_def)+
    next
      case False
      then have "rel e e" using less.prems(5) None by simp
      with that [of e w1 T1] False T1 less.prems(1) show thesis
        by (cases e) (auto simp: rewr_Rewrite_def)
    qed
    have eta: "rewr_visit rw = DepthFirstVisitPrePost rewr_pre (rewr_post (rewr_Rewrite rw))"
      by (simp add: fun_eq_iff rewr_visit_def)
    have "forM (args e) (DepthFirstVisitPrePost rewr_pre (rewr_post (rewr_Rewrite rw))) (rule, w)
        = Inr ((), (r1, w1))"
      using 1(1) by (simp add: delivers_def eta)
    then have "rewr_visit rw e (rule, w) = Inr ((), (r1(eid e \<mapsto> Some e'), w2))"
      using 2(1) fresh None
      by (simp add: rewr_visit_def DepthFirstVisitPrePost.simps [of _ _ e] rewr_pre_def
          rewr_post_def)
    moreover have "mapped rel S T2 (r1(eid e \<mapsto> Some e'))"
      by (rule mapped_add [OF mapped_mono [OF m1 2(4)] S(1) less.prems(1) 2(3,6)])
    moreover have "rule \<subseteq>\<^sub>m r1(eid e \<mapsto> Some e')"
      using 1(1) None by (auto simp: delivers_def map_le_def)
    moreover have "dom (r1(eid e \<mapsto> Some e')) \<subseteq> dom rule \<union> eid ` subexprs e"
      using 1(1) unfolding delivers_def subexprs_unfold [of e] by (simp add: image_Un) blast
    moreover have "same_heaps w w2" "T \<subseteq> T2"
      using 1(1) 2(2,4) by (auto simp: delivers_def intro: same_heaps_trans)
    ultimately have "delivers S (subexprs e) (rewr_visit rw e) rule w T (r1(eid e \<mapsto> Some e')) w2 T2"
      unfolding delivers_def using 2(5) by blast
    then show ?thesis
      using fun_upd_same [of r1 "eid e" "Some (Some e')"] by (metis option.distinct(1))
  qed
qed

lemma visit_get:
  assumes "dag S" "\<forall>x\<in>S. sup x" "e \<in> S" "mapped rel S T rule" "node_heap T w" "S \<subseteq> T"
    and "\<forall>x\<in>subexprs e. \<not> is_op x \<longrightarrow> rule (eid x) = None \<longrightarrow> rel x x"
  shows "\<exists>rule' w' T' e'. rewr_visit rw e (rule, w) = Inr ((), (rule', w'))
    \<and> rewr_get rule' e = Inr (Some e') \<and> rel e e' \<and> e' \<in> T' \<and> same_heaps w w'
    \<and> mapped rel S T' rule' \<and> dom rule' \<subseteq> dom rule \<union> eid ` subexprs e \<and> T \<subseteq> T' \<and> node_heap T' w'"
proof -
  obtain rule' w' T' where v: "delivers S (subexprs e) (rewr_visit rw e) rule w T rule' w' T'"
    "rule' (eid e) \<noteq> None"
    using visit [OF assms] by blast
  then obtain e' where "rule' (eid e) = Some (Some e')" "rel e e'" "e' \<in> T'"
    using assms(3) by (auto simp: delivers_def dest: mappedD)
  with v show ?thesis
    by (intro exI [of _ rule'] exI [of _ w'] exI [of _ T'] exI [of _ e'])
       (auto simp: delivers_def rewr_get_def)
qed

end

subsection \<open>The default rewriting copies the node\<close>

text \<open>The table has a node of the same sort for every argument.\<close>

abbreviation args_mapped :: "expr_map \<Rightarrow> expr list \<Rightarrow> expr list \<Rightarrow> bool" where
  "args_mapped rule as as' \<equiv>
     list_all2 (\<lambda>a a'. rule (eid a) = Some (Some a') \<and> esort a' = esort a) as as'"

lemma args_mapped_sorts: "args_mapped rule as as' \<Longrightarrow> map esort as' = map esort as"
  by (induction rule: list_all2_induct) auto

text \<open>A run that ends in a new node over the given arguments.\<close>

definition makes :: "expr option W \<Rightarrow> world \<Rightarrow> AstUidExprOp \<Rightarrow> sort \<Rightarrow> expr list \<Rightarrow> int list
    \<Rightarrow> func option \<Rightarrow> bool" where
  "makes m w u s as ps f \<longleftrightarrow>
     (\<exists>w1. same_heaps w w1 \<and> m w = Inr (Some (mk_node w1 u s as ps f), tick w1))"

lemma makesI:
  assumes "hub_contract m u as ps f" "op_sort u (map esort as) ps f = Some s"
    "k w = bindM m (\<lambda>r. ret (Some r)) w"
  shows "makes k w u s as ps f"
proof -
  obtain w1 where "same_heaps w w1" "m w = Inr (mk_node w1 u s as ps f, tick w1)"
    using hub_contractD [OF assms(1,2)] .
  then show ?thesis unfolding makes_def assms(3) by auto
qed

lemma node_runs:
  assumes "args_mapped rule (args e) as'"
  shows "as' = [a] \<Longrightarrow> node1 mk1 rule e w = bindM (mk1 a) (\<lambda>r. ret (Some r)) w"
    "as' = [a, b] \<Longrightarrow> node2 mk2 rule e w = bindM (mk2 a b) (\<lambda>r. ret (Some r)) w"
    "as' = [a, b, c] \<Longrightarrow> node3 mk3 rule e w = bindM (mk3 a b c) (\<lambda>r. ret (Some r)) w"
    "as' = [a] \<Longrightarrow> params e = [p] \<Longrightarrow>
       node1p mk1p rule e w = bindM (mk1p a p) (\<lambda>r. ret (Some r)) w"
    "as' = [a] \<Longrightarrow> params e = [p, q] \<Longrightarrow>
       node1pp mk1pp rule e w = bindM (mk1pp a p q) (\<lambda>r. ret (Some r)) w"
  using assms
  by (auto simp: node1_def node2_def node3_def node1p_def node1pp_def get_arg_def rewr_get_def
      list_all2_Cons2 at_def)

lemma node_app_run:
  assumes "args_mapped rule as as'"
  shows "node_app rule (ExprOp y u s as ps (Some g) h) w = bindM (AppFunc g as') (\<lambda>r. ret (Some r)) w"
proof -
  have "mapR (\<lambda>a. bindR (rewr_get rule a) (\<lambda>r. not_null r)) as = Inr as'"
    using assms by (auto simp: mapR_Inr_iff rewr_get_def elim: list_all2_mono)
  then show ?thesis by (simp add: node_app_def)
qed

definition copyable :: "AstUidExprOp \<Rightarrow> bool" where
  "copyable u \<longleftrightarrow> u \<noteq> kSignedRemainder \<and> u \<noteq> kSignedModular"

text \<open>How many arguments and parameters an operator takes.\<close>

definition op_arity :: "AstUidExprOp \<Rightarrow> nat" where
  "op_arity u =
     (if u \<in> {kNegate, kNot, kComplement, kExtract, kZeroExtend, kSignedExtend, kRotateLeft,
              kRotateRight} then 1
      else if u \<in> {kStore, kIfThenElse} then 3 else 2)"

definition op_params :: "AstUidExprOp \<Rightarrow> nat" where
  "op_params u =
     (if u = kExtract then 2
      else if u \<in> {kZeroExtend, kSignedExtend, kRotateLeft, kRotateRight} then 1 else 0)"

lemma op_sort_arity:
  assumes "op_sort u ss ps f = Some s" "u \<noteq> kApplyFunc"
  shows "length ss = op_arity u"
proof (cases "u \<in> {kExtract, kZeroExtend, kSignedExtend, kRotateLeft, kRotateRight, kLoad, kStore,
    kConcatenate, kIfThenElse}")
  case True
  then show ?thesis using assms(1)
    by (auto simp del: op_sort.simps simp add: op_sort_params op_sort_memory op_arity_def)
next
  case False
  then show ?thesis using assms
    by (cases u) (auto simp: op_arity_def same2_Some split: if_splits)
qed

lemma op_sort_nparams:
  assumes "op_sort u ss ps f = Some s" "op_shape u ps f"
  shows "length ps = op_params u"
proof (cases "u \<in> {kExtract, kZeroExtend, kSignedExtend, kRotateLeft, kRotateRight}")
  case True
  then show ?thesis using assms(1)
    by (auto simp del: op_sort.simps simp add: op_sort_params op_params_def)
next
  case False
  then show ?thesis using assms(2) by (auto simp: op_shape_def op_params_def)
qed

lemma RewriteOp_makes:
  assumes s: "op_sort u (map esort as) ps f = Some s" and shape: "op_shape u ps f"
    and u: "copyable u" and m: "args_mapped rule as as'"
  shows "makes (RewriteOp rule (ExprOp y u s as ps f h)) w u s as' ps f"
proof -
  let ?e = "ExprOp y u s as ps f h"
  have run: "RewriteOp rule ?e w = rewrite_uid u rule ?e w" by (simp add: RewriteOp_def)
  have s': "op_sort u (map esort as') ps f = Some s"
    using s args_mapped_sorts [OF m] by simp
  have m': "args_mapped rule (args ?e) as'" using m by simp
  note runs = node_runs [OF m']
  show ?thesis
  proof (cases "u = kApplyFunc")
    case True
    then obtain g where g: "f = Some g" "ps = []" using shape by (auto simp: op_shape_def)
    show ?thesis
      using makesI [OF hub_direct(28) [where g = g and as = as']] s' node_app_run [OF m] run
      by (simp add: True g)
  next
    case False
    have f: "f = None" using False shape by (simp add: op_shape_def)
    have as': "length as' = op_arity u" and ps: "length ps = op_params u"
      using op_sort_arity [OF s' False] op_sort_nparams [OF s' shape] by simp_all
    have fin: "makes (RewriteOp rule (ExprOp y v s as qs f h)) w v s bs qs f"
      if "u = v" "as' = bs" "ps = qs" "hub_contract mm v bs qs None"
        "rewrite_uid v rule (ExprOp y v s as qs f h) w = bindM mm (\<lambda>r. ret (Some r)) w"
      for mm v bs qs
      using makesI [of mm u as' ps f s "RewriteOp rule ?e" w] that s' run by (simp add: f)
    consider (p2) "u = kExtract" | (p1) "u \<in> {kZeroExtend, kSignedExtend, kRotateLeft, kRotateRight}"
      | (a1) "u \<in> {kNegate, kNot, kComplement}" | (a3) "u \<in> {kStore, kIfThenElse}"
      | (a2) "op_arity u = 2" "op_params u = 0"
      by (cases u) (auto simp: op_arity_def op_params_def)
    then show ?thesis
    proof cases
      case p2
      then obtain a p q where "as' = [a]" "ps = [p, q]"
        using as' ps by (auto simp: op_arity_def op_params_def length_Suc_conv numeral_2_eq_2)
      then show ?thesis
        using p2 runs by (auto intro!: fin hub_run)
    next
      case p1
      then obtain a p where "as' = [a]" "ps = [p]"
        using as' ps by (auto simp: op_arity_def op_params_def length_Suc_conv)
      then show ?thesis using p1 runs by (auto intro!: fin hub_run)
    next
      case a1
      then obtain a where "as' = [a]" "ps = []"
        using as' ps by (auto simp: op_arity_def op_params_def length_Suc_conv)
      then show ?thesis using a1 runs by (auto intro!: fin hub_run)
    next
      case a3
      then obtain a b c where "as' = [a, b, c]" "ps = []"
        using as' ps by (auto simp: op_arity_def op_params_def length_Suc_conv numeral_3_eq_3)
      then show ?thesis using a3 runs by (auto intro!: fin hub_run)
    next
      case a2
      then obtain a b where "as' = [a, b]" "ps = []"
        using as' ps by (auto simp: length_Suc_conv numeral_2_eq_2)
      then show ?thesis using a2 runs False u s
        by (cases u) (auto simp: copyable_def op_arity_def op_params_def intro!: fin hub_run)
    qed
  qed
qed

text \<open>\<open>e'\<close> may stand for \<open>e\<close>: it is well-formed, of the same sort, and its value in the
  environment \<open>\<rho>'\<close> is the value of \<open>e\<close> in \<open>\<rho>\<close>.\<close>

definition copy_rel :: "env \<Rightarrow> env \<Rightarrow> finterp \<Rightarrow> expr \<Rightarrow> expr \<Rightarrow> bool" where
  "copy_rel \<rho> \<rho>' \<phi> e e' \<longleftrightarrow> wf_expr e' \<and> esort e' = esort e \<and> eval \<rho>' \<phi> e' = eval \<rho> \<phi> e"

definition rewritable :: "expr \<Rightarrow> bool" where
  "rewritable e \<longleftrightarrow> wf_expr e \<and> (\<forall>u. GetUidExprOp e = Inr u \<longrightarrow> copyable u)"

lemma choose_args:
  assumes "\<forall>a\<in>set as. \<exists>a'. rule (eid a) = Some (Some a') \<and> rel a a'"
  obtains as' where "list_all2 (\<lambda>a a'. rule (eid a) = Some (Some a') \<and> rel a a') as as'"
proof -
  have "\<exists>as'. list_all2 (\<lambda>a a'. rule (eid a) = Some (Some a') \<and> rel a a') as as'"
    using assms by (induction as) (auto simp: list_all2_Cons1)
  with that show thesis by blast
qed

lemma eval_node:
  "map (eval \<rho>' \<phi>) as' = map (eval \<rho> \<phi>) as \<Longrightarrow>
   eval \<rho>' \<phi> (mk_node w u s as' ps f) = eval \<rho> \<phi> (ExprOp y u s as ps f h)"
  by (simp add: mk_node_def split: option.splits)

lemma args_related:
  assumes "\<forall>a\<in>set as. \<exists>a'. rule (eid a) = Some (Some a') \<and> rel a a' \<and> a' \<in> T"
  obtains as' where "list_all2 (\<lambda>a a'. rule (eid a) = Some (Some a') \<and> rel a a') as as'" "set as' \<subseteq> T"
proof -
  obtain as' where as': "list_all2 (\<lambda>a a'. rule (eid a) = Some (Some a') \<and> rel a a' \<and> a' \<in> T) as as'"
    using choose_args [of as rule "\<lambda>a a'. rel a a' \<and> a' \<in> T"] assms by blast
  have "set as' \<subseteq> T" using as' by (induction rule: list_all2_induct) auto
  moreover have "list_all2 (\<lambda>a a'. rule (eid a) = Some (Some a') \<and> rel a a') as as'"
    by (rule list_all2_mono [OF as']) simp
  ultimately show thesis using that by blast
qed

lemma copy_rel_op:
  assumes op: "is_op e" and e: "rewritable e" and T: "node_heap T w"
    and m: "\<forall>a\<in>set (args e). \<exists>a'. rule (eid a) = Some (Some a') \<and> copy_rel \<rho> \<rho>' \<phi> a a' \<and> a' \<in> T"
  shows "\<exists>e' w' T'. RewriteOp rule e w = Inr (Some e', w') \<and> same_heaps w w' \<and> copy_rel \<rho> \<rho>' \<phi> e e'
    \<and> T \<subseteq> T' \<and> node_heap T' w' \<and> e' \<in> T'"
proof -
  obtain y u s as ps f h where e_def: "e = ExprOp y u s as ps f h" using op by (cases e) auto
  obtain as' where as': "list_all2 (\<lambda>a a'. rule (eid a) = Some (Some a') \<and> copy_rel \<rho> \<rho>' \<phi> a a') as as'"
    "set as' \<subseteq> T"
    using args_related [of as rule "copy_rel \<rho> \<rho>' \<phi>"] m by (auto simp: e_def)
  have s: "op_sort u (map esort as) ps f = Some s" "op_shape u ps f" "copyable u"
    using e by (auto simp: e_def rewritable_def)
  have am: "args_mapped rule as as'"
    by (rule list_all2_mono [OF as'(1)]) (simp add: copy_rel_def)
  have ev: "map (eval \<rho>' \<phi>) as' = map (eval \<rho> \<phi>) as" "list_all wf_expr as'"
    using as'(1) by (induction rule: list_all2_induct) (auto simp: copy_rel_def)
  obtain w1 where w1: "same_heaps w w1" "RewriteOp rule e w = Inr (Some (mk_node w1 u s as' ps f), tick w1)"
    using RewriteOp_makes [OF s am, of y h w] unfolding makes_def e_def by blast
  let ?n = "mk_node w1 u s as' ps f"
  have "copy_rel \<rho> \<rho>' \<phi> e ?n"
    using s ev(2) args_mapped_sorts [OF am] eval_node [OF ev(1), of w1 u s ps f y h]
    by (simp add: copy_rel_def e_def)
  moreover have "node_heap (insert ?n T) (tick w1)" by (rule node_heap_add [OF T w1(1) as'(2)])
  ultimately show ?thesis
    using w1 same_heaps_trans [OF w1(1) same_heaps_tick]
    by (intro exI [of _ ?n] exI [of _ "tick w1"] exI [of _ "insert ?n T"]) auto
qed

interpretation copying: rewriting RewriteOp rewritable "copy_rel \<rho> \<rho>' \<phi>" for \<rho> \<rho>' \<phi>
  by unfold_locales (rule copy_rel_op)

text \<open>A leaf that has no rule stands for itself where the environments agree on it.\<close>

lemma copy_rel_leaf:
  assumes "wf_expr x" "\<not> is_op x" "is_var x \<Longrightarrow> \<rho>' x = \<rho> x"
  shows "copy_rel \<rho> \<rho>' \<phi> x x"
  using assms by (cases x) (auto simp: copy_rel_def)

lemma Rewrite_copies:
  assumes S: "dag S" "\<forall>x\<in>S. rewritable x" "e \<in> S"
    and m: "mapped (copy_rel \<rho> \<rho>' \<phi>) S T rule" and T: "node_heap T w" "S \<subseteq> T"
    and leaves: "\<forall>x\<in>subexprs e. is_var x \<longrightarrow> rule (eid x) = None \<longrightarrow> \<rho>' x = \<rho> x"
  shows "\<exists>e' w' T'. Rewrite (Some e) rule w = Inr (e', w') \<and> copy_rel \<rho> \<rho>' \<phi> e e' \<and> same_heaps w w'
    \<and> T \<subseteq> T' \<and> node_heap T' w' \<and> e' \<in> T'"
proof -
  have "\<forall>x\<in>subexprs e. \<not> is_op x \<longrightarrow> rule (eid x) = None \<longrightarrow> copy_rel \<rho> \<rho>' \<phi> x x"
  proof (intro ballI impI)
    fix x assume x: "x \<in> subexprs e" "\<not> is_op x" "rule (eid x) = None"
    then have "x \<in> S" using dag_subexprs [OF S(1,3)] by blast
    then show "copy_rel \<rho> \<rho>' \<phi> x x"
      using x leaves S(2) by (intro copy_rel_leaf) (auto simp: rewritable_def)
  qed
  from copying.visit_get [OF S m T this]
  obtain rule' w' T' e' where r: "rewr_visit RewriteOp e (rule, w) = Inr ((), (rule', w'))"
    "rewr_get rule' e = Inr (Some e')" "copy_rel \<rho> \<rho>' \<phi> e e'" "e' \<in> T'" "same_heaps w w'"
    "T \<subseteq> T'" "node_heap T' w'" by blast
  then have "Rewrite (Some e) rule w = Inr (e', w')" by (simp add: Rewrite_def)
  with r(3-7) show ?thesis by blast
qed

text \<open>An operator without a case: the table receives a null pointer, which the root turns
  into an assertion.\<close>

lemma Rewrite_uncopyable:
  assumes "u = kSignedRemainder \<or> u = kSignedModular"
    and "forM as (rewr_visit RewriteOp) (rule, w) = Inr ((), (rule', w'))"
    and "rule (sym_id y) = None" "rule' (sym_id y) = None"
  shows "Rewrite (Some (ExprOp y u s as ps f h)) rule w = Inl (AssertFail ''Fail rewriting'')"
proof -
  have eta: "rewr_visit RewriteOp = DepthFirstVisitPrePost rewr_pre (rewr_post (rewr_Rewrite RewriteOp))"
    by (simp add: fun_eq_iff rewr_visit_def)
  have "rewr_visit RewriteOp (ExprOp y u s as ps f h) (rule, w)
      = Inr ((), (rule'(sym_id y \<mapsto> None), w'))"
    unfolding eta using assms(1,3,4) assms(2) [unfolded eta]
    by (auto simp: DepthFirstVisitPrePost.simps [of _ _ "ExprOp y u s as ps f h"]
        rewr_pre_def rewr_post_def rewr_Rewrite_def RewriteOp_def thenM_def bindM_def)
  then show ?thesis by (simp add: Rewrite_def rewr_get_def)
qed

end
