(* ===== verification/Hash_Ast.thy ===== *)
theory Hash_Ast
  imports Rewriter
begin

text \<open>
  The simplifier of syntax trees, \<^verbatim>\<open>ExprMngr\<close> (\<^verbatim>\<open>src/ila/hash_ast.cc\<close>): nodes with
  the same hash string share one representative.  The code replaces the arguments of a node
  in place; here a visit returns the node with its new arguments, under the same
  identifier.  \<open>P\<close> are the parameters that \<^verbatim>\<open>SetMemSize\<close> attached to memory
  expressions.
\<close>

subsection \<open>The hash\<close>

definition GetSortHash :: "sort \<Rightarrow> string" where
  "GetSortHash s = to_string (sort_uid s) @ ''_''
     @ int_to_string (case s of SortBv w \<Rightarrow> w | _ \<Rightarrow> 0) @ ''_''
     @ int_to_string (case s of SortMem a d \<Rightarrow> a | _ \<Rightarrow> 0) @ ''_''
     @ int_to_string (case s of SortMem a d \<Rightarrow> d | _ \<Rightarrow> 0)"

text \<open>\<^verbatim>\<open>fmt::join(list, ",")\<close>\<close>

fun join_nums :: "nat list \<Rightarrow> string" where
  "join_nums [] = []"
| "join_nums [n] = to_string n"
| "join_nums (n # ns) = to_string n @ '','' @ join_nums ns"

text \<open>The parameters are stored as \<^verbatim>\<open>size_t\<close>.\<close>

definition to_size_t :: "int \<Rightarrow> nat" where
  "to_size_t i = nat (i mod 2 ^ 64)"

fun value_hash :: "expr \<Rightarrow> string res" where
  "value_hash (ExprConst y s v) =
     (if is_bool s then bindR (val_bool (ExprConst y s v)) (\<lambda>b. Inr (BoolVal_str b))
      else if is_bv s 0 then bindR (val_bv (ExprConst y s v)) (\<lambda>b. Inr (BvVal_str b))
      else Inr (to_string (sym_id y)))"
| "value_hash e = Inl NullPtr"

fun Hash :: "(nat \<Rightarrow> int list) \<Rightarrow> expr \<Rightarrow> string res" where
  "Hash P (ExprVar y s h) = Inr (''var::'' @ GetSortHash s @ ''::'' @ to_string (sym_id y))"
| "Hash P (ExprConst y s v) =
     bindR (value_hash (ExprConst y s v)) (\<lambda>x. Inr (''const::'' @ GetSortHash s @ ''::'' @ x))"
| "Hash P (ExprOp y u s as ps f h) = Inr (''op::'' @ GetSortHash s @ ''::'' @ to_string (uid_num u)
     @ ''::'' @ join_nums (map eid as @ (case f of None \<Rightarrow> [] | Some g \<Rightarrow> [sym_id (f_sym g)]))
     @ ''::'' @ join_nums (map to_size_t (ps @ P (sym_id y))))"

subsection \<open>The manager\<close>

type_synonym em_map = "string \<rightharpoonup> expr"

definition ExprMngr_New :: em_map where
  "ExprMngr_New = Map.empty"

definition ExprMngr_clear :: "em_map \<Rightarrow> em_map" where
  "ExprMngr_clear m = Map.empty"

definition em_find :: "(nat \<Rightarrow> int list) \<Rightarrow> string \<Rightarrow> expr \<Rightarrow> (em_map, expr) action" where
  "em_find P msg e =
     bindM (liftR (Hash P e)) (\<lambda>h. bindM (gets (\<lambda>m. m h)) (\<lambda>r.
     thenM (ila_assert (r \<noteq> None) msg) (ret (the r))))"

fun set_args :: "expr list \<Rightarrow> expr \<Rightarrow> expr" where
  "set_args as (ExprOp y u s as0 ps f h) = ExprOp y u s as ps f h"
| "set_args as e = e"

text \<open>\<^verbatim>\<open>operator()\<close> on a node whose arguments have been visited.\<close>

definition em_node :: "(nat \<Rightarrow> int list) \<Rightarrow> expr \<Rightarrow> (em_map, expr) action" where
  "em_node P node =
     bindM (mapM (em_find P ''Child arg representative not found.'') (args node)) (\<lambda>reps.
     let node = set_args reps node in
     bindM (liftR (Hash P node)) (\<lambda>h.
     bindM (gets (\<lambda>m. m h)) (\<lambda>pos.
     thenM (if pos = None then modify (\<lambda>m. m(h \<mapsto> node)) else ret ()) (ret node))))"

text \<open>The depth-first visit.\<close>

fun em_visit :: "(nat \<Rightarrow> int list) \<Rightarrow> expr \<Rightarrow> (em_map, expr) action" where
  "em_visit P node =
     bindM (mapM (em_visit P) (args node)) (\<lambda>as. em_node P (set_args as node))"

declare em_visit.simps [simp del]

definition GetRep :: "(nat \<Rightarrow> int list) \<Rightarrow> expr \<Rightarrow> (em_map, expr) action" where
  "GetRep P node =
     bindM (em_visit P node) (\<lambda>node. em_find P ''Representative not found'' node)"

subsection \<open>The hash determines the node\<close>

definition digits_only :: "string \<Rightarrow> bool" where
  "digits_only s \<longleftrightarrow> CHR '':'' \<notin> set s \<and> CHR '','' \<notin> set s \<and> CHR ''_'' \<notin> set s \<and> CHR ''-'' \<notin> set s"

lemma digit_char_plain:
  "d < 10 \<Longrightarrow> digit_char up d \<notin> {CHR '':'', CHR '','', CHR ''_'', CHR ''-''}"
proof -
  assume d: "d < 10"
  then have "code (digit_char up d) \<in> {48..57}" by (auto simp: digit_char_def)
  then show ?thesis by auto
qed

lemma digits_only_to_string [simp]: "digits_only (to_string n)" "to_string n \<noteq> []"
proof -
  have "digits_only (to_string n) \<and> to_string n \<noteq> []"
  proof (cases "n = 0")
    case True
    then show ?thesis by (simp add: to_string_def digits_only_def)
  next
    case False
    then obtain ds where ds: "to_string n = map (digit_char False) ds" "ds \<noteq> []" "\<forall>d\<in>set ds. d < 10"
      using int_to_str_loop_nonzero_digits [of 10 n False] by (auto simp: to_string_def)
    then show ?thesis using digit_char_plain by (fastforce simp: digits_only_def)
  qed
  then show "digits_only (to_string n)" "to_string n \<noteq> []" by auto
qed

lemma append_sep_iff:
  "c \<notin> set a \<Longrightarrow> c \<notin> set b \<Longrightarrow> a @ c # x = b @ c # y \<longleftrightarrow> a = b \<and> x = y"
proof (induction a arbitrary: b)
  case Nil
  then show ?case by (cases b) auto
next
  case (Cons d a)
  then show ?case by (cases b) auto
qed

lemma append_sep2_iff:
  "c \<notin> set a \<Longrightarrow> c \<notin> set b \<Longrightarrow> a @ c # c # x = b @ c # c # y \<longleftrightarrow> a = b \<and> x = y"
  by (simp add: append_sep_iff)

lemma to_string_eq [simp]: "to_string m = to_string n \<longleftrightarrow> m = n"
  using to_string_inj by blast

lemma int_to_string_plain:
  "CHR '':'' \<notin> set (int_to_string i)" "CHR ''_'' \<notin> set (int_to_string i)"
  using digits_only_to_string(1) by (auto simp: int_to_string_def digits_only_def)

lemma int_to_string_inj [simp]: "int_to_string i = int_to_string j \<longleftrightarrow> i = j"
proof -
  have ne: "to_string n \<noteq> CHR ''-'' # s" for n s
    using digits_only_to_string(1) [of n] unfolding digits_only_def by (metis list.set_intros(1))
  note ne [symmetric]
  then show ?thesis by (auto simp: int_to_string_def ne)
qed

lemma GetSortHash_plain: "CHR '':'' \<notin> set (GetSortHash s)"
  using digits_only_to_string(1) by (auto simp: GetSortHash_def int_to_string_plain digits_only_def)

lemma GetSortHash_inj [simp]: "GetSortHash s = GetSortHash t \<longleftrightarrow> s = t"
proof -
  have under: "CHR ''_'' \<notin> set (to_string n)" for n
    using digits_only_to_string(1) [of n] by (simp add: digits_only_def)
  show ?thesis
    by (cases s; cases t)
       (auto simp: GetSortHash_def append_sep_iff int_to_string_plain under simp del: append_assoc)
qed

lemma join_nums_plain: "CHR '':'' \<notin> set (join_nums ns)"
  using digits_only_to_string(1) by (induction ns rule: join_nums.induct) (auto simp: digits_only_def)

lemma join_nums_Cons2: "join_nums (n # k # ns) = to_string n @ CHR '','' # join_nums (k # ns)"
  by simp

lemma join_nums_nonempty: "join_nums (n # ns) \<noteq> []"
  by (cases ns) auto

lemma join_nums_inj [simp]: "join_nums ms = join_nums ns \<longleftrightarrow> ms = ns"
proof (induction ms arbitrary: ns rule: join_nums.induct)
  case 1
  then show ?case using join_nums_nonempty by (cases ns) (auto, metis)
next
  case (2 m)
  have comma: "CHR '','' \<notin> set (to_string n)" for n
    using digits_only_to_string(1) [of n] by (simp add: digits_only_def)
  then have "to_string m \<noteq> to_string n @ CHR '','' # x" for n x
    by (metis in_set_conv_decomp)
  then show ?case by (cases ns rule: join_nums.cases) auto
next
  case (3 m k ms)
  have comma: "CHR '','' \<notin> set (to_string n)" for n
    using digits_only_to_string(1) [of n] by (simp add: digits_only_def)
  then have "to_string n @ CHR '','' # x \<noteq> to_string j" for n x j
    by (metis in_set_conv_decomp)
  then show ?case
    using 3 join_nums_nonempty by (cases ns rule: join_nums.cases) (auto simp: append_sep_iff comma)
qed

text \<open>Two nodes with one hash are of one kind and sort, and agree on what the hash contains.\<close>

definition op_ids :: "expr list \<Rightarrow> func option \<Rightarrow> nat list" where
  "op_ids as f = map eid as @ (case f of None \<Rightarrow> [] | Some g \<Rightarrow> [sym_id (f_sym g)])"

fun same_hash :: "(nat \<Rightarrow> int list) \<Rightarrow> expr \<Rightarrow> expr \<Rightarrow> bool" where
  "same_hash P (ExprVar y s h) (ExprVar y' s' h') = (sym_id y = sym_id y' \<and> s = s')"
| "same_hash P (ExprConst y s v) (ExprConst y' s' v') =
     (s = s' \<and> (if is_mem s then sym_id y = sym_id y' else v = v'))"
| "same_hash P (ExprOp y u s as ps f h) (ExprOp y' u' s' as' ps' f' h') =
     (u = u' \<and> s = s' \<and> op_ids as f = op_ids as' f' \<and>
      map to_size_t (ps @ P (sym_id y)) = map to_size_t (ps' @ P (sym_id y')))"
| "same_hash P a b = False"

lemma BvVal_str_inj [simp]: "BvVal_str a = BvVal_str b \<longleftrightarrow> a = b"
  by (simp add: BvVal_str_def word_unat_eq_iff)

lemma BoolVal_str_inj [simp]: "BoolVal_str a = BoolVal_str b \<longleftrightarrow> a = b"
  by (simp add: BoolVal_str_def)

text \<open>A node has a hash, unless it is an ill-formed constant.\<close>

definition hashable :: "expr \<Rightarrow> bool" where
  "hashable e \<longleftrightarrow> (\<forall>y s v. e = ExprConst y s v \<longrightarrow> wf_const s v)"

lemma wf_hashable: "wf_expr e \<Longrightarrow> hashable e"
  by (cases e) (auto simp: hashable_def)

lemma value_hash_wf:
  "wf_const s v \<Longrightarrow> value_hash (ExprConst y s v) = Inr (case v of
     BoolVal b \<Rightarrow> BoolVal_str b | BvVal x \<Rightarrow> BvVal_str x | MemVal d m \<Rightarrow> to_string (sym_id y))"
  by (cases "(s, v)" rule: wf_const.cases) auto

lemma Hash_total: "hashable e \<Longrightarrow> \<exists>h. Hash P e = Inr h"
  by (cases e) (auto simp: hashable_def value_hash_wf simp del: value_hash.simps)

lemma uid_plain: "CHR '':'' \<notin> set (to_string n)"
  using digits_only_to_string(1) [of n] by (simp add: digits_only_def)

lemma Hash_eq_iff:
  assumes "hashable a" "hashable b"
  shows "Hash P a = Hash P b \<longleftrightarrow> same_hash P a b"
proof -
  note plain = append_sep2_iff GetSortHash_plain uid_plain join_nums_plain
  have const: "wf_const s v \<Longrightarrow> wf_const s v' \<Longrightarrow>
    (case v of BoolVal b \<Rightarrow> BoolVal_str b | BvVal x \<Rightarrow> BvVal_str x | MemVal d m \<Rightarrow> to_string (sym_id y)) =
    (case v' of BoolVal b \<Rightarrow> BoolVal_str b | BvVal x \<Rightarrow> BvVal_str x | MemVal d m \<Rightarrow> to_string (sym_id y'))
    \<longleftrightarrow> (if is_mem s then sym_id y = sym_id y' else v = v')" for s v v' y y'
    by (cases "(s, v)" rule: wf_const.cases; cases "(s, v')" rule: wf_const.cases) auto
  show ?thesis
    using assms
    by (cases a; cases b)
       (auto simp: hashable_def value_hash_wf plain op_ids_def const simp del: value_hash.simps)
qed

subsection \<open>Visits only add entries, and repeating one changes nothing\<close>

lemma em_find_Inr [simp]:
  "em_find P msg e m = Inr (r, m') \<longleftrightarrow> m' = m \<and> (\<exists>h. Hash P e = Inr h \<and> m h = Some r)"
  by (auto simp: em_find_def run_simps)

lemma mapM_find_Inr:
  "mapM (em_find P msg) es m = Inr (rs, m') \<longleftrightarrow>
     m' = m \<and> list_all2 (\<lambda>e r. \<exists>h. Hash P e = Inr h \<and> m h = Some r) es rs"
  by (induction es arbitrary: rs) (auto simp: bindM_Inr_iff list_all2_Cons1)

lemma em_node_Inr:
  "em_node P node m = Inr (n, m') \<longleftrightarrow> (\<exists>rs h.
     list_all2 (\<lambda>e r. \<exists>h. Hash P e = Inr h \<and> m h = Some r) (args node) rs
     \<and> n = set_args rs node \<and> Hash P n = Inr h
     \<and> m' = (if m h = None then m(h \<mapsto> n) else m))"
proof -
  have tail: "(bindM (liftR (Hash P k)) (\<lambda>h. bindM (gets (\<lambda>m. m h)) (\<lambda>pos.
      thenM (if pos = None then modify (\<lambda>m. m(h \<mapsto> k)) else ret ()) (ret k)))) m = Inr (n, m')
      \<longleftrightarrow> (\<exists>h. n = k \<and> Hash P k = Inr h \<and> m' = (if m h = None then m(h \<mapsto> k) else m))" for k m
    by (cases "Hash P k") (auto simp: bindM_def thenM_def)
  show ?thesis
    unfolding em_node_def Let_def
    by (subst bindM_Inr_iff) (simp only: mapM_find_Inr tail, blast)
qed

lemma em_visit_Inr:
  "em_visit P x m = Inr (n, m') \<longleftrightarrow> (\<exists>as m1. mapM (em_visit P) (args x) m = Inr (as, m1)
     \<and> em_node P (set_args as x) m1 = Inr (n, m'))"
  by (simp add: em_visit.simps [of P x] bindM_Inr_iff)

lemma mapM_extends:
  assumes "\<And>x m n m'. x \<in> set xs \<Longrightarrow> f x m = Inr (n, m') \<Longrightarrow> m \<subseteq>\<^sub>m m'"
  shows "mapM f xs m = Inr (ns, m') \<Longrightarrow> m \<subseteq>\<^sub>m m'"
  using assms
proof (induction xs arbitrary: m ns)
  case (Cons x xs)
  from Cons.prems(1) obtain n m1 ns' where "f x m = Inr (n, m1)" "mapM f xs m1 = Inr (ns', m')"
    by (auto simp: bindM_Inr_iff)
  then show ?case using Cons by (meson list.set_intros map_le_trans)
qed simp

lemma em_node_extends: "em_node P node m = Inr (n, m') \<Longrightarrow> m \<subseteq>\<^sub>m m'"
  by (auto simp: em_node_Inr map_le_def)

lemma em_visit_extends: "em_visit P x m = Inr (n, m') \<Longrightarrow> m \<subseteq>\<^sub>m m'"
proof (induction x arbitrary: m n m' rule: measure_induct_rule [of size])
  case (less x)
  then obtain as m1 where 1: "mapM (em_visit P) (args x) m = Inr (as, m1)"
    "em_node P (set_args as x) m1 = Inr (n, m')" by (auto simp: em_visit_Inr)
  have "m \<subseteq>\<^sub>m m1" by (rule mapM_extends [OF _ 1(1)]) (blast intro: less.IH size_args)
  then show ?case using em_node_extends [OF 1(2)] by (rule map_le_trans)
qed

lemma find_mono: "m h = Some r \<Longrightarrow> m \<subseteq>\<^sub>m m' \<Longrightarrow> m' h = Some r"
  by (metis domI map_le_def)

lemma em_node_stable:
  assumes "em_node P node m = Inr (n, m')" "m' \<subseteq>\<^sub>m m2"
  shows "em_node P node m2 = Inr (n, m2)"
proof -
  from assms(1) obtain rs h where
    rs: "list_all2 (\<lambda>e r. \<exists>h. Hash P e = Inr h \<and> m h = Some r) (args node) rs"
    and n: "n = set_args rs node" "Hash P n = Inr h" "m' = (if m h = None then m(h \<mapsto> n) else m)"
    by (auto simp: em_node_Inr)
  have le: "m \<subseteq>\<^sub>m m2" using em_node_extends [OF assms(1)] assms(2) by (rule map_le_trans)
  have "list_all2 (\<lambda>e r. \<exists>h. Hash P e = Inr h \<and> m2 h = Some r) (args node) rs"
    by (rule list_all2_mono [OF rs]) (use find_mono [OF _ le] in blast)
  moreover have "m2 h \<noteq> None"
    using n(3) assms(2) le by (metis domIff fun_upd_same map_le_def option.distinct(1))
  ultimately show ?thesis using n(1,2) unfolding em_node_Inr by auto
qed

lemma mapM_stable:
  assumes "\<And>x m n m' m2. x \<in> set xs \<Longrightarrow> f x m = Inr (n, m') \<Longrightarrow> m' \<subseteq>\<^sub>m m2 \<Longrightarrow> f x m2 = Inr (n, m2)"
    and "\<And>x m n m'. x \<in> set xs \<Longrightarrow> f x m = Inr (n, m') \<Longrightarrow> m \<subseteq>\<^sub>m m'"
  shows "mapM f xs m = Inr (ns, m') \<Longrightarrow> m' \<subseteq>\<^sub>m m2 \<Longrightarrow> mapM f xs m2 = Inr (ns, m2)"
  using assms
proof (induction xs arbitrary: m ns)
  case Nil
  then show ?case by simp
next
  case (Cons x xs)
  from Cons.prems(1) obtain n m1 ns' where
    1: "f x m = Inr (n, m1)" "mapM f xs m1 = Inr (ns', m')" "ns = n # ns'"
    by (auto simp: bindM_Inr_iff)
  have "m1 \<subseteq>\<^sub>m m'"
    by (rule mapM_extends [OF _ 1(2)]) (rule Cons.prems(4) [OF list.set_intros(2)])
  then have "f x m2 = Inr (n, m2)"
    using Cons.prems(3) [OF _ 1(1)] map_le_trans [OF _ Cons.prems(2)] by auto
  moreover have "mapM f xs m2 = Inr (ns', m2)"
    by (rule Cons.IH [OF 1(2) Cons.prems(2)])
       (rule Cons.prems(3) [OF list.set_intros(2)] Cons.prems(4) [OF list.set_intros(2)]; assumption)+
  ultimately show ?case using 1(3) by (simp add: bindM_def)
qed

lemma em_visit_stable:
  "em_visit P x m = Inr (n, m') \<Longrightarrow> m' \<subseteq>\<^sub>m m2 \<Longrightarrow> em_visit P x m2 = Inr (n, m2)"
proof (induction x arbitrary: m n m' m2 rule: measure_induct_rule [of size])
  case (less x)
  then obtain as m1 where 1: "mapM (em_visit P) (args x) m = Inr (as, m1)"
    "em_node P (set_args as x) m1 = Inr (n, m')" by (auto simp: em_visit_Inr)
  have le: "m1 \<subseteq>\<^sub>m m2" using em_node_extends [OF 1(2)] less.prems(2) by (rule map_le_trans)
  have "mapM (em_visit P) (args x) m2 = Inr (as, m2)"
  proof (rule mapM_stable [OF _ _ 1(1) le])
    fix a m n m' m2 assume "a \<in> set (args x)" "em_visit P a m = Inr (n, m')" "m' \<subseteq>\<^sub>m m2"
    then show "em_visit P a m2 = Inr (n, m2)" using less.IH [OF size_args] by blast
  next
    fix a m n m' assume "em_visit P a m = Inr (n, m')"
    then show "m \<subseteq>\<^sub>m m'" by (rule em_visit_extends)
  qed
  moreover have "em_node P (set_args as x) m2 = Inr (n, m2)"
    by (rule em_node_stable [OF 1(2) less.prems(2)])
  ultimately show ?case by (auto simp: em_visit_Inr)
qed

lemma GetRep_Inr:
  "GetRep P x m = Inr (r, m') \<longleftrightarrow> (\<exists>n h. em_visit P x m = Inr (n, m') \<and> Hash P n = Inr h \<and> m' h = Some r)"
  by (auto simp: GetRep_def bindM_Inr_iff)

lemma GetRep_stable:
  "GetRep P x m = Inr (r, m') \<Longrightarrow> m' \<subseteq>\<^sub>m m2 \<Longrightarrow> GetRep P x m2 = Inr (r, m2)"
proof -
  assume g: "GetRep P x m = Inr (r, m')" and le: "m' \<subseteq>\<^sub>m m2"
  then obtain n h where "em_visit P x m = Inr (n, m')" "Hash P n = Inr h" "m' h = Some r"
    by (auto simp: GetRep_Inr)
  then have "em_visit P x m2 = Inr (n, m2)" "Hash P n = Inr h" "m2 h = Some r"
    using em_visit_stable [OF _ le] find_mono [OF _ le] by auto
  then show ?thesis unfolding GetRep_Inr by blast
qed

subsection \<open>Representatives mean the same\<close>

fun efunc :: "expr \<Rightarrow> func option" where
  "efunc (ExprOp y u s as ps f h) = f"
| "efunc e = None"

text \<open>The expressions a manager works on: well-formed nodes with \<^verbatim>\<open>int\<close> parameters, in
  which identifiers determine nodes and functions.\<close>

definition em_dom :: "expr set \<Rightarrow> bool" where
  "em_dom S \<longleftrightarrow> dag S \<and> (\<forall>x\<in>S. wf_expr x \<and> (\<forall>p\<in>set (params x). - (2 ^ 31) \<le> p \<and> p < 2 ^ 31))
     \<and> inj_on (\<lambda>g. sym_id (f_sym g)) {g. \<exists>x\<in>S. efunc x = Some g}"

text \<open>\<open>n\<close> is the node \<open>x\<close> after its visit.\<close>

definition visited :: "(nat \<Rightarrow> int list) \<Rightarrow> em_map \<Rightarrow> expr \<Rightarrow> expr \<Rightarrow> bool" where
  "visited P m x n \<longleftrightarrow> em_visit P x m = Inr (n, m) \<and> n = set_args (args n) x \<and> wf_expr n
     \<and> (\<forall>\<rho> \<phi>. eval \<rho> \<phi> n = eval \<rho> \<phi> x) \<and> set (args n) \<subseteq> ran m"

definition em_inv :: "expr set \<Rightarrow> (nat \<Rightarrow> int list) \<Rightarrow> em_map \<Rightarrow> bool" where
  "em_inv S P m \<longleftrightarrow> (\<forall>h e. m h = Some e \<longrightarrow> Hash P e = Inr h \<and> (\<exists>x\<in>S. visited P m x e))
     \<and> inj_on eid (ran m)"

lemma em_inv_New [simp]: "em_inv S P ExprMngr_New"
  by (simp add: em_inv_def ExprMngr_New_def)

lemma em_invD:
  assumes "em_inv S P m" "e \<in> ran m"
  obtains x h where "x \<in> S" "visited P m x e" "Hash P e = Inr h" "m h = Some e"
proof -
  obtain h where "m h = Some e" using assms(2) by (auto simp: ran_def)
  then show thesis using that assms(1) unfolding em_inv_def by blast
qed

lemma set_args_simps [simp]:
  "eid (set_args as x) = eid x" "esort (set_args as x) = esort x" "params (set_args as x) = params x"
  "efunc (set_args as x) = efunc x"
  by (cases x; simp)+

lemma set_args_kind:
  "set_args as x = ExprVar y s h \<longleftrightarrow> x = ExprVar y s h"
  "set_args as x = ExprConst y s v \<longleftrightarrow> x = ExprConst y s v"
  by (cases x; simp)+

lemma visited_simps:
  assumes "visited P m x n"
  shows "eid n = eid x" "esort n = esort x" "params n = params x" "efunc n = efunc x"
  using assms by (metis visited_def set_args_simps)+

lemma visited_mono: "visited P m x n \<Longrightarrow> m \<subseteq>\<^sub>m m' \<Longrightarrow> visited P m' x n"
proof -
  assume v: "visited P m x n" and le: "m \<subseteq>\<^sub>m m'"
  have "ran m \<subseteq> ran m'" using find_mono [OF _ le] by (fastforce simp: ran_def)
  then show ?thesis using v em_visit_stable [OF _ le] unfolding visited_def by blast
qed

lemma to_size_t_inj:
  "- (2 ^ 31) \<le> p \<Longrightarrow> p < 2 ^ 31 \<Longrightarrow> - (2 ^ 31) \<le> q \<Longrightarrow> q < 2 ^ 31 \<Longrightarrow>
   to_size_t p = to_size_t q \<Longrightarrow> p = q"
proof -
  assume b: "- (2 ^ 31) \<le> p" "p < 2 ^ 31" "- (2 ^ 31) \<le> q" "q < 2 ^ 31" and e: "to_size_t p = to_size_t q"
  have "p mod 2 ^ 64 = q mod 2 ^ 64" using e by (simp add: to_size_t_def)
  moreover have "x mod 2 ^ 64 = (if x < 0 then x + 2 ^ 64 else x)" if "- (2 ^ 31) \<le> x" "x < 2 ^ 31" for x :: int
    using that by (auto simp: mod_pos_pos_trivial zmod_trivial_iff intro!: int_mod_pos_eq [of _ _ "-1"])
  ultimately show "p = q" using b by (auto split: if_splits)
qed

lemma op_ids_args:
  assumes "op_ids as f = op_ids as' f'" "f = None \<longleftrightarrow> f' = None"
  shows "map eid as = map eid as' \<and> map_option (\<lambda>g. sym_id (f_sym g)) f = map_option (\<lambda>g. sym_id (f_sym g)) f'"
  using assms by (auto simp: op_ids_def split: option.splits)

text \<open>The entry found under the hash of a visited node means what the node means.\<close>

lemma rep_ok:
  assumes S: "em_dom S" and inv: "em_inv S P m" and x: "x \<in> S" "visited P m x n"
    and h: "Hash P n = Inr h" "m h = Some r"
  shows "esort r = esort x \<and> wf_expr r \<and> (\<forall>\<rho> \<phi>. eval \<rho> \<phi> r = eval \<rho> \<phi> x)"
proof -
  obtain y where y: "y \<in> S" "visited P m y r" "Hash P r = Inr h"
    using inv h(2) by (auto simp: em_inv_def)
  have wf: "wf_expr n" "wf_expr r" using x(2) y(2) by (auto simp: visited_def)
  have same: "same_hash P n r"
    using Hash_eq_iff [OF wf [THEN wf_hashable], of P] h(1) y(3) by simp
  have "r = n" if "eid n = eid r"
  proof -
    have "x = y" using that visited_simps(1) [OF x(2)] visited_simps(1) [OF y(2)] S x(1) y(1)
      by (auto simp: em_dom_def dag_def dest: inj_onD)
    then show ?thesis using x(2) y(2) by (simp add: visited_def)
  qed
  moreover have "esort r = esort n \<and> (\<forall>\<rho> \<phi>. eval \<rho> \<phi> r = eval \<rho> \<phi> n)" if "eid n \<noteq> eid r"
  proof (cases n)
    case (ExprVar yn s hn)
    then show ?thesis using same that by (cases r) auto
  next
    case (ExprConst yn s v)
    then show ?thesis using same that by (cases r) (auto split: if_splits)
  next
    case (ExprOp yn u s as ps f hn)
    then obtain yr as' ps' f' hr where r: "r = ExprOp yr u s as' ps' f' hr"
      and eq: "op_ids as f = op_ids as' f'"
        "map to_size_t (ps @ P (sym_id yn)) = map to_size_t (ps' @ P (sym_id yr))"
      using same by (cases r) auto
    have shape: "op_shape u ps f" "op_shape u ps' f'"
      and srt: "op_sort u (map esort as) ps f = Some s" "op_sort u (map esort as') ps' f' = Some s"
      using wf ExprOp r by simp_all
    have none: "f = None \<longleftrightarrow> f' = None" using shape by (auto simp: op_shape_def)
    note ids = op_ids_args [OF eq(1) none]
    have args: "as = as'"
      using ids inv x(2) y(2) ExprOp r
      by (intro map_inj_on [of eid as as']) (auto simp: visited_def em_inv_def intro: inj_on_subset)
    have fs: "f = f'"
    proof (cases f)
      case None
      then show ?thesis using none by simp
    next
      case (Some g)
      then obtain g' where g': "f' = Some g'" "sym_id (f_sym g) = sym_id (f_sym g')"
        using ids none by auto
      have "efunc x = Some g" "efunc y = Some g'"
        using visited_simps(4) [OF x(2)] visited_simps(4) [OF y(2)] Some g'(1) ExprOp r by auto
      then have "g = g'" using S x(1) y(1) g'(2) by (auto simp: em_dom_def dest: inj_onD)
      then show ?thesis using Some g'(1) by simp
    qed
    have "length ps = length ps'"
      using op_sort_nparams [OF srt(1) shape(1)] op_sort_nparams [OF srt(2) shape(2)] by simp
    then have "map to_size_t ps = map to_size_t ps'" using eq(2) by simp
    moreover have "\<forall>p\<in>set ps \<union> set ps'. - (2 ^ 31) \<le> p \<and> p < 2 ^ 31"
      using S x(1) y(1) visited_simps(3) [OF x(2)] visited_simps(3) [OF y(2)] ExprOp r
      by (auto simp: em_dom_def)
    ultimately have "ps = ps'"
      by (intro map_inj_on [of to_size_t ps ps']) (auto intro!: inj_onI to_size_t_inj)
    then show ?thesis using ExprOp r args fs by simp
  qed
  ultimately have "esort r = esort n \<and> (\<forall>\<rho> \<phi>. eval \<rho> \<phi> r = eval \<rho> \<phi> n)" by metis
  then show ?thesis using wf(2) x(2) visited_simps(2) [OF x(2)] by (auto simp: visited_def)
qed

text \<open>A node is found under its own hash, or under the hash of an equal one.\<close>

definition has_rep :: "(nat \<Rightarrow> int list) \<Rightarrow> em_map \<Rightarrow> expr \<Rightarrow> bool" where
  "has_rep P m n \<longleftrightarrow> (\<exists>h r. Hash P n = Inr h \<and> m h = Some r)"

lemma has_rep_mono: "has_rep P m n \<Longrightarrow> m \<subseteq>\<^sub>m m' \<Longrightarrow> has_rep P m' n"
proof -
  assume r: "has_rep P m n" and le: "m \<subseteq>\<^sub>m m'"
  show ?thesis using r find_mono [OF _ le] unfolding has_rep_def by blast
qed

lemma mapM_step:
  "f x s = Inr (y, t) \<Longrightarrow> mapM f xs t = Inr (ys, u) \<Longrightarrow> mapM f (x # xs) s = Inr (y # ys, u)"
  by (simp add: bindM_def)

lemma mapM_visit:
  assumes "\<And>a m. a \<in> set as \<Longrightarrow> em_inv S P m \<Longrightarrow>
      \<exists>n m'. em_visit P a m = Inr (n, m') \<and> em_inv S P m' \<and> visited P m' a n \<and> has_rep P m' n"
    and "em_inv S P m"
  shows "\<exists>ns m'. mapM (em_visit P) as m = Inr (ns, m') \<and> em_inv S P m'
    \<and> list_all2 (\<lambda>a n. visited P m' a n \<and> has_rep P m' n) as ns"
  using assms
proof (induction as arbitrary: m)
  case Nil
  then show ?case by simp
next
  case (Cons a as)
  obtain n m1 where 1: "em_visit P a m = Inr (n, m1)" "em_inv S P m1" "visited P m1 a n" "has_rep P m1 n"
    using Cons.prems(1) [OF list.set_intros(1) Cons.prems(2)] by blast
  have "\<exists>ns m'. mapM (em_visit P) as m1 = Inr (ns, m') \<and> em_inv S P m'
    \<and> list_all2 (\<lambda>a n. visited P m' a n \<and> has_rep P m' n) as ns"
  proof (rule Cons.IH [OF _ 1(2)])
    fix b m assume "b \<in> set as" "em_inv S P m"
    then show "\<exists>n m'. em_visit P b m = Inr (n, m') \<and> em_inv S P m' \<and> visited P m' b n \<and> has_rep P m' n"
      by (intro Cons.prems(1)) simp_all
  qed
  then obtain ns m2 where 2: "mapM (em_visit P) as m1 = Inr (ns, m2)" "em_inv S P m2"
    "list_all2 (\<lambda>a n. visited P m2 a n \<and> has_rep P m2 n) as ns" by blast
  have le: "m1 \<subseteq>\<^sub>m m2"
  proof (rule mapM_extends [OF _ 2(1)])
    fix b m n m' assume "em_visit P b m = Inr (n, m')"
    then show "m \<subseteq>\<^sub>m m'" by (rule em_visit_extends)
  qed
  have "mapM (em_visit P) (a # as) m = Inr (n # ns, m2)"
    by (rule mapM_step [OF 1(1) 2(1)])
  moreover have "list_all2 (\<lambda>a n. visited P m2 a n \<and> has_rep P m2 n) (a # as) (n # ns)"
    using 2(3) visited_mono [OF 1(3) le] has_rep_mono [OF 1(4) le] by simp
  ultimately show ?case using 2(2) by blast
qed

lemma args_set_args: "length as = length (args x) \<Longrightarrow> args (set_args as x) = as"
  by (cases x) auto

lemma set_args_set_args: "set_args as (set_args bs x) = set_args as x"
  by (cases x) auto

text \<open>Replacing the arguments by nodes that mean the same.\<close>

lemma eval_set_args:
  assumes "wf_expr x" "list_all2 (\<lambda>a r. esort r = esort a \<and> wf_expr r \<and> (\<forall>\<rho> \<phi>. eval \<rho> \<phi> r = eval \<rho> \<phi> a)) (args x) rs"
  shows "wf_expr (set_args rs x) \<and> (\<forall>\<rho> \<phi>. eval \<rho> \<phi> (set_args rs x) = eval \<rho> \<phi> x)"
proof (cases x)
  case (ExprOp y u s as ps f h)
  have l: "list_all2 (\<lambda>a r. esort r = esort a \<and> wf_expr r \<and> (\<forall>\<rho> \<phi>. eval \<rho> \<phi> r = eval \<rho> \<phi> a)) as rs"
    using assms(2) ExprOp by simp
  have "map esort rs = map esort as \<and> list_all wf_expr rs \<and>
      (\<forall>\<rho> \<phi>. map (eval \<rho> \<phi>) rs = map (eval \<rho> \<phi>) as)"
    using l by (induction rule: list_all2_induct) auto
  then show ?thesis using assms(1) ExprOp by (simp split: option.split)
qed (use assms in auto)

lemma em_visit_ok:
  assumes S: "em_dom S"
  shows "x \<in> S \<Longrightarrow> em_inv S P m \<Longrightarrow>
    \<exists>n m'. em_visit P x m = Inr (n, m') \<and> em_inv S P m' \<and> visited P m' x n \<and> has_rep P m' n"
proof (induction x arbitrary: m rule: measure_induct_rule [of size])
  case (less x)
  have sub: "set (args x) \<subseteq> S" using S less.prems(1) by (auto simp: em_dom_def dag_def)
  have "\<exists>ns m'. mapM (em_visit P) (args x) m = Inr (ns, m') \<and> em_inv S P m'
    \<and> list_all2 (\<lambda>a n. visited P m' a n \<and> has_rep P m' n) (args x) ns"
  proof (rule mapM_visit)
    fix a m assume "a \<in> set (args x)" "em_inv S P m"
    then show "\<exists>n m'. em_visit P a m = Inr (n, m') \<and> em_inv S P m' \<and> visited P m' a n \<and> has_rep P m' n"
      using less.IH [OF size_args] sub by blast
  qed (rule less.prems(2))
  then obtain ns m1 where 1: "mapM (em_visit P) (args x) m = Inr (ns, m1)" "em_inv S P m1"
    "list_all2 (\<lambda>a n. visited P m1 a n \<and> has_rep P m1 n) (args x) ns" by blast
  have "\<exists>rs. list_all2 (\<lambda>n r. \<exists>h. Hash P n = Inr h \<and> m1 h = Some r) ns rs
    \<and> list_all2 (\<lambda>a r. esort r = esort a \<and> wf_expr r \<and> (\<forall>\<rho> \<phi>. eval \<rho> \<phi> r = eval \<rho> \<phi> a)) (args x) rs"
    using 1(3) sub
  proof (induction rule: list_all2_induct)
    case Nil
    then show ?case by simp
  next
    case (Cons a as n ns)
    then obtain rs h r where "list_all2 (\<lambda>n r. \<exists>h. Hash P n = Inr h \<and> m1 h = Some r) ns rs"
      "list_all2 (\<lambda>a r. esort r = esort a \<and> wf_expr r \<and> (\<forall>\<rho> \<phi>. eval \<rho> \<phi> r = eval \<rho> \<phi> a)) as rs"
      "Hash P n = Inr h" "m1 h = Some r" "a \<in> S" "visited P m1 a n"
      by (auto simp: has_rep_def)
    then show ?case using rep_ok [OF S 1(2)] by (intro exI [of _ "r # rs"]) blast+
  qed
  then obtain rs where rs: "list_all2 (\<lambda>n r. \<exists>h. Hash P n = Inr h \<and> m1 h = Some r) ns rs"
    "list_all2 (\<lambda>a r. esort r = esort a \<and> wf_expr r \<and> (\<forall>\<rho> \<phi>. eval \<rho> \<phi> r = eval \<rho> \<phi> a)) (args x) rs"
    by blast
  have len: "length ns = length (args x)" "length rs = length (args x)"
    using 1(3) rs(2) by (auto dest: list_all2_lengthD)
  define n where "n = set_args rs x"
  have n: "wf_expr n" "\<forall>\<rho> \<phi>. eval \<rho> \<phi> n = eval \<rho> \<phi> x"
    using eval_set_args [OF _ rs(2)] S less.prems(1) by (auto simp: n_def em_dom_def)
  obtain h where h: "Hash P n = Inr h" using Hash_total [OF wf_hashable [OF n(1)]] by blast
  define m2 where "m2 = (if m1 h = None then m1(h \<mapsto> n) else m1)"
  have node: "em_node P (set_args ns x) m1 = Inr (n, m2)"
    using rs(1) h unfolding em_node_Inr
    by (auto simp: args_set_args [OF len(1)] set_args_set_args n_def m2_def)
  then have run: "em_visit P x m = Inr (n, m2)" using 1(1) by (auto simp: em_visit_Inr)
  have le: "m1 \<subseteq>\<^sub>m m2" by (rule em_node_extends [OF node])
  have stable: "em_visit P x m2 = Inr (n, m2)" by (rule em_visit_stable [OF run]) simp
  have "set rs \<subseteq> ran m1"
    using rs(1) by (induction rule: list_all2_induct) (auto simp: ran_def)
  then have "set (args n) \<subseteq> ran m2"
    using len(2) find_mono [OF _ le] by (fastforce simp: n_def args_set_args ran_def)
  moreover have "n = set_args (args n) x"
    by (simp add: n_def args_set_args [OF len(2)])
  ultimately have v: "visited P m2 x n" using stable n by (simp add: visited_def)
  have rep: "has_rep P m2 n" using h by (auto simp: has_rep_def m2_def)
  have "em_inv S P m2"
  proof (cases "m1 h = None")
    case False
    then have "m2 = m1" by (auto simp: m2_def)
    then show ?thesis using 1(2) by simp
  next
    case True
    have fresh: "eid e \<noteq> eid n" if e: "e \<in> ran m1" for e
    proof
      assume same: "eid e = eid n"
      obtain y where y: "y \<in> S" "visited P m1 y e" using em_invD [OF 1(2) e] by metis
      have "y = x"
        using same visited_simps(1) [OF y(2)] S y(1) less.prems(1)
        by (auto simp: n_def em_dom_def dag_def dest: inj_onD)
      then have "em_visit P x m1 = Inr (e, m1)" using y(2) by (simp add: visited_def)
      moreover have "mapM (em_visit P) (args x) m1 = Inr (ns, m1)"
      proof (rule mapM_stable [OF _ _ 1(1)])
        fix a m n m' m2 assume "em_visit P a m = Inr (n, m')" "m' \<subseteq>\<^sub>m m2"
        then show "em_visit P a m2 = Inr (n, m2)" by (rule em_visit_stable)
      next
        fix a m n m' assume "em_visit P a m = Inr (n, m')"
        then show "m \<subseteq>\<^sub>m m'" by (rule em_visit_extends)
      qed simp
      ultimately have "m2 = m1" using node by (simp add: em_visit.simps [of P x] bindM_def)
      then show False using True by (metis m2_def fun_upd_same option.distinct(1))
    qed
    have ran: "ran m2 = insert n (ran m1)" using True by (simp add: m2_def)
    have "inj_on eid (ran m2)"
    proof (rule inj_onI)
      fix a b assume "a \<in> ran m2" "b \<in> ran m2" "eid a = eid b"
      moreover have "inj_on eid (ran m1)" using 1(2) by (simp add: em_inv_def)
      ultimately show "a = b" using fresh unfolding ran by (metis inj_onD insert_iff)
    qed
    moreover have "Hash P e = Inr k \<and> (\<exists>y\<in>S. visited P m2 y e)" if "m2 k = Some e" for k e
    proof (cases "k = h")
      case True
      then have "e = n" using that \<open>m1 h = None\<close> by (simp add: m2_def)
      then show ?thesis using True h v less.prems(1) by auto
    next
      case False
      then have "m1 k = Some e" using that True by (simp add: m2_def)
      then show ?thesis using 1(2) visited_mono [OF _ le] by (fastforce simp: em_inv_def)
    qed
    ultimately show ?thesis by (simp add: em_inv_def)
  qed
  with run v rep show ?case by blast
qed

lemma GetRep_ok:
  assumes "em_dom S" "x \<in> S" "em_inv S P m"
  obtains r m' where "GetRep P x m = Inr (r, m')" "em_inv S P m'" "m \<subseteq>\<^sub>m m'"
    "esort r = esort x" "wf_expr r" "\<And>\<rho> \<phi>. eval \<rho> \<phi> r = eval \<rho> \<phi> x"
proof -
  obtain n m' h r where 1: "em_visit P x m = Inr (n, m')" "em_inv S P m'" "visited P m' x n"
    "Hash P n = Inr h" "m' h = Some r"
    using em_visit_ok [OF assms] by (auto simp: has_rep_def)
  have "GetRep P x m = Inr (r, m')" using 1 by (auto simp: GetRep_Inr)
  then show thesis
    using that 1(2) em_visit_extends [OF 1(1)] rep_ok [OF assms(1) 1(2) assms(2) 1(3-5)] by blast
qed

subsection \<open>Which expressions share a representative\<close>

text \<open>Equal up to the identifiers of operators and of Boolean and bit-vector constants.\<close>

fun alike :: "(nat \<Rightarrow> int list) \<Rightarrow> expr \<Rightarrow> expr \<Rightarrow> bool" where
  "alike P (ExprVar y s h) (ExprVar y' s' h') = (sym_id y = sym_id y' \<and> s = s')"
| "alike P (ExprConst y s v) (ExprConst y' s' v') =
     (s = s' \<and> (if is_mem s then sym_id y = sym_id y' else v = v'))"
| "alike P (ExprOp y u s as ps f h) (ExprOp y' u' s' as' ps' f' h') =
     (u = u' \<and> s = s' \<and> list_all2 (alike P) as as'
      \<and> map_option (\<lambda>g. sym_id (f_sym g)) f = map_option (\<lambda>g. sym_id (f_sym g)) f'
      \<and> map to_size_t (ps @ P (sym_id y)) = map to_size_t (ps' @ P (sym_id y')))"
| "alike P a b = False"

text \<open>\<open>r\<close> represents \<open>x\<close> in the table.\<close>

definition represents :: "(nat \<Rightarrow> int list) \<Rightarrow> em_map \<Rightarrow> expr \<Rightarrow> expr \<Rightarrow> bool" where
  "represents P m x r \<longleftrightarrow> (\<exists>n h. visited P m x n \<and> Hash P n = Inr h \<and> m h = Some r)"

lemma mapM_const:
  assumes "\<And>a m n m'. a \<in> set as \<Longrightarrow> f a m = Inr (n, m') \<Longrightarrow> m \<subseteq>\<^sub>m m'"
  shows "mapM f as m = Inr (ns, m) \<Longrightarrow> list_all2 (\<lambda>a n. f a m = Inr (n, m)) as ns"
  using assms
proof (induction as arbitrary: ns)
  case Nil
  then show ?case by simp
next
  case (Cons a as)
  from Cons.prems(1) obtain n m1 ns' where
    1: "f a m = Inr (n, m1)" "mapM f as m1 = Inr (ns', m)" "ns = n # ns'"
    by (auto simp: bindM_Inr_iff)
  have "m \<subseteq>\<^sub>m m1" using Cons.prems(2) [OF _ 1(1)] by simp
  moreover have "m1 \<subseteq>\<^sub>m m"
    by (rule mapM_extends [OF _ 1(2)]) (rule Cons.prems(2) [OF list.set_intros(2)])
  ultimately have m1: "m1 = m" by (rule map_le_antisym [symmetric])
  have "list_all2 (\<lambda>a n. f a m = Inr (n, m)) as ns'"
    by (rule Cons.IH) (use 1(2) m1 Cons.prems(2) list.set_intros(2) in metis)+
  then show ?case using 1 m1 by simp
qed

lemma visited_args:
  assumes S: "em_dom S" and inv: "em_inv S P m" and x: "x \<in> S" "visited P m x n"
  shows "list_all2 (represents P m) (args x) (args n)"
proof -
  have sub: "set (args x) \<subseteq> S" using S x(1) by (auto simp: em_dom_def dag_def)
  obtain as m1 where 1: "mapM (em_visit P) (args x) m = Inr (as, m1)"
    "em_node P (set_args as x) m1 = Inr (n, m)" using x(2) by (auto simp: visited_def em_visit_Inr)
  have "m \<subseteq>\<^sub>m m1"
    by (rule mapM_extends [OF _ 1(1)]) (rule em_visit_extends)
  then have m1: "m1 = m" using em_node_extends [OF 1(2)] by (metis map_le_antisym)
  have v: "list_all2 (\<lambda>a n. em_visit P a m = Inr (n, m)) (args x) as"
    by (rule mapM_const) (rule em_visit_extends, assumption, use 1(1) m1 in simp)
  then have len: "length as = length (args x)" by (auto dest: list_all2_lengthD)
  obtain rs where rs: "list_all2 (\<lambda>e r. \<exists>h. Hash P e = Inr h \<and> m h = Some r) as rs"
    "n = set_args rs (set_args as x)"
    using 1(2) m1 by (auto simp: em_node_Inr args_set_args [OF len])
  have "args n = rs"
    using rs len by (simp add: set_args_set_args args_set_args list_all2_lengthD)
  moreover have "list_all2 (represents P m) (args x) rs"
    using v rs(1) sub
  proof (induction arbitrary: rs rule: list_all2_induct)
    case Nil
    then show ?case by simp
  next
    case (Cons a xs k ks)
    obtain r rs' h where r: "rs = r # rs'" "Hash P k = Inr h" "m h = Some r"
      "list_all2 (\<lambda>e r. \<exists>h. Hash P e = Inr h \<and> m h = Some r) ks rs'"
      using Cons.prems(1) by (auto simp: list_all2_Cons1)
    have "a \<in> S" using Cons.prems(2) by simp
    from em_visit_ok [OF S this inv] Cons.hyps(1) have "visited P m a k" by auto
    then have "represents P m a r" using r(2,3) by (auto simp: represents_def)
    then show ?case using Cons.IH [OF r(4)] Cons.prems(2) r(1) by simp
  qed
  ultimately show ?thesis by simp
qed

lemma represents_eq_iff_hash:
  assumes "em_inv S P m" "Hash P n = Inr h" "m h = Some r" "Hash P n' = Inr h'" "m h' = Some r'"
  shows "r = r' \<longleftrightarrow> Hash P n = Hash P n'"
proof -
  have "Hash P r = Inr h" "Hash P r' = Inr h'" using assms(1,3,5) by (auto simp: em_inv_def)
  then show ?thesis using assms(2-5) by auto
qed

lemma list_all2_iff_eq:
  assumes "list_all2 R as rs" "list_all2 R bs ss"
    and "\<And>a b r s. a \<in> set as \<Longrightarrow> b \<in> set bs \<Longrightarrow> R a r \<Longrightarrow> R b s \<Longrightarrow> (r = s \<longleftrightarrow> Q a b)"
  shows "rs = ss \<longleftrightarrow> list_all2 Q as bs"
  using assms
proof (induction as arbitrary: rs bs ss)
  case Nil
  then show ?case by (cases bs) (auto dest: list_all2_lengthD)
next
  case (Cons a as)
  show ?case
  proof (cases bs)
    case Nil
    then show ?thesis using Cons.prems(1,2) by (auto simp: list_all2_Cons1)
  next
    case (Cons b bs')
    then obtain r rs' s ss' where rs: "rs = r # rs'" "R a r" "list_all2 R as rs'"
      "ss = s # ss'" "R b s" "list_all2 R bs' ss'"
      using Cons.prems(1,2) by (auto simp: list_all2_Cons1)
    have "rs' = ss' \<longleftrightarrow> list_all2 Q as bs'"
      by (rule Cons.IH [OF rs(3,6)]) (use Cons.prems(3) Cons in auto)
    moreover have "r = s \<longleftrightarrow> Q a b" by (rule Cons.prems(3)) (use rs Cons in auto)
    ultimately show ?thesis using rs Cons by simp
  qed
qed

lemma represents_alike:
  assumes S: "em_dom S" and inv: "em_inv S P m"
  shows "x \<in> S \<Longrightarrow> y \<in> S \<Longrightarrow> represents P m x r \<Longrightarrow> represents P m y s \<Longrightarrow> r = s \<longleftrightarrow> alike P x y"
proof (induction x arbitrary: y r s rule: measure_induct_rule [of size])
  case (less x)
  obtain n h where n: "visited P m x n" "Hash P n = Inr h" "m h = Some r"
    using less.prems(3) by (auto simp: represents_def)
  obtain k h' where k: "visited P m y k" "Hash P k = Inr h'" "m h' = Some s"
    using less.prems(4) by (auto simp: represents_def)
  have wf: "wf_expr n" "wf_expr k" using n(1) k(1) by (auto simp: visited_def)
  have "r = s \<longleftrightarrow> Hash P n = Hash P k"
    by (rule represents_eq_iff_hash [OF inv n(2,3) k(2,3)])
  also have "\<dots> \<longleftrightarrow> same_hash P n k" by (rule Hash_eq_iff [OF wf [THEN wf_hashable]])
  also have "\<dots> \<longleftrightarrow> alike P x y"
  proof -
    have sets: "n = set_args (args n) x" "k = set_args (args k) y"
      using n(1) k(1) by (auto simp: visited_def)
    have as: "list_all2 (represents P m) (args x) (args n)" "list_all2 (represents P m) (args y) (args k)"
      using visited_args [OF S inv] less.prems(1,2) n(1) k(1) by auto
    have eq: "args n = args k \<longleftrightarrow> list_all2 (alike P) (args x) (args y)"
    proof (rule list_all2_iff_eq [OF as])
      fix a b r s assume ab: "a \<in> set (args x)" "b \<in> set (args y)" "represents P m a r" "represents P m b s"
      then have "a \<in> S" "b \<in> S" using S less.prems(1,2) by (auto simp: em_dom_def dag_def)
      then show "r = s \<longleftrightarrow> alike P a b"
        by (rule less.IH [OF size_args [OF ab(1)] _ _ ab(3,4)])
    qed
    have ids: "map eid (args n) = map eid (args k) \<longleftrightarrow> args n = args k"
      using n(1) k(1) inv
      by (auto simp: visited_def em_inv_def intro!: map_inj_on [of eid "args n" "args k"] intro: inj_on_subset)
    show ?thesis
    proof (cases x)
      case (ExprOp yx u sx axs ps f hx)
      note X = ExprOp
      show ?thesis
      proof (cases y)
        case (ExprOp yy u' sy ays ps' f' hy)
        have N: "n = ExprOp yx u sx (args n) ps f hx" "k = ExprOp yy u' sy (args k) ps' f' hy"
          using sets X ExprOp by simp_all
        have shape: "op_shape u ps f" "op_shape u' ps' f'"
          using wf N by (metis wf_expr.simps(3))+
        have "op_ids (args n) f = op_ids (args k) f' \<longleftrightarrow> args n = args k \<and>
            map_option (\<lambda>g. sym_id (f_sym g)) f = map_option (\<lambda>g. sym_id (f_sym g)) f'" if "u = u'"
          using shape that ids by (cases f; cases f') (auto simp: op_ids_def op_shape_def)
        then show ?thesis
          using eq X ExprOp by (subst N(1), subst N(2)) auto
      next
        case (ExprVar y1 s1 h1)
        obtain ns where "n = ExprOp yx u sx ns ps f hx" using sets(1) [unfolded X set_args.simps] ..
        then show ?thesis using sets(2) [unfolded ExprVar set_args.simps] X ExprVar by simp
      next
        case (ExprConst y1 s1 v1)
        obtain ns where "n = ExprOp yx u sx ns ps f hx" using sets(1) [unfolded X set_args.simps] ..
        then show ?thesis using sets(2) [unfolded ExprConst set_args.simps] X ExprConst by simp
      qed
    next
      case (ExprVar y1 s1 h1)
      have "n = x" using sets(1) [unfolded ExprVar set_args.simps] ExprVar by simp
      moreover obtain bs where "k = set_args bs y" using sets(2) ..
      ultimately show ?thesis by (cases y) (simp_all add: ExprVar)
    next
      case (ExprConst y1 s1 v1)
      have "n = x" using sets(1) [unfolded ExprConst set_args.simps] ExprConst by simp
      moreover obtain bs where "k = set_args bs y" using sets(2) ..
      ultimately show ?thesis by (cases y) (simp_all add: ExprConst)
    qed
  qed
  finally show ?case .
qed

lemma GetRep_represents:
  assumes "em_dom S" "x \<in> S" "em_inv S P m" "GetRep P x m = Inr (r, m')"
  shows "represents P m' x r" "em_inv S P m'" "m \<subseteq>\<^sub>m m'"
proof -
  obtain n h where n: "em_visit P x m = Inr (n, m')" "Hash P n = Inr h" "m' h = Some r"
    using assms(4) by (auto simp: GetRep_Inr)
  then have "visited P m' x n" "em_inv S P m'" using em_visit_ok [OF assms(1-3)] by auto
  then show "represents P m' x r" "em_inv S P m'" "m \<subseteq>\<^sub>m m'"
    using n em_visit_extends [OF n(1)] by (auto simp: represents_def)
qed

lemma represents_mono: "represents P m x r \<Longrightarrow> m \<subseteq>\<^sub>m m' \<Longrightarrow> represents P m' x r"
proof -
  assume r: "represents P m x r" and le: "m \<subseteq>\<^sub>m m'"
  show ?thesis using r visited_mono [OF _ le] find_mono [OF _ le] unfolding represents_def by blast
qed

end
