(* ===== verification/Ila.thy ===== *)
theory Ila
  imports Ast_Hub
begin

text \<open>
  The instruction-level abstraction: instructions (\<^verbatim>\<open>src/ila/instr.cc\<close>), instruction
  sequencing (\<^verbatim>\<open>src/ila/transition.cc\<close>) and the ILA itself
  (\<^verbatim>\<open>src/ila/instr_lvl_abs.cc\<close>).  An operation takes the identifier of its object;
  a pointer argument that the code checks against null is an option.
\<close>

subsection \<open>Instructions\<close>

definition Instr_New :: "string \<Rightarrow> nat option \<Rightarrow> nat W" where
  "Instr_New name h =
     bindM (on_counter (Symbol_str name)) (\<lambda>y.
     bindM (modify (\<lambda>w. w\<lparr>instr_heap := (instr_heap w)(sym_id y \<mapsto>
       \<lparr>i_sym = y, decode = None, updates = [], i_host = h, prog = None\<rparr>)\<rparr>)) (\<lambda>_.
     ret (sym_id y)))"

text \<open>\<^verbatim>\<open>Unify\<close> of an instruction and of an ILA: \<^verbatim>\<open>kUnifyAst\<close> is false, so that every
  expression represents itself.\<close>

definition Unify :: "expr \<Rightarrow> expr W" where
  "Unify e = ret e"

definition ForceSetDecode :: "nat \<Rightarrow> expr option \<Rightarrow> unit W" where
  "ForceSetDecode k d =
     bindM (ila_not_null d) (\<lambda>e.
     thenM (ila_check (is_bool (esort e)) ''Decode must have Boolean sort.'')
    (bindM (Unify e) (\<lambda>e'. upd_instr k (\<lambda>i. i\<lparr>decode := Some e'\<rparr>))))"

definition set_decode :: "nat \<Rightarrow> expr option \<Rightarrow> unit W" where
  "set_decode k d =
     bindM (the_instr k) (\<lambda>i. if decode i = None then ForceSetDecode k d else ret ())"

text \<open>\<^verbatim>\<open>updates_[name] = update\<close>: \<open>Unify\<close> is the identity, and the expression is not
  checked, not even against null.\<close>

definition ForceAddUpdate :: "nat \<Rightarrow> string \<Rightarrow> expr option \<Rightarrow> unit W" where
  "ForceAddUpdate k name u =
     upd_instr k (\<lambda>i. i\<lparr>updates := omap_put str_less name u (updates i)\<rparr>)"

definition set_update_name :: "nat \<Rightarrow> string \<Rightarrow> expr option \<Rightarrow> unit W" where
  "set_update_name k name u =
     bindM (the_instr k) (\<lambda>i.
       if map_of (updates i) name = None then ForceAddUpdate k name u else ret ())"

definition set_update :: "nat \<Rightarrow> expr \<Rightarrow> expr option \<Rightarrow> unit W" where
  "set_update k stt u = set_update_name k (ename stt) u"

text \<open>What an instruction makes of a state: its update, or the state itself.\<close>

definition next_state :: "world \<Rightarrow> nat \<Rightarrow> expr \<Rightarrow> expr" where
  "next_state w k s = (case instr_heap w k of
       Some x \<Rightarrow> (case map_of (updates x) (ename s) of Some (Some u) \<Rightarrow> u | _ \<Rightarrow> s)
     | None \<Rightarrow> s)"

definition set_program :: "nat \<Rightarrow> nat option \<Rightarrow> unit W" where
  "set_program k p =
     bindM (the_instr k) (\<lambda>i.
     thenM (ila_assert (prog i = None) ''Child-program has been defined'')
    (thenM (ila_assert (p \<noteq> None) ''NULL program.'')
    (upd_instr k (\<lambda>i. i\<lparr>prog := p\<rparr>))))"

definition instr_update :: "nat \<Rightarrow> string \<Rightarrow> expr option W" where
  "instr_update k name = bindM (the_instr k) (\<lambda>i.
     ret (case map_of (updates i) name of None \<Rightarrow> None | Some u \<Rightarrow> u))"

definition instr_update_var :: "nat \<Rightarrow> expr \<Rightarrow> expr option W" where
  "instr_update_var k stt = instr_update k (ename stt)"

text \<open>The names are a \<^verbatim>\<open>std::set\<close>: in the order of the map.\<close>

definition updated_states :: "nat \<Rightarrow> string list W" where
  "updated_states k = bindM (the_instr k) (\<lambda>i. ret (map fst (updates i)))"

definition Instr_Print :: "nat \<Rightarrow> string W" where
  "Instr_Print k = bindM (the_instr k) (\<lambda>i. ret (''Instr.'' @ sym_name (i_sym i)))"

subsection \<open>Instruction sequencing\<close>

definition new_node :: tran_node where
  "new_node = \<lparr>n_next = [], n_prev = []\<rparr>"

definition next_num :: "tran_node \<Rightarrow> nat" where
  "next_num n = length (n_next n)"

definition prev_num :: "tran_node \<Rightarrow> nat" where
  "prev_num n = length (n_prev n)"

definition node_next :: "tran_node \<Rightarrow> nat \<Rightarrow> nat res" where
  "node_next n i =
     bindR (assertR (i < length (n_next n)) ''Access overflow for out-going nodes.'')
       (\<lambda>_. at (n_next n) i)"

definition node_prev :: "tran_node \<Rightarrow> nat \<Rightarrow> nat res" where
  "node_prev n i =
     bindR (assertR (i < length (n_prev n)) ''Access overflow for in-comming nodes.'')
       (\<lambda>_. at (n_prev n) i)"

definition AddNext :: "nat \<Rightarrow> tran_node \<Rightarrow> tran_node" where
  "AddNext nxt n = n\<lparr>n_next := n_next n @ [nxt]\<rparr>"

definition AddPrev :: "nat \<Rightarrow> tran_node \<Rightarrow> tran_node" where
  "AddPrev prv n = n\<lparr>n_prev := n_prev n @ [prv]\<rparr>"

definition InstrSeq_New :: instr_seq where
  "InstrSeq_New = \<lparr>s_root = None, s_edges = [], s_nodes = Map.empty\<rparr>"

text \<open>\<^verbatim>\<open>clear\<close> leaves the root alone.\<close>

definition InstrSeq_clear :: "instr_seq \<Rightarrow> instr_seq" where
  "InstrSeq_clear q = q\<lparr>s_edges := [], s_nodes := Map.empty\<rparr>"

text \<open>Look a node up, creating it at the first sight of its instruction.\<close>

definition ensure_node :: "nat \<Rightarrow> (nat \<rightharpoonup> tran_node) \<Rightarrow> (nat \<rightharpoonup> tran_node)" where
  "ensure_node k ns = (if ns k = None then ns(k \<mapsto> new_node) else ns)"

text \<open>When source and target are the same, both steps change the one node.\<close>

definition AddTran :: "nat \<Rightarrow> nat \<Rightarrow> expr \<Rightarrow> instr_seq \<Rightarrow> instr_seq" where
  "AddTran src dst cnd q =
     (let es = s_edges q @ [\<lparr>e_src = src, e_dst = dst, e_cnd = cnd\<rparr>];
          n1 = ensure_node dst (ensure_node src (s_nodes q));
          n2 = n1(src := map_option (AddNext dst) (n1 src));
          n3 = n2(dst := map_option (AddPrev src) (n2 dst))
      in q\<lparr>s_edges := es, s_nodes := n3\<rparr>)"

definition set_root :: "nat \<Rightarrow> instr_seq \<Rightarrow> instr_seq" where
  "set_root i q = q\<lparr>s_root := Some i\<rparr>"

text \<open>
  The node lists agree with the edges: \<open>b\<close> stands in the out-list of \<open>a\<close> once for every edge
  from \<open>a\<close> to \<open>b\<close>, and \<open>a\<close> in the in-list of \<open>b\<close> as often.
\<close>

definition edge_count :: "instr_seq \<Rightarrow> nat \<Rightarrow> nat \<Rightarrow> nat" where
  "edge_count q a b = length (filter (\<lambda>e. e_src e = a \<and> e_dst e = b) (s_edges q))"

definition nexts :: "instr_seq \<Rightarrow> nat \<Rightarrow> nat list" where
  "nexts q a = (case s_nodes q a of None \<Rightarrow> [] | Some n \<Rightarrow> n_next n)"

definition prevs :: "instr_seq \<Rightarrow> nat \<Rightarrow> nat list" where
  "prevs q a = (case s_nodes q a of None \<Rightarrow> [] | Some n \<Rightarrow> n_prev n)"

definition seq_ok :: "instr_seq \<Rightarrow> bool" where
  "seq_ok q \<longleftrightarrow> (\<forall>a b. count_list (nexts q a) b = edge_count q a b \<and>
     count_list (prevs q b) a = edge_count q a b)"

lemma seq_ok_New [simp, intro]: "seq_ok InstrSeq_New"
  by (simp add: seq_ok_def InstrSeq_New_def edge_count_def nexts_def prevs_def)

lemma seq_ok_clear [simp, intro]: "seq_ok (InstrSeq_clear q)"
  by (simp add: seq_ok_def InstrSeq_clear_def edge_count_def nexts_def prevs_def)

lemma seq_ok_set_root [simp]: "seq_ok (set_root i q) = seq_ok q"
  by (simp add: seq_ok_def set_root_def edge_count_def nexts_def prevs_def)

lemma nexts_AddTran: "nexts (AddTran s d c q) a = nexts q a @ (if a = s then [d] else [])"
  by (auto simp: nexts_def AddTran_def ensure_node_def AddNext_def AddPrev_def new_node_def Let_def
      split: option.splits)

lemma prevs_AddTran: "prevs (AddTran s d c q) a = prevs q a @ (if a = d then [s] else [])"
  by (auto simp: prevs_def AddTran_def ensure_node_def AddNext_def AddPrev_def new_node_def Let_def
      split: option.splits)

lemma edge_count_AddTran:
  "edge_count (AddTran s d c q) a b = edge_count q a b + (if a = s \<and> b = d then 1 else 0)"
  by (auto simp: edge_count_def AddTran_def Let_def)

lemma seq_ok_AddTran: "seq_ok q \<Longrightarrow> seq_ok (AddTran s d c q)"
  by (auto simp: seq_ok_def nexts_AddTran prevs_AddTran edge_count_AddTran)

subsection \<open>Construction and lookup\<close>

definition InstrLvlAbs_New :: "string \<Rightarrow> nat option \<Rightarrow> nat W" where
  "InstrLvlAbs_New name p =
     bindM (on_counter (Symbol_str name)) (\<lambda>y.
     bindM (modify (\<lambda>w. w\<lparr>ila_heap := (ila_heap w)(sym_id y \<mapsto>
       \<lparr>m_sym = y, parent = p, inputs = kv_empty, states = kv_empty, inits = [],
        fetch = None, valid = None, instrs = kv_empty, childs = kv_empty, seq = None,
        is_spec = True\<rparr>)\<rparr>)) (\<lambda>_.
     ret (sym_id y)))"

definition set_spec :: "nat \<Rightarrow> bool \<Rightarrow> unit W" where
  "set_spec i b = upd_ila i (\<lambda>m. m\<lparr>is_spec := b\<rparr>)"

definition find_input :: "ila \<Rightarrow> string \<Rightarrow> expr option" where
  "find_input m name = kv_find (inputs m) name"

definition find_state :: "ila \<Rightarrow> string \<Rightarrow> expr option" where
  "find_state m name = kv_find (states m) name"

definition find_instr :: "ila \<Rightarrow> string \<Rightarrow> nat option" where
  "find_instr m name = kv_find (instrs m) name"

definition find_child :: "ila \<Rightarrow> string \<Rightarrow> nat option" where
  "find_child m name = kv_find (childs m) name"

text \<open>The overloads by name build a temporary \<^verbatim>\<open>Symbol\<close>, which draws an identifier.\<close>

definition input_by_name :: "nat \<Rightarrow> string \<Rightarrow> expr option W" where
  "input_by_name i name =
     thenM (on_counter (Symbol_str name)) (bindM (the_ila i) (\<lambda>m. ret (find_input m name)))"

definition state_by_name :: "nat \<Rightarrow> string \<Rightarrow> expr option W" where
  "state_by_name i name =
     thenM (on_counter (Symbol_str name)) (bindM (the_ila i) (\<lambda>m. ret (find_state m name)))"

definition instr_by_name :: "nat \<Rightarrow> string \<Rightarrow> nat option W" where
  "instr_by_name i name =
     thenM (on_counter (Symbol_str name)) (bindM (the_ila i) (\<lambda>m. ret (find_instr m name)))"

definition child_by_name :: "nat \<Rightarrow> string \<Rightarrow> nat option W" where
  "child_by_name i name =
     thenM (on_counter (Symbol_str name)) (bindM (the_ila i) (\<lambda>m. ret (find_child m name)))"

subsection \<open>Registration\<close>

definition AddInput :: "nat \<Rightarrow> expr option \<Rightarrow> unit W" where
  "AddInput i v =
     bindM (ila_not_null v) (\<lambda>e.
     thenM (ila_assert (is_var e) ''Register non-var to Inputs.'')
    (bindM (the_ila i) (\<lambda>m.
     thenM (ila_assert (find_input m (ename e) = None) ''name'')
    (thenM (ila_assert (find_state m (ename e) = None) ''name'')
    (bindM (Unify e) (\<lambda>var.
     upd_ila i (\<lambda>m. m\<lparr>inputs := snd (kv_push_back (ename e) var (inputs m))\<rparr>)))))))"

definition AddState :: "nat \<Rightarrow> expr option \<Rightarrow> unit W" where
  "AddState i v =
     bindM (ila_not_null v) (\<lambda>e.
     thenM (ila_assert (is_var e) ''Register non-var to States.'')
    (bindM (the_ila i) (\<lambda>m.
     thenM (ila_assert (find_input m (ename e) = None) ''name'')
    (thenM (ila_assert (find_state m (ename e) = None) ''name'')
    (bindM (Unify e) (\<lambda>var.
     upd_ila i (\<lambda>m. m\<lparr>states := snd (kv_push_back (ename e) var (states m))\<rparr>)))))))"

definition AddInit :: "nat \<Rightarrow> expr option \<Rightarrow> unit W" where
  "AddInit i c =
     bindM (ila_not_null c) (\<lambda>e.
     thenM (ila_assert (is_bool (esort e)) ''Initial condition must be Boolean.'')
    (bindM (Unify e) (\<lambda>cntr. upd_ila i (\<lambda>m. m\<lparr>inits := inits m @ [cntr]\<rparr>))))"

definition ForceSetFetch :: "nat \<Rightarrow> expr option \<Rightarrow> unit W" where
  "ForceSetFetch i f =
     bindM (ila_not_null f) (\<lambda>e.
     thenM (ila_assert (is_bv (esort e) 0) ''Fetch function must be bit-vector.'')
    (bindM (Unify e) (\<lambda>e'. upd_ila i (\<lambda>m. m\<lparr>fetch := Some e'\<rparr>))))"

definition ForceSetValid :: "nat \<Rightarrow> expr option \<Rightarrow> unit W" where
  "ForceSetValid i v =
     bindM (ila_not_null v) (\<lambda>e.
     thenM (ila_assert (is_bool (esort e)) ''Valid function must be Boolean.'')
    (bindM (Unify e) (\<lambda>e'. upd_ila i (\<lambda>m. m\<lparr>valid := Some e'\<rparr>))))"

definition SetFetch :: "nat \<Rightarrow> expr option \<Rightarrow> unit W" where
  "SetFetch i f =
     bindM (the_ila i) (\<lambda>m.
     thenM (ila_assert (fetch m = None) ''Fetch alraedy defined'') (ForceSetFetch i f))"

definition SetValid :: "nat \<Rightarrow> expr option \<Rightarrow> unit W" where
  "SetValid i v =
     bindM (the_ila i) (\<lambda>m.
     thenM (ila_assert (valid m = None) ''Valid already defined'') (ForceSetValid i v))"

text \<open>The result of \<^verbatim>\<open>push_back\<close> is not looked at: a name that is taken is dropped.\<close>

definition AddInstr :: "nat \<Rightarrow> nat option \<Rightarrow> unit W" where
  "AddInstr i k =
     bindM (ila_not_null k) (\<lambda>k.
     bindM (the_instr k) (\<lambda>x.
     upd_ila i (\<lambda>m. m\<lparr>instrs := snd (kv_push_back (sym_name (i_sym x)) k (instrs m))\<rparr>)))"

definition AddChild :: "nat \<Rightarrow> nat option \<Rightarrow> unit W" where
  "AddChild i c =
     bindM (ila_not_null c) (\<lambda>c.
     bindM (the_ila c) (\<lambda>x.
     upd_ila i (\<lambda>m. m\<lparr>childs := snd (kv_push_back (sym_name (m_sym x)) c (childs m))\<rparr>)))"

subsection \<open>New variables\<close>

definition NewBoolInput :: "nat \<Rightarrow> string \<Rightarrow> expr W" where
  "NewBoolInput i name =
     bindM (NewBoolVar name) (\<lambda>v. let v = set_host (Some i) v in
     thenM (AddInput i (Some v)) (ret v))"

definition NewBvInput :: "nat \<Rightarrow> string \<Rightarrow> int \<Rightarrow> expr W" where
  "NewBvInput i name bw =
     bindM (NewBvVar name bw) (\<lambda>v. let v = set_host (Some i) v in
     thenM (AddInput i (Some v)) (ret v))"

definition NewMemInput :: "nat \<Rightarrow> string \<Rightarrow> int \<Rightarrow> int \<Rightarrow> expr W" where
  "NewMemInput i name aw dw =
     bindM (NewMemVar name aw dw) (\<lambda>v. let v = set_host (Some i) v in
     thenM (AddInput i (Some v)) (ret v))"

definition NewBoolState :: "nat \<Rightarrow> string \<Rightarrow> expr W" where
  "NewBoolState i name =
     bindM (NewBoolVar name) (\<lambda>v. let v = set_host (Some i) v in
     thenM (AddState i (Some v)) (ret v))"

definition NewBvState :: "nat \<Rightarrow> string \<Rightarrow> int \<Rightarrow> expr W" where
  "NewBvState i name bw =
     bindM (NewBvVar name bw) (\<lambda>v. let v = set_host (Some i) v in
     thenM (AddState i (Some v)) (ret v))"

definition NewMemState :: "nat \<Rightarrow> string \<Rightarrow> int \<Rightarrow> int \<Rightarrow> expr W" where
  "NewMemState i name aw dw =
     bindM (NewMemVar name aw dw) (\<lambda>v. let v = set_host (Some i) v in
     thenM (AddState i (Some v)) (ret v))"

definition NewBoolFreeVar :: "nat \<Rightarrow> string \<Rightarrow> expr W" where
  "NewBoolFreeVar i name = bindM (NewBoolVar name) (\<lambda>v. ret (set_host (Some i) v))"

definition NewBvFreeVar :: "nat \<Rightarrow> string \<Rightarrow> int \<Rightarrow> expr W" where
  "NewBvFreeVar i name bw = bindM (NewBvVar name bw) (\<lambda>v. ret (set_host (Some i) v))"

definition NewMemFreeVar :: "nat \<Rightarrow> string \<Rightarrow> int \<Rightarrow> int \<Rightarrow> expr W" where
  "NewMemFreeVar i name aw dw = bindM (NewMemVar name aw dw) (\<lambda>v. ret (set_host (Some i) v))"

subsection \<open>Instructions and children\<close>

definition NewInstr :: "nat \<Rightarrow> string \<Rightarrow> nat W" where
  "NewInstr i name =
     bindM (the_ila i) (\<lambda>m.
     let tmp_name = (if name = [] then ''I.'' @ to_string (kv_size (instrs m)) else name) in
     bindM (Instr_New tmp_name (Some i)) (\<lambda>k.
     thenM (AddInstr i (Some k)) (ret k)))"

definition NewChild :: "nat \<Rightarrow> string \<Rightarrow> nat W" where
  "NewChild i name =
     bindM (the_ila i) (\<lambda>m.
     bindM (InstrLvlAbs_New name (Some i)) (\<lambda>c.
     thenM (forM (vec (states m)) (\<lambda>s. AddState c (Some s)))
    (thenM (forM (vec (inputs m)) (\<lambda>s. AddInput c (Some s)))
    (thenM (AddChild i (Some c)) (ret c)))))"

definition AddSeqTran :: "nat \<Rightarrow> nat \<Rightarrow> nat \<Rightarrow> expr \<Rightarrow> unit W" where
  "AddSeqTran i src dst cnd =
     bindM (Unify cnd) (\<lambda>c. upd_ila i (\<lambda>m.
       let q = (case seq m of None \<Rightarrow> InstrSeq_New | Some q \<Rightarrow> q)
       in m\<lparr>seq := Some (AddTran src dst c q)\<rparr>))"

text \<open>\<^verbatim>\<open>instr_seq()->set_root(i)\<close>\<close>

definition set_seq_root :: "nat \<Rightarrow> nat \<Rightarrow> unit W" where
  "set_seq_root i k =
     bindM (the_ila i) (\<lambda>m. thenM (ila_not_null (seq m))
       (upd_ila i (\<lambda>m. m\<lparr>seq := map_option (set_root k) (seq m)\<rparr>)))"

text \<open>The recursion climbs the parents: \<open>None\<close> is a climb that does not end.\<close>

partial_function (option) GetRootName :: "world \<Rightarrow> nat \<Rightarrow> string option" where
  "GetRootName w i = (case ila_heap w i of
       None \<Rightarrow> None
     | Some m \<Rightarrow> (case parent m of
         None \<Rightarrow> Some (sym_name (m_sym m))
       | Some p \<Rightarrow> Option.bind (GetRootName w p)
           (\<lambda>s. Some (s @ ''.'' @ sym_name (m_sym m)))))"

definition InstrLvlAbs_Print :: "nat \<Rightarrow> string W" where
  "InstrLvlAbs_Print i = bindM (the_ila i) (\<lambda>m. ret (''ILA.'' @ sym_name (m_sym m)))"

subsection \<open>Visitors of the hierarchy\<close>

text \<open>
  The visitors walk the children of an ILA in index order; \<open>wd\<close> selects the world in the
  state of the visitor.  The children are read when the node is entered: no visitor of the
  library changes the children of an ILA it walks.  The fuel is the depth of the recursion.
\<close>

fun ila_visit ::
  "('s \<Rightarrow> world) \<Rightarrow> nat \<Rightarrow> (nat \<Rightarrow> ('s, unit) action) \<Rightarrow> nat \<Rightarrow> ('s, unit) action" where
  "ila_visit wd 0 func i = fail OutOfFuel"
| "ila_visit wd (Suc n) func i = (\<lambda>s.
     thenM (forM (child_ids (wd s) i) (\<lambda>c. ila_visit wd n func c)) (func i) s)"

fun ila_visit_pre_post ::
  "('s \<Rightarrow> world) \<Rightarrow> nat \<Rightarrow> (nat \<Rightarrow> ('s, bool) action) \<Rightarrow> (nat \<Rightarrow> ('s, unit) action) \<Rightarrow> nat
   \<Rightarrow> ('s, unit) action" where
  "ila_visit_pre_post wd 0 pre post i = fail OutOfFuel"
| "ila_visit_pre_post wd (Suc n) pre post i =
     bindM (pre i) (\<lambda>stop. if stop then ret () else (\<lambda>s.
       thenM (forM (child_ids (wd s) i) (\<lambda>c. ila_visit_pre_post wd n pre post c)) (post i) s))"

text \<open>The fuel that suffices in every world the library can reach: identifiers grow from a
  parent to its children.\<close>

definition DepthFirstVisit_ila ::
  "('s \<Rightarrow> world) \<Rightarrow> (nat \<Rightarrow> ('s, unit) action) \<Rightarrow> nat \<Rightarrow> ('s, unit) action" where
  "DepthFirstVisit_ila wd func i = (\<lambda>s. ila_visit wd (Suc (counter (wd s))) func i s)"

definition DepthFirstVisitPrePost_ila ::
  "('s \<Rightarrow> world) \<Rightarrow> (nat \<Rightarrow> ('s, bool) action) \<Rightarrow> (nat \<Rightarrow> ('s, unit) action) \<Rightarrow> nat
   \<Rightarrow> ('s, unit) action" where
  "DepthFirstVisitPrePost_ila wd pre post i = (\<lambda>s.
     ila_visit_pre_post wd (Suc (counter (wd s))) pre post i s)"

end
