(* ===== verification/Ila_Inv.thy ===== *)
theory Ila_Inv
  imports Ila
begin

text \<open>
  The well-formedness of the objects: what an ILA and an instruction keep of themselves
  (\<open>ila_local\<close>, \<open>instr_local\<close>), how they are linked (\<open>ila_at\<close>, \<open>instr_at\<close>), and that every
  operation of the interface preserves both (\<open>world_ok\<close>, by rule induction on the step
  relation \<open>api_step\<close>).  The identifiers grow from parent to child, which is what ends the
  recursions over the hierarchy.
\<close>

subsection \<open>The invariant\<close>

definition vars_ok :: "(string, expr) keyvec \<Rightarrow> bool" where
  "vars_ok kv \<longleftrightarrow> kv_inv kv \<and> (\<forall>n e. kv_find kv n = Some e \<longrightarrow> is_var e \<and> ename e = n)"

definition ila_local :: "ila \<Rightarrow> bool" where
  "ila_local m \<longleftrightarrow> vars_ok (inputs m) \<and> vars_ok (states m)
     \<and> (\<forall>n. find_input m n = None \<or> find_state m n = None)
     \<and> kv_inv (instrs m) \<and> kv_inv (childs m)
     \<and> list_all (\<lambda>e. esort e = SortBool) (inits m)
     \<and> pred_option (\<lambda>e. is_bv (esort e) 0) (fetch m)
     \<and> pred_option (\<lambda>e. esort e = SortBool) (valid m)
     \<and> pred_option seq_ok (seq m)"

definition instr_local :: "instr \<Rightarrow> bool" where
  "instr_local x \<longleftrightarrow> pred_option (\<lambda>e. esort e = SortBool) (decode x) \<and> omap_ok str_less (updates x)"

definition ila_at :: "world \<Rightarrow> nat \<Rightarrow> ila \<Rightarrow> bool" where
  "ila_at w i m \<longleftrightarrow> i \<le> counter w \<and> sym_id (m_sym m) = i \<and> ila_local m
     \<and> (\<forall>p. parent m = Some p \<longrightarrow> p < i \<and> p \<in> dom (ila_heap w))
     \<and> (\<forall>n k. find_instr m n = Some k \<longrightarrow>
          (\<exists>x. instr_heap w k = Some x \<and> i_host x = Some i \<and> sym_name (i_sym x) = n))
     \<and> (\<forall>n c. find_child m n = Some c \<longrightarrow>
          (\<exists>x. ila_heap w c = Some x \<and> parent x = Some i \<and> sym_name (m_sym x) = n))"

definition instr_at :: "world \<Rightarrow> nat \<Rightarrow> instr \<Rightarrow> bool" where
  "instr_at w k x \<longleftrightarrow> k \<le> counter w \<and> sym_id (i_sym x) = k \<and> instr_local x
     \<and> (\<forall>h. i_host x = Some h \<longrightarrow> h \<in> dom (ila_heap w))"

definition world_ok :: "world \<Rightarrow> bool" where
  "world_ok w \<longleftrightarrow> (\<forall>i m. ila_heap w i = Some m \<longrightarrow> ila_at w i m)
     \<and> (\<forall>k x. instr_heap w k = Some x \<longrightarrow> instr_at w k x)"

lemma world_ok_init [simp, intro]: "world_ok init_world"
  by (simp add: world_ok_def init_world_def)

lemma world_okD:
  "world_ok w \<Longrightarrow> ila_heap w i = Some m \<Longrightarrow> ila_at w i m"
  "world_ok w \<Longrightarrow> instr_heap w k = Some x \<Longrightarrow> instr_at w k x"
  by (auto simp: world_ok_def)

lemma ila_local_of: "world_ok w \<Longrightarrow> ila_heap w i = Some m \<Longrightarrow> ila_local m"
  using world_okD(1) [of w i m] by (simp add: ila_at_def)

lemma instr_local_of: "world_ok w \<Longrightarrow> instr_heap w k = Some x \<Longrightarrow> instr_local x"
  using world_okD(2) [of w k x] by (simp add: instr_at_def)

lemma vars_ok_empty [simp, intro]: "vars_ok kv_empty"
  by (simp add: vars_ok_def kv_empty_def kv_find_def kv_inv_def)

lemma vars_ok_add:
  "vars_ok kv \<Longrightarrow> is_var e \<Longrightarrow> vars_ok (snd (kv_push_back (ename e) e kv))"
  by (auto simp: vars_ok_def kv.inv_add kv.lookup_add split: if_splits)

subsection \<open>How the heap may change\<close>

text \<open>Objects keep their identity: nothing is freed, and the links upward never change.\<close>

definition heap_ext :: "world \<Rightarrow> world \<Rightarrow> bool" where
  "heap_ext w w' \<longleftrightarrow> counter w \<le> counter w'
     \<and> (\<forall>c x. ila_heap w c = Some x \<longrightarrow>
          (\<exists>y. ila_heap w' c = Some y \<and> parent y = parent x \<and> m_sym y = m_sym x))
     \<and> (\<forall>k x. instr_heap w k = Some x \<longrightarrow>
          (\<exists>y. instr_heap w' k = Some y \<and> i_host y = i_host x \<and> i_sym y = i_sym x))"

lemma heap_ext_refl [simp]: "heap_ext w w"
  by (simp add: heap_ext_def)

lemma heap_ext_same_heaps: "same_heaps w w' \<Longrightarrow> heap_ext w w'"
  by (auto simp: heap_ext_def same_heaps_def)

lemma heap_ext_ila:
  "heap_ext w w' \<Longrightarrow> ila_heap w c = Some x \<Longrightarrow>
   \<exists>y. ila_heap w' c = Some y \<and> parent y = parent x \<and> m_sym y = m_sym x"
  by (simp add: heap_ext_def)

lemma heap_ext_instr:
  "heap_ext w w' \<Longrightarrow> instr_heap w c = Some x \<Longrightarrow>
   \<exists>y. instr_heap w' c = Some y \<and> i_host y = i_host x \<and> i_sym y = i_sym x"
  by (simp add: heap_ext_def)

lemma heap_ext_trans:
  assumes "heap_ext u v" "heap_ext v w"
  shows "heap_ext u w"
  unfolding heap_ext_def
proof (intro conjI allI impI)
  show "counter u \<le> counter w" using assms by (auto simp: heap_ext_def)
next
  fix c x assume "ila_heap u c = Some x"
  then obtain y where "ila_heap v c = Some y" "parent y = parent x" "m_sym y = m_sym x"
    using heap_ext_ila [OF assms(1)] by blast
  then show "\<exists>y. ila_heap w c = Some y \<and> parent y = parent x \<and> m_sym y = m_sym x"
    using heap_ext_ila [OF assms(2)] by fastforce
next
  fix k x assume "instr_heap u k = Some x"
  then obtain y where "instr_heap v k = Some y" "i_host y = i_host x" "i_sym y = i_sym x"
    using heap_ext_instr [OF assms(1)] by blast
  then show "\<exists>y. instr_heap w k = Some y \<and> i_host y = i_host x \<and> i_sym y = i_sym x"
    using heap_ext_instr [OF assms(2)] by fastforce
qed

lemma heap_ext_dom: "heap_ext w w' \<Longrightarrow> i \<in> dom (ila_heap w) \<Longrightarrow> i \<in> dom (ila_heap w')"
  by (fastforce simp: heap_ext_def)

lemma ila_at_ext:
  assumes at: "ila_at w i m" and ext: "heap_ext w w'"
  shows "ila_at w' i m"
proof -
  have "\<exists>x. instr_heap w' k = Some x \<and> i_host x = Some i \<and> sym_name (i_sym x) = n"
    if "find_instr m n = Some k" for n k
    using at that heap_ext_instr [OF ext, of k] unfolding ila_at_def by metis
  moreover have "\<exists>x. ila_heap w' c = Some x \<and> parent x = Some i \<and> sym_name (m_sym x) = n"
    if "find_child m n = Some c" for n c
    using at that heap_ext_ila [OF ext, of c] unfolding ila_at_def by metis
  moreover have "counter w \<le> counter w'" using ext by (simp add: heap_ext_def)
  ultimately show ?thesis
    using at heap_ext_dom [OF ext] unfolding ila_at_def by (meson order_trans)
qed

lemma instr_at_ext: "instr_at w k x \<Longrightarrow> heap_ext w w' \<Longrightarrow> instr_at w' k x"
  using heap_ext_dom [of w w'] unfolding instr_at_def
  by (metis heap_ext_def order_trans)

text \<open>The links of an ILA that an update must leave alone.\<close>

definition same_links :: "ila \<Rightarrow> ila \<Rightarrow> bool" where
  "same_links m m' \<longleftrightarrow> m_sym m' = m_sym m \<and> parent m' = parent m
     \<and> instrs m' = instrs m \<and> childs m' = childs m"

lemma ila_at_links:
  "ila_at w i m \<Longrightarrow> same_links m m' \<Longrightarrow> ila_local m' \<Longrightarrow> ila_at w i m'"
  by (simp add: ila_at_def same_links_def find_instr_def find_child_def)

lemma world_ok_ext:
  assumes "world_ok w" "heap_ext w w'"
    and "\<And>i m. ila_heap w' i = Some m \<Longrightarrow> ila_heap w i = Some m \<or> ila_at w' i m"
    and "\<And>k x. instr_heap w' k = Some x \<Longrightarrow> instr_heap w k = Some x \<or> instr_at w' k x"
  shows "world_ok w'"
  using assms unfolding world_ok_def by (meson ila_at_ext instr_at_ext)

lemma world_ok_same_heaps: "same_heaps w w' \<Longrightarrow> world_ok w \<Longrightarrow> world_ok w'"
  by (erule world_ok_ext) (auto simp: same_heaps_def heap_ext_same_heaps)

lemma world_ok_tick [simp]: "world_ok w \<Longrightarrow> world_ok (tick w)"
  by (rule world_ok_same_heaps [OF same_heaps_tick])

lemma heap_ext_ila_upd:
  assumes "ila_heap w i = Some m" "m_sym m' = m_sym m" "parent m' = parent m"
  shows "heap_ext w (w\<lparr>ila_heap := (ila_heap w)(i \<mapsto> m')\<rparr>)"
  using assms by (auto simp: heap_ext_def)

lemma world_ok_ila_upd:
  assumes ok: "world_ok w" and m: "ila_heap w i = Some m"
    and links: "same_links m m'" and loc: "ila_local m'"
  shows "world_ok (w\<lparr>ila_heap := (ila_heap w)(i \<mapsto> m')\<rparr>)" (is "world_ok ?w")
proof -
  have ext: "heap_ext w ?w"
    by (rule heap_ext_ila_upd [OF m]) (use links in \<open>simp_all add: same_links_def\<close>)
  have "ila_at ?w i m'"
    by (rule ila_at_links [OF ila_at_ext [OF world_okD(1) [OF ok m] ext] links loc])
  then show ?thesis
    by (intro world_ok_ext [OF ok ext]) (auto split: if_splits)
qed

lemma heap_ext_instr_upd:
  assumes "instr_heap w k = Some x" "i_sym x' = i_sym x" "i_host x' = i_host x"
  shows "heap_ext w (w\<lparr>instr_heap := (instr_heap w)(k \<mapsto> x')\<rparr>)"
  using assms by (auto simp: heap_ext_def)

lemma world_ok_instr_upd:
  assumes ok: "world_ok w" and x: "instr_heap w k = Some x"
    and links: "i_sym x' = i_sym x" "i_host x' = i_host x" and loc: "instr_local x'"
  shows "world_ok (w\<lparr>instr_heap := (instr_heap w)(k \<mapsto> x')\<rparr>)" (is "world_ok ?w")
proof -
  have ext: "heap_ext w ?w" by (rule heap_ext_instr_upd [OF x links])
  have "instr_at ?w k x'"
    using instr_at_ext [OF world_okD(2) [OF ok x] ext] links loc by (simp add: instr_at_def)
  then show ?thesis
    by (intro world_ok_ext [OF ok ext]) (auto split: if_splits)
qed

lemma fresh_ids:
  assumes "world_ok w"
  shows "counter w < i \<Longrightarrow> ila_heap w i = None" "counter w < i \<Longrightarrow> instr_heap w i = None"
proof -
  show "ila_heap w i = None" if "counter w < i"
    using world_okD(1) [OF assms, of i] that by (cases "ila_heap w i") (auto simp: ila_at_def)
  show "instr_heap w i = None" if "counter w < i"
    using world_okD(2) [OF assms, of i] that by (cases "instr_heap w i") (auto simp: instr_at_def)
qed

definition empty_ila :: "symbol \<Rightarrow> nat option \<Rightarrow> ila" where
  "empty_ila y p = \<lparr>m_sym = y, parent = p, inputs = kv_empty, states = kv_empty, inits = [],
        fetch = None, valid = None, instrs = kv_empty, childs = kv_empty, seq = None,
        is_spec = True\<rparr>"

definition empty_instr :: "symbol \<Rightarrow> nat option \<Rightarrow> instr" where
  "empty_instr y h = \<lparr>i_sym = y, decode = None, updates = [], i_host = h, prog = None\<rparr>"

lemma kv_find_empty [simp]: "kv_find kv_empty n = None"
  by (simp add: kv_find_def kv_empty_def)

lemma ila_local_empty [simp]: "ila_local (empty_ila y p)"
  by (simp add: ila_local_def empty_ila_def find_input_def find_state_def)

definition with_ila :: "string \<Rightarrow> nat option \<Rightarrow> world \<Rightarrow> world" where
  "with_ila name p w = (tick w)\<lparr>ila_heap :=
     (ila_heap w)(counter w + 1 \<mapsto> empty_ila (named_symbol name w) p)\<rparr>"

definition with_instr :: "string \<Rightarrow> nat option \<Rightarrow> world \<Rightarrow> world" where
  "with_instr name h w = (tick w)\<lparr>instr_heap :=
     (instr_heap w)(counter w + 1 \<mapsto> empty_instr (named_symbol name w) h)\<rparr>"

lemma InstrLvlAbs_New_run: "InstrLvlAbs_New name p w = Inr (counter w + 1, with_ila name p w)"
  by (simp add: InstrLvlAbs_New_def with_ila_def empty_ila_def)

lemma Instr_New_run: "Instr_New name h w = Inr (counter w + 1, with_instr name h w)"
  by (simp add: Instr_New_def with_instr_def empty_instr_def)

lemma heap_ext_with_ila: "world_ok w \<Longrightarrow> heap_ext w (with_ila name p w)"
  using fresh_ids(1) [of w "counter w + 1"] by (auto simp: heap_ext_def with_ila_def)

lemma heap_ext_with_instr: "world_ok w \<Longrightarrow> heap_ext w (with_instr name h w)"
  using fresh_ids(2) [of w "counter w + 1"] by (auto simp: heap_ext_def with_instr_def)

lemma world_ok_with_ila:
  assumes ok: "world_ok w" and p: "\<And>i. p = Some i \<Longrightarrow> i \<in> dom (ila_heap w)"
  shows "world_ok (with_ila name p w)"
proof -
  have "i \<le> counter w" if "i \<in> dom (ila_heap w)" for i
    using that world_okD(1) [OF ok] by (auto simp: ila_at_def)
  then have "ila_at (with_ila name p w) (counter w + 1) (empty_ila (named_symbol name w) p)"
    using p by (force simp: ila_at_def with_ila_def empty_ila_def find_instr_def find_child_def
        ila_local_empty [unfolded empty_ila_def])
  then show ?thesis
    by (intro world_ok_ext [OF ok heap_ext_with_ila [OF ok]])
       (auto simp: with_ila_def split: if_splits)
qed

lemma world_ok_with_instr:
  assumes ok: "world_ok w" and h: "\<And>i. h = Some i \<Longrightarrow> i \<in> dom (ila_heap w)"
  shows "world_ok (with_instr name h w)"
proof -
  have "instr_at (with_instr name h w) (counter w + 1) (empty_instr (named_symbol name w) h)"
    using h by (auto simp: instr_at_def with_instr_def empty_instr_def instr_local_def)
  then show ?thesis
    by (intro world_ok_ext [OF ok heap_ext_with_instr [OF ok]])
       (auto simp: with_instr_def split: if_splits)
qed

subsection \<open>Every operation preserves it\<close>

definition keeps :: "'a W \<Rightarrow> bool" where
  "keeps m \<longleftrightarrow> (\<forall>w a w'. world_ok w \<longrightarrow> m w = Inr (a, w') \<longrightarrow> world_ok w' \<and> heap_ext w w')"

lemma keepsI:
  "(\<And>w a w'. world_ok w \<Longrightarrow> m w = Inr (a, w') \<Longrightarrow> world_ok w' \<and> heap_ext w w') \<Longrightarrow> keeps m"
  unfolding keeps_def by blast

lemma keepsD:
  "keeps m \<Longrightarrow> world_ok w \<Longrightarrow> m w = Inr (a, w') \<Longrightarrow> world_ok w' \<and> heap_ext w w'"
  unfolding keeps_def by blast

lemma keeps_bindM [intro]: "keeps m \<Longrightarrow> (\<And>a. keeps (f a)) \<Longrightarrow> keeps (bindM m f)"
  by (rule keepsI) (auto simp: bindM_Inr_iff dest!: keepsD intro: heap_ext_trans)

lemma keeps_thenM [intro]: "keeps m \<Longrightarrow> keeps k \<Longrightarrow> keeps (thenM m k)"
  by (simp add: thenM_def keeps_bindM)

lemma keeps_simple [simp, intro]:
  "keeps (ret a)" "keeps (liftR r)" "keeps (gets g)" "keeps (the_ila i)" "keeps (the_instr i)"
  "keeps (fail x)"
  by (auto simp: keeps_def)

lemma keeps_If [intro]: "(b \<Longrightarrow> keeps m) \<Longrightarrow> (\<not> b \<Longrightarrow> keeps n) \<Longrightarrow> keeps (if b then m else n)"
  by simp

lemma keeps_forM [intro]: "(\<And>x. x \<in> set xs \<Longrightarrow> keeps (f x)) \<Longrightarrow> keeps (forM xs f)"
  by (induction xs) auto

lemma keeps_same_heaps: "(\<And>w a w'. m w = Inr (a, w') \<Longrightarrow> same_heaps w w') \<Longrightarrow> keeps m"
  by (rule keepsI) (blast intro: world_ok_same_heaps heap_ext_same_heaps)

lemma keeps_symbol [simp, intro]: "keeps (on_counter (Symbol_str n))" "keeps (on_counter Symbol_default)"
  by (rule keeps_same_heaps, auto)+

lemma keeps_upd_ila:
  assumes "\<And>m. ila_local m \<Longrightarrow> same_links m (f m) \<and> ila_local (f m)"
  shows "keeps (upd_ila i f)"
proof (rule keepsI)
  fix w a w' assume ok: "world_ok w" and run: "upd_ila i f w = Inr (a, w')"
  then obtain m where m: "ila_heap w i = Some m" and w': "w' = w\<lparr>ila_heap := (ila_heap w)(i \<mapsto> f m)\<rparr>"
    by (auto simp: upd_ila_Inr)
  have f: "same_links m (f m)" "ila_local (f m)"
    using assms ila_local_of [OF ok m] by auto
  show "world_ok w' \<and> heap_ext w w'"
    unfolding w' using world_ok_ila_upd [OF ok m f] f(1) heap_ext_ila_upd [OF m]
    by (simp add: same_links_def)
qed

lemma keeps_upd_instr:
  assumes "\<And>x. instr_local x \<Longrightarrow> i_sym (f x) = i_sym x \<and> i_host (f x) = i_host x \<and> instr_local (f x)"
  shows "keeps (upd_instr k f)"
proof (rule keepsI)
  fix w a w' assume ok: "world_ok w" and run: "upd_instr k f w = Inr (a, w')"
  then obtain x where x: "instr_heap w k = Some x"
      and w': "w' = w\<lparr>instr_heap := (instr_heap w)(k \<mapsto> f x)\<rparr>"
    by (auto simp: upd_instr_Inr)
  have f: "i_sym (f x) = i_sym x" "i_host (f x) = i_host x" "instr_local (f x)"
    using assms instr_local_of [OF ok x] by auto
  show "world_ok w' \<and> heap_ext w w'"
    unfolding w' using world_ok_instr_upd [OF ok x f] heap_ext_instr_upd [OF x f(1,2)] by simp
qed

text \<open>A guard established before an update.\<close>

lemma keeps_guard: "(b \<Longrightarrow> keeps k) \<Longrightarrow> keeps (thenM (ila_assert b m) k)"
  by (cases b) (auto simp: keeps_def thenM_Inr_iff)

lemma keeps_check: "(b \<Longrightarrow> keeps k) \<Longrightarrow> keeps (thenM (ila_check b m) k)"
  by (cases b) (auto simp: keeps_def thenM_Inr_iff)

lemma keeps_Unify [simp, intro]: "keeps (Unify e)"
  by (simp add: Unify_def)

lemma Unify_bind [simp]: "bindM (Unify e) f = f e"
  by (simp add: Unify_def bindM_def fun_eq_iff)

lemma keeps_ForceSetDecode [intro]: "keeps (ForceSetDecode k d)"
  unfolding ForceSetDecode_def Unify_bind
  by (intro keeps_bindM keeps_check keeps_upd_instr) (auto simp: instr_local_def)

lemma keeps_set_decode [intro]: "keeps (set_decode k d)"
  unfolding set_decode_def by auto

lemma keeps_ForceAddUpdate [intro]: "keeps (ForceAddUpdate k n e)"
  unfolding ForceAddUpdate_def
  by (intro keeps_upd_instr) (auto simp: instr_local_def intro: omap_ok_put)

lemma keeps_set_update_name [intro]: "keeps (set_update_name k n e)"
  unfolding set_update_name_def by auto

lemma keeps_set_update [intro]: "keeps (set_update k v e)"
  unfolding set_update_def by auto

lemma keeps_set_program [intro]: "keeps (set_program k p)"
  unfolding set_program_def
  by (intro keeps_bindM keeps_thenM keeps_upd_instr) (auto simp: instr_local_def)

lemma keeps_AddInit [intro]: "keeps (AddInit i c)"
  unfolding AddInit_def Unify_bind
  by (intro keeps_bindM keeps_guard keeps_upd_ila)
     (auto simp: ila_local_def same_links_def find_input_def find_state_def)

lemma keeps_ForceSetFetch [intro]: "keeps (ForceSetFetch i f)"
  unfolding ForceSetFetch_def Unify_bind
  by (intro keeps_bindM keeps_guard keeps_upd_ila)
     (auto simp: ila_local_def same_links_def find_input_def find_state_def)

lemma keeps_ForceSetValid [intro]: "keeps (ForceSetValid i f)"
  unfolding ForceSetValid_def Unify_bind
  by (intro keeps_bindM keeps_guard keeps_upd_ila)
     (auto simp: ila_local_def same_links_def find_input_def find_state_def)

lemma keeps_SetFetch [intro]: "keeps (SetFetch i f)"
  unfolding SetFetch_def by auto

lemma keeps_SetValid [intro]: "keeps (SetValid i f)"
  unfolding SetValid_def by auto

lemma keeps_set_spec [intro]: "keeps (set_spec i b)"
  unfolding set_spec_def
  by (intro keeps_upd_ila) (auto simp: ila_local_def same_links_def find_input_def find_state_def)

lemma keeps_AddSeqTran [intro]: "keeps (AddSeqTran i s d c)"
  unfolding AddSeqTran_def Unify_bind
  by (intro keeps_upd_ila)
     (auto simp: ila_local_def same_links_def find_input_def find_state_def Let_def
       intro!: seq_ok_AddTran split: option.splits)

lemma keeps_set_seq_root [intro]: "keeps (set_seq_root i k)"
  unfolding set_seq_root_def
  by (intro keeps_bindM keeps_thenM keeps_upd_ila)
     (auto simp: ila_local_def same_links_def find_input_def find_state_def option.pred_map comp_def)

text \<open>Registering a variable.\<close>

definition add_input :: "expr \<Rightarrow> ila \<Rightarrow> ila" where
  "add_input e m = m\<lparr>inputs := snd (kv_push_back (ename e) e (inputs m))\<rparr>"

definition add_state :: "expr \<Rightarrow> ila \<Rightarrow> ila" where
  "add_state e m = m\<lparr>states := snd (kv_push_back (ename e) e (states m))\<rparr>"

definition upd_heap :: "nat \<Rightarrow> ila \<Rightarrow> world \<Rightarrow> world" where
  "upd_heap i m w = w\<lparr>ila_heap := (ila_heap w)(i \<mapsto> m)\<rparr>"

lemma AddInput_run:
  "AddInput i v w = Inr (u, w') \<longleftrightarrow> (\<exists>e m. v = Some e \<and> is_var e \<and> ila_heap w i = Some m
     \<and> find_input m (ename e) = None \<and> find_state m (ename e) = None
     \<and> w' = upd_heap i (add_input e m) w)"
  by (auto simp: AddInput_def run_simps add_input_def upd_heap_def)

lemma AddState_run:
  "AddState i v w = Inr (u, w') \<longleftrightarrow> (\<exists>e m. v = Some e \<and> is_var e \<and> ila_heap w i = Some m
     \<and> find_input m (ename e) = None \<and> find_state m (ename e) = None
     \<and> w' = upd_heap i (add_state e m) w)"
  by (auto simp: AddState_def run_simps add_state_def upd_heap_def)

lemma ila_local_add:
  assumes "ila_local m" "is_var e" "find_input m (ename e) = None" "find_state m (ename e) = None"
  shows "ila_local (add_input e m)" "ila_local (add_state e m)"
proof -
  have kv: "kv_inv (inputs m)" "kv_inv (states m)"
    using assms(1) by (auto simp: ila_local_def vars_ok_def)
  show "ila_local (add_input e m)" "ila_local (add_state e m)"
    using assms kv
    by (auto simp: ila_local_def add_input_def add_state_def vars_ok_add find_input_def
        find_state_def kv.lookup_add)
qed

lemma upd_heap_ok:
  assumes "world_ok w" "ila_heap w i = Some m" "same_links m m'" "ila_local m'"
  shows "world_ok (upd_heap i m' w) \<and> heap_ext w (upd_heap i m' w)"
  unfolding upd_heap_def
  using world_ok_ila_upd [OF assms] heap_ext_ila_upd [OF assms(2)] assms(3)
  by (simp add: same_links_def)

lemma same_links_add [simp]: "same_links m (add_input e m)" "same_links m (add_state e m)"
  by (simp_all add: same_links_def add_input_def add_state_def)

lemma keeps_AddInput [intro]: "keeps (AddInput i v)"
proof (rule keepsI)
  fix w a w' assume ok: "world_ok w" and run: "AddInput i v w = Inr (a, w')"
  from run obtain e m where "is_var e" "ila_heap w i = Some m" "find_input m (ename e) = None"
    "find_state m (ename e) = None" "w' = upd_heap i (add_input e m) w"
    by (auto simp: AddInput_run)
  with ok show "world_ok w' \<and> heap_ext w w'"
    using upd_heap_ok [OF ok] ila_local_add ila_local_of by simp
qed

lemma keeps_AddState [intro]: "keeps (AddState i v)"
proof (rule keepsI)
  fix w a w' assume ok: "world_ok w" and run: "AddState i v w = Inr (a, w')"
  from run obtain e m where "is_var e" "ila_heap w i = Some m" "find_input m (ename e) = None"
    "find_state m (ename e) = None" "w' = upd_heap i (add_state e m) w"
    by (auto simp: AddState_run)
  with ok show "world_ok w' \<and> heap_ext w w'"
    using upd_heap_ok [OF ok] ila_local_add ila_local_of by simp
qed

lemma keeps_new_var [intro]:
  "keeps (NewBoolVar n)" "keeps (NewBvVar n bw)" "keeps (NewMemVar n aw dw)"
  unfolding NewBoolVar_def NewBvVar_def NewMemVar_def ExprVar_bool_def ExprVar_bv_def ExprVar_mem_def
  by auto

lemma keeps_new_input [intro]:
  "keeps (NewBoolInput i n)" "keeps (NewBvInput i n bw)" "keeps (NewMemInput i n aw dw)"
  unfolding NewBoolInput_def NewBvInput_def NewMemInput_def Let_def by auto

lemma keeps_new_state [intro]:
  "keeps (NewBoolState i n)" "keeps (NewBvState i n bw)" "keeps (NewMemState i n aw dw)"
  unfolding NewBoolState_def NewBvState_def NewMemState_def Let_def by auto

lemma keeps_new_free [intro]:
  "keeps (NewBoolFreeVar i n)" "keeps (NewBvFreeVar i n bw)" "keeps (NewMemFreeVar i n aw dw)"
  unfolding NewBoolFreeVar_def NewBvFreeVar_def NewMemFreeVar_def by auto

text \<open>Registering an instruction or a child.\<close>

definition add_instr :: "string \<Rightarrow> nat \<Rightarrow> ila \<Rightarrow> ila" where
  "add_instr n k m = m\<lparr>instrs := snd (kv_push_back n k (instrs m))\<rparr>"

definition add_child :: "string \<Rightarrow> nat \<Rightarrow> ila \<Rightarrow> ila" where
  "add_child n c m = m\<lparr>childs := snd (kv_push_back n c (childs m))\<rparr>"

lemma AddInstr_run:
  "AddInstr i k w = Inr (u, w') \<longleftrightarrow> (\<exists>k0 x m. k = Some k0 \<and> instr_heap w k0 = Some x
     \<and> ila_heap w i = Some m \<and> w' = upd_heap i (add_instr (sym_name (i_sym x)) k0 m) w)"
  by (auto simp: AddInstr_def run_simps add_instr_def upd_heap_def)

lemma AddChild_run:
  "AddChild i c w = Inr (u, w') \<longleftrightarrow> (\<exists>c0 x m. c = Some c0 \<and> ila_heap w c0 = Some x
     \<and> ila_heap w i = Some m \<and> w' = upd_heap i (add_child (sym_name (m_sym x)) c0 m) w)"
  by (auto simp: AddChild_def run_simps add_child_def upd_heap_def)

lemma world_ok_upd_heap:
  assumes ok: "world_ok w" and m: "ila_heap w i = Some m"
    and sym: "m_sym m' = m_sym m" "parent m' = parent m"
    and at: "ila_at (upd_heap i m' w) i m'"
  shows "world_ok (upd_heap i m' w) \<and> heap_ext w (upd_heap i m' w)"
proof -
  have ext: "heap_ext w (upd_heap i m' w)"
    unfolding upd_heap_def by (rule heap_ext_ila_upd [OF m sym])
  moreover have "world_ok (upd_heap i m' w)"
    using at by (intro world_ok_ext [OF ok ext]) (auto simp: upd_heap_def split: if_splits)
  ultimately show ?thesis by simp
qed

lemma world_ok_add_instr:
  assumes ok: "world_ok w" and m: "ila_heap w i = Some m"
    and x: "instr_heap w k = Some x" "i_host x = Some i"
  shows "world_ok (upd_heap i (add_instr (sym_name (i_sym x)) k m) w)
    \<and> heap_ext w (upd_heap i (add_instr (sym_name (i_sym x)) k m) w)"
proof (rule world_ok_upd_heap [OF ok m])
  let ?m = "add_instr (sym_name (i_sym x)) k m" and ?w = "upd_heap i (add_instr (sym_name (i_sym x)) k m) w"
  have at: "ila_at ?w i m"
    by (rule ila_at_ext [OF world_okD(1) [OF ok m]])
       (simp add: upd_heap_def heap_ext_ila_upd [OF m] add_instr_def)
  then have kv: "kv_inv (instrs m)" by (simp add: ila_at_def ila_local_def)
  have "ila_local ?m"
    using at kv.inv_add [OF kv] by (simp add: ila_at_def ila_local_def add_instr_def
        find_input_def find_state_def)
  then show "ila_at ?w i ?m"
    using at x kv by (auto simp: ila_at_def add_instr_def find_instr_def find_child_def
        kv.lookup_add upd_heap_def)
qed (simp_all add: add_instr_def)

lemma world_ok_add_child:
  assumes ok: "world_ok w" and m: "ila_heap w i = Some m"
    and x: "ila_heap w c = Some x" "parent x = Some i"
  shows "world_ok (upd_heap i (add_child (sym_name (m_sym x)) c m) w)
    \<and> heap_ext w (upd_heap i (add_child (sym_name (m_sym x)) c m) w)"
proof (rule world_ok_upd_heap [OF ok m])
  let ?m = "add_child (sym_name (m_sym x)) c m" and ?w = "upd_heap i (add_child (sym_name (m_sym x)) c m) w"
  have ext: "heap_ext w ?w" by (simp add: upd_heap_def heap_ext_ila_upd [OF m] add_child_def)
  have at: "ila_at ?w i m"
    by (rule ila_at_ext [OF world_okD(1) [OF ok m] ext])
  then have kv: "kv_inv (childs m)" by (simp add: ila_at_def ila_local_def)
  have "ila_local ?m"
    using at kv.inv_add [OF kv] by (simp add: ila_at_def ila_local_def add_child_def
        find_input_def find_state_def)
  moreover have "\<exists>y. ila_heap ?w c = Some y \<and> parent y = Some i \<and> sym_name (m_sym y) = sym_name (m_sym x)"
    using heap_ext_ila [OF ext x(1)] x(2) by auto
  ultimately show "ila_at ?w i ?m"
    using at kv by (auto simp: ila_at_def add_child_def find_instr_def find_child_def kv.lookup_add)
qed (simp_all add: add_child_def)

lemma keeps_NewInstr [intro]: "keeps (NewInstr i name)"
proof (rule keepsI)
  fix w k w' assume ok: "world_ok w" and run: "NewInstr i name w = Inr (k, w')"
  obtain m nm where m: "ila_heap w i = Some m"
    and add: "AddInstr i (Some (counter w + 1)) (with_instr nm (Some i) w) = Inr ((), w')"
    using run by (auto simp: NewInstr_def run_simps Instr_New_run Let_def)
  let ?w = "with_instr nm (Some i) w"
  have ok1: "world_ok ?w" by (rule world_ok_with_instr [OF ok]) (use m in auto)
  have x: "instr_heap ?w (counter w + 1) = Some (empty_instr (named_symbol nm w) (Some i))"
    by (simp add: with_instr_def)
  from add x obtain m' where m': "ila_heap ?w i = Some m'"
    and w': "w' = upd_heap i (add_instr nm (counter w + 1) m') ?w"
    by (auto simp: AddInstr_run empty_instr_def)
  have "world_ok w' \<and> heap_ext ?w w'"
    using world_ok_add_instr [OF ok1 m' x] by (simp add: w' empty_instr_def)
  then show "world_ok w' \<and> heap_ext w w'"
    using heap_ext_trans [OF heap_ext_with_instr [OF ok]] by blast
qed

lemma keeps_NewChild [intro]: "keeps (NewChild i name)"
proof (rule keepsI)
  fix w k w' assume ok: "world_ok w" and run: "NewChild i name w = Inr (k, w')"
  let ?c = "counter w + 1" and ?w = "with_ila name (Some i) w"
  obtain m w1 w2 where m: "ila_heap w i = Some m"
    and s: "forM (vec (states m)) (\<lambda>s. AddState ?c (Some s)) ?w = Inr ((), w1)"
    and inp: "forM (vec (inputs m)) (\<lambda>s. AddInput ?c (Some s)) w1 = Inr ((), w2)"
    and ch: "AddChild i (Some ?c) w2 = Inr ((), w')"
    using run by (auto simp: NewChild_def run_simps InstrLvlAbs_New_run)
  have ok0: "world_ok ?w" by (rule world_ok_with_ila [OF ok]) (use m in auto)
  have ok1: "world_ok w1 \<and> heap_ext ?w w1" 
    by (rule keepsD [where m = "forM (vec (states m)) (\<lambda>s. AddState ?c (Some s))", OF _ ok0 s]) auto
  have ok2: "world_ok w2 \<and> heap_ext w1 w2" 
    by (rule keepsD [where m = "forM (vec (inputs m)) (\<lambda>s. AddInput ?c (Some s))", OF _ _ inp])
       (use ok1 in auto)
  have ext: "heap_ext ?w w2" using ok1 ok2 heap_ext_trans by blast
  have "ila_heap ?w ?c = Some (empty_ila (named_symbol name w) (Some i))"
    by (simp add: with_ila_def)
  then obtain x where x: "ila_heap w2 ?c = Some x" "parent x = Some i" "m_sym x = named_symbol name w"
    using heap_ext_ila [OF ext] by (fastforce simp: empty_ila_def)
  from ch x obtain m' where m': "ila_heap w2 i = Some m'" "w' = upd_heap i (add_child name ?c m') w2"
    by (auto simp: AddChild_run)
  have "world_ok w' \<and> heap_ext w2 w'"
    using world_ok_add_child [OF _ m'(1) x(1,2)] ok2 x(3) by (simp add: m'(2))
  then show "world_ok w' \<and> heap_ext w w'"
    using heap_ext_trans [OF heap_ext_trans [OF heap_ext_with_ila [OF ok] ext]] by blast
qed

lemma keeps_queries [intro]:
  "keeps (input_by_name i n)" "keeps (state_by_name i n)" "keeps (instr_by_name i n)"
  "keeps (child_by_name i n)" "keeps (instr_update k n)" "keeps (updated_states k)"
  unfolding input_by_name_def state_by_name_def instr_by_name_def child_by_name_def
    instr_update_def updated_states_def by auto

lemmas keeps_api = keeps_NewChild keeps_NewInstr keeps_new_input keeps_new_state keeps_AddInput
  keeps_AddState keeps_AddInit keeps_SetFetch keeps_SetValid keeps_ForceSetFetch
  keeps_ForceSetValid keeps_set_spec keeps_AddSeqTran keeps_set_seq_root keeps_set_decode
  keeps_ForceSetDecode keeps_set_update keeps_set_update_name keeps_ForceAddUpdate
  keeps_set_program

lemmas keeps_api_dest = keeps_api [THEN keepsD]

subsection \<open>The worlds a client can reach\<close>

text \<open>One rule per operation of the interface; building expressions only draws
  identifiers.  Nothing in the code keeps a client from registering an instruction or a child
  that was made for another ILA, or for none; the rules only allow objects made for the ILA they
  are added to, and \<open>foreign_child\<close> shows that the others break the invariant.\<close>

inductive api_step :: "world \<Rightarrow> world \<Rightarrow> bool" where
  new_ila: "InstrLvlAbs_New name p w = Inr (i, w') \<Longrightarrow> set_option p \<subseteq> dom (ila_heap w) \<Longrightarrow> api_step w w'"
| free_instr: "Instr_New name h w = Inr (k, w') \<Longrightarrow> set_option h \<subseteq> dom (ila_heap w) \<Longrightarrow> api_step w w'"
| add_instr: "AddInstr i (Some k) w = Inr (u, w') \<Longrightarrow> instr_heap w k = Some x \<Longrightarrow> i_host x = Some i \<Longrightarrow> api_step w w'"
| add_child: "AddChild i (Some c) w = Inr (u, w') \<Longrightarrow> ila_heap w c = Some y \<Longrightarrow> parent y = Some i \<Longrightarrow> api_step w w'"
| new_child: "NewChild i name w = Inr (c, w') \<Longrightarrow> api_step w w'"
| new_instr: "NewInstr i name w = Inr (k, w') \<Longrightarrow> api_step w w'"
| bool_input: "NewBoolInput i name w = Inr (v, w') \<Longrightarrow> api_step w w'"
| bv_input: "NewBvInput i name bw w = Inr (v, w') \<Longrightarrow> api_step w w'"
| mem_input: "NewMemInput i name aw dw w = Inr (v, w') \<Longrightarrow> api_step w w'"
| bool_state: "NewBoolState i name w = Inr (v, w') \<Longrightarrow> api_step w w'"
| bv_state: "NewBvState i name bw w = Inr (v, w') \<Longrightarrow> api_step w w'"
| mem_state: "NewMemState i name aw dw w = Inr (v, w') \<Longrightarrow> api_step w w'"
| add_input: "AddInput i v w = Inr (u, w') \<Longrightarrow> api_step w w'"
| add_state: "AddState i v w = Inr (u, w') \<Longrightarrow> api_step w w'"
| add_init: "AddInit i v w = Inr (u, w') \<Longrightarrow> api_step w w'"
| set_fetch: "SetFetch i v w = Inr (u, w') \<Longrightarrow> api_step w w'"
| set_valid: "SetValid i v w = Inr (u, w') \<Longrightarrow> api_step w w'"
| force_fetch: "ForceSetFetch i v w = Inr (u, w') \<Longrightarrow> api_step w w'"
| force_valid: "ForceSetValid i v w = Inr (u, w') \<Longrightarrow> api_step w w'"
| spec: "set_spec i b w = Inr (u, w') \<Longrightarrow> api_step w w'"
| seq_tran: "AddSeqTran i src dst cnd w = Inr (u, w') \<Longrightarrow> api_step w w'"
| seq_root: "set_seq_root i k w = Inr (u, w') \<Longrightarrow> api_step w w'"
| decode: "set_decode k d w = Inr (u, w') \<Longrightarrow> api_step w w'"
| force_decode: "ForceSetDecode k d w = Inr (u, w') \<Longrightarrow> api_step w w'"
| upd: "set_update k v e w = Inr (u, w') \<Longrightarrow> api_step w w'"
| upd_name: "set_update_name k n e w = Inr (u, w') \<Longrightarrow> api_step w w'"
| force_upd: "ForceAddUpdate k n e w = Inr (u, w') \<Longrightarrow> api_step w w'"
| program: "set_program k p w = Inr (u, w') \<Longrightarrow> api_step w w'"
| expression: "same_heaps w w' \<Longrightarrow> api_step w w'"

inductive reachable :: "world \<Rightarrow> bool" where
  init: "reachable init_world"
| step: "reachable w \<Longrightarrow> api_step w w' \<Longrightarrow> reachable w'"

lemma api_step_keeps: "api_step w w' \<Longrightarrow> world_ok w \<Longrightarrow> world_ok w' \<and> heap_ext w w'"
proof (induction rule: api_step.induct)
  case (new_ila name p w i w')
  then show ?case
    using world_ok_with_ila [of w p name] heap_ext_with_ila [of w name p]
    by (auto simp: InstrLvlAbs_New_run)
next
  case (free_instr name h w k w')
  then show ?case
    using world_ok_with_instr [of w h name] heap_ext_with_instr [of w name h]
    by (auto simp: Instr_New_run)
next
  case (add_instr i k w u w' x)
  then obtain m where "ila_heap w i = Some m" "w' = upd_heap i (Ila_Inv.add_instr (sym_name (i_sym x)) k m) w"
    by (auto simp: AddInstr_run)
  then show ?case using world_ok_add_instr [OF add_instr(4) _ add_instr(2,3)] by simp
next
  case (add_child i c w u w' y)
  then obtain m where "ila_heap w i = Some m" "w' = upd_heap i (Ila_Inv.add_child (sym_name (m_sym y)) c m) w"
    by (auto simp: AddChild_run)
  then show ?case using world_ok_add_child [OF add_child(4) _ add_child(2,3)] by simp
next
  case (expression w w')
  then show ?case by (simp add: world_ok_same_heaps heap_ext_same_heaps)
qed (blast dest: keeps_api_dest)+

lemma reachable_world_ok: "reachable w \<Longrightarrow> world_ok w"
  by (induction rule: reachable.induct) (auto dest: api_step_keeps)

lemma foreign_child:
  assumes "ila_heap w i = Some m" "ila_heap w c = Some y" "parent y \<noteq> Some i" "kv_inv (childs m)"
    "find_child m (sym_name (m_sym y)) = None"
  shows "\<exists>w'. AddChild i (Some c) w = Inr ((), w') \<and> \<not> world_ok w'"
proof -
  let ?m = "add_child (sym_name (m_sym y)) c m" and ?w = "upd_heap i (add_child (sym_name (m_sym y)) c m) w"
  have "find_child ?m (sym_name (m_sym y)) = Some c"
    using assms(4,5) by (simp add: add_child_def find_child_def kv.lookup_add)
  moreover have "ila_heap ?w i = Some ?m" by (simp add: upd_heap_def)
  moreover have "parent z \<noteq> Some i" if "ila_heap ?w c = Some z" for z
    using that assms(1-3) by (auto simp: upd_heap_def add_child_def split: if_splits)
  ultimately have "ila_heap ?w i = Some ?m" "\<not> ila_at ?w i ?m" unfolding ila_at_def by blast+
  then have "\<not> world_ok ?w" using world_okD(1) by blast
  then show ?thesis using assms(1,2) by (auto simp: AddChild_run)
qed

subsection \<open>The hierarchy\<close>

lemma child_of:
  assumes ok: "world_ok w" and c: "c \<in> set (child_ids w i)"
  obtains m x where "ila_heap w i = Some m" "ila_heap w c = Some x" "parent x = Some i" "i < c"
proof -
  obtain m where m: "ila_heap w i = Some m" "c \<in> set (vec (childs m))"
    using c by (cases "ila_heap w i") (auto simp: child_ids_def)
  have at: "ila_at w i m" by (rule world_okD(1) [OF ok m(1)])
  then obtain n where "kv_find (childs m) n = Some c"
    using m(2) kv_find_ex_of_vec [of "childs m" c] by (auto simp: ila_at_def ila_local_def)
  then obtain x where x: "ila_heap w c = Some x" "parent x = Some i"
    using at unfolding ila_at_def find_child_def by blast
  then have "i < c" using world_okD(1) [OF ok x(1)] by (simp add: ila_at_def)
  with m(1) x that show thesis by blast
qed

text \<open>The path of names from the root.\<close>

lemma GetRootName_total: "world_ok w \<Longrightarrow> i \<in> dom (ila_heap w) \<Longrightarrow> GetRootName w i \<noteq> None"
proof (induction i rule: less_induct)
  case (less i)
  then obtain m where m: "ila_heap w i = Some m" by auto
  show ?case
  proof (cases "parent m")
    case None
    then show ?thesis using m by (simp add: GetRootName.simps [of w i])
  next
    case (Some p)
    then have "p < i" "p \<in> dom (ila_heap w)"
      using world_okD(1) [OF less.prems(1) m] by (auto simp: ila_at_def)
    then have "GetRootName w p \<noteq> None" using less by blast
    then show ?thesis using m Some by (auto simp: GetRootName.simps [of w i])
  qed
qed

text \<open>The ILAs below an ILA, each after its children: the order of \<^verbatim>\<open>DepthFirstVisit\<close>.\<close>

fun ila_order :: "nat \<Rightarrow> world \<Rightarrow> nat \<Rightarrow> nat list" where
  "ila_order 0 w i = []"
| "ila_order (Suc n) w i = concat (map (ila_order n w) (child_ids w i)) @ [i]"

abbreviation ila_tree :: "world \<Rightarrow> nat \<Rightarrow> nat list" where
  "ila_tree w i \<equiv> ila_order (Suc (counter w)) w i"

text \<open>A fuel above the number of identifiers that can still follow is enough.\<close>

lemma ila_order_fuel:
  assumes ok: "world_ok w"
  shows "counter w < i + n \<Longrightarrow> counter w < i + k \<Longrightarrow> 0 < n \<Longrightarrow> 0 < k \<Longrightarrow>
    ila_order n w i = ila_order k w i"
proof (induction n arbitrary: i k)
  case 0
  then show ?case by simp
next
  case (Suc n)
  obtain j where k: "k = Suc j" using Suc.prems by (cases k) auto
  have "ila_order n w c = ila_order j w c" if c: "c \<in> set (child_ids w i)" for c
  proof -
    obtain m x where x: "ila_heap w c = Some x" "i < c" by (rule child_of [OF ok c])
    then have "c \<le> counter w" using world_okD(1) [OF ok] by (auto simp: ila_at_def)
    with x(2) have "counter w < c + n" "counter w < c + j" "0 < n" "0 < j"
      using Suc.prems k by auto
    then show ?thesis by (rule Suc.IH)
  qed
  then show ?case by (simp add: k cong: map_cong)
qed

lemma ila_tree_unfold:
  assumes ok: "world_ok w"
  shows "ila_tree w i = concat (map (ila_tree w) (child_ids w i)) @ [i]"
proof -
  have "ila_order (counter w) w c = ila_tree w c" if c: "c \<in> set (child_ids w i)" for c
  proof -
    obtain m x where x: "ila_heap w c = Some x" "i < c" by (rule child_of [OF ok c])
    then have "c \<le> counter w" using world_okD(1) [OF ok] by (auto simp: ila_at_def)
    with x(2) show ?thesis by (intro ila_order_fuel [OF ok]) auto
  qed
  then show ?thesis by (simp cong: map_cong)
qed

text \<open>A visitor that leaves the children alone is applied along the tree.\<close>

lemma ila_visit_order:
  assumes frame: "\<And>i s u t. func i s = Inr (u, t) \<Longrightarrow> child_ids (wd t) = child_ids (wd s)"
    and ok: "world_ok w" 
  shows "child_ids (wd s) = child_ids w \<Longrightarrow> counter w < i + n \<Longrightarrow> 0 < n \<Longrightarrow>
    ila_visit wd n func i s = forM (ila_order n w i) func s"
proof (induction n arbitrary: i s)
  case 0
  then show ?case by simp
next
  case (Suc n)
  have loop: "forM cs (ila_visit wd n func) s = forM (concat (map (ila_order n w) cs)) func s"
    if "set cs \<subseteq> set (child_ids w i)" "child_ids (wd s) = child_ids w" for cs s
    using that
  proof (induction cs arbitrary: s)
    case Nil
    then show ?case by simp
  next
    case (Cons c cs)
    obtain m x where x: "ila_heap w c = Some x" "i < c"
      by (rule child_of [OF ok, of c i]) (use Cons.prems in auto)
    then have c: "counter w < c + n" "0 < n"
      using Suc.prems world_okD(1) [OF ok x(1)] by (auto simp: ila_at_def)
    have head: "ila_visit wd n func c s = forM (ila_order n w c) func s"
      using Suc.IH [OF Cons.prems(2) c] .
    show ?case
    proof (cases "forM (ila_order n w c) func s")
      case (Inl f)
      then show ?thesis by (simp add: head forM_append)
    next
      case (Inr r)
      then obtain t where t: "forM (ila_order n w c) func s = Inr ((), t)" by (cases r) auto
      have "child_ids (wd t) = child_ids w"
        by (rule forM_invariant [OF t]) (use frame Cons.prems in auto)
      then show ?thesis using Cons by (simp add: head t forM_append)
    qed
  qed
  have one: "forM [i] func = func i"
    by (rule ext) (auto simp: thenM_def bindM_def ret_def split: sum.splits)
  show ?case
    using loop [of "child_ids w i" s] Suc.prems
    by (auto simp: forM_append one thenM_def bindM_def split: sum.splits)
qed

lemma DepthFirstVisit_ila_tree:
  assumes "\<And>i s u t. func i s = Inr (u, t) \<Longrightarrow> child_ids (wd t) = child_ids (wd s)"
    and "world_ok (wd s)"
  shows "DepthFirstVisit_ila wd func i s = forM (ila_tree (wd s) i) func s"
  unfolding DepthFirstVisit_ila_def
  by (rule ila_visit_order [OF assms]) auto

end
