(* ===== verification/Abs_Knob.thy ===== *)
theory Abs_Knob
  imports Rewriter Ila_Inv
begin

text \<open>
  The name space \<^verbatim>\<open>absknob\<close> (\<^verbatim>\<open>src/ila-mngr/u_abs_knob.cc\<close>): collecting variables and
  instructions, rewriting instructions, duplicating the parts of an ILA, and the function
  objects that copy and flatten a hierarchy (\<^verbatim>\<open>src/ila-mngr/u_rewrite_ila.cc\<close>).
\<close>

subsection \<open>Sets of expressions\<close>

text \<open>An \<^verbatim>\<open>unordered_set\<close> of pointers: its members in the order of insertion.\<close>

type_synonym expr_set = "expr list"

definition set_insert :: "expr \<Rightarrow> expr_set \<Rightarrow> expr_set" where
  "set_insert e xs = (if list_ex (same_node e) xs then xs else xs @ [e])"

text \<open>\<^verbatim>\<open>for (const auto& e : set)\<close>\<close>

definition iterate :: "expr_set \<Rightarrow> expr list W" where
  "iterate xs = gets (\<lambda>w. iter_order w xs)"

text \<open>A visitor that updates an accumulator beside the world.\<close>

definition with_acc :: "('b \<Rightarrow> 'b W) \<Rightarrow> ('b \<times> world, unit) action" where
  "with_acc f = (\<lambda>(b, w). case f b w of Inl x \<Rightarrow> Inl x | Inr (b', w') \<Rightarrow> Inr ((), (b', w')))"

definition run_acc :: "('b \<times> world, unit) action \<Rightarrow> 'b \<Rightarrow> 'b W" where
  "run_acc m b = (\<lambda>w. case m (b, w) of Inl x \<Rightarrow> Inl x | Inr (_, (b', w')) \<Rightarrow> Inr (b', w'))"

lemma with_acc_Inr [simp]:
  "with_acc f (b, w) = Inr (u, (b', w')) \<longleftrightarrow> f b w = Inr (b', w')"
  by (auto simp: with_acc_def split: sum.splits)

lemma run_acc_Inr [simp]:
  "run_acc m b w = Inr (b', w') \<longleftrightarrow> m (b, w) = Inr ((), (b', w'))"
  by (auto simp: run_acc_def split: sum.splits)

subsection \<open>Collecting\<close>

text \<open>\<^verbatim>\<open>FuncObjInsertExprVar\<close> and \<^verbatim>\<open>GetVar\<close> of an expression.\<close>

definition insert_var :: "expr \<Rightarrow> (expr_set, unit) action" where
  "insert_var e = (if is_var e then modify (set_insert e) else ret ())"

definition GetVar :: "expr \<Rightarrow> expr_set res" where
  "GetVar e = bindR (DepthFirstVisit insert_var e []) (\<lambda>(_, vars). Inr vars)"

definition InsertStt :: "nat \<Rightarrow> expr_set \<Rightarrow> expr_set W" where
  "InsertStt i stts = bindM (the_ila i) (\<lambda>m. ret (fold set_insert (vec (states m)) stts))"

definition InsertInp :: "nat \<Rightarrow> expr_set \<Rightarrow> expr_set W" where
  "InsertInp i inps = bindM (the_ila i) (\<lambda>m. ret (fold set_insert (vec (inputs m)) inps))"

definition InsertVar :: "nat \<Rightarrow> expr_set \<Rightarrow> expr_set W" where
  "InsertVar i vars = bindM (InsertStt i vars) (InsertInp i)"

definition InsertSttTree :: "nat \<Rightarrow> expr_set \<Rightarrow> expr_set W" where
  "InsertSttTree tp stts =
     run_acc (DepthFirstVisit_ila snd (\<lambda>i. with_acc (InsertStt i)) tp) stts"

definition InsertInpTree :: "nat \<Rightarrow> expr_set \<Rightarrow> expr_set W" where
  "InsertInpTree tp inps =
     run_acc (DepthFirstVisit_ila snd (\<lambda>i. with_acc (InsertInp i)) tp) inps"

definition InsertVarTree :: "nat \<Rightarrow> expr_set \<Rightarrow> expr_set W" where
  "InsertVarTree tp vars = bindM (InsertSttTree tp vars) (InsertInpTree tp)"

text \<open>The overloads for an instruction.\<close>

definition InsertStt_instr :: "nat \<Rightarrow> expr_set \<Rightarrow> expr_set W" where
  "InsertStt_instr k vars =
     bindM (the_instr k) (\<lambda>x. bindM (ila_not_null (i_host x)) (\<lambda>h. InsertStt h vars))"

definition InsertSttTree_instr :: "nat \<Rightarrow> expr_set \<Rightarrow> expr_set W" where
  "InsertSttTree_instr k vars =
     bindM (the_instr k) (\<lambda>x. bindM (ila_not_null (i_host x)) (\<lambda>h. InsertSttTree h vars))"

definition GetVar_ila :: "nat \<Rightarrow> expr_set W" where
  "GetVar_ila i = InsertVar i []"

definition GetStt :: "nat \<Rightarrow> expr_set W" where
  "GetStt i = InsertStt i []"

definition GetInp :: "nat \<Rightarrow> expr_set W" where
  "GetInp i = InsertInp i []"

definition GetVarTree :: "nat \<Rightarrow> expr_set W" where
  "GetVarTree tp = InsertVarTree tp []"

definition GetSttTree :: "nat \<Rightarrow> expr_set W" where
  "GetSttTree tp = InsertSttTree tp []"

text \<open>\<^verbatim>\<open>GetInpTree\<close> calls \<^verbatim>\<open>InsertInp\<close>.\<close>

definition GetInpTree :: "nat \<Rightarrow> expr_set W" where
  "GetInpTree tp = InsertInp tp []"

definition InsertInstr :: "nat \<Rightarrow> nat list \<Rightarrow> nat list W" where
  "InsertInstr i ks = bindM (the_ila i) (\<lambda>m. ret (ks @ vec (instrs m)))"

definition GetInstr :: "nat \<Rightarrow> nat list W" where
  "GetInstr i = InsertInstr i []"

definition InsertInstrTree :: "nat \<Rightarrow> nat list \<Rightarrow> nat list W" where
  "InsertInstrTree tp ks =
     run_acc (DepthFirstVisit_ila snd (\<lambda>i. with_acc (InsertInstr i)) tp) ks"

definition GetInstrTree :: "nat \<Rightarrow> nat list W" where
  "GetInstrTree i = InsertInstrTree i []"

subsection \<open>Rewriting an instruction\<close>

definition RewriteInstr :: "nat \<Rightarrow> nat \<Rightarrow> expr_map \<Rightarrow> unit W" where
  "RewriteInstr src dst emap =
     bindM (the_instr src) (\<lambda>x.
     bindM (Rewrite (decode x) emap) (\<lambda>d_dst.
     thenM (set_decode dst (Some d_dst))
    (bindM (updated_states src) (\<lambda>ss.
     forM ss (\<lambda>st.
       bindM (instr_update src st) (\<lambda>update_src.
       bindM (Rewrite update_src emap) (\<lambda>update_dst.
       set_update_name dst st (Some update_dst))))))))"

subsection \<open>Duplication\<close>

definition DuplInp_var :: "nat \<Rightarrow> expr \<Rightarrow> expr W" where
  "DuplInp_var m inp =
     thenM (ila_assert (is_var inp) ''Creating input from non-var Expr.'')
     (case esort inp of
        SortBool \<Rightarrow> NewBoolInput m (ename inp)
      | SortBv bw \<Rightarrow> NewBvInput m (ename inp) bw
      | SortMem aw dw \<Rightarrow> NewMemInput m (ename inp) aw dw)"

definition DuplStt_var :: "nat \<Rightarrow> expr \<Rightarrow> expr W" where
  "DuplStt_var m stt =
     thenM (ila_assert (is_var stt) ''Creating state from non-var Expr.'')
     (case esort stt of
        SortBool \<Rightarrow> NewBoolState m (ename stt)
      | SortBv bw \<Rightarrow> NewBvState m (ename stt) bw
      | SortMem aw dw \<Rightarrow> NewMemState m (ename stt) aw dw)"

text \<open>\<^verbatim>\<open>expr_map.try_emplace(src, dst)\<close>\<close>

definition try_emplace :: "expr \<Rightarrow> expr \<Rightarrow> expr_map \<Rightarrow> expr_map" where
  "try_emplace e d emap = (if emap (eid e) = None then emap(eid e \<mapsto> Some d) else emap)"

definition DuplInp :: "nat \<Rightarrow> nat \<Rightarrow> expr_map \<Rightarrow> expr_map W" where
  "DuplInp src dst emap =
     bindM (GetInp src) (\<lambda>inps.
     bindM (iterate inps) (\<lambda>is.
     foldM (\<lambda>emap inp_src.
       bindM (the_ila dst) (\<lambda>m.
       bindM (case find_input m (ename inp_src) of
                Some d \<Rightarrow> ret d | None \<Rightarrow> DuplInp_var dst inp_src) (\<lambda>inp_dst.
       ret (try_emplace inp_src inp_dst emap)))) emap is))"

definition DuplStt :: "nat \<Rightarrow> nat \<Rightarrow> expr_map \<Rightarrow> expr_map W" where
  "DuplStt src dst emap =
     bindM (GetStt src) (\<lambda>stts.
     bindM (iterate stts) (\<lambda>ss.
     foldM (\<lambda>emap stt_src.
       bindM (the_ila dst) (\<lambda>m.
       bindM (case find_state m (ename stt_src) of
                Some d \<Rightarrow> ret d | None \<Rightarrow> DuplStt_var dst stt_src) (\<lambda>stt_dst.
       ret (try_emplace stt_src stt_dst emap)))) emap ss))"

definition DuplFetch :: "nat \<Rightarrow> nat \<Rightarrow> expr_map \<Rightarrow> expr option W" where
  "DuplFetch src dst emap =
     bindM (the_ila src) (\<lambda>m. case fetch m of
       None \<Rightarrow> ret None
     | Some f \<Rightarrow> bindM (Rewrite (Some f) emap) (\<lambda>f_dst.
         thenM (SetFetch dst (Some f_dst)) (ret (Some f_dst))))"

definition DuplValid :: "nat \<Rightarrow> nat \<Rightarrow> expr_map \<Rightarrow> expr option W" where
  "DuplValid src dst emap =
     bindM (the_ila src) (\<lambda>m. case valid m of
       None \<Rightarrow> ret None
     | Some v \<Rightarrow> bindM (Rewrite (Some v) emap) (\<lambda>v_dst.
         thenM (SetValid dst (Some v_dst)) (ret (Some v_dst))))"

definition DuplInit :: "nat \<Rightarrow> nat \<Rightarrow> expr_map \<Rightarrow> unit W" where
  "DuplInit src dst emap =
     bindM (the_ila src) (\<lambda>m.
     forM (inits m) (\<lambda>i_src.
       bindM (Rewrite (Some i_src) emap) (\<lambda>i_dst. AddInit dst (Some i_dst))))"

type_synonym ila_map = "nat \<rightharpoonup> nat"

definition DuplInstr :: "nat \<Rightarrow> nat \<Rightarrow> expr_map \<Rightarrow> ila_map \<Rightarrow> nat W" where
  "DuplInstr i_src dst emap imap =
     bindM (the_instr i_src) (\<lambda>x.
     bindM (NewInstr dst (sym_name (i_sym x))) (\<lambda>i_dst.
     thenM (RewriteInstr i_src i_dst emap)
    (thenM (case prog x of
        None \<Rightarrow> ret ()
      | Some p_src \<Rightarrow>
          thenM (ila_assert (imap p_src \<noteq> None) ''Child-program not mapped.'')
                (set_program i_dst (imap p_src)))
    (ret i_dst))))"

text \<open>\<^verbatim>\<open>DuplInstrSeq\<close> has an empty body.\<close>

definition DuplInstrSeq :: "nat \<Rightarrow> nat \<Rightarrow> unit W" where
  "DuplInstrSeq src dst = ret ()"

subsection \<open>Copying a hierarchy\<close>

text \<open>\<^verbatim>\<open>map.insert\<close> does not overwrite.\<close>

definition map_insert :: "nat \<Rightarrow> nat \<Rightarrow> ila_map \<Rightarrow> ila_map" where
  "map_insert k v m = (if m k = None then m(k \<mapsto> v) else m)"

type_synonym rewr_ila = "(ila_map \<times> expr_map) \<times> world"

definition FuncObjRewrIla_get :: "ila_map \<Rightarrow> nat \<Rightarrow> nat res" where
  "FuncObjRewrIla_get imap m =
     bindR (checkR (imap m \<noteq> None) ''not found'') (\<lambda>_. Inr (the (imap m)))"

definition state_num :: "nat \<Rightarrow> nat W" where
  "state_num i = bindM (the_ila i) (\<lambda>m. ret (kv_size (states m)))"

text \<open>The children of the source are created in the destination, and recorded.\<close>

definition dupl_children :: "nat \<Rightarrow> nat \<Rightarrow> ila_map \<Rightarrow> ila_map W" where
  "dupl_children src dst imap =
     bindM (gets (\<lambda>w. child_ids w src)) (\<lambda>cs.
     foldM (\<lambda>imap c_src.
       bindM (the_ila c_src) (\<lambda>cm.
       bindM (NewChild dst (sym_name (m_sym cm))) (\<lambda>c_dst.
       thenM (set_spec c_dst (is_spec cm))
             (ret (map_insert c_src c_dst imap))))) imap cs)"

definition FuncObjRewrIla_pre :: "nat \<Rightarrow> ila_map \<times> expr_map \<Rightarrow> (ila_map \<times> expr_map) W" where
  "FuncObjRewrIla_pre src = (\<lambda>(imap, emap).
     thenM (ila_assert (imap src \<noteq> None) ''ILA dst not found.'')
    (let dst = the (imap src) in
     bindM (state_num dst) (\<lambda>n.
     bindM (the_ila dst) (\<lambda>m.
     bindM (case parent m of None \<Rightarrow> ret 0 | Some p \<Rightarrow> state_num p) (\<lambda>pn.
     thenM (ila_assert (n = pn) ''Rewriting ILA to partially constructed ILA not support.'')
    (bindM (DuplInp src dst emap) (\<lambda>emap.
     bindM (DuplStt src dst emap) (\<lambda>emap.
     bindM (dupl_children src dst imap) (\<lambda>imap.
     bindM (DuplFetch src dst emap) (\<lambda>_.
     bindM (DuplValid src dst emap) (\<lambda>_.
     thenM (DuplInit src dst emap)
    (bindM (the_ila src) (\<lambda>ms.
     thenM (forM (vec (instrs ms)) (\<lambda>i_src. bindM (DuplInstr i_src dst emap imap) (\<lambda>_. ret ())))
    (thenM (DuplInstrSeq src dst)
    (ret (imap, emap))))))))))))))))"

text \<open>The visit with the function object; \<^verbatim>\<open>pre\<close> never stops it and \<^verbatim>\<open>post\<close> is empty.\<close>

definition rewr_ila_visit :: "nat \<Rightarrow> ila_map \<times> expr_map \<Rightarrow> (ila_map \<times> expr_map) W" where
  "rewr_ila_visit src = run_acc (DepthFirstVisitPrePost_ila snd
     (\<lambda>i. thenM (with_acc (FuncObjRewrIla_pre i)) (ret False)) (\<lambda>i. ret ()) src)"

definition CopyIlaTree :: "nat \<Rightarrow> string \<Rightarrow> nat W" where
  "CopyIlaTree src dst_name =
     bindM (InstrLvlAbs_New dst_name None) (\<lambda>dst.
     bindM (the_ila src) (\<lambda>m.
     thenM (set_spec dst (is_spec m))
    (bindM (rewr_ila_visit src ([src \<mapsto> dst], Map.empty)) (\<lambda>_.
     ret dst))))"

subsection \<open>Extracting the model of an instruction\<close>

definition ExtrDeptModl :: "nat \<Rightarrow> string \<Rightarrow> nat W" where
  "ExtrDeptModl k name =
     bindM (the_instr k) (\<lambda>x.
     bindM (ila_not_null (i_host x)) (\<lambda>src.
     bindM (InstrLvlAbs_New name None) (\<lambda>dst.
     bindM (catchM
       (bindM (DuplInp src dst Map.empty) (\<lambda>emap.
        bindM (DuplStt src dst emap) (\<lambda>emap.
        bindM (DuplFetch src dst emap) (\<lambda>_.
        bindM (DuplValid src dst emap) (\<lambda>_.
        thenM (DuplInit src dst emap)
       (thenM (DuplInstrSeq src dst)
       (ret (Some emap))))))))
       (ret None)) (\<lambda>r.
     case r of
       None \<Rightarrow> ret src
     | Some emap \<Rightarrow>
         bindM (case prog x of
             None \<Rightarrow> ret [src \<mapsto> dst]
           | Some prog_src \<Rightarrow>
               bindM (the_ila prog_src) (\<lambda>pm.
               bindM (NewChild dst (sym_name (m_sym pm))) (\<lambda>prog_dst.
               let imap = map_insert prog_src prog_dst [src \<mapsto> dst] in
               thenM (catchM (bindM (rewr_ila_visit prog_src (imap, emap)) (\<lambda>_. ret ())) (ret ()))
                     (ret imap)))) (\<lambda>imap.
         bindM (DuplInstr k dst emap imap) (\<lambda>_.
         ret dst))))))"

subsection \<open>Flattening\<close>

text \<open>\<^verbatim>\<open>recordInpStates\<close>\<close>

definition record_inp_states :: "nat \<Rightarrow> nat \<Rightarrow> ila_map \<times> expr_map \<Rightarrow> (ila_map \<times> expr_map) W" where
  "record_inp_states tp a = (\<lambda>(imap, emap).
     if a = tp then ret (imap, emap)
     else
       bindM (DuplInp a tp emap) (\<lambda>emap.
       bindM (DuplStt a tp emap) (\<lambda>emap.
       thenM (DuplInit a tp emap)
      (ret (map_insert a tp imap, emap)))))"

text \<open>\<^verbatim>\<open>FuncObjFlatIla::pre\<close>; with \<^verbatim>\<open>VALID_STACK\<close> undefined the valid condition is computed
  and dropped.  Its own copies of the maps are not changed.\<close>

definition FuncObjFlatIla_pre :: "nat \<Rightarrow> ila_map \<Rightarrow> expr_map \<Rightarrow> nat \<Rightarrow> unit W" where
  "FuncObjFlatIla_pre tp imap emap src =
     (if src = tp then ret ()
      else
        thenM (ila_assert (imap src \<noteq> None) ''ILA dst not found.'')
       (bindM (the_ila src) (\<lambda>m.
        bindM (case valid m of None \<Rightarrow> BoolConst True | Some v \<Rightarrow> ret v) (\<lambda>valid_cond.
        forM (vec (instrs m)) (\<lambda>i_src.
          bindM (DuplInstr i_src (the (imap src)) emap imap) (\<lambda>_. ret ()))))))"

definition FlattenIla :: "nat \<Rightarrow> unit W" where
  "FlattenIla tp =
     bindM (run_acc (DepthFirstVisit_ila snd (\<lambda>a. with_acc (record_inp_states tp a)) tp)
       (Map.empty, Map.empty)) (\<lambda>(imap, emap).
     DepthFirstVisitPrePost_ila id
       (\<lambda>src. thenM (FuncObjFlatIla_pre tp imap emap src) (ret False)) (\<lambda>_. ret ()) tp)"

end
