(* ===== verification/Abs_Knob_Inv.thy ===== *)
theory Abs_Knob_Inv
  imports Abs_Knob
begin

text \<open>
  What the operations of \<^verbatim>\<open>absknob\<close> deliver: building and rewriting expressions draws
  identifiers and nothing else, every operation keeps the objects well-formed, the
  collectors find what they promise, and a duplicated instruction computes what its source
  computes.
\<close>

subsection \<open>Building expressions only draws identifiers\<close>

definition draws :: "'a W \<Rightarrow> bool" where
  "draws m \<longleftrightarrow> (\<forall>w a w'. m w = Inr (a, w') \<longrightarrow> same_heaps w w')"

lemma drawsI: "(\<And>w a w'. m w = Inr (a, w') \<Longrightarrow> same_heaps w w') \<Longrightarrow> draws m"
  unfolding draws_def by blast

lemma drawsD: "draws m \<Longrightarrow> m w = Inr (a, w') \<Longrightarrow> same_heaps w w'"
  unfolding draws_def by blast

lemma draws_bindM [intro]: "draws m \<Longrightarrow> (\<And>a. draws (f a)) \<Longrightarrow> draws (bindM m f)"
  by (rule drawsI) (auto simp: bindM_Inr_iff dest!: drawsD intro: same_heaps_trans)

lemma draws_thenM [intro]: "draws m \<Longrightarrow> draws k \<Longrightarrow> draws (thenM m k)"
  by (simp add: thenM_def draws_bindM)

lemma draws_simple [simp, intro]:
  "draws (ret a)" "draws (liftR r)" "draws (gets g)" "draws (fail x)" "draws (the_ila i)"
  "draws (the_instr i)" "draws (on_counter Symbol_default)" "draws (on_counter (Symbol_str n))"
  by (auto simp: draws_def)

lemma draws_If [intro]: "(b \<Longrightarrow> draws m) \<Longrightarrow> (\<not> b \<Longrightarrow> draws n) \<Longrightarrow> draws (if b then m else n)"
  by simp

lemma draws_keeps: "draws m \<Longrightarrow> keeps m"
  by (rule keeps_same_heaps) (rule drawsD)

lemma draws_contract: "op_contract m u as ps f \<Longrightarrow> draws m"
  by (rule drawsI) (auto dest!: op_contractD)

lemmas draws_op [simp, intro] = contract_unary [THEN draws_contract] contract_logic [THEN draws_contract]
  contract_shift [THEN draws_contract] contract_arith [THEN draws_contract]
  contract_compare [THEN draws_contract] contract_load [THEN draws_contract]
  contract_store [THEN draws_contract] contract_concat [THEN draws_contract]
  contract_bv_params [THEN draws_contract] contract_misc [THEN draws_contract]
  contract_ite [THEN draws_contract]

lemma draws_const [simp, intro]: "draws (BvConst v bw)" "draws (BoolConst b)"
  unfolding BvConst_def ExprConst_bv_def BoolConst_def ExprConst_bool_def by auto

lemma draws_promote:
  "(\<And>a b. draws (mk a b)) \<Longrightarrow> draws (promote n mk msg l r)"
proof (induction n arbitrary: l r)
  case 0
  then show ?case by (simp add: draws_def)
next
  case (Suc n)
  then show ?case
    unfolding promote.simps Eq_val_def const_like_def Eq_def by (intro draws_If draws_bindM draws_thenM) auto
qed

lemma draws_hub [simp, intro]:
  "draws (Negate a)" "draws (LogicNot a)" "draws (Complement a)" "draws (And a b)" "draws (Or a b)"
  "draws (Xor a b)" "draws (Shl a b)" "draws (Ashr a b)" "draws (Lshr a b)" "draws (Add a b)"
  "draws (Sub a b)" "draws (Div a b)" "draws (URem a b)" "draws (Mul a b)" "draws (Eq a b)"
  "draws (Lt a b)" "draws (Gt a b)" "draws (Ult a b)" "draws (Ugt a b)" "draws (Load a b)"
  "draws (Store a b c)" "draws (Concat a b)" "draws (Extract a i j)" "draws (ZExt a i)"
  "draws (SExt a i)" "draws (LRotate a i)" "draws (RRotate a i)" "draws (Imply a b)"
  "draws (Ite a b c)" "draws (AppFunc f as)"
  unfolding Negate_def LogicNot_def Complement_def And_def Or_def Xor_def Shl_def Ashr_def
    Lshr_def Add_def Sub_def Div_def URem_def Mul_def Eq_def Lt_def Gt_def Ult_def Ugt_def
    Load_def Store_def Concat_def Extract_def ZExt_def SExt_def LRotate_def RRotate_def Imply_def
    Ite_def AppFunc_def
  by ((intro draws_bindM draws_If)?; simp add: draws_promote)+

lemma draws_nodes [simp, intro]:
  "(\<And>a. draws (m1 a)) \<Longrightarrow> draws (node1 m1 rule e)"
  "(\<And>a b. draws (m2 a b)) \<Longrightarrow> draws (node2 m2 rule e)"
  "(\<And>a b c. draws (m3 a b c)) \<Longrightarrow> draws (node3 m3 rule e)"
  "(\<And>a p. draws (m1p a p)) \<Longrightarrow> draws (node1p m1p rule e)"
  "(\<And>a p q. draws (m1pp a p q)) \<Longrightarrow> draws (node1pp m1pp rule e)"
  "draws (node_app rule e)"
  unfolding node1_def node2_def node3_def node1p_def node1pp_def node_app_def
  by (intro draws_bindM draws_If; simp)+

lemma draws_RewriteOp [simp, intro]: "draws (RewriteOp rule e)"
proof -
  have "draws (rewrite_uid u rule e)" for u by (cases u) auto
  then show ?thesis unfolding RewriteOp_def by auto
qed

lemma rewr_visit_draws:
  assumes "\<And>rule e. draws (rw rule e)"
  shows "rewr_visit rw e (rule, w) = Inr (u, (rule', w')) \<Longrightarrow> same_heaps w w'"
proof (induction e arbitrary: u rule w rule' w' rule: measure_induct_rule [of size])
  case (less e)
  have eta: "rewr_visit rw = DepthFirstVisitPrePost rewr_pre (rewr_post (rewr_Rewrite rw))"
    by (simp add: fun_eq_iff rewr_visit_def)
  show ?case
  proof (cases "rule (eid e)")
    case (Some d)
    then show ?thesis using less.prems
      by (simp add: eta DepthFirstVisitPrePost.simps [of _ _ e] rewr_pre_def)
  next
    case None
    then obtain r1 w1 where 1: "forM (args e) (rewr_visit rw) (rule, w) = Inr ((), (r1, w1))"
      "rewr_post (rewr_Rewrite rw) e (r1, w1) = Inr (u, (rule', w'))"
      using less.prems
      by (auto simp: eta DepthFirstVisitPrePost.simps [of _ _ e] rewr_pre_def thenM_Inr_iff)
    have "same_heaps w (snd (r1, w1))"
      by (rule forM_invariant [OF 1(1), where P = "\<lambda>s. same_heaps w (snd s)"])
         (auto dest!: less.IH [OF size_args] intro: same_heaps_trans)
    moreover have "draws (rewr_Rewrite rw r1 e)"
      unfolding rewr_Rewrite_def using assms by auto
    then have "same_heaps w1 w'"
      using 1(2) by (auto simp: rewr_post_def split: sum.splits option.splits dest: drawsD)
    ultimately show ?thesis by (auto intro: same_heaps_trans)
  qed
qed

lemma draws_Rewrite [simp, intro]: "draws (Rewrite e rule)"
proof (rule drawsI)
  fix w a w' assume "Rewrite e rule w = Inr (a, w')"
  then obtain rule' where "rewr_visit RewriteOp (the e) (rule, w) = Inr ((), (rule', w'))"
    by (auto simp: Rewrite_def bindR_Inr_iff)
  then show "same_heaps w w'" by (rule rewr_visit_draws [rotated]) auto
qed

lemma keeps_Rewrite [simp, intro]: "keeps (Rewrite e rule)"
  by (rule draws_keeps) simp

subsection \<open>Every operation keeps the objects well-formed\<close>

lemma keeps_foldM [intro]: "(\<And>b x. keeps (f b x)) \<Longrightarrow> keeps (foldM f b xs)"
  by (induction xs arbitrary: b) auto

lemma keeps_option [intro]:
  "keeps m \<Longrightarrow> (\<And>x. keeps (f x)) \<Longrightarrow> keeps (case r of None \<Rightarrow> m | Some x \<Rightarrow> f x)"
  by (cases r) auto

lemma keeps_prod [intro]: "(\<And>a b. keeps (f a b)) \<Longrightarrow> keeps (case p of (a, b) \<Rightarrow> f a b)"
  by (cases p) auto

lemma keeps_catchM [intro]: "keeps m \<Longrightarrow> keeps h \<Longrightarrow> keeps (catchM m h)"
proof (rule keepsI)
  fix w a w' assume k: "keeps m" "keeps h" and w: "world_ok w" and run: "catchM m h w = Inr (a, w')"
  then have "m w = Inr (a, w') \<or> h w = Inr (a, w')"
    by (simp add: catchM_def split: sum.splits if_splits)
  then show "world_ok w' \<and> heap_ext w w'"
    using keepsD [OF k(1) w] keepsD [OF k(2) w] by blast
qed

definition keeps_acc :: "('b \<times> world, 'a) action \<Rightarrow> bool" where
  "keeps_acc m \<longleftrightarrow> (\<forall>s a t. world_ok (snd s) \<longrightarrow> m s = Inr (a, t) \<longrightarrow>
     world_ok (snd t) \<and> heap_ext (snd s) (snd t))"

lemma keeps_accD:
  "keeps_acc m \<Longrightarrow> world_ok (snd s) \<Longrightarrow> m s = Inr (a, t) \<Longrightarrow> world_ok (snd t) \<and> heap_ext (snd s) (snd t)"
  unfolding keeps_acc_def by blast

lemma keeps_accI:
  "(\<And>s a t. world_ok (snd s) \<Longrightarrow> m s = Inr (a, t) \<Longrightarrow> world_ok (snd t) \<and> heap_ext (snd s) (snd t)) \<Longrightarrow>
   keeps_acc m"
  unfolding keeps_acc_def by (intro allI impI)

lemma keeps_acc_bindM [intro]:
  assumes m: "keeps_acc m" and f: "\<And>a. keeps_acc (f a)"
  shows "keeps_acc (bindM m f)"
proof (rule keeps_accI)
  fix s b u assume s: "world_ok (snd s)" and run: "bindM m f s = Inr (b, u)"
  from run obtain a t where r: "m s = Inr (a, t)" "f a t = Inr (b, u)"
    by (auto simp: bindM_Inr_iff)
  have 1: "world_ok (snd t) \<and> heap_ext (snd s) (snd t)" by (rule keeps_accD [OF m s r(1)])
  have "world_ok (snd u) \<and> heap_ext (snd t) (snd u)"
    by (rule keeps_accD [OF f _ r(2)]) (use 1 in blast)
  with 1 show "world_ok (snd u) \<and> heap_ext (snd s) (snd u)" using heap_ext_trans by blast
qed

lemma keeps_acc_thenM [intro]: "keeps_acc m \<Longrightarrow> keeps_acc k \<Longrightarrow> keeps_acc (thenM m k)"
  by (simp add: thenM_def keeps_acc_bindM)

lemma keeps_acc_ret [simp, intro]: "keeps_acc (ret a)" "keeps_acc (fail x)"
  by (simp_all add: keeps_acc_def)

lemma keeps_acc_forM [intro]: "(\<And>x. keeps_acc (f x)) \<Longrightarrow> keeps_acc (forM xs f)"
proof (induction xs)
  case Nil
  show ?case unfolding forM.simps by (rule keeps_acc_ret)
next
  case (Cons x xs)
  show ?case unfolding forM.simps by (rule keeps_acc_thenM [OF Cons.prems Cons.IH [OF Cons.prems]])
qed

lemma keeps_acc_with [intro]: "(\<And>b. keeps (f b)) \<Longrightarrow> keeps_acc (with_acc f)"
  unfolding keeps_acc_def by (auto dest: keepsD)

lemma keeps_run_acc [intro]: "keeps_acc m \<Longrightarrow> keeps (run_acc m b)"
  unfolding keeps_def keeps_acc_def by fastforce

lemma keeps_acc_If: "(b \<Longrightarrow> keeps_acc m) \<Longrightarrow> (\<not> b \<Longrightarrow> keeps_acc n) \<Longrightarrow> keeps_acc (if b then m else n)"
  by simp

lemmas keeps_acc_intros = keeps_acc_bindM keeps_acc_thenM keeps_acc_ret keeps_acc_forM keeps_acc_with

lemma keeps_acc_state: "(\<And>s. keeps_acc (m s)) \<Longrightarrow> keeps_acc (\<lambda>s. m s s)"
  by (simp add: keeps_acc_def)

lemma keeps_acc_visit:
  assumes "\<And>i. keeps_acc (func i)"
  shows "keeps_acc (ila_visit wd n func i)"
proof (induction n arbitrary: i)
  case 0
  show ?case by (simp add: keeps_acc_def)
next
  case (Suc n)
  have "keeps_acc (thenM (forM cs (ila_visit wd n func)) (func i))" for cs
    by (intro keeps_acc_thenM keeps_acc_forM Suc.IH assms)
  then show ?case
    unfolding ila_visit.simps
    by (rule keeps_acc_state [of "\<lambda>s. thenM (forM (child_ids (wd s) i) (ila_visit wd n func)) (func i)"])
qed

lemma keeps_acc_visit_pp:
  assumes "\<And>i. keeps_acc (pre i)" "\<And>i. keeps_acc (post i)"
  shows "keeps_acc (ila_visit_pre_post wd n pre post i)"
proof (induction n arbitrary: i)
  case 0
  show ?case by (simp add: keeps_acc_def)
next
  case (Suc n)
  let ?k = "\<lambda>s. thenM (forM (child_ids (wd s) i) (ila_visit_pre_post wd n pre post)) (post i)"
  have "keeps_acc (?k s)" for s
    by (intro keeps_acc_thenM keeps_acc_forM Suc.IH assms)
  then have "keeps_acc (\<lambda>s. ?k s s)" by (rule keeps_acc_state [of ?k])
  then show ?case
    unfolding ila_visit_pre_post.simps by (intro keeps_acc_bindM keeps_acc_If assms keeps_acc_ret)
qed

lemma keeps_acc_DepthFirst:
  assumes "\<And>i. keeps_acc (func i)"
  shows "keeps_acc (DepthFirstVisit_ila wd func i)"
  unfolding DepthFirstVisit_ila_def
  by (rule keeps_acc_state [of "\<lambda>s. ila_visit wd (Suc (counter (wd s))) func i"])
     (rule keeps_acc_visit [OF assms])

lemma keeps_acc_DepthFirst_pp:
  assumes "\<And>i. keeps_acc (pre i)" "\<And>i. keeps_acc (post i)"
  shows "keeps_acc (DepthFirstVisitPrePost_ila wd pre post i)"
  unfolding DepthFirstVisitPrePost_ila_def
  by (rule keeps_acc_state [of "\<lambda>s. ila_visit_pre_post wd (Suc (counter (wd s))) pre post i"])
     (rule keeps_acc_visit_pp [OF assms])

lemmas keeps_intros = keeps_bindM keeps_thenM keeps_simple keeps_option keeps_prod keeps_If
  keeps_forM keeps_foldM keeps_catchM keeps_Rewrite keeps_api keeps_queries keeps_run_acc
  keeps_acc_intros keeps_acc_DepthFirst keeps_acc_DepthFirst_pp

lemma keeps_collect:
  "keeps (iterate xs)" "keeps (InsertStt i xs)" "keeps (InsertInp i xs)" "keeps (InsertVar i xs)"
  "keeps (GetStt i)" "keeps (GetInp i)"
  unfolding iterate_def InsertStt_def InsertInp_def InsertVar_def GetStt_def GetInp_def
  by (intro keeps_intros)+

lemma keeps_RewriteInstr: "keeps (RewriteInstr a b m)"
  unfolding RewriteInstr_def by (intro keeps_intros)

lemma keeps_Dupl_var: "keeps (DuplInp_var m v)" "keeps (DuplStt_var m v)"
  unfolding DuplInp_var_def DuplStt_var_def
  by (cases "esort v"; simp only: sort.case; intro keeps_intros)+

lemma keeps_Dupl:
  "keeps (DuplInp a b m)" "keeps (DuplStt a b m)" "keeps (DuplFetch a b m)" "keeps (DuplValid a b m)"
  "keeps (DuplInit a b m)" "keeps (DuplInstr a b m im)" "keeps (DuplInstrSeq a b)"
  unfolding DuplInp_def DuplStt_def DuplFetch_def DuplValid_def DuplInit_def DuplInstr_def
    DuplInstrSeq_def
  by (intro keeps_intros keeps_collect keeps_RewriteInstr keeps_Dupl_var)+

lemma keeps_dupl_children: "keeps (dupl_children a b m)" "keeps (state_num i)"
  unfolding dupl_children_def state_num_def by (intro keeps_intros)+

lemma keeps_FuncObjRewrIla_pre: "keeps (FuncObjRewrIla_pre i b)"
  unfolding FuncObjRewrIla_pre_def Let_def
  by (intro keeps_intros keeps_Dupl keeps_dupl_children)

lemma keeps_rewr_ila_visit: "keeps (rewr_ila_visit i b)"
  unfolding rewr_ila_visit_def by (intro keeps_intros keeps_FuncObjRewrIla_pre)

text \<open>Creating an ILA without a parent.\<close>

lemma keeps_InstrLvlAbs_New: "keeps (InstrLvlAbs_New n None)"
  by (rule keepsI)
     (auto simp: InstrLvlAbs_New_run heap_ext_with_ila intro: world_ok_with_ila)

lemma keeps_CopyIlaTree: "keeps (CopyIlaTree i n)"
  unfolding CopyIlaTree_def by (intro keeps_intros keeps_InstrLvlAbs_New keeps_rewr_ila_visit)

lemma keeps_ExtrDeptModl: "keeps (ExtrDeptModl k n)"
  unfolding ExtrDeptModl_def Let_def
  by (intro keeps_intros keeps_InstrLvlAbs_New keeps_Dupl keeps_rewr_ila_visit)

lemma keeps_record: "keeps (record_inp_states t a b)"
  unfolding record_inp_states_def by (intro keeps_intros keeps_Dupl)

lemma keeps_flat_pre: "keeps (FuncObjFlatIla_pre t im em i)"
  unfolding FuncObjFlatIla_pre_def
  by (intro keeps_intros keeps_Dupl draws_keeps draws_const)

text \<open>A visitor without an accumulator.\<close>

lemma keeps_state: "(\<And>s. keeps (m s)) \<Longrightarrow> keeps (\<lambda>s. m s s)"
  unfolding keeps_def by blast

lemma keeps_visit_pp:
  assumes "\<And>i. keeps (pre i)" "\<And>i. keeps (post i)"
  shows "keeps (ila_visit_pre_post wd n pre post i)"
proof (induction n arbitrary: i)
  case 0
  show ?case by (simp add: keeps_def)
next
  case (Suc n)
  let ?k = "\<lambda>s. thenM (forM (child_ids (wd s) i) (ila_visit_pre_post wd n pre post)) (post i)"
  have "keeps (?k s)" for s by (intro keeps_thenM keeps_forM Suc.IH assms)
  then have "keeps (\<lambda>s. ?k s s)" by (rule keeps_state [of ?k])
  then show ?case
    unfolding ila_visit_pre_post.simps by (intro keeps_bindM keeps_If assms keeps_simple)
qed

lemma keeps_DepthFirst_pp:
  assumes "\<And>i. keeps (pre i)" "\<And>i. keeps (post i)"
  shows "keeps (DepthFirstVisitPrePost_ila wd pre post i)"
  unfolding DepthFirstVisitPrePost_ila_def
  by (rule keeps_state [of "\<lambda>s. ila_visit_pre_post wd (Suc (counter (wd s))) pre post i"])
     (rule keeps_visit_pp [OF assms])

lemma keeps_FlattenIla: "keeps (FlattenIla t)"
  unfolding FlattenIla_def
  by (intro keeps_intros keeps_record keeps_DepthFirst_pp keeps_flat_pre)

subsection \<open>What the collectors return\<close>

lemma set_insert_cases:
  "set_insert e xs = xs \<and> (\<exists>x\<in>set xs. eid x = eid e) \<or>
   set_insert e xs = xs @ [e] \<and> (\<forall>x\<in>set xs. eid x \<noteq> eid e)"
  by (auto simp: set_insert_def list_ex_iff same_node_def)

lemma fold_set_insert:
  assumes "inj_on eid S"
  shows "set xs \<union> set ys \<subseteq> S \<Longrightarrow>
    set (fold set_insert xs ys) = set ys \<union> set xs \<and>
    (distinct (map eid ys) \<longrightarrow> distinct (map eid (fold set_insert xs ys)))"
proof (induction xs arbitrary: ys)
  case Nil
  then show ?case by simp
next
  case (Cons x xs)
  have "set (set_insert x ys) = insert x (set ys)"
    using set_insert_cases [of x ys] Cons.prems assms by (auto dest: inj_onD)
  moreover have "distinct (map eid ys) \<longrightarrow> distinct (map eid (set_insert x ys))"
  proof
    assume d: "distinct (map eid ys)"
    from set_insert_cases [of x ys] consider "set_insert x ys = ys"
      | "set_insert x ys = ys @ [x]" "eid x \<notin> eid ` set ys" by force
    then show "distinct (map eid (set_insert x ys))" by cases (use d in simp_all)
  qed
  ultimately show ?case using Cons.IH [of "set_insert x ys"] Cons.prems by auto
qed

lemma forM_insert_var:
  "forM es insert_var vs = Inr ((), fold set_insert (filter is_var es) vs)"
  by (induction es arbitrary: vs) (auto simp: insert_var_def)

lemma GetVar_run: "GetVar e = Inr (fold set_insert (filter is_var (post_order e)) [])"
  by (simp add: GetVar_def DepthFirstVisit_post_order forM_insert_var)

lemma GetVar_set:
  assumes "inj_on eid (subexprs e)"
  obtains vs where "GetVar e = Inr vs" "set vs = {v \<in> subexprs e. is_var v}" "distinct (map eid vs)"
proof -
  let ?vs = "fold set_insert (filter is_var (post_order e)) []"
  have "set ?vs = {v \<in> subexprs e. is_var v} \<and> distinct (map eid ?vs)"
    using fold_set_insert [OF assms, of "filter is_var (post_order e)" "[]"]
    by (auto simp: subexprs_def)
  with that GetVar_run show thesis by blast
qed

text \<open>A collector over the hierarchy visits the ILAs of the tree in order.\<close>

lemma forM_collect:
  assumes "\<And>j xs. j \<in> set js \<Longrightarrow> f j xs w = Inr (g j xs, w)"
  shows "forM js (\<lambda>j. with_acc (f j)) (xs, w) = Inr ((), (fold g js xs, w))"
  using assms
proof (induction js arbitrary: xs)
  case Nil
  then show ?case by simp
next
  case (Cons j js)
  have step: "with_acc (f j) (xs, w) = Inr ((), (g j xs, w))" using Cons.prems by simp
  have "thenM (with_acc (f j)) (forM js (\<lambda>j. with_acc (f j))) (xs, w) =
      forM js (\<lambda>j. with_acc (f j)) (g j xs, w)"
    by (rule thenM_run [where m = "with_acc (f j)", OF step])
  also have "\<dots> = Inr ((), (fold g js (g j xs), w))"
    using Cons by simp
  finally show ?case unfolding forM.simps fold_simps .
qed

lemma ila_order_dom:
  "world_ok w \<Longrightarrow> i \<in> dom (ila_heap w) \<Longrightarrow> set (ila_order n w i) \<subseteq> dom (ila_heap w)"
proof (induction n arbitrary: i)
  case 0
  then show ?case by simp
next
  case (Suc n)
  have "set (ila_order n w c) \<subseteq> dom (ila_heap w)" if "c \<in> set (child_ids w i)" for c
    by (rule Suc.IH [OF Suc.prems(1)]) (use child_of [OF Suc.prems(1) that] in blast)
  then show ?case using Suc.prems(2) by auto
qed

lemma collect_tree:
  assumes ok: "world_ok w" and i: "i \<in> dom (ila_heap w)"
    and f: "\<And>j xs m. ila_heap w j = Some m \<Longrightarrow> f j xs w = Inr (g m xs, w)"
    and pure: "\<And>j xs w xs' w'. f j xs w = Inr (xs', w') \<Longrightarrow> w' = w"
  shows "run_acc (DepthFirstVisit_ila snd (\<lambda>j. with_acc (f j)) i) xs w =
    Inr (fold (\<lambda>j. g (the (ila_heap w j))) (ila_tree w i) xs, w)"
proof -
  have "DepthFirstVisit_ila snd (\<lambda>j. with_acc (f j)) i (xs, w) =
      forM (ila_tree (snd (xs, w)) i) (\<lambda>j. with_acc (f j)) (xs, w)"
  proof (rule DepthFirstVisit_ila_tree)
    fix j s u t assume "with_acc (f j) s = Inr (u, t)"
    then show "child_ids (snd t) = child_ids (snd s)"
      by (cases s; cases t) (auto dest: pure)
  qed (simp add: ok)
  also have "\<dots> = Inr ((), (fold (\<lambda>j. g (the (ila_heap w j))) (ila_tree w i) xs, w))"
    unfolding snd_conv
  proof (rule forM_collect)
    fix j xs assume "j \<in> set (ila_tree w i)"
    then have "j \<in> dom (ila_heap w)" using ila_order_dom [OF ok i] by blast
    then show "f j xs w = Inr (g (the (ila_heap w j)) xs, w)" using f by auto
  qed
  finally show ?thesis by (simp add: run_acc_def)
qed

lemma InsertSttTree_run:
  "world_ok w \<Longrightarrow> i \<in> dom (ila_heap w) \<Longrightarrow> InsertSttTree i xs w =
     Inr (fold (\<lambda>j. fold set_insert (vec (states (the (ila_heap w j))))) (ila_tree w i) xs, w)"
  unfolding InsertSttTree_def by (rule collect_tree) (auto simp: InsertStt_def run_simps)

lemma InsertInpTree_run:
  "world_ok w \<Longrightarrow> i \<in> dom (ila_heap w) \<Longrightarrow> InsertInpTree i xs w =
     Inr (fold (\<lambda>j. fold set_insert (vec (inputs (the (ila_heap w j))))) (ila_tree w i) xs, w)"
  unfolding InsertInpTree_def by (rule collect_tree) (auto simp: InsertInp_def run_simps)

lemma GetInstrTree_run:
  assumes "world_ok w" "i \<in> dom (ila_heap w)"
  shows "GetInstrTree i w =
     Inr (concat (map (\<lambda>j. vec (instrs (the (ila_heap w j)))) (ila_tree w i)), w)"
proof -
  have "fold (\<lambda>j ks. ks @ vec (instrs (the (ila_heap w j)))) js ks =
      ks @ concat (map (\<lambda>j. vec (instrs (the (ila_heap w j)))) js)" for js ks
    by (induction js arbitrary: ks) auto
  moreover have "GetInstrTree i w =
      Inr (fold (\<lambda>j ks. ks @ vec (instrs (the (ila_heap w j)))) (ila_tree w i) [], w)"
    unfolding GetInstrTree_def InsertInstrTree_def
    by (rule collect_tree [where g = "\<lambda>m ks. ks @ vec (instrs m)", OF assms])
       (auto simp: InsertInstr_def run_simps)
  ultimately show ?thesis by simp
qed

subsection \<open>A rewritten instruction computes what its source computes\<close>

text \<open>The table can rewrite \<open>e\<close>: its nodes belong to \<open>S\<close>, the table relates what it maps,
  and the variables it leaves alone have the same value on both sides.\<close>

definition table_ok :: "expr set \<Rightarrow> env \<Rightarrow> env \<Rightarrow> finterp \<Rightarrow> expr_map \<Rightarrow> world \<Rightarrow> bool" where
  "table_ok S \<rho> \<rho>' \<phi> emap w \<longleftrightarrow> dag S \<and> (\<forall>x\<in>S. rewritable x)
     \<and> (\<exists>T. mapped (copy_rel \<rho> \<rho>' \<phi>) S T emap \<and> node_heap T w \<and> S \<subseteq> T)
     \<and> (\<forall>x\<in>S. is_var x \<longrightarrow> emap (eid x) = None \<longrightarrow> \<rho>' x = \<rho> x)"

lemma table_ok_counter:
  "table_ok S \<rho> \<rho>' \<phi> emap w \<Longrightarrow> counter w \<le> counter w' \<Longrightarrow> table_ok S \<rho> \<rho>' \<phi> emap w'"
  unfolding table_ok_def by (meson node_heap_counter)

lemma table_ok_Rewrite:
  assumes t: "table_ok S \<rho> \<rho>' \<phi> emap w" and e: "e \<in> S"
  obtains e' w' where "Rewrite (Some e) emap w = Inr (e', w')" "copy_rel \<rho> \<rho>' \<phi> e e'" "same_heaps w w'"
proof -
  obtain T where T: "mapped (copy_rel \<rho> \<rho>' \<phi>) S T emap" "node_heap T w" "S \<subseteq> T"
    using t by (auto simp: table_ok_def)
  have "\<forall>x\<in>subexprs e. is_var x \<longrightarrow> emap (eid x) = None \<longrightarrow> \<rho>' x = \<rho> x"
    using t dag_subexprs [of S e] e by (auto simp: table_ok_def)
  moreover have "dag S" "\<forall>x\<in>S. rewritable x" using t by (auto simp: table_ok_def)
  ultimately show thesis using Rewrite_copies [OF _ _ e T] that by blast
qed

text \<open>The decode and every update of \<open>y\<close> may stand for those of \<open>x\<close>.\<close>

definition instr_copy :: "env \<Rightarrow> env \<Rightarrow> finterp \<Rightarrow> instr \<Rightarrow> instr \<Rightarrow> bool" where
  "instr_copy \<rho> \<rho>' \<phi> x y \<longleftrightarrow> rel_option (copy_rel \<rho> \<rho>' \<phi>) (decode x) (decode y)
     \<and> (\<forall>n. rel_option (rel_option (copy_rel \<rho> \<rho>' \<phi>)) (map_of (updates x) n) (map_of (updates y) n))"

text \<open>Only the instruction \<open>k\<close> has changed, to \<open>y\<close>.\<close>

definition only_instr :: "nat \<Rightarrow> instr \<Rightarrow> world \<Rightarrow> world \<Rightarrow> bool" where
  "only_instr k y w w' \<longleftrightarrow> ila_heap w' = ila_heap w \<and> instr_heap w' = (instr_heap w)(k \<mapsto> y)
     \<and> counter w \<le> counter w'"

lemma only_instr_trans:
  "only_instr k y u v \<Longrightarrow> only_instr k z v w \<Longrightarrow> only_instr k z u w"
  by (simp add: only_instr_def)

lemma only_instr_refl: "same_heaps w w' \<Longrightarrow> instr_heap w k = Some y \<Longrightarrow> only_instr k y w w'"
  by (simp add: only_instr_def same_heaps_def fun_upd_idem)

lemma forM_step: "f x s = Inr (u, t) \<Longrightarrow> forM (x # xs) f s = forM xs f t"
  by simp

lemma RewriteInstr_updates:
  assumes ne: "src \<noteq> dst"
  shows "table_ok S \<rho> \<rho>' \<phi> emap w \<Longrightarrow> instr_heap w src = Some x \<Longrightarrow> instr_heap w dst = Some y \<Longrightarrow> omap_ok str_less (updates y) \<Longrightarrow>
    distinct ss \<Longrightarrow> \<forall>n\<in>set ss. map_of (updates y) n = None \<and>
      (\<exists>u\<in>S. map_of (updates x) n = Some (Some u)) \<Longrightarrow>
    \<exists>w' y'. forM ss (\<lambda>st. bindM (instr_update src st) (\<lambda>update_src.
        bindM (Rewrite update_src emap) (\<lambda>update_dst.
        set_update_name dst st (Some update_dst)))) w = Inr ((), w')
      \<and> only_instr dst y' w w' \<and> decode y' = decode y \<and> i_sym y' = i_sym y \<and> i_host y' = i_host y
      \<and> prog y' = prog y
      \<and> omap_ok str_less (updates y')
      \<and> (\<forall>n. if n \<in> set ss
             then rel_option (rel_option (copy_rel \<rho> \<rho>' \<phi>)) (map_of (updates x) n) (map_of (updates y') n)
             else map_of (updates y') n = map_of (updates y) n)"
proof (induction ss arbitrary: w y)
  case Nil
  then show ?case using only_instr_refl [of w w dst y] by auto
next
  case (Cons st ss)
  obtain u where u: "u \<in> S" "map_of (updates x) st = Some (Some u)" using Cons.prems(6) by auto
  obtain u' w1 where r: "Rewrite (Some u) emap w = Inr (u', w1)" "copy_rel \<rho> \<rho>' \<phi> u u'" "same_heaps w w1"
    using table_ok_Rewrite [OF Cons.prems(1) u(1)] .
  define y1 where "y1 = y\<lparr>updates := omap_put str_less st (Some u') (updates y)\<rparr>"
  define w2 where "w2 = w1\<lparr>instr_heap := (instr_heap w1)(dst \<mapsto> y1)\<rparr>"
  have heap1: "instr_heap w1 = instr_heap w" "ila_heap w1 = ila_heap w"
    using r(3) by (simp_all add: same_heaps_def)
  have step: "bindM (instr_update src st) (\<lambda>update_src. bindM (Rewrite update_src emap)
      (\<lambda>update_dst. set_update_name dst st (Some update_dst))) w = Inr ((), w2)"
    using Cons.prems(2,3,6) u r heap1
    by (auto simp: instr_update_def set_update_name_def ForceAddUpdate_def run_simps upd_instr_def
        w2_def y1_def)
  have only: "only_instr dst y1 w w2"
    using r(3) by (simp add: only_instr_def w2_def same_heaps_def)
  have y1: "map_of (updates y1) n = (if n = st then Some (Some u') else map_of (updates y) n)" for n
    using Cons.prems(4) by (simp add: y1_def omap_put_lookup)
  have ok: "omap_ok str_less (updates y1)"
    using Cons.prems(4) by (simp add: y1_def omap_ok_put)
  have "\<exists>w' y'. forM ss (\<lambda>st. bindM (instr_update src st) (\<lambda>update_src.
        bindM (Rewrite update_src emap) (\<lambda>update_dst.
        set_update_name dst st (Some update_dst)))) w2 = Inr ((), w')
      \<and> only_instr dst y' w2 w' \<and> decode y' = decode y1 \<and> i_sym y' = i_sym y1 \<and> i_host y' = i_host y1
      \<and> prog y' = prog y1
      \<and> omap_ok str_less (updates y')
      \<and> (\<forall>n. if n \<in> set ss
             then rel_option (rel_option (copy_rel \<rho> \<rho>' \<phi>)) (map_of (updates x) n) (map_of (updates y') n)
             else map_of (updates y') n = map_of (updates y1) n)"
  proof (rule Cons.IH)
    show "table_ok S \<rho> \<rho>' \<phi> emap w2"
      by (rule table_ok_counter [OF Cons.prems(1)]) (use only in \<open>simp add: only_instr_def\<close>)
  qed (use Cons.prems(2-6) ne ok y1 heap1 in \<open>auto simp: w2_def\<close>)
  then obtain w' y' where IH: "forM ss (\<lambda>st. bindM (instr_update src st) (\<lambda>update_src.
        bindM (Rewrite update_src emap) (\<lambda>update_dst.
        set_update_name dst st (Some update_dst)))) w2 = Inr ((), w')"
      "only_instr dst y' w2 w'" "decode y' = decode y1" "i_sym y' = i_sym y1" "i_host y' = i_host y1"
      "prog y' = prog y1" "omap_ok str_less (updates y')"
      "\<forall>n. if n \<in> set ss
             then rel_option (rel_option (copy_rel \<rho> \<rho>' \<phi>)) (map_of (updates x) n) (map_of (updates y') n)
             else map_of (updates y') n = map_of (updates y1) n"
    by blast
  have run: "forM (st # ss) (\<lambda>st. bindM (instr_update src st) (\<lambda>update_src.
        bindM (Rewrite update_src emap) (\<lambda>update_dst.
        set_update_name dst st (Some update_dst)))) w = Inr ((), w')"
    by (rule trans [OF forM_step]) (rule step, rule IH(1))
  have maps: "\<forall>n. if n \<in> set (st # ss)
             then rel_option (rel_option (copy_rel \<rho> \<rho>' \<phi>)) (map_of (updates x) n) (map_of (updates y') n)
             else map_of (updates y') n = map_of (updates y) n"
    using IH(8) y1 u(2) r(2) Cons.prems(5) by (auto split: if_splits)
  show ?case
    using run IH(2-7) maps only_instr_trans [OF only IH(2)] by (auto simp: y1_def)
qed

text \<open>The source is complete: a decode, and no update that is null; all of it can be
  rewritten.\<close>

definition instr_in :: "expr set \<Rightarrow> instr \<Rightarrow> bool" where
  "instr_in S x \<longleftrightarrow> (\<exists>d\<in>S. decode x = Some d \<and> esort d = SortBool)
     \<and> (\<forall>n r. map_of (updates x) n = Some r \<longrightarrow> (\<exists>u\<in>S. r = Some u))"

lemma RewriteInstr_copies:
  assumes t: "table_ok S \<rho> \<rho>' \<phi> emap w" and ne: "src \<noteq> dst"
    and x: "instr_heap w src = Some x" "instr_in S x" "omap_ok str_less (updates x)"
    and y: "instr_heap w dst = Some y" "decode y = None" "updates y = []"
  shows "\<exists>w' y'. RewriteInstr src dst emap w = Inr ((), w') \<and> only_instr dst y' w w'
    \<and> i_sym y' = i_sym y \<and> i_host y' = i_host y \<and> prog y' = prog y \<and> instr_copy \<rho> \<rho>' \<phi> x y'"
proof -
  obtain d where d: "d \<in> S" "decode x = Some d" "esort d = SortBool"
    using x(2) by (auto simp: instr_in_def)
  obtain d' w1 where r: "Rewrite (Some d) emap w = Inr (d', w1)" "copy_rel \<rho> \<rho>' \<phi> d d'" "same_heaps w w1"
    using table_ok_Rewrite [OF t d(1)] .
  have d': "esort d' = SortBool" using r(2) d(3) by (simp add: copy_rel_def)
  define y1 where "y1 = y\<lparr>decode := Some d'\<rparr>"
  define w2 where "w2 = w1\<lparr>instr_heap := (instr_heap w1)(dst \<mapsto> y1)\<rparr>"
  have heap1: "instr_heap w1 = instr_heap w" "ila_heap w1 = ila_heap w" "counter w \<le> counter w1"
    using r(3) by (simp_all add: same_heaps_def)
  have only: "only_instr dst y1 w w2"
    using heap1 by (simp add: only_instr_def w2_def)
  have dec: "set_decode dst (Some d') w1 = Inr ((), w2)"
    using y heap1 d' by (simp add: set_decode_def ForceSetDecode_def run_simps upd_instr_def
        w2_def y1_def bindM_def thenM_def the_instr_def Unify_def)
  have keys: "distinct (map fst (updates x))" using omap_ok_distinct [OF _ x(3)] by auto
  have "\<exists>w' y'. forM (map fst (updates x)) (\<lambda>st. bindM (instr_update src st) (\<lambda>update_src.
        bindM (Rewrite update_src emap) (\<lambda>update_dst.
        set_update_name dst st (Some update_dst)))) w2 = Inr ((), w')
      \<and> only_instr dst y' w2 w' \<and> decode y' = decode y1 \<and> i_sym y' = i_sym y1 \<and> i_host y' = i_host y1
      \<and> prog y' = prog y1 \<and> omap_ok str_less (updates y')
      \<and> (\<forall>n. if n \<in> set (map fst (updates x))
             then rel_option (rel_option (copy_rel \<rho> \<rho>' \<phi>)) (map_of (updates x) n) (map_of (updates y') n)
             else map_of (updates y') n = map_of (updates y1) n)"
  proof (rule RewriteInstr_updates [OF ne])
    show "table_ok S \<rho> \<rho>' \<phi> emap w2"
      by (rule table_ok_counter [OF t]) (use only in \<open>simp add: only_instr_def\<close>)
    show "\<forall>n\<in>set (map fst (updates x)). map_of (updates y1) n = None \<and>
        (\<exists>u\<in>S. map_of (updates x) n = Some (Some u))"
      using x(2) y(3) by (auto simp: instr_in_def y1_def weak_map_of_SomeI
          dest!: weak_map_of_SomeI)
  qed (use x y ne heap1 keys in \<open>auto simp: w2_def y1_def\<close>)
  then obtain w' y' where loop: "forM (map fst (updates x)) (\<lambda>st. bindM (instr_update src st) (\<lambda>update_src.
        bindM (Rewrite update_src emap) (\<lambda>update_dst.
        set_update_name dst st (Some update_dst)))) w2 = Inr ((), w')"
      "only_instr dst y' w2 w'" "decode y' = decode y1" "i_sym y' = i_sym y1" "i_host y' = i_host y1"
      "prog y' = prog y1"
      "\<forall>n. if n \<in> set (map fst (updates x))
             then rel_option (rel_option (copy_rel \<rho> \<rho>' \<phi>)) (map_of (updates x) n) (map_of (updates y') n)
             else map_of (updates y') n = map_of (updates y1) n"
    by blast
  have src2: "instr_heap w2 src = Some x" using x(1) ne heap1 by (simp add: w2_def)
  have "RewriteInstr src dst emap w = Inr ((), w')"
    using x(1) d(2) r(1) dec loop(1) src2
    by (simp add: RewriteInstr_def updated_states_def bindM_def thenM_def the_instr_def)
  moreover have "instr_copy \<rho> \<rho>' \<phi> x y'"
    unfolding instr_copy_def
  proof (intro conjI allI)
    show "rel_option (copy_rel \<rho> \<rho>' \<phi>) (decode x) (decode y')"
      using d(2) loop(3) r(2) by (simp add: y1_def)
    fix n show "rel_option (rel_option (copy_rel \<rho> \<rho>' \<phi>)) (map_of (updates x) n) (map_of (updates y') n)"
    proof (cases "n \<in> set (map fst (updates x))")
      case False
      then have "map_of (updates x) n = None" by (simp add: map_of_eq_None_iff)
      then show ?thesis using loop(7) False y(3) by (simp add: y1_def)
    qed (use loop(7) in auto)
  qed
  ultimately show ?thesis
    using only_instr_trans [OF only loop(2)] loop(4-6) by (auto simp: y1_def)
qed

text \<open>\<^verbatim>\<open>DuplInstr\<close>: the new instruction of \<open>dst\<close>.\<close>

lemma DuplInstr_copies:
  assumes ok: "world_ok w" and t: "table_ok S \<rho> \<rho>' \<phi> emap w"
    and x: "instr_heap w src = Some x" "instr_in S x" "sym_name (i_sym x) \<noteq> []"
    and m: "ila_heap w dst = Some m"
    and p: "\<forall>q. prog x = Some q \<longrightarrow> imap q \<noteq> None"
  shows "\<exists>k w' y'. DuplInstr src dst emap imap w = Inr (k, w') \<and> k = counter w + 1
    \<and> instr_heap w' k = Some y' \<and> instr_copy \<rho> \<rho>' \<phi> x y' \<and> sym_name (i_sym y') = sym_name (i_sym x)
    \<and> i_host y' = Some dst \<and> prog y' = Option.bind (prog x) imap
    \<and> ila_heap w' = (ila_heap w)(dst \<mapsto> add_instr (sym_name (i_sym x)) k m)"
proof -
  let ?n = "sym_name (i_sym x)"
  define k where "k = counter w + 1"
  define w1 where "w1 = with_instr ?n (Some dst) w"
  define w2 where "w2 = upd_heap dst (add_instr ?n k m) w1"
  let ?y = "empty_instr (named_symbol ?n w) (Some dst)"
  have new: "NewInstr dst ?n w = Inr (k, w2)"
  proof -
    have "AddInstr dst (Some k) w1 = Inr ((), w2)"
      unfolding AddInstr_run using m
      by (auto simp: w1_def w2_def with_instr_def empty_instr_def k_def)
    then show ?thesis using m x(3)
      by (simp add: NewInstr_def the_ila_def bindM_def thenM_def Instr_New_run w1_def k_def)
  qed
  have ne: "src \<noteq> k" using x(1) fresh_ids(2) [OF ok, of k] by (auto simp: k_def)
  have heap2: "instr_heap w2 = (instr_heap w)(k \<mapsto> ?y)"
      "ila_heap w2 = (ila_heap w)(dst \<mapsto> add_instr ?n k m)"
    by (simp_all add: w2_def w1_def with_instr_def upd_heap_def k_def)
  have t2: "table_ok S \<rho> \<rho>' \<phi> emap w2"
    by (rule table_ok_counter [OF t]) (simp add: w2_def w1_def with_instr_def upd_heap_def)
  have "omap_ok str_less (updates x)" using instr_local_of [OF ok x(1)] by (simp add: instr_local_def)
  then obtain w3 y3 where r: "RewriteInstr src k emap w2 = Inr ((), w3)" "only_instr k y3 w2 w3"
      "i_sym y3 = i_sym ?y" "i_host y3 = i_host ?y" "prog y3 = prog ?y" "instr_copy \<rho> \<rho>' \<phi> x y3"
    using RewriteInstr_copies [OF t2 ne, of x ?y] x(1,2) ne heap2(1) by (auto simp: empty_instr_def)
  define y4 where "y4 = y3\<lparr>prog := Option.bind (prog x) imap\<rparr>"
  define w4 where "w4 = w3\<lparr>instr_heap := (instr_heap w3)(k \<mapsto> y4)\<rparr>"
  have y3: "instr_heap w3 k = Some y3" "prog y3 = None"
    using r(2,5) by (auto simp: only_instr_def empty_instr_def)
  have link: "(case prog x of None \<Rightarrow> ret ()
      | Some p_src \<Rightarrow> thenM (ila_assert (imap p_src \<noteq> None) ''Child-program not mapped.'')
                (set_program k (imap p_src))) w3 = Inr ((), w4)"
  proof (cases "prog x")
    case None
    then have "y4 = y3" using y3(2) by (simp add: y4_def)
    then have "w4 = w3" using y3(1) by (simp add: w4_def fun_upd_idem)
    then show ?thesis using None by simp
  next
    case (Some q)
    then obtain q' where "imap q = Some q'" using p by auto
    then show ?thesis using Some y3
      by (simp add: set_program_def bindM_def thenM_def the_instr_def upd_instr_def w4_def y4_def)
  qed
  have "DuplInstr src dst emap imap w = Inr (k, w4)"
    using x(1) new r(1) link by (simp add: DuplInstr_def bindM_def thenM_def the_instr_def)
  moreover have "instr_heap w4 k = Some y4" by (simp add: w4_def)
  moreover have "instr_copy \<rho> \<rho>' \<phi> x y4" using r(6) by (simp add: instr_copy_def y4_def)
  ultimately show ?thesis
    using r(2-4) heap2(2) k_def by (auto simp: y4_def w4_def only_instr_def empty_instr_def)
qed

subsection \<open>Duplicated state variables\<close>

text \<open>The variable that \<^verbatim>\<open>DuplStt\<close> creates for \<open>s\<close> in \<open>dst\<close>.\<close>

definition var_copy :: "world \<Rightarrow> nat \<Rightarrow> expr \<Rightarrow> expr" where
  "var_copy w dst s = ExprVar (named_symbol (ename s) w) (esort s) (Some dst)"

lemma var_copy_simps [simp]:
  "is_var (var_copy w dst s)" "ename (var_copy w dst s) = ename s"
  "esort (var_copy w dst s) = esort s" "host (var_copy w dst s) = Some dst"
  by (simp_all add: var_copy_def)

lemma AddState_step:
  "ila_heap w i = Some m \<Longrightarrow> is_var e \<Longrightarrow> find_input m (ename e) = None \<Longrightarrow> find_state m (ename e) = None \<Longrightarrow>
   AddState i (Some e) w = Inr ((), upd_heap i (add_state e m) w)"
  by (simp add: AddState_run)

lemma DuplStt_var_run:
  assumes "is_var s" "ila_heap w dst = Some m" "find_input m (ename s) = None"
    "find_state m (ename s) = None"
  shows "DuplStt_var dst s w =
    Inr (var_copy w dst s, upd_heap dst (add_state (var_copy w dst s) m) (tick w))"
proof -
  have "AddState dst (Some (var_copy w dst s)) (tick w) =
      Inr ((), upd_heap dst (add_state (var_copy w dst s) m) (tick w))"
    by (rule AddState_step) (use assms in simp_all)
  then show ?thesis
    using assms(1)
    by (cases "esort s")
       (simp_all add: DuplStt_var_def NewBoolState_def NewBvState_def NewMemState_def NewBoolVar_def
         NewBvVar_def NewMemVar_def ExprVar_bool_def ExprVar_bv_def ExprVar_mem_def bindM_def
         thenM_def var_copy_def Let_def)
qed

text \<open>The table sends \<open>s\<close> to the state of \<open>dst\<close> with its name and sort.\<close>

definition stt_dupl :: "nat \<Rightarrow> ila \<Rightarrow> expr_map \<Rightarrow> expr \<Rightarrow> bool" where
  "stt_dupl dst m emap s \<longleftrightarrow> (\<exists>d. find_state m (ename s) = Some d \<and> is_var d \<and> ename d = ename s
     \<and> esort d = esort s \<and> host d = Some dst \<and> emap (eid s) = Some (Some d))"

definition dupl_stt_step :: "nat \<Rightarrow> expr_map \<Rightarrow> expr \<Rightarrow> expr_map W" where
  "dupl_stt_step dst emap stt_src =
       bindM (the_ila dst) (\<lambda>m.
       bindM (case find_state m (ename stt_src) of
                Some d \<Rightarrow> ret d | None \<Rightarrow> DuplStt_var dst stt_src) (\<lambda>stt_dst.
       ret (try_emplace stt_src stt_dst emap)))"

lemma dupl_stt_step_run:
  assumes "is_var s" "ila_heap w dst = Some m" "find_input m (ename s) = None"
    "find_state m (ename s) = None" "emap (eid s) = None"
  shows "dupl_stt_step dst emap s w = Inr (emap(eid s \<mapsto> Some (var_copy w dst s)),
     upd_heap dst (add_state (var_copy w dst s) m) (tick w))"
  using DuplStt_var_run [OF assms(1-4)] assms(2,4,5)
  by (simp add: dupl_stt_step_def bindM_def the_ila_def try_emplace_def)

lemma dupl_stt_loop:
  assumes "ila_heap w dst = Some m" "kv_inv (states m)"
    and "distinct (map ename ss)" "distinct (map eid ss)"
    and "\<forall>s\<in>set ss. is_var s \<and> find_input m (ename s) = None \<and> find_state m (ename s) = None
           \<and> emap (eid s) = None"
  shows "\<exists>emap' w' m'. foldM (dupl_stt_step dst) emap ss w = Inr (emap', w')
    \<and> ila_heap w' = (ila_heap w)(dst \<mapsto> m') \<and> instr_heap w' = instr_heap w
    \<and> (\<exists>sts. m' = m\<lparr>states := sts\<rparr> \<and> kv_inv sts
         \<and> map ename (vec sts) = map ename (vec (states m)) @ map ename ss
         \<and> (\<forall>n d. kv_find (states m) n = Some d \<longrightarrow> kv_find sts n = Some d))
    \<and> (\<forall>s\<in>set ss. stt_dupl dst m' emap' s) \<and> emap \<subseteq>\<^sub>m emap'"
  using assms
proof (induction ss arbitrary: emap w m)
  case Nil
  then show ?case by (intro exI [of _ emap] exI [of _ w] exI [of _ m]) (auto intro!: exI [of _ "states m"])
next
  case (Cons s ss)
  define v where "v = var_copy w dst s"
  define m1 where "m1 = add_state v m"
  define w1 where "w1 = upd_heap dst m1 (tick w)"
  define emap1 where "emap1 = emap(eid s \<mapsto> Some v)"
  have fresh: "kv_find (states m) (ename s) = None"
    using Cons.prems(5) by (simp add: find_state_def)
  have step: "dupl_stt_step dst emap s w = Inr (emap1, w1)"
    unfolding emap1_def w1_def m1_def v_def by (rule dupl_stt_step_run) (use Cons.prems in auto)
  have kv1: "kv_inv (states m1)" "vec (states m1) = vec (states m) @ [v]"
    using Cons.prems(2) fresh by (simp_all add: m1_def add_state_def kv.inv_add v_def kv.elems_add)
  have find1: "kv_find (states m1) n = (if n = ename s then Some v else kv_find (states m) n)" for n
    using Cons.prems(2) fresh by (simp add: m1_def add_state_def kv.lookup_add v_def)
  have heap1: "ila_heap w1 = (ila_heap w)(dst \<mapsto> m1)" "instr_heap w1 = instr_heap w"
    by (simp_all add: w1_def upd_heap_def)
  have "\<exists>emap' w' m'. foldM (dupl_stt_step dst) emap1 ss w1 = Inr (emap', w')
    \<and> ila_heap w' = (ila_heap w1)(dst \<mapsto> m') \<and> instr_heap w' = instr_heap w1
    \<and> (\<exists>sts. m' = m1\<lparr>states := sts\<rparr> \<and> kv_inv sts
         \<and> map ename (vec sts) = map ename (vec (states m1)) @ map ename ss
         \<and> (\<forall>n d. kv_find (states m1) n = Some d \<longrightarrow> kv_find sts n = Some d))
    \<and> (\<forall>s\<in>set ss. stt_dupl dst m' emap' s) \<and> emap1 \<subseteq>\<^sub>m emap'"
  proof (rule Cons.IH)
    show "\<forall>t\<in>set ss. is_var t \<and> find_input m1 (ename t) = None \<and> find_state m1 (ename t) = None
           \<and> emap1 (eid t) = None"
    proof
      fix t assume t: "t \<in> set ss"
      then have "ename t \<in> ename ` set ss" "eid t \<in> eid ` set ss" by simp_all
      then have "ename t \<noteq> ename s" "eid t \<noteq> eid s"
        using Cons.prems(3,4) by auto
      then show "is_var t \<and> find_input m1 (ename t) = None \<and> find_state m1 (ename t) = None
           \<and> emap1 (eid t) = None"
        using Cons.prems(5) t find1
        by (simp add: emap1_def find_state_def) (simp add: m1_def add_state_def find_input_def)
    qed
  qed (use Cons.prems heap1 kv1 in auto)
  then obtain emap' w' m' sts where IH: "foldM (dupl_stt_step dst) emap1 ss w1 = Inr (emap', w')"
    "ila_heap w' = (ila_heap w1)(dst \<mapsto> m')" "instr_heap w' = instr_heap w1"
    "m' = m1\<lparr>states := sts\<rparr>" "kv_inv sts"
    "map ename (vec sts) = map ename (vec (states m1)) @ map ename ss"
    "\<forall>n d. kv_find (states m1) n = Some d \<longrightarrow> kv_find sts n = Some d"
    "\<forall>s\<in>set ss. stt_dupl dst m' emap' s" "emap1 \<subseteq>\<^sub>m emap'" by blast
  have new: "kv_find sts (ename s) = Some v" using IH(7) find1 by simp
  have "emap' (eid s) = Some (Some v)" using IH(9) by (auto simp: map_le_def emap1_def)
  then have "stt_dupl dst m' emap' s"
    unfolding stt_dupl_def using new by (intro exI [of _ v]) (simp add: IH(4) find_state_def v_def)
  moreover have "foldM (dupl_stt_step dst) emap (s # ss) w = Inr (emap', w')"
    unfolding foldM.simps using step IH(1) by (simp add: bindM_def)
  moreover have "emap \<subseteq>\<^sub>m emap'"
    by (rule map_le_trans [OF _ IH(9)]) (use Cons.prems(5) in \<open>auto simp: map_le_def emap1_def\<close>)
  moreover have "\<forall>n d. kv_find (states m) n = Some d \<longrightarrow> kv_find sts n = Some d"
    using IH(7) find1 fresh by (metis option.distinct(1))
  moreover have "m' = m\<lparr>states := sts\<rparr>" using IH(4) by (simp add: m1_def add_state_def)
  ultimately show ?case
    using IH(2,3,5,6,8) heap1 kv1(2)
    by (intro exI [of _ emap'] exI [of _ w'] exI [of _ m']) (auto simp: v_def)
qed

text \<open>The traversal of an unordered set meets every member once.\<close>

definition iter_fair :: "world \<Rightarrow> bool" where
  "iter_fair w \<longleftrightarrow> (\<forall>xs. distinct (map eid xs) \<longrightarrow>
     distinct (map eid (iter_order w xs)) \<and> set (iter_order w xs) = set xs)"

lemma DuplStt_eq:
  "DuplStt src dst emap = bindM (GetStt src) (\<lambda>stts. bindM (iterate stts) (foldM (dupl_stt_step dst) emap))"
  unfolding DuplStt_def dupl_stt_step_def ..

lemma state_names:
  assumes "vars_ok kv" "x \<in> set (vec kv)" "y \<in> set (vec kv)" "ename x = ename y"
  shows "x = y"
proof -
  obtain k l where "kv_find kv k = Some x" "kv_find kv l = Some y"
    using assms kv_find_ex_of_vec [of kv] by (metis vars_ok_def)
  then show ?thesis using assms(1,4) by (auto simp: vars_ok_def)
qed

lemma DuplStt_fresh:
  assumes ok: "world_ok w" "iter_fair w"
    and src: "ila_heap w src = Some ms" "inj_on eid (set (vec (states ms)))"
    and dst: "ila_heap w dst = Some md" "vec (states md) = []"
    and ne: "\<forall>s\<in>set (vec (states ms)). find_input md (ename s) = None \<and> emap (eid s) = None"
  shows "\<exists>emap' w' md'. DuplStt src dst emap w = Inr (emap', w')
    \<and> ila_heap w' = (ila_heap w)(dst \<mapsto> md') \<and> instr_heap w' = instr_heap w
    \<and> (\<forall>s\<in>set (vec (states ms)). stt_dupl dst md' emap' s)
    \<and> ename ` set (vec (states md')) = ename ` set (vec (states ms))
    \<and> inputs md' = inputs md \<and> emap \<subseteq>\<^sub>m emap'"
proof -
  let ?xs = "fold set_insert (vec (states ms)) []"
  let ?ys = "iter_order w ?xs"
  have loc: "vars_ok (states ms)" "kv_inv (states md)"
    using ila_local_of [OF ok(1) src(1)] ila_local_of [OF ok(1) dst(1)]
    by (auto simp: ila_local_def vars_ok_def)
  have xs: "set ?xs = set (vec (states ms))" "distinct (map eid ?xs)"
    using fold_set_insert [OF src(2), of "vec (states ms)" "[]"] by auto
  have ys: "set ?ys = set (vec (states ms))" "distinct (map eid ?ys)"
    using ok(2) xs by (auto simp: iter_fair_def)
  have "inj_on ename (set ?ys)"
    using state_names [OF loc(1)] ys(1) by (auto intro: inj_onI)
  then have names: "distinct (map ename ?ys)"
    using ys(2) by (simp add: distinct_map)
  have vars: "is_var s" if "s \<in> set (vec (states ms))" for s
    using loc(1) kv_find_ex_of_vec [of "states ms" s] that by (auto simp: vars_ok_def)
  have none: "find_state md n = None" for n
    using dst(2) by (simp add: find_state_def kv_find_def split: option.splits)
  obtain emap' w' md' sts where loop: "foldM (dupl_stt_step dst) emap ?ys w = Inr (emap', w')"
    "ila_heap w' = (ila_heap w)(dst \<mapsto> md')" "instr_heap w' = instr_heap w"
    "md' = md\<lparr>states := sts\<rparr>" "map ename (vec sts) = map ename (vec (states md)) @ map ename ?ys"
    "\<forall>s\<in>set ?ys. stt_dupl dst md' emap' s" "emap \<subseteq>\<^sub>m emap'"
    using dupl_stt_loop [OF dst(1) loc(2) names ys(2), of emap] ys(1) vars none ne by blast
  have "DuplStt src dst emap w = Inr (emap', w')"
    using src(1) loop(1)
    by (simp add: DuplStt_eq GetStt_def InsertStt_def iterate_def bindM_def the_ila_def)
  moreover have "ename ` set (vec (states md')) = ename ` set (vec (states ms))"
    using arg_cong [OF loop(5), of set] dst(2) ys(1) loop(4) by simp
  moreover have "inputs md' = inputs md" using loop(4) by simp
  ultimately show ?thesis
    using loop(2,3,6,7) ys(1) by (intro exI [of _ emap'] exI [of _ w'] exI [of _ md']) simp
qed

end
