(* ===== verification/Rewrite_Passes.thy ===== *)
theory Rewrite_Passes
  imports Hash_Ast Abs_Knob_Inv
begin

text \<open>
  The passes that rewrite the expressions of a hierarchy (\<^verbatim>\<open>src/ila-mngr/p_rewrite_generic.cc\<close>,
  \<^verbatim>\<open>p_rewrite_conditional_store.cc\<close>, \<^verbatim>\<open>p_rewrite_store_load.cc\<close>,
  \<^verbatim>\<open>p_simplify_syntactic.cc\<close>).  The locale \<open>expr_pass\<close> states what a rewriting function
  must promise for the template; the conditional-store and the store-load pass are its
  interpretations.
\<close>

subsection \<open>The template\<close>

text \<open>The rewriting function keeps a state of its own beside the world.\<close>

definition on_world :: "'a W \<Rightarrow> ('b \<times> world, 'a) action" where
  "on_world m = (\<lambda>(b, w). case m w of Inl x \<Rightarrow> Inl x | Inr (a, w') \<Rightarrow> Inr (a, (b, w')))"

type_synonym 'b rewr_fun = "expr option \<Rightarrow> ('b \<times> world, expr option) action"

definition rewrite_update :: "'b rewr_fun \<Rightarrow> nat \<Rightarrow> string \<Rightarrow> ('b \<times> world, unit) action" where
  "rewrite_update Rewr k st =
     bindM (on_world (instr_update k st)) (\<lambda>u.
     bindM (Rewr u) (\<lambda>u'. on_world (ForceAddUpdate k st u')))"

definition rewrite_instr :: "'b rewr_fun \<Rightarrow> nat \<Rightarrow> ('b \<times> world, unit) action" where
  "rewrite_instr Rewr k =
     bindM (on_world (the_instr k)) (\<lambda>x.
     bindM (ila_not_null (decode x)) (\<lambda>d.
     bindM (Rewr (Some d)) (\<lambda>d'.
     thenM (on_world (ForceSetDecode k d'))
    (bindM (on_world (updated_states k)) (\<lambda>ss. forM ss (rewrite_update Rewr k))))))"

fun RewriteGeneric_fuel :: "nat \<Rightarrow> 'b rewr_fun \<Rightarrow> nat \<Rightarrow> ('b \<times> world, bool) action" where
  "RewriteGeneric_fuel 0 Rewr i = fail OutOfFuel"
| "RewriteGeneric_fuel (Suc n) Rewr i =
     bindM (on_world (the_ila i)) (\<lambda>m.
     thenM (case valid m of None \<Rightarrow> ret ()
            | Some v \<Rightarrow> bindM (Rewr (Some v)) (\<lambda>v'. on_world (ForceSetValid i v')))
    (bindM (on_world (the_ila i)) (\<lambda>m.
     thenM (case fetch m of None \<Rightarrow> ret ()
            | Some f \<Rightarrow> bindM (Rewr (Some f)) (\<lambda>f'. on_world (ForceSetFetch i f')))
    (thenM (forM (vec (instrs m)) (rewrite_instr Rewr))
    (thenM (forM (vec (childs m)) (\<lambda>c. bindM (RewriteGeneric_fuel n Rewr c) (\<lambda>_. ret ())))
    (ret True))))))"

text \<open>The fuel is that of the visitors of the hierarchy.\<close>

definition RewriteGeneric :: "'b rewr_fun \<Rightarrow> nat \<Rightarrow> ('b \<times> world, bool) action" where
  "RewriteGeneric Rewr i = (\<lambda>(b, w). RewriteGeneric_fuel (Suc (counter w)) Rewr i (b, w))"

text \<open>A pass runs the template with a fresh state of its rewriting function.\<close>

definition run_pass :: "'b rewr_fun \<Rightarrow> 'b \<Rightarrow> nat \<Rightarrow> bool W" where
  "run_pass Rewr b i = (\<lambda>w. case RewriteGeneric Rewr i (b, w) of
       Inl x \<Rightarrow> Inl x | Inr (r, (_, w')) \<Rightarrow> Inr (r, w'))"

subsection \<open>Conditional stores\<close>

definition get_opt :: "expr_map \<Rightarrow> expr \<Rightarrow> nat \<Rightarrow> expr option res" where
  "get_opt rule e i = bindR (at (args e) i) (rewr_get rule)"

text \<open>\<^verbatim>\<open>ILA_ASSERT(x && x->is_mem())\<close>.\<close>

definition IsStore :: "expr option \<Rightarrow> bool res" where
  "IsStore x =
     bindR (assertR (pred_option (\<lambda>x. is_mem (esort x)) x \<and> x \<noteq> None) ''Invariant violation'') (\<lambda>_.
     bindR (not_null x) (\<lambda>x.
       if is_op x then bindR (GetUidExprOp x) (\<lambda>u. Inr (u = kStore)) else Inr False))"

text \<open>Equality of pointers.\<close>

definition same_ptr :: "expr option \<Rightarrow> expr option \<Rightarrow> bool" where
  "same_ptr a b \<longleftrightarrow> map_option eid a = map_option eid b"

definition is_op_ptr :: "expr option \<Rightarrow> bool res" where
  "is_op_ptr x = bindR (not_null x) (\<lambda>x. Inr (is_op x))"

definition arg_ptr :: "expr option \<Rightarrow> nat \<Rightarrow> expr res" where
  "arg_ptr x i = bindR (not_null x) (\<lambda>x. at (args x) i)"

definition and_then :: "bool res \<Rightarrow> bool res \<Rightarrow> bool res" where
  "and_then a b = bindR a (\<lambda>x. if x then b else Inr False)"

definition not_res :: "bool res \<Rightarrow> bool res" where
  "not_res a = bindR a (\<lambda>x. Inr (\<not> x))"

definition arg0_is :: "expr option \<Rightarrow> expr option \<Rightarrow> bool res" where
  "arg0_is x y = bindR (arg_ptr x 0) (\<lambda>a. Inr (same_ptr (Some a) y))"

text \<open>The guards of the patterns, with the short-circuits of the code.\<close>

definition store_then_leaf :: "expr option \<Rightarrow> expr option \<Rightarrow> bool res" where
  "store_then_leaf m1 m2 = and_then (and_then (IsStore m1) (not_res (is_op_ptr m2))) (arg0_is m1 m2)"

definition leaf_then_store :: "expr option \<Rightarrow> expr option \<Rightarrow> bool res" where
  "leaf_then_store m1 m2 = and_then (and_then (not_res (is_op_ptr m1)) (IsStore m2)) (arg0_is m2 m1)"

definition two_stores :: "expr option \<Rightarrow> expr option \<Rightarrow> bool res" where
  "two_stores m1 m2 = and_then (and_then (IsStore m1) (IsStore m2))
     (bindR (arg_ptr m1 0) (\<lambda>a. bindR (arg_ptr m2 0) (\<lambda>b. Inr (same_node a b))))"

definition RewriteCondMem :: "expr_map \<Rightarrow> expr \<Rightarrow> expr option W" where
  "RewriteCondMem rule e =
     bindM (liftR (get_opt rule e 0)) (\<lambda>cond.
     bindM (liftR (get_opt rule e 1)) (\<lambda>mem1.
     bindM (liftR (get_opt rule e 2)) (\<lambda>mem2.
     if same_ptr mem1 mem2 then ret mem1 else
     bindM (liftR (store_then_leaf mem1 mem2)) (\<lambda>p1. if p1 then
       bindM (liftR (arg_ptr mem1 1)) (\<lambda>addr.
       bindM (liftR (arg_ptr mem1 2)) (\<lambda>data.
       bindM (ila_not_null mem2) (\<lambda>m.
       bindM (Load m addr) (\<lambda>ld.
       bindM (ila_not_null cond) (\<lambda>c.
       bindM (Ite c data ld) (\<lambda>new_data.
       bindM (Store m addr new_data) (\<lambda>r. ret (Some r))))))))
     else
     bindM (liftR (leaf_then_store mem1 mem2)) (\<lambda>p2. if p2 then
       bindM (liftR (arg_ptr mem2 1)) (\<lambda>addr.
       bindM (liftR (arg_ptr mem2 2)) (\<lambda>data.
       bindM (ila_not_null mem1) (\<lambda>m.
       bindM (Load m addr) (\<lambda>ld.
       bindM (ila_not_null cond) (\<lambda>c.
       bindM (Ite c ld data) (\<lambda>new_data.
       bindM (Store m addr new_data) (\<lambda>r. ret (Some r))))))))
     else
     bindM (liftR (two_stores mem1 mem2)) (\<lambda>p3. if p3 then
       bindM (ila_not_null cond) (\<lambda>c.
       bindM (liftR (arg_ptr mem1 1)) (\<lambda>addr1.
       bindM (liftR (arg_ptr mem2 1)) (\<lambda>addr2.
       bindM (Ite c addr1 addr2) (\<lambda>new_addr.
       bindM (liftR (arg_ptr mem1 2)) (\<lambda>data1.
       bindM (liftR (arg_ptr mem2 2)) (\<lambda>data2.
       bindM (Ite c data1 data2) (\<lambda>new_data.
       bindM (liftR (arg_ptr mem1 0)) (\<lambda>m.
       bindM (Store m new_addr new_data) (\<lambda>r. ret (Some r))))))))))
     else RewriteOp rule e))))))"

definition CondStore_RewriteOp :: "expr_map \<Rightarrow> expr \<Rightarrow> expr option W" where
  "CondStore_RewriteOp rule e =
     (if is_mem (esort e) then
        bindM (liftR (GetUidExprOp e)) (\<lambda>u.
          if u = kIfThenElse then RewriteCondMem rule e else RewriteOp rule e)
      else RewriteOp rule e)"

text \<open>The rewriting functions of the two passes: one table for the whole hierarchy.\<close>

definition Rewr_CondStore :: "expr_map rewr_fun" where
  "Rewr_CondStore e =
     bindM (ila_not_null e) (\<lambda>e.
     thenM (rewr_visit CondStore_RewriteOp e)
    (\<lambda>(rule, w). bindR (rewr_get rule e) (\<lambda>r. Inr (r, (rule, w)))))"

definition RewriteConditionalStore :: "nat \<Rightarrow> bool W" where
  "RewriteConditionalStore = run_pass Rewr_CondStore Map.empty"

subsection \<open>Loads from stores\<close>

text \<open>
  \<^verbatim>\<open>FuncObjRewrStoreLoad::RewriteOp\<close> takes its argument by value, so that it does not
  override the virtual member, which takes a reference: the traversal runs the copying
  rewriter.  \<open>RewriteLoad\<close> is what the pass has but never calls.
\<close>

definition RewriteLoad :: "expr_map \<Rightarrow> expr \<Rightarrow> expr option W" where
  "RewriteLoad rule e =
     bindM (liftR (get_arg rule e 0)) (\<lambda>mem.
     if is_var mem \<or> is_const mem then ret (Some e)
     else
       bindM (liftR (and_then (IsStore (Some mem)) (not_res (bindR (at (args mem) 0) (\<lambda>a. Inr (is_op a))))))
         (\<lambda>p. if p then
           bindM (liftR (get_arg rule e 1)) (\<lambda>addr_load.
           bindM (liftR (at (args mem) 1)) (\<lambda>addr_store.
           bindM (Eq addr_load addr_store) (\<lambda>cond.
           bindM (liftR (at (args mem) 0)) (\<lambda>m.
           bindM (Load m addr_load) (\<lambda>data_load.
           bindM (liftR (at (args mem) 2)) (\<lambda>data_store.
           bindM (Ite cond data_store data_load) (\<lambda>r. ret (Some r))))))))
         else RewriteOp rule e))"

text \<open>The member that is not called.\<close>

definition StoreLoad_RewriteOp :: "expr_map \<Rightarrow> expr \<Rightarrow> expr option W" where
  "StoreLoad_RewriteOp rule e =
     bindM (liftR (GetUidExprOp e)) (\<lambda>u. if u = kLoad then RewriteLoad rule e else RewriteOp rule e)"

definition Rewr_StoreLoad :: "expr_map rewr_fun" where
  "Rewr_StoreLoad e =
     (case e of
        None \<Rightarrow> ret None
      | Some e \<Rightarrow> thenM (rewr_visit RewriteOp e)
          (\<lambda>(rule, w). bindR (rewr_get rule e) (\<lambda>r. Inr (r, (rule, w)))))"

definition RewriteStoreLoad :: "nat \<Rightarrow> bool W" where
  "RewriteStoreLoad = run_pass Rewr_StoreLoad Map.empty"

subsection \<open>Sharing of equal expressions\<close>

definition Rewr_Syntactic :: "em_map rewr_fun" where
  "Rewr_Syntactic e = (\<lambda>(em, w). bindR (not_null e) (\<lambda>e.
     case GetRep (mem_params w) e em of Inl x \<Rightarrow> Inl x | Inr (r, em') \<Rightarrow> Inr (Some r, (em', w))))"

definition SimplifySyntactic :: "nat \<Rightarrow> bool W" where
  "SimplifySyntactic i =
     bindM (the_ila i) (\<lambda>_. catchM (run_pass Rewr_Syntactic ExprMngr_New i) (ret False))"

end
