(* ===== verification/Pass_Values.thy ===== *)
theory Pass_Values
  imports Rewrite_Passes
begin

text \<open>
  The template of the rewriting passes keeps every relation of expressions its rewriting
  function keeps (locale \<open>expr_pass\<close>).  With the equality of values it follows that after
  \<^verbatim>\<open>RewriteConditionalStore\<close> every fetch, valid, decode and update expression of the
  hierarchy evaluates to what it evaluated to before, in every well-sorted environment.
\<close>

subsection \<open>Expressions with the same value\<close>

definition same_value :: "expr \<Rightarrow> expr \<Rightarrow> bool" where
  "same_value e e' \<longleftrightarrow> esort e' = esort e
     \<and> (\<forall>\<rho> \<phi>. env_ok \<rho> \<longrightarrow> finterp_ok \<phi> \<longrightarrow> eval \<rho> \<phi> e' = eval \<rho> \<phi> e)"

lemma same_value_refl [simp]: "same_value e e"
  by (simp add: same_value_def)

lemma same_value_trans: "same_value a b \<Longrightarrow> same_value b c \<Longrightarrow> same_value a c"
  by (simp add: same_value_def)

text \<open>Nodes the passes can rewrite: well-sorted for the SMT back ends, and with a case in
  \<^verbatim>\<open>RewriteOp\<close> for every operator.\<close>

fun passable :: "expr \<Rightarrow> bool" where
  "passable (ExprVar y s h) = pos_sort s"
| "passable (ExprConst y s v) = (pos_sort s \<and> wf_const s v)"
| "passable (ExprOp y u s as ps f h) =
     (list_all passable as \<and> op_sort u (map esort as) ps f = Some s \<and>
      smt_op u (map esort as) ps \<and> op_shape u ps f \<and> copyable u \<and>
      (\<forall>g. f = Some g \<longrightarrow> pos_sort (f_out g)))"

lemma passable_smt: "passable e \<Longrightarrow> smt_expr e"
  by (induction e) (auto simp: list_all_iff)

lemma passable_args: "passable e \<Longrightarrow> a \<in> set (args e) \<Longrightarrow> passable a"
  by (cases e) (auto simp: list_all_iff)

lemma passable_mk [simp]:
  "passable (mk_node w u s as ps f) \<longleftrightarrow> list_all passable as
     \<and> op_sort u (map esort as) ps f = Some s \<and> smt_op u (map esort as) ps \<and> op_shape u ps f
     \<and> copyable u \<and> (\<forall>g. f = Some g \<longrightarrow> pos_sort (f_out g))"
  by (simp add: mk_node_def del: op_sort.simps)

text \<open>A passable node that is related to the one it stands for; mostly, of the same value.\<close>

definition kept :: "(expr \<Rightarrow> expr \<Rightarrow> bool) \<Rightarrow> expr \<Rightarrow> expr \<Rightarrow> bool" where
  "kept R e e' \<longleftrightarrow> passable e' \<and> R e e'"

abbreviation opt_rel :: "expr \<Rightarrow> expr \<Rightarrow> bool" where
  "opt_rel \<equiv> kept same_value"

lemmas opt_rel_def = kept_def [of same_value]

lemma opt_rel_refl: "passable e \<Longrightarrow> opt_rel e e"
  by (simp add: opt_rel_def)

subsection \<open>Adding nodes to the heap\<close>

text \<open>A run that returns a passable node, of sort \<open>s\<close> and with the values \<open>V\<close>.\<close>

definition gives :: "expr W \<Rightarrow> expr set \<Rightarrow> world \<Rightarrow> sort \<Rightarrow> (env \<Rightarrow> finterp \<Rightarrow> val) \<Rightarrow> expr \<Rightarrow> world
    \<Rightarrow> expr set \<Rightarrow> bool" where
  "gives m T w s V n w' T' \<longleftrightarrow> m w = Inr (n, w') \<and> same_heaps w w' \<and> T \<subseteq> T' \<and> node_heap T' w'
     \<and> n \<in> T' \<and> esort n = s \<and> passable n \<and> (\<forall>\<rho> \<phi>. eval \<rho> \<phi> n = V \<rho> \<phi>)"

lemma gives_op:
  assumes "hub_contract m u as ps None" "op_sort u (map esort as) ps None = Some s"
    and "smt_op u (map esort as) ps" "op_shape u ps None" "copyable u"
    and "\<forall>a\<in>set as. passable a" "set as \<subseteq> T" "node_heap T w"
  shows "\<exists>n w' T'. gives m T w s (\<lambda>\<rho> \<phi>. op_sem u ps (map (eval \<rho> \<phi>) as)) n w' T'"
proof -
  obtain w1 where w1: "same_heaps w w1" "m w = Inr (mk_node w1 u s as ps None, tick w1)"
    using hub_contractD [OF assms(1,2)] .
  let ?n = "mk_node w1 u s as ps None"
  have "gives m T w s (\<lambda>\<rho> \<phi>. op_sem u ps (map (eval \<rho> \<phi>) as)) ?n (tick w1) (insert ?n T)"
    using assms(2-6) w1 same_heaps_trans [OF w1(1) same_heaps_tick]
      node_heap_add [OF assms(8) w1(1) assms(7)]
    by (auto simp: gives_def list_all_iff mk_node_def simp del: op_sort.simps)
  then show ?thesis by blast
qed

text \<open>The three operators the pass builds.\<close>

lemma gives_memory:
  assumes T: "node_heap T w"
  shows "esort m = SortMem aw dw \<Longrightarrow> esort a = SortBv aw \<Longrightarrow> {m, a} \<subseteq> T \<Longrightarrow> passable m \<Longrightarrow> passable a \<Longrightarrow>
      \<exists>n w' T'. gives (Load m a) T w (SortBv dw) (\<lambda>\<rho> \<phi>. op_sem kLoad [] [eval \<rho> \<phi> m, eval \<rho> \<phi> a]) n w' T'"
    "esort m = SortMem aw dw \<Longrightarrow> esort a = SortBv aw \<Longrightarrow> esort d = SortBv dw \<Longrightarrow> {m, a, d} \<subseteq> T \<Longrightarrow>
      passable m \<Longrightarrow> passable a \<Longrightarrow> passable d \<Longrightarrow>
      \<exists>n w' T'. gives (Store m a d) T w (SortMem aw dw)
        (\<lambda>\<rho> \<phi>. op_sem kStore [] [eval \<rho> \<phi> m, eval \<rho> \<phi> a, eval \<rho> \<phi> d]) n w' T'"
    "esort c = SortBool \<Longrightarrow> esort a = s \<Longrightarrow> esort d = s \<Longrightarrow> {c, a, d} \<subseteq> T \<Longrightarrow>
      passable c \<Longrightarrow> passable a \<Longrightarrow> passable d \<Longrightarrow>
      \<exists>n w' T'. gives (Ite c a d) T w s
        (\<lambda>\<rho> \<phi>. op_sem kIfThenElse [] [eval \<rho> \<phi> c, eval \<rho> \<phi> a, eval \<rho> \<phi> d]) n w' T'"
  using gives_op [OF hub_direct(19), of m a "SortBv dw" T w]
    gives_op [OF hub_direct(20), of m a d "SortMem aw dw" T w]
    gives_op [OF hub_direct(27), of c a d s T w] T
  by (simp_all add: op_sort_memory smt_op.simps op_shape_def copyable_def del: op_sort.simps op_sem.simps)

subsection \<open>The conditional-store patterns\<close>

lemma mem_value:
  assumes "passable m" "esort m = SortMem aw dw" "env_ok \<rho>" "finterp_ok \<phi>"
  obtains f where "eval \<rho> \<phi> m = VMem aw dw f"
  using eval_sort [OF assms(3,4) passable_smt [OF assms(1)]] assms(2) by (auto simp: has_sort_Mem)

lemma bv_value:
  assumes "passable m" "esort m = SortBv bw" "env_ok \<rho>" "finterp_ok \<phi>"
  obtains x where "eval \<rho> \<phi> m = VBv bw x"
  using eval_sort [OF assms(3,4) passable_smt [OF assms(1)]] assms(2) by (auto simp: has_sort_Bv)

lemma bool_value:
  assumes "passable m" "esort m = SortBool" "env_ok \<rho>" "finterp_ok \<phi>"
  obtains b where "eval \<rho> \<phi> m = VBool b"
  using eval_sort [OF assms(3,4) passable_smt [OF assms(1)]] assms(2) by (auto simp: has_sort_Bool)

definition is_store :: "expr \<Rightarrow> bool" where
  "is_store m \<longleftrightarrow> is_op m \<and> GetUidExprOp m = Inr kStore"

lemma IsStore_run: "is_mem (esort m) \<Longrightarrow> IsStore (Some m) = Inr (is_store m)"
  by (cases m) (auto simp: IsStore_def is_store_def)

lemma store_parts:
  assumes "is_store m" "passable m" "esort m = SortMem aw dw"
  obtains b a d where "args m = [b, a, d]" "esort b = SortMem aw dw" "esort a = SortBv aw"
    "esort d = SortBv dw" "passable b" "passable a" "passable d"
    "\<forall>\<rho> \<phi>. eval \<rho> \<phi> m = op_sem kStore [] [eval \<rho> \<phi> b, eval \<rho> \<phi> a, eval \<rho> \<phi> d]"
proof -
  obtain y s as ps f h where m: "m = ExprOp y kStore s as ps f h"
    using assms(1) by (cases m) (auto simp: is_store_def)
  then have "op_sort kStore (map esort as) ps f = Some (SortMem aw dw)" "op_shape kStore ps f"
    "list_all passable as" using assms(2,3) by (simp_all del: op_sort.simps)
  then obtain b a d where "as = [b, a, d]" "esort b = SortMem aw dw" "esort a = SortBv aw"
    "esort d = SortBv dw" "passable b" "passable a" "passable d" "ps = []" "f = None"
    by (auto simp: op_sort_memory op_shape_def simp del: op_sort.simps)
  then show thesis using that m by simp
qed

text \<open>The value of the conditional.\<close>

definition cond_val :: "expr \<Rightarrow> expr \<Rightarrow> expr \<Rightarrow> expr \<Rightarrow> bool" where
  "cond_val c m1 m2 e' \<longleftrightarrow> passable e' \<and> esort e' = esort m1 \<and> (\<forall>\<rho> \<phi>. env_ok \<rho> \<longrightarrow> finterp_ok \<phi> \<longrightarrow>
     eval \<rho> \<phi> e' = op_sem kIfThenElse [] [eval \<rho> \<phi> c, eval \<rho> \<phi> m1, eval \<rho> \<phi> m2])"

text \<open>What the patterns build, on values.\<close>

lemma single_store_value:
  assumes "c = VBool b" "m = VMem aw dw f" "a = VBv aw x" "d = VBv dw v"
  shows "op_sem kStore [] [m, a, op_sem kIfThenElse [] [c, d, op_sem kLoad [] [m, a]]] =
      op_sem kIfThenElse [] [c, op_sem kStore [] [m, a, d], m]"
    and "op_sem kStore [] [m, a, op_sem kIfThenElse [] [c, op_sem kLoad [] [m, a], d]] =
      op_sem kIfThenElse [] [c, m, op_sem kStore [] [m, a, d]]"
  using assms by auto

lemma two_stores_value:
  assumes "c = VBool b"
  shows "op_sem kStore [] [m, op_sem kIfThenElse [] [c, a1, a2], op_sem kIfThenElse [] [c, d1, d2]] =
      op_sem kIfThenElse [] [c, op_sem kStore [] [m, a1, d1], op_sem kStore [] [m, a2, d2]]"
  using assms by simp

text \<open>A run that returns a node which may stand for the conditional.\<close>

definition returns :: "expr option W \<Rightarrow> expr set \<Rightarrow> world \<Rightarrow> (expr \<Rightarrow> bool) \<Rightarrow> bool" where
  "returns m T w Q \<longleftrightarrow> (\<exists>r w' T'. m w = Inr (Some r, w') \<and> same_heaps w w' \<and> T \<subseteq> T'
     \<and> node_heap T' w' \<and> r \<in> T' \<and> Q r)"

lemma returns_ret: "node_heap T w \<Longrightarrow> r \<in> T \<Longrightarrow> Q r \<Longrightarrow> returns (ret (Some r)) T w Q"
  unfolding returns_def by (intro exI [of _ r] exI [of _ w] exI [of _ T]) simp

lemma returns_bind:
  assumes "\<exists>n w' T'. gives m T w s V n w' T'"
    and "\<And>n w' T'. gives m T w s V n w' T' \<Longrightarrow> returns (k n) T' w' Q"
  shows "returns (bindM m k) T w Q"
proof -
  obtain n w1 T1 where 1: "gives m T w s V n w1 T1" using assms(1) by blast
  then obtain r w2 T2 where "k n w1 = Inr (Some r, w2)" "same_heaps w1 w2" "T1 \<subseteq> T2"
    "node_heap T2 w2" "r \<in> T2" "Q r" using assms(2) [OF 1] unfolding returns_def by blast
  then show ?thesis using 1 unfolding returns_def gives_def
    by (intro exI [of _ r] exI [of _ w2] exI [of _ T2]) (auto intro: same_heaps_trans)
qed

text \<open>The nodes at hand: condition, memory, addresses and data.\<close>

lemma build_single:
  assumes T: "node_heap T w" "{c, m, a, d} \<subseteq> T"
    and ok: "passable c" "passable m" "passable a" "passable d"
    and so: "esort c = SortBool" "esort m = SortMem aw dw" "esort a = SortBv aw" "esort d = SortBv dw"
    and flip: "mk = (\<lambda>ld. if flip then Ite c ld d else Ite c d ld)"
    and Q: "\<And>r. passable r \<Longrightarrow> esort r = SortMem aw dw \<Longrightarrow> (\<forall>\<rho> \<phi>. eval \<rho> \<phi> r =
        op_sem kStore [] [eval \<rho> \<phi> m, eval \<rho> \<phi> a,
          (let l = op_sem kLoad [] [eval \<rho> \<phi> m, eval \<rho> \<phi> a] in
           op_sem kIfThenElse [] (if flip then [eval \<rho> \<phi> c, l, eval \<rho> \<phi> d] else [eval \<rho> \<phi> c, eval \<rho> \<phi> d, l]))]) \<Longrightarrow> Q r"
  shows "returns (bindM (Load m a) (\<lambda>ld. bindM (mk ld) (\<lambda>nd. bindM (Store m a nd) (\<lambda>r. ret (Some r)))))
    T w Q"
proof (rule returns_bind)
  show "\<exists>n w' T'. gives (Load m a) T w (SortBv dw)
      (\<lambda>\<rho> \<phi>. op_sem kLoad [] [eval \<rho> \<phi> m, eval \<rho> \<phi> a]) n w' T'"
    by (rule gives_memory(1) [OF T(1)]) (use ok so T in auto)
  fix ld w1 T1 assume 1: "gives (Load m a) T w (SortBv dw)
      (\<lambda>\<rho> \<phi>. op_sem kLoad [] [eval \<rho> \<phi> m, eval \<rho> \<phi> a]) ld w1 T1"
  let ?x = "if flip then ld else d" and ?y = "if flip then d else ld"
  have mk: "mk ld = Ite c ?x ?y" by (simp add: flip)
  show "returns (bindM (mk ld) (\<lambda>nd. bindM (Store m a nd) (\<lambda>r. ret (Some r)))) T1 w1 Q"
    unfolding mk
  proof (rule returns_bind)
    show "\<exists>n w' T'. gives (Ite c ?x ?y) T1 w1 (SortBv dw)
        (\<lambda>\<rho> \<phi>. op_sem kIfThenElse [] [eval \<rho> \<phi> c, eval \<rho> \<phi> ?x, eval \<rho> \<phi> ?y]) n w' T'"
      by (rule gives_memory(3)) (use 1 ok so T in \<open>auto simp: gives_def\<close>)
    fix nd w2 T2 assume 2: "gives (Ite c ?x ?y) T1 w1 (SortBv dw)
        (\<lambda>\<rho> \<phi>. op_sem kIfThenElse [] [eval \<rho> \<phi> c, eval \<rho> \<phi> ?x, eval \<rho> \<phi> ?y]) nd w2 T2"
    show "returns (bindM (Store m a nd) (\<lambda>r. ret (Some r))) T2 w2 Q"
    proof (rule returns_bind)
      show "\<exists>n w' T'. gives (Store m a nd) T2 w2 (SortMem aw dw)
          (\<lambda>\<rho> \<phi>. op_sem kStore [] [eval \<rho> \<phi> m, eval \<rho> \<phi> a, eval \<rho> \<phi> nd]) n w' T'"
        by (rule gives_memory(2)) (use 1 2 ok so T in \<open>auto simp: gives_def\<close>)
      fix r w3 T3 assume 3: "gives (Store m a nd) T2 w2 (SortMem aw dw)
          (\<lambda>\<rho> \<phi>. op_sem kStore [] [eval \<rho> \<phi> m, eval \<rho> \<phi> a, eval \<rho> \<phi> nd]) r w3 T3"
      have "Q r" by (rule Q; cases flip)
        (use 1 2 3 in \<open>simp_all add: gives_def Let_def del: op_sem.simps\<close>)
      then show "returns (ret (Some r)) T3 w3 Q"
        by (intro returns_ret) (use 3 in \<open>auto simp: gives_def\<close>)
    qed
  qed
qed

lemma build_double:
  assumes T: "node_heap T w" "{c, m, a1, d1, a2, d2} \<subseteq> T"
    and ok: "\<forall>x\<in>{c, m, a1, d1, a2, d2}. passable x"
    and so: "esort c = SortBool" "esort m = SortMem aw dw" "esort a1 = SortBv aw" "esort d1 = SortBv dw"
      "esort a2 = SortBv aw" "esort d2 = SortBv dw"
    and Q: "\<And>r. passable r \<Longrightarrow> esort r = SortMem aw dw \<Longrightarrow> (\<forall>\<rho> \<phi>. eval \<rho> \<phi> r =
        op_sem kStore [] [eval \<rho> \<phi> m,
          op_sem kIfThenElse [] [eval \<rho> \<phi> c, eval \<rho> \<phi> a1, eval \<rho> \<phi> a2],
          op_sem kIfThenElse [] [eval \<rho> \<phi> c, eval \<rho> \<phi> d1, eval \<rho> \<phi> d2]]) \<Longrightarrow> Q r"
  shows "returns (bindM (Ite c a1 a2) (\<lambda>na. bindM (Ite c d1 d2) (\<lambda>nd.
      bindM (Store m na nd) (\<lambda>r. ret (Some r))))) T w Q"
proof (rule returns_bind)
  let ?V1 = "\<lambda>\<rho> \<phi>. op_sem kIfThenElse [] [eval \<rho> \<phi> c, eval \<rho> \<phi> a1, eval \<rho> \<phi> a2]"
  let ?V2 = "\<lambda>\<rho> \<phi>. op_sem kIfThenElse [] [eval \<rho> \<phi> c, eval \<rho> \<phi> d1, eval \<rho> \<phi> d2]"
  show "\<exists>n w' T'. gives (Ite c a1 a2) T w (SortBv aw) ?V1 n w' T'"
    by (rule gives_memory(3) [OF T(1)]) (use ok so T in auto)
  fix na w1 T1 assume 1: "gives (Ite c a1 a2) T w (SortBv aw) ?V1 na w1 T1"
  show "returns (bindM (Ite c d1 d2) (\<lambda>nd. bindM (Store m na nd) (\<lambda>r. ret (Some r)))) T1 w1 Q"
  proof (rule returns_bind)
    show "\<exists>n w' T'. gives (Ite c d1 d2) T1 w1 (SortBv dw) ?V2 n w' T'"
      by (rule gives_memory(3)) (use 1 ok so T in \<open>auto simp: gives_def\<close>)
    fix nd w2 T2 assume 2: "gives (Ite c d1 d2) T1 w1 (SortBv dw) ?V2 nd w2 T2"
    show "returns (bindM (Store m na nd) (\<lambda>r. ret (Some r))) T2 w2 Q"
    proof (rule returns_bind)
      show "\<exists>n w' T'. gives (Store m na nd) T2 w2 (SortMem aw dw)
          (\<lambda>\<rho> \<phi>. op_sem kStore [] [eval \<rho> \<phi> m, eval \<rho> \<phi> na, eval \<rho> \<phi> nd]) n w' T'"
        by (rule gives_memory(2)) (use 1 2 ok so T in \<open>auto simp: gives_def\<close>)
      fix r w3 T3 assume 3: "gives (Store m na nd) T2 w2 (SortMem aw dw)
          (\<lambda>\<rho> \<phi>. op_sem kStore [] [eval \<rho> \<phi> m, eval \<rho> \<phi> na, eval \<rho> \<phi> nd]) r w3 T3"
      have "Q r" by (rule Q) (use 1 2 3 in \<open>simp_all add: gives_def del: op_sem.simps\<close>)
      then show "returns (ret (Some r)) T3 w3 Q"
        by (intro returns_ret) (use 3 in \<open>auto simp: gives_def\<close>)
    qed
  qed
qed

text \<open>Rewriting the conditional over the nodes the table has for its operands.\<close>

lemma bindM_lift: "bindM (liftR (Inr a)) f = f a"
  by (simp add: bindM_def fun_eq_iff)

lemma arg_in: "node_heap T w \<Longrightarrow> x \<in> T \<Longrightarrow> args x = as \<Longrightarrow> set as \<subseteq> T"
  by (auto simp: node_heap_def dag_def)

lemma cond_returns:
  assumes T: "node_heap T w" "{c, m1, m2} \<subseteq> T"
    and ok: "passable c" "passable m1" "passable m2"
    and so: "esort c = SortBool" "esort m1 = SortMem aw dw" "esort m2 = SortMem aw dw"
    and get: "get_opt rule e 0 = Inr (Some c)" "get_opt rule e 1 = Inr (Some m1)"
      "get_opt rule e 2 = Inr (Some m2)"
    and base: "returns (RewriteOp rule e) T w (cond_val c m1 m2)"
  shows "returns (RewriteCondMem rule e) T w (cond_val c m1 m2)"
proof -
  note gets = get [unfolded One_nat_def numeral_2_eq_2]
  have st: "IsStore (Some m1) = Inr (is_store m1)" "IsStore (Some m2) = Inr (is_store m2)"
    using so by (simp_all add: IsStore_run)
  note guards = store_then_leaf_def leaf_then_store_def two_stores_def and_then_def not_res_def
    is_op_ptr_def arg0_is_def arg_ptr_def st same_ptr_def bindM_lift
  have mem: "x \<in> T \<Longrightarrow> args x = as \<Longrightarrow> set as \<subseteq> T" for x as by (rule arg_in [OF T(1)])
  consider (same) "eid m1 = eid m2"
    | (p1) "eid m1 \<noteq> eid m2" "is_store m1" "\<not> is_op m2" "eid (args m1 ! 0) = eid m2"
    | (p2) "eid m1 \<noteq> eid m2" "\<not> is_op m1" "is_store m2" "eid (args m2 ! 0) = eid m1"
    | (p3) "eid m1 \<noteq> eid m2" "is_store m1" "is_store m2" "eid (args m1 ! 0) = eid (args m2 ! 0)"
    | (skip) "eid m1 \<noteq> eid m2"
        "\<not> (is_store m1 \<and> \<not> is_op m2 \<and> eid (args m1 ! 0) = eid m2)"
        "\<not> (\<not> is_op m1 \<and> is_store m2 \<and> eid (args m2 ! 0) = eid m1)"
        "\<not> (is_store m1 \<and> is_store m2 \<and> eid (args m1 ! 0) = eid (args m2 ! 0))" by blast
  then show ?thesis
  proof cases
    case same
    then have "m1 = m2" using node_heap_inj [OF T(1)] T(2) by blast
    then have "RewriteCondMem rule e w = ret (Some m1) w"
      using get same by (simp add: RewriteCondMem_def same_ptr_def)
    moreover have "cond_val c m1 m2 m1"
      unfolding cond_val_def using \<open>m1 = m2\<close> ok
      by (auto simp: elim!: bool_value [OF ok(1) so(1)])
    ultimately show ?thesis using returns_ret [OF T(1), of m1] T(2) by (simp add: returns_def)
  next
    case p1
    obtain b a d where m: "args m1 = [b, a, d]" "esort b = SortMem aw dw" "esort a = SortBv aw"
      "esort d = SortBv dw" "passable b" "passable a" "passable d"
      "\<forall>\<rho> \<phi>. eval \<rho> \<phi> m1 = op_sem kStore [] [eval \<rho> \<phi> b, eval \<rho> \<phi> a, eval \<rho> \<phi> d]"
      using store_parts [OF p1(2) ok(2) so(2)] .
    have inT: "{b, a, d} \<subseteq> T" using mem [OF _ m(1)] T(2) by auto
    then have b: "b = m2" using node_heap_inj [OF T(1), of b m2] T(2) p1(4) m(1) by simp
    have run: "RewriteCondMem rule e w = bindM (Load m2 a) (\<lambda>ld. bindM (Ite c d ld)
        (\<lambda>nd. bindM (Store m2 a nd) (\<lambda>r. ret (Some r)))) w"
      using get p1 m(1) b by (simp add: RewriteCondMem_def guards)
    have "returns (bindM (Load m2 a) (\<lambda>ld. bindM (Ite c d ld)
        (\<lambda>nd. bindM (Store m2 a nd) (\<lambda>r. ret (Some r))))) T w (cond_val c m1 m2)"
    proof (rule build_single [where flip = False, OF T(1) _ ok(1) ok(3) m(6,7) so(1,3) m(3,4)])
      fix r assume r: "passable r" "esort r = SortMem aw dw" "\<forall>\<rho> \<phi>. eval \<rho> \<phi> r =
        op_sem kStore [] [eval \<rho> \<phi> m2, eval \<rho> \<phi> a,
          (let l = op_sem kLoad [] [eval \<rho> \<phi> m2, eval \<rho> \<phi> a] in
           op_sem kIfThenElse [] (if False then [eval \<rho> \<phi> c, l, eval \<rho> \<phi> d] else [eval \<rho> \<phi> c, eval \<rho> \<phi> d, l]))]"
      show "cond_val c m1 m2 r"
        unfolding cond_val_def
      proof (intro conjI allI impI)
        fix \<rho> \<phi> assume env: "env_ok \<rho>" "finterp_ok \<phi>"
        obtain x f v y where "eval \<rho> \<phi> c = VBool x" "eval \<rho> \<phi> m2 = VMem aw dw f"
          "eval \<rho> \<phi> a = VBv aw y" "eval \<rho> \<phi> d = VBv dw v"
          using bool_value [OF ok(1) so(1) env] mem_value [OF ok(3) so(3) env]
            bv_value [OF m(6,3) env] bv_value [OF m(7,4) env] by metis
        note val = single_store_value(1) [OF this]
        show "eval \<rho> \<phi> r = op_sem kIfThenElse [] [eval \<rho> \<phi> c, eval \<rho> \<phi> m1, eval \<rho> \<phi> m2]"
          using r(3) val m(8) b by (simp add: Let_def del: op_sem.simps)
      qed (use r so in auto)
    qed (use inT T(2) in auto)
    then show ?thesis by (simp add: returns_def run)
  next
    case p2
    obtain b a d where m: "args m2 = [b, a, d]" "esort b = SortMem aw dw" "esort a = SortBv aw"
      "esort d = SortBv dw" "passable b" "passable a" "passable d"
      "\<forall>\<rho> \<phi>. eval \<rho> \<phi> m2 = op_sem kStore [] [eval \<rho> \<phi> b, eval \<rho> \<phi> a, eval \<rho> \<phi> d]"
      using store_parts [OF p2(3) ok(3) so(3)] .
    have inT: "{b, a, d} \<subseteq> T" using mem [OF _ m(1)] T(2) by auto
    then have b: "b = m1" using node_heap_inj [OF T(1), of b m1] T(2) p2(4) m(1) by simp
    have "\<not> is_store m1" using p2(2) by (simp add: is_store_def)
    then have run: "RewriteCondMem rule e w = bindM (Load m1 a) (\<lambda>ld. bindM (Ite c ld d)
        (\<lambda>nd. bindM (Store m1 a nd) (\<lambda>r. ret (Some r)))) w"
      using get p2 m(1) b by (simp add: RewriteCondMem_def guards)
    have "returns (bindM (Load m1 a) (\<lambda>ld. bindM (Ite c ld d)
        (\<lambda>nd. bindM (Store m1 a nd) (\<lambda>r. ret (Some r))))) T w (cond_val c m1 m2)"
    proof (rule build_single [where flip = True, OF T(1) _ ok(1) ok(2) m(6,7) so(1,2) m(3,4)])
      fix r assume r: "passable r" "esort r = SortMem aw dw" "\<forall>\<rho> \<phi>. eval \<rho> \<phi> r =
        op_sem kStore [] [eval \<rho> \<phi> m1, eval \<rho> \<phi> a,
          (let l = op_sem kLoad [] [eval \<rho> \<phi> m1, eval \<rho> \<phi> a] in
           op_sem kIfThenElse [] (if True then [eval \<rho> \<phi> c, l, eval \<rho> \<phi> d] else [eval \<rho> \<phi> c, eval \<rho> \<phi> d, l]))]"
      show "cond_val c m1 m2 r"
        unfolding cond_val_def
      proof (intro conjI allI impI)
        fix \<rho> \<phi> assume env: "env_ok \<rho>" "finterp_ok \<phi>"
        obtain x f v y where "eval \<rho> \<phi> c = VBool x" "eval \<rho> \<phi> m1 = VMem aw dw f"
          "eval \<rho> \<phi> a = VBv aw y" "eval \<rho> \<phi> d = VBv dw v"
          using bool_value [OF ok(1) so(1) env] mem_value [OF ok(2) so(2) env]
            bv_value [OF m(6,3) env] bv_value [OF m(7,4) env] by metis
        note val = single_store_value(2) [OF this]
        show "eval \<rho> \<phi> r = op_sem kIfThenElse [] [eval \<rho> \<phi> c, eval \<rho> \<phi> m1, eval \<rho> \<phi> m2]"
          using r(3) val m(8) b by (simp add: Let_def del: op_sem.simps)
      qed (use r so in auto)
    qed (use inT T(2) in auto)
    then show ?thesis by (simp add: returns_def run)
  next
    case p3
    obtain b a d where m: "args m1 = [b, a, d]" "esort b = SortMem aw dw" "esort a = SortBv aw"
      "esort d = SortBv dw" "passable b" "passable a" "passable d"
      "\<forall>\<rho> \<phi>. eval \<rho> \<phi> m1 = op_sem kStore [] [eval \<rho> \<phi> b, eval \<rho> \<phi> a, eval \<rho> \<phi> d]"
      using store_parts [OF p3(2) ok(2) so(2)] .
    obtain b' a' d' where m': "args m2 = [b', a', d']" "esort b' = SortMem aw dw" "esort a' = SortBv aw"
      "esort d' = SortBv dw" "passable b'" "passable a'" "passable d'"
      "\<forall>\<rho> \<phi>. eval \<rho> \<phi> m2 = op_sem kStore [] [eval \<rho> \<phi> b', eval \<rho> \<phi> a', eval \<rho> \<phi> d']"
      using store_parts [OF p3(3) ok(3) so(3)] .
    have inT: "{b, a, d} \<subseteq> T" "{b', a', d'} \<subseteq> T" using mem [OF _ m(1)] mem [OF _ m'(1)] T(2) by auto
    then have b: "b' = b" using node_heap_inj [OF T(1), of b b'] p3(4) m(1) m'(1) by simp
    have ops: "is_op m1" "is_op m2" using p3(2,3) by (simp_all add: is_store_def)
    have run: "RewriteCondMem rule e w = bindM (Ite c a a') (\<lambda>na. bindM (Ite c d d')
        (\<lambda>nd. bindM (Store b na nd) (\<lambda>r. ret (Some r)))) w"
      using get p3 m(1) m'(1) b ops
      by (simp add: RewriteCondMem_def guards same_node_def bindM_def)
    have "returns (bindM (Ite c a a') (\<lambda>na. bindM (Ite c d d')
        (\<lambda>nd. bindM (Store b na nd) (\<lambda>r. ret (Some r))))) T w (cond_val c m1 m2)"
    proof (rule build_double [OF T(1) _ _ so(1) m(2) m(3,4) m'(3,4)])
      fix r assume r: "passable r" "esort r = SortMem aw dw" "\<forall>\<rho> \<phi>. eval \<rho> \<phi> r =
        op_sem kStore [] [eval \<rho> \<phi> b,
          op_sem kIfThenElse [] [eval \<rho> \<phi> c, eval \<rho> \<phi> a, eval \<rho> \<phi> a'],
          op_sem kIfThenElse [] [eval \<rho> \<phi> c, eval \<rho> \<phi> d, eval \<rho> \<phi> d']]"
      show "cond_val c m1 m2 r"
        unfolding cond_val_def
      proof (intro conjI allI impI)
        fix \<rho> \<phi> assume env: "env_ok \<rho>" "finterp_ok \<phi>"
        obtain x where "eval \<rho> \<phi> c = VBool x" using bool_value [OF ok(1) so(1) env] .
        note val = two_stores_value [OF this]
        show "eval \<rho> \<phi> r = op_sem kIfThenElse [] [eval \<rho> \<phi> c, eval \<rho> \<phi> m1, eval \<rho> \<phi> m2]"
          using r(3) val m(8) m'(8) b by (simp del: op_sem.simps)
      qed (use r so in auto)
    qed (use inT T(2) ok m m' in auto)
    then show ?thesis by (simp add: returns_def run)
  next
    case skip
    have len: "is_store m1 \<Longrightarrow> 0 < length (args m1)" "is_store m2 \<Longrightarrow> 0 < length (args m2)"
      using store_parts [OF _ ok(2) so(2)] store_parts [OF _ ok(3) so(3)] by fastforce+
    have ops: "is_store x \<Longrightarrow> is_op x" for x by (simp add: is_store_def)
    have "RewriteCondMem rule e w = RewriteOp rule e w"
      using get skip len ops
      by (auto simp: RewriteCondMem_def guards same_node_def bindM_def at_def)
    then show ?thesis using base by (simp add: returns_def)
  qed
qed

subsection \<open>The rewriter fulfils the contract\<close>

abbreviation mapped_args :: "expr_map \<Rightarrow> expr set \<Rightarrow> expr \<Rightarrow> bool" where
  "mapped_args rule T e \<equiv> \<forall>a\<in>set (args e). \<exists>a'. rule (eid a) = Some (Some a') \<and> opt_rel a a' \<and> a' \<in> T"

lemma opt_rel_args:
  assumes "list_all2 (\<lambda>a a'. rule (eid a) = Some (Some a') \<and> opt_rel a a') as as'"
  shows "list_all passable as'" "map esort as' = map esort as"
    "env_ok \<rho> \<Longrightarrow> finterp_ok \<phi> \<Longrightarrow> map (eval \<rho> \<phi>) as' = map (eval \<rho> \<phi>) as"
  using assms by (induction rule: list_all2_induct) (auto simp: opt_rel_def same_value_def)

lemma opt_rel_RewriteOp:
  assumes op: "is_op e" and e: "passable e" and T: "node_heap T w" and m: "mapped_args rule T e"
  shows "returns (RewriteOp rule e) T w (opt_rel e)"
proof -
  obtain y u s as ps f h where e_def: "e = ExprOp y u s as ps f h" using op by (cases e) auto
  obtain as' where as': "list_all2 (\<lambda>a a'. rule (eid a) = Some (Some a') \<and> opt_rel a a') as as'"
    "set as' \<subseteq> T"
    using args_related [of as rule opt_rel] m by (auto simp: e_def)
  have s: "op_sort u (map esort as) ps f = Some s" "op_shape u ps f" "copyable u"
    using e by (auto simp: e_def)
  have am: "args_mapped rule as as'"
    by (rule list_all2_mono [OF as'(1)]) (simp add: opt_rel_def same_value_def)
  obtain w1 where w1: "same_heaps w w1" "RewriteOp rule e w = Inr (Some (mk_node w1 u s as' ps f), tick w1)"
    using RewriteOp_makes [OF s am, of y h w] unfolding makes_def e_def by blast
  let ?n = "mk_node w1 u s as' ps f"
  have "passable ?n"
    using e opt_rel_args(1,2) [OF as'(1)] by (simp add: e_def del: op_sort.simps)
  moreover have "same_value e ?n"
    unfolding same_value_def
  proof (intro conjI allI impI)
    fix \<rho> \<phi> assume "env_ok \<rho>" "finterp_ok \<phi>"
    from opt_rel_args(3) [OF as'(1) this]
    show "eval \<rho> \<phi> ?n = eval \<rho> \<phi> e"
      unfolding e_def by (rule eval_node)
  qed (simp add: e_def mk_node_def)
  moreover have "node_heap (insert ?n T) (tick w1)" by (rule node_heap_add [OF T w1(1) as'(2)])
  ultimately show ?thesis
    unfolding returns_def opt_rel_def using w1 same_heaps_trans [OF w1(1) same_heaps_tick]
    by (intro exI [of _ ?n] exI [of _ "tick w1"] exI [of _ "insert ?n T"]) auto
qed

lemma opt_rel_CondStore:
  assumes op: "is_op e" and e: "passable e" and T: "node_heap T w" and m: "mapped_args rule T e"
  shows "returns (CondStore_RewriteOp rule e) T w (opt_rel e)"
proof (cases "is_mem (esort e) \<and> GetUidExprOp e = Inr kIfThenElse")
  case False
  then have "CondStore_RewriteOp rule e = RewriteOp rule e"
    using op by (cases e) (auto simp: CondStore_RewriteOp_def bindM_lift)
  then show ?thesis using opt_rel_RewriteOp [OF assms] by simp
next
  case True
  then obtain y s as ps f h where e_def: "e = ExprOp y kIfThenElse s as ps f h"
    by (cases e) auto
  obtain aw dw where s: "s = SortMem aw dw" using True by (auto simp: e_def is_mem_iff)
  have srt: "op_sort kIfThenElse (map esort as) ps f = Some (SortMem aw dw)"
    and shape: "op_shape kIfThenElse ps f"
    using e by (simp_all add: e_def s del: op_sort.simps)
  then obtain c0 m0 n0 where as: "as = [c0, m0, n0]" "esort c0 = SortBool"
      "esort m0 = SortMem aw dw" "esort n0 = SortMem aw dw" "ps = []" "f = None"
    by (auto simp: op_sort_memory op_shape_def simp del: op_sort.simps)
  obtain c m1 m2 where r: "rule (eid c0) = Some (Some c)" "rule (eid m0) = Some (Some m1)"
      "rule (eid n0) = Some (Some m2)" "opt_rel c0 c" "opt_rel m0 m1" "opt_rel n0 m2" "{c, m1, m2} \<subseteq> T"
    using m by (auto simp: e_def as)
  have get: "get_opt rule e 0 = Inr (Some c)" "get_opt rule e 1 = Inr (Some m1)"
      "get_opt rule e 2 = Inr (Some m2)"
    using r by (simp_all add: get_opt_def e_def as rewr_get_def at_def)
  have so: "esort c = SortBool" "esort m1 = SortMem aw dw" "esort m2 = SortMem aw dw"
    and ok: "passable c" "passable m1" "passable m2"
    using r as by (auto simp: opt_rel_def same_value_def)
  have sem: "cond_val c m1 m2 = opt_rel e"
    using r(4-6) as so
    by (auto simp: fun_eq_iff cond_val_def opt_rel_def same_value_def e_def s simp del: op_sem.simps)
  have "returns (RewriteCondMem rule e) T w (cond_val c m1 m2)"
    by (rule cond_returns [OF T r(7) ok so get])
       (use opt_rel_RewriteOp [OF op e T m] in \<open>simp add: sem\<close>)
  moreover have "CondStore_RewriteOp rule e = RewriteCondMem rule e"
    using True by (simp add: CondStore_RewriteOp_def e_def bindM_lift)
  ultimately show ?thesis by (simp add: sem)
qed

interpretation condstore: rewriting CondStore_RewriteOp passable opt_rel
  by unfold_locales (use opt_rel_CondStore in \<open>unfold returns_def, blast\<close>)

subsection \<open>Worlds with related expressions\<close>

text \<open>Everything is as it was but the expressions, which are related by \<open>R\<close> slot by slot.\<close>

definition ila_rel :: "(expr \<Rightarrow> expr \<Rightarrow> bool) \<Rightarrow> ila \<Rightarrow> ila \<Rightarrow> bool" where
  "ila_rel R m m' \<longleftrightarrow> m'\<lparr>fetch := None, valid := None\<rparr> = m\<lparr>fetch := None, valid := None\<rparr>
     \<and> rel_option R (fetch m) (fetch m') \<and> rel_option R (valid m) (valid m')"

definition instr_rel :: "(expr \<Rightarrow> expr \<Rightarrow> bool) \<Rightarrow> instr \<Rightarrow> instr \<Rightarrow> bool" where
  "instr_rel R x x' \<longleftrightarrow> x'\<lparr>decode := None, updates := []\<rparr> = x\<lparr>decode := None, updates := []\<rparr>
     \<and> rel_option R (decode x) (decode x')
     \<and> (\<forall>n. rel_option (rel_option R) (map_of (updates x) n) (map_of (updates x') n))"

definition world_rel :: "(expr \<Rightarrow> expr \<Rightarrow> bool) \<Rightarrow> world \<Rightarrow> world \<Rightarrow> bool" where
  "world_rel R w w' \<longleftrightarrow> counter w \<le> counter w'
     \<and> (\<forall>i. rel_option (ila_rel R) (ila_heap w i) (ila_heap w' i))
     \<and> (\<forall>k. rel_option (instr_rel R) (instr_heap w k) (instr_heap w' k))"

abbreviation world_same :: "world \<Rightarrow> world \<Rightarrow> bool" where
  "world_same \<equiv> world_rel same_value"

lemma rel_option_self: "(\<And>x. R x x) \<Longrightarrow> rel_option R a a"
  by (cases a) simp_all

lemma rel_option_compose:
  "rel_option R a b \<Longrightarrow> rel_option R b c \<Longrightarrow> (\<And>x y z. R x y \<Longrightarrow> R y z \<Longrightarrow> R x z) \<Longrightarrow> rel_option R a c"
  by (cases a; cases b; cases c) auto

locale expr_rel =
  fixes R :: "expr \<Rightarrow> expr \<Rightarrow> bool"
  assumes R_refl: "R e e" and R_trans: "R a b \<Longrightarrow> R b c \<Longrightarrow> R a c" and R_sort: "R e e' \<Longrightarrow> esort e' = esort e"
begin

lemma R_self: "rel_option R a a" "rel_option (rel_option R) b b"
  using R_refl by (simp_all add: rel_option_self)

lemma rel_self: "ila_rel R m m" "instr_rel R x x"
  by (simp_all add: ila_rel_def instr_rel_def R_self)

lemma ila_rel_trans: "ila_rel R a b \<Longrightarrow> ila_rel R b c \<Longrightarrow> ila_rel R a c"
  unfolding ila_rel_def
  by (elim conjE, intro conjI)
     (simp, (erule (1) rel_option_compose, erule (1) R_trans)+)

lemma instr_rel_trans: "instr_rel R a b \<Longrightarrow> instr_rel R b c \<Longrightarrow> instr_rel R a c"
  unfolding instr_rel_def
  by (elim conjE, intro conjI allI)
     (simp, (erule (1) rel_option_compose, erule (1) R_trans),
      (erule allE)+, (erule (1) rel_option_compose, erule (1) rel_option_compose, erule (1) R_trans))

lemma world_rel_refl: "same_heaps w w' \<Longrightarrow> world_rel R w w'"
  using rel_self by (simp add: world_rel_def same_heaps_def rel_option_self)

lemma world_rel_trans: "world_rel R u v \<Longrightarrow> world_rel R v w \<Longrightarrow> world_rel R u w"
  unfolding world_rel_def
  by (elim conjE, intro conjI allI)
     (simp, ((erule allE)+, erule (1) rel_option_compose, erule (1) ila_rel_trans),
      ((erule allE)+, erule (1) rel_option_compose, erule (1) instr_rel_trans))

lemma world_rel_ila:
  "ila_heap w i = Some m \<Longrightarrow> ila_rel R m m' \<Longrightarrow> world_rel R w (w\<lparr>ila_heap := (ila_heap w)(i \<mapsto> m')\<rparr>)"
  using rel_self by (simp add: world_rel_def rel_option_self)

lemma world_rel_instr:
  "instr_heap w k = Some x \<Longrightarrow> instr_rel R x x' \<Longrightarrow>
   world_rel R w (w\<lparr>instr_heap := (instr_heap w)(k \<mapsto> x')\<rparr>)"
  using rel_self by (simp add: world_rel_def rel_option_self)

end

interpretation by_value: expr_rel same_value
  by unfold_locales (auto simp: same_value_def)

subsection \<open>What the template needs of the hierarchy\<close>

definition ila_slots :: "expr set \<Rightarrow> ila \<Rightarrow> bool" where
  "ila_slots T m \<longleftrightarrow> (\<forall>f. fetch m = Some f \<longrightarrow> f \<in> T \<and> is_bv (esort f) 0)
     \<and> (\<forall>v. valid m = Some v \<longrightarrow> v \<in> T \<and> esort v = SortBool)"

definition instr_slots :: "string set \<Rightarrow> expr set \<Rightarrow> instr \<Rightarrow> bool" where
  "instr_slots U T x \<longleftrightarrow> (\<exists>d\<in>T. decode x = Some d \<and> esort d = SortBool)
     \<and> omap_ok str_less (updates x) \<and> dom (map_of (updates x)) = U
     \<and> (\<forall>n\<in>U. \<exists>e\<in>T. map_of (updates x) n = Some (Some e))"

text \<open>\<open>J\<close> are the ILAs of the hierarchy, \<open>K\<close> its instructions, \<open>U\<close> the states they update.\<close>

definition tree_slots :: "nat set \<Rightarrow> nat set \<Rightarrow> (nat \<Rightarrow> string set) \<Rightarrow> expr set \<Rightarrow> world \<Rightarrow> bool" where
  "tree_slots J K U T w \<longleftrightarrow>
     (\<forall>j\<in>J. \<exists>m. ila_heap w j = Some m \<and> ila_slots T m \<and> set (vec (instrs m)) \<subseteq> K
        \<and> (\<forall>c\<in>set (vec (childs m)). c \<in> J \<and> j < c))
     \<and> (\<forall>k\<in>K. \<exists>x. instr_heap w k = Some x \<and> instr_slots (U k) T x)"

lemma ila_slots_mono: "ila_slots T m \<Longrightarrow> T \<subseteq> T' \<Longrightarrow> ila_slots T' m"
  unfolding ila_slots_def by blast

lemma instr_slots_mono: "instr_slots U T x \<Longrightarrow> T \<subseteq> T' \<Longrightarrow> instr_slots U T' x"
  unfolding instr_slots_def by blast

lemma tree_slots_mono:
  assumes t: "tree_slots J K U T w" and sub: "T \<subseteq> T'" and h: "same_heaps w w'"
  shows "tree_slots J K U T' w'"
proof -
  have "ila_heap w' = ila_heap w" "instr_heap w' = instr_heap w" using h by (simp_all add: same_heaps_def)
  then show ?thesis
    using t ila_slots_mono [OF _ sub] instr_slots_mono [OF _ sub] unfolding tree_slots_def by metis
qed

lemma tree_slots_ila:
  assumes "tree_slots J K U T w" "ila_heap w i = Some m" "ila_slots T m'"
    "instrs m' = instrs m" "childs m' = childs m"
  shows "tree_slots J K U T (w\<lparr>ila_heap := (ila_heap w)(i \<mapsto> m')\<rparr>)"
  unfolding tree_slots_def
proof (intro conjI ballI)
  fix j assume "j \<in> J"
  then obtain n where "ila_heap w j = Some n" "ila_slots T n" "set (vec (instrs n)) \<subseteq> K"
    "\<forall>c\<in>set (vec (childs n)). c \<in> J \<and> j < c" using assms(1) by (auto simp: tree_slots_def)
  then show "\<exists>n. ila_heap (w\<lparr>ila_heap := (ila_heap w)(i \<mapsto> m')\<rparr>) j = Some n \<and> ila_slots T n
      \<and> set (vec (instrs n)) \<subseteq> K \<and> (\<forall>c\<in>set (vec (childs n)). c \<in> J \<and> j < c)"
    using assms(2-5) by (cases "j = i") auto
qed (use assms(1) in \<open>simp add: tree_slots_def\<close>)

lemma tree_slots_instr:
  assumes "tree_slots J K U T w" "instr_heap w k = Some x" "instr_slots (U k) T x'"
  shows "tree_slots J K U T (w\<lparr>instr_heap := (instr_heap w)(k \<mapsto> x')\<rparr>)"
  unfolding tree_slots_def
proof (intro conjI ballI)
  fix j assume "j \<in> K"
  then obtain y where "instr_heap w j = Some y" "instr_slots (U j) T y"
    using assms(1) by (auto simp: tree_slots_def)
  then show "\<exists>y. instr_heap (w\<lparr>instr_heap := (instr_heap w)(k \<mapsto> x')\<rparr>) j = Some y \<and> instr_slots (U j) T y"
    using assms(2,3) by (cases "j = k") auto
qed (use assms(1) in \<open>simp add: tree_slots_def\<close>)

subsection \<open>The template, for every rewriting function that keeps a relation\<close>

text \<open>\<open>inv b w T\<close>: in the state \<open>b\<close> and the world \<open>w\<close>, the function can rewrite the nodes of
  \<open>T\<close>.\<close>

locale expr_pass = expr_rel R for R +
  fixes Rewr :: "'b rewr_fun" and inv :: "'b \<Rightarrow> world \<Rightarrow> expr set \<Rightarrow> bool"
  assumes rewr: "inv b w T \<Longrightarrow> e \<in> T \<Longrightarrow> \<exists>e' b' w' T'. Rewr (Some e) (b, w) = Inr (Some e', (b', w'))
      \<and> R e e' \<and> e' \<in> T' \<and> T \<subseteq> T' \<and> inv b' w' T' \<and> same_heaps w w'"
    and inv_counter: "inv b w T \<Longrightarrow> counter w' = counter w \<Longrightarrow> inv b w' T"
begin

definition ready :: "nat set \<Rightarrow> nat set \<Rightarrow> (nat \<Rightarrow> string set) \<Rightarrow> 'b \<Rightarrow> world \<Rightarrow> expr set \<Rightarrow> bool" where
  "ready J K U b w T \<longleftrightarrow> inv b w T \<and> tree_slots J K U T w"

text \<open>An action that succeeds from every such state and keeps the expressions related.\<close>

definition sound :: "nat set \<Rightarrow> nat set \<Rightarrow> (nat \<Rightarrow> string set) \<Rightarrow> ('b \<times> world, 'a) action \<Rightarrow> bool" where
  "sound J K U m \<longleftrightarrow> (\<forall>b w T. ready J K U b w T \<longrightarrow> (\<exists>r b' w' T'. m (b, w) = Inr (r, (b', w'))
     \<and> world_rel R w w' \<and> ready J K U b' w' T'))"

lemma soundI:
  "(\<And>b w T. ready J K U b w T \<Longrightarrow> \<exists>r b' w' T'. m (b, w) = Inr (r, (b', w')) \<and> world_rel R w w'
      \<and> ready J K U b' w' T') \<Longrightarrow> sound J K U m"
  unfolding sound_def by blast

lemma soundE:
  assumes "sound J K U m" "ready J K U b w T"
  obtains r b' w' T' where "m (b, w) = Inr (r, (b', w'))" "world_rel R w w'" "ready J K U b' w' T'"
  using assms unfolding sound_def by blast

lemma sound_ret: "sound J K U (ret a)"
  by (rule soundI) (auto intro: world_rel_refl)

lemma sound_bind: "sound J K U m \<Longrightarrow> (\<And>a. sound J K U (f a)) \<Longrightarrow> sound J K U (bindM m f)"
proof (rule soundI)
  fix b w T assume m: "sound J K U m" and f: "\<And>a. sound J K U (f a)" and r: "ready J K U b w T"
  obtain a b1 w1 T1 where 1: "m (b, w) = Inr (a, (b1, w1))" "world_rel R w w1" "ready J K U b1 w1 T1"
    using soundE [OF m r] .
  obtain c b2 w2 T2 where 2: "f a (b1, w1) = Inr (c, (b2, w2))" "world_rel R w1 w2" "ready J K U b2 w2 T2"
    using soundE [OF f 1(3)] .
  show "\<exists>r b' w' T'. bindM m f (b, w) = Inr (r, (b', w')) \<and> world_rel R w w' \<and> ready J K U b' w' T'"
    using 1 2 world_rel_trans [OF 1(2) 2(2)] by (simp add: bindM_def) blast
qed

lemma sound_then: "sound J K U m \<Longrightarrow> sound J K U k \<Longrightarrow> sound J K U (thenM m k)"
  unfolding thenM_def by (rule sound_bind)

lemma sound_forM: "(\<And>x. x \<in> set xs \<Longrightarrow> sound J K U (f x)) \<Longrightarrow> sound J K U (forM xs f)"
  by (induction xs) (simp_all add: sound_ret sound_then)

text \<open>A slot is rewritten and written back: \<open>put\<close> stores the result.\<close>

lemma sound_slot:
  assumes "ready J K U b w T" "e \<in> T"
    and "\<And>e' w1 T1. R e e' \<Longrightarrow> e' \<in> T1 \<Longrightarrow> same_heaps w w1 \<Longrightarrow> tree_slots J K U T1 w1 \<Longrightarrow>
      \<exists>w2. put (Some e') w1 = Inr ((), w2) \<and> counter w2 = counter w1 \<and> world_rel R w1 w2
        \<and> tree_slots J K U T1 w2"
  shows "\<exists>r b' w' T'. bindM (Rewr (Some e)) (\<lambda>e'. on_world (put e')) (b, w) = Inr (r, (b', w'))
    \<and> world_rel R w w' \<and> ready J K U b' w' T'"
proof -
  obtain e' b1 w1 T1 where 1: "Rewr (Some e) (b, w) = Inr (Some e', (b1, w1))" "R e e'"
    "e' \<in> T1" "T \<subseteq> T1" "inv b1 w1 T1" "same_heaps w w1"
    using rewr assms(1,2) unfolding ready_def by blast
  have "tree_slots J K U T1 w1"
    using assms(1) 1(4,6) unfolding ready_def by (blast intro: tree_slots_mono)
  then obtain w2 where 2: "put (Some e') w1 = Inr ((), w2)" "counter w2 = counter w1"
    "world_rel R w1 w2" "tree_slots J K U T1 w2"
    using assms(3) [OF 1(2,3,6)] by blast
  have "bindM (Rewr (Some e)) (\<lambda>e'. on_world (put e')) (b, w) = Inr ((), (b1, w2))"
    using 1(1) 2(1) by (simp add: bindM_def on_world_def)
  moreover have "world_rel R w w2"
    using world_rel_trans [OF world_rel_refl [OF 1(6)] 2(3)] .
  moreover have "ready J K U b1 w2 T1"
    unfolding ready_def using inv_counter [OF 1(5) 2(2)] 2(4) by simp
  ultimately show ?thesis by blast
qed

lemma bind_world: "m w = Inr (a, w') \<Longrightarrow> bindM (on_world m) f (b, w) = f a (b, w')"
  by (simp add: on_world_def bindM_def)

lemma readyK:
  assumes "ready J K U b w T" "k \<in> K"
  obtains x where "instr_heap w k = Some x" "instr_slots (U k) T x"
  using assms unfolding ready_def tree_slots_def by blast

lemma readyJ:
  assumes "ready J K U b w T" "j \<in> J"
  obtains m where "ila_heap w j = Some m" "ila_slots T m" "set (vec (instrs m)) \<subseteq> K"
    "\<forall>c\<in>set (vec (childs m)). c \<in> J \<and> j < c"
  using assms unfolding ready_def tree_slots_def by blast

lemma put_update:
  assumes x: "instr_heap w k = Some x" "map_of (updates x) st = Some (Some e)"
    and h: "same_heaps w w1" "tree_slots J K U T1 w1" "k \<in> K"
    and e': "R e e'" "e' \<in> T1"
  shows "\<exists>w2. ForceAddUpdate k st (Some e') w1 = Inr ((), w2) \<and> counter w2 = counter w1
    \<and> world_rel R w1 w2 \<and> tree_slots J K U T1 w2"
proof -
  let ?y = "x\<lparr>updates := omap_put str_less st (Some e') (updates x)\<rparr>"
  let ?w2 = "w1\<lparr>instr_heap := (instr_heap w1)(k \<mapsto> ?y)\<rparr>"
  have x1: "instr_heap w1 k = Some x" using x(1) h(1) by (simp add: same_heaps_def)
  then have slots: "instr_slots (U k) T1 x" using h(2,3) by (auto simp: tree_slots_def)
  have ok: "omap_ok str_less (updates x)" using slots by (simp add: instr_slots_def)
  have look: "map_of (updates ?y) n = (if n = st then Some (Some e') else map_of (updates x) n)" for n
    using ok by (simp add: omap_put_lookup)
  have "instr_slots (U k) T1 ?y"
    using slots x(2) e'(2) look omap_ok_put [OF _ ok] unfolding instr_slots_def
    by (auto simp: dom_def split: if_splits)
  moreover have "instr_rel R x ?y"
    unfolding instr_rel_def using x(2) e'(1) look by (simp add: R_self)
  ultimately show ?thesis
    using x1 h(2) world_rel_instr [OF x1] tree_slots_instr [OF h(2) x1]
    by (intro exI [of _ ?w2]) (simp add: ForceAddUpdate_def upd_instr_def)
qed

lemma sound_update: "k \<in> K \<Longrightarrow> st \<in> U k \<Longrightarrow> sound J K U (rewrite_update Rewr k st)"
proof (rule soundI)
  fix b w T assume k: "k \<in> K" "st \<in> U k" and r: "ready J K U b w T"
  obtain x where x: "instr_heap w k = Some x" "instr_slots (U k) T x" using readyK [OF r k(1)] .
  then obtain e where e: "e \<in> T" "map_of (updates x) st = Some (Some e)"
    using k(2) by (auto simp: instr_slots_def)
  have "rewrite_update Rewr k st (b, w) =
      bindM (Rewr (Some e)) (\<lambda>u'. on_world (ForceAddUpdate k st u')) (b, w)"
    unfolding rewrite_update_def
    by (rule bind_world) (simp add: instr_update_def bindM_def x e the_instr_def)
  moreover have "\<exists>r b' w' T'. bindM (Rewr (Some e)) (\<lambda>u'. on_world (ForceAddUpdate k st u')) (b, w)
      = Inr (r, (b', w')) \<and> world_rel R w w' \<and> ready J K U b' w' T'"
    by (rule sound_slot [OF r e(1)]) (rule put_update [OF x(1) e(2)], use k in auto)
  ultimately show "\<exists>r b' w' T'. rewrite_update Rewr k st (b, w) = Inr (r, (b', w'))
      \<and> world_rel R w w' \<and> ready J K U b' w' T'" by simp
qed

lemma put_decode:
  assumes x: "instr_heap w k = Some x" "decode x = Some d" "esort d = SortBool"
    and h: "same_heaps w w1" "tree_slots J K U T1 w1" "k \<in> K"
    and e': "R d e'" "e' \<in> T1"
  shows "\<exists>w2. ForceSetDecode k (Some e') w1 = Inr ((), w2) \<and> counter w2 = counter w1
    \<and> world_rel R w1 w2 \<and> tree_slots J K U T1 w2"
proof -
  let ?y = "x\<lparr>decode := Some e'\<rparr>"
  let ?w2 = "w1\<lparr>instr_heap := (instr_heap w1)(k \<mapsto> ?y)\<rparr>"
  have x1: "instr_heap w1 k = Some x" using x(1) h(1) by (simp add: same_heaps_def)
  then have slots: "instr_slots (U k) T1 x" using h(2,3) by (auto simp: tree_slots_def)
  have srt: "esort e' = SortBool" using e'(1) x(3) by (simp add: R_sort)
  have "instr_slots (U k) T1 ?y" using slots srt e'(2) unfolding instr_slots_def by simp
  moreover have "instr_rel R x ?y"
    unfolding instr_rel_def using x(2) e'(1) by (simp add: R_self)
  ultimately show ?thesis
    using x1 h(2) srt world_rel_instr [OF x1] tree_slots_instr [OF h(2) x1]
    by (intro exI [of _ ?w2])
       (simp add: ForceSetDecode_def upd_instr_def bindM_def thenM_def Unify_def)
qed

lemma sound_instr: "k \<in> K \<Longrightarrow> sound J K U (rewrite_instr Rewr k)"
proof (rule soundI)
  fix b w T assume k: "k \<in> K" and r: "ready J K U b w T"
  obtain x where x: "instr_heap w k = Some x" "instr_slots (U k) T x" using readyK [OF r k] .
  then obtain d where d: "d \<in> T" "decode x = Some d" "esort d = SortBool"
    by (auto simp: instr_slots_def)
  let ?loop = "bindM (on_world (updated_states k)) (\<lambda>ss. forM ss (rewrite_update Rewr k))"
  have run: "rewrite_instr Rewr k (b, w) =
      thenM (bindM (Rewr (Some d)) (\<lambda>d'. on_world (ForceSetDecode k d'))) ?loop (b, w)"
    unfolding rewrite_instr_def thenM_def bindM_assoc
    by (subst bind_world [where a = x and w' = w]) (simp_all add: x d bindM_lift)
  have head: "\<exists>r b' w' T'. bindM (Rewr (Some d)) (\<lambda>d'. on_world (ForceSetDecode k d')) (b, w)
      = Inr (r, (b', w')) \<and> world_rel R w w' \<and> ready J K U b' w' T'"
    by (rule sound_slot [OF r d(1)]) (rule put_decode [OF x(1) d(2,3)], use k in auto)
  have loop: "sound J K U ?loop"
  proof (rule soundI)
    fix b w T assume r: "ready J K U b w T"
    obtain x where x: "instr_heap w k = Some x" "instr_slots (U k) T x" using readyK [OF r k] .
    then have keys: "set (map fst (updates x)) = U k"
      by (auto simp: instr_slots_def dom_map_of_conv_image_fst)
    have "?loop (b, w) = forM (map fst (updates x)) (rewrite_update Rewr k) (b, w)"
      by (rule bind_world) (simp add: updated_states_def bindM_def the_instr_def x)
    moreover have "sound J K U (forM (map fst (updates x)) (rewrite_update Rewr k))"
      by (rule sound_forM) (use keys k sound_update in blast)
    ultimately show "\<exists>r b' w' T'. ?loop (b, w) = Inr (r, (b', w')) \<and> world_rel R w w' \<and> ready J K U b' w' T'"
      using r unfolding sound_def by metis
  qed
  obtain r1 b1 w1 T1 where 1: "bindM (Rewr (Some d)) (\<lambda>d'. on_world (ForceSetDecode k d')) (b, w)
      = Inr (r1, (b1, w1))" "world_rel R w w1" "ready J K U b1 w1 T1" using head by blast
  obtain r2 b2 w2 T2 where 2: "?loop (b1, w1) = Inr (r2, (b2, w2))" "world_rel R w1 w2" "ready J K U b2 w2 T2"
    using soundE [OF loop 1(3)] .
  have "rewrite_instr Rewr k (b, w) = Inr (r2, (b2, w2))"
    unfolding run by (rule trans [OF thenM_run]) (rule 1(1), rule 2(1))
  then show "\<exists>r b' w' T'. rewrite_instr Rewr k (b, w) = Inr (r, (b', w')) \<and> world_rel R w w' \<and> ready J K U b' w' T'"
    using 2(3) world_rel_trans [OF 1(2) 2(2)] by blast
qed

lemma put_cond:
  assumes m: "ila_heap w j = Some m" "j \<in> J"
    and h: "same_heaps w w1" "tree_slots J K U T1 w1"
    and e': "R e e'" "e' \<in> T1"
  shows "valid m = Some e \<Longrightarrow> esort e = SortBool \<Longrightarrow>
      \<exists>w2. ForceSetValid j (Some e') w1 = Inr ((), w2) \<and> counter w2 = counter w1
        \<and> world_rel R w1 w2 \<and> tree_slots J K U T1 w2"
    "fetch m = Some e \<Longrightarrow> is_bv (esort e) 0 \<Longrightarrow>
      \<exists>w2. ForceSetFetch j (Some e') w1 = Inr ((), w2) \<and> counter w2 = counter w1
        \<and> world_rel R w1 w2 \<and> tree_slots J K U T1 w2"
proof -
  have m1: "ila_heap w1 j = Some m" using m(1) h(1) by (simp add: same_heaps_def)
  then have slots: "ila_slots T1 m" using h(2) m(2) by (auto simp: tree_slots_def)
  have srt: "esort e' = esort e" using e'(1) by (simp add: R_sort)
  show "\<exists>w2. ForceSetValid j (Some e') w1 = Inr ((), w2) \<and> counter w2 = counter w1
        \<and> world_rel R w1 w2 \<and> tree_slots J K U T1 w2" if "valid m = Some e" "esort e = SortBool"
  proof -
    let ?n = "m\<lparr>valid := Some e'\<rparr>"
    have "ila_slots T1 ?n" "ila_rel R m ?n"
      using slots srt that e' by (auto simp: ila_slots_def ila_rel_def R_self)
    then show ?thesis
      using m1 h(2) srt that world_rel_ila [OF m1] tree_slots_ila [OF h(2) m1]
      by (intro exI [of _ "w1\<lparr>ila_heap := (ila_heap w1)(j \<mapsto> ?n)\<rparr>"])
         (simp add: ForceSetValid_def upd_ila_def bindM_def thenM_def Unify_def)
  qed
  show "\<exists>w2. ForceSetFetch j (Some e') w1 = Inr ((), w2) \<and> counter w2 = counter w1
        \<and> world_rel R w1 w2 \<and> tree_slots J K U T1 w2" if "fetch m = Some e" "is_bv (esort e) 0"
  proof -
    let ?n = "m\<lparr>fetch := Some e'\<rparr>"
    have "ila_slots T1 ?n" "ila_rel R m ?n"
      using slots srt that e' by (auto simp: ila_slots_def ila_rel_def R_self)
    then show ?thesis
      using m1 h(2) srt that world_rel_ila [OF m1] tree_slots_ila [OF h(2) m1]
      by (intro exI [of _ "w1\<lparr>ila_heap := (ila_heap w1)(j \<mapsto> ?n)\<rparr>"])
         (simp add: ForceSetFetch_def upd_ila_def bindM_def thenM_def Unify_def)
  qed
qed

lemma sound_cond:
  assumes j: "j \<in> J"
    and slot: "\<And>m e T. ila_slots T m \<Longrightarrow> get m = Some e \<Longrightarrow> e \<in> T"
    and put: "\<And>w w1 T T1 m e e'. ila_heap w j = Some m \<Longrightarrow> ila_slots T m \<Longrightarrow> get m = Some e \<Longrightarrow>
      same_heaps w w1 \<Longrightarrow> tree_slots J K U T1 w1 \<Longrightarrow> R e e' \<Longrightarrow> e' \<in> T1 \<Longrightarrow>
      \<exists>w2. put (Some e') w1 = Inr ((), w2) \<and> counter w2 = counter w1
        \<and> world_rel R w1 w2 \<and> tree_slots J K U T1 w2"
  shows "sound J K U (bindM (on_world (the_ila j)) (\<lambda>m. case get m of None \<Rightarrow> ret ()
      | Some v \<Rightarrow> bindM (Rewr (Some v)) (\<lambda>v'. on_world (put v'))))" (is "sound J K U ?m")
proof (rule soundI)
  fix b w T assume r: "ready J K U b w T"
  obtain m where m: "ila_heap w j = Some m" "ila_slots T m" by (rule readyJ [OF r j])
  let ?k = "\<lambda>m. case get m of None \<Rightarrow> ret ()
      | Some v \<Rightarrow> bindM (Rewr (Some v)) (\<lambda>v'. on_world (put v'))"
  have "the_ila j w = Inr (m, w)" using m(1) by simp
  then have run: "?m (b, w) = ?k m (b, w)" by (rule bind_world [where f = ?k])
  show "\<exists>r b' w' T'. ?m (b, w) = Inr (r, (b', w')) \<and> world_rel R w w' \<and> ready J K U b' w' T'"
  proof (cases "get m")
    case None
    have "?m (b, w) = Inr ((), (b, w))" unfolding run None by simp
    moreover have "world_rel R w w" by (rule world_rel_refl) simp
    ultimately show ?thesis using r by blast
  next
    case (Some v)
    show ?thesis
      unfolding run Some option.case
      apply (rule sound_slot [where put = put, OF r slot [OF m(2) Some]])
      apply (rule put [OF m Some]; assumption)
      done
  qed
qed

lemma sound_valid:
  "j \<in> J \<Longrightarrow> sound J K U (bindM (on_world (the_ila j)) (\<lambda>m. case valid m of None \<Rightarrow> ret ()
      | Some v \<Rightarrow> bindM (Rewr (Some v)) (\<lambda>v'. on_world (ForceSetValid j v'))))"
  by (rule sound_cond) (auto simp: ila_slots_def intro: put_cond(1))

lemma sound_fetch:
  "j \<in> J \<Longrightarrow> sound J K U (bindM (on_world (the_ila j)) (\<lambda>m. case fetch m of None \<Rightarrow> ret ()
      | Some v \<Rightarrow> bindM (Rewr (Some v)) (\<lambda>v'. on_world (ForceSetFetch j v'))))"
  by (rule sound_cond) (auto simp: ila_slots_def intro: put_cond(2))

lemma world_rel_lists:
  assumes "world_rel R w w'" "ila_heap w j = Some m"
  obtains m' where "ila_heap w' j = Some m'" "instrs m' = instrs m" "childs m' = childs m"
proof -
  have "rel_option (ila_rel R) (ila_heap w j) (ila_heap w' j)" using assms(1) by (simp add: world_rel_def)
  then obtain m' where m': "ila_heap w' j = Some m'" "ila_rel R m m'" using assms(2) by (auto simp: option_rel_Some1)
  then have "m'\<lparr>fetch := None, valid := None\<rparr> = m\<lparr>fetch := None, valid := None\<rparr>" by (simp add: ila_rel_def)
  then have "instrs m' = instrs m" "childs m' = childs m" by (cases m; cases m'; simp)+
  with m' that show thesis by blast
qed

lemma sound_fuel:
  assumes C: "\<forall>j\<in>J. j \<le> C"
  shows "i \<in> J \<Longrightarrow> C < i + n \<Longrightarrow> sound J K U (RewriteGeneric_fuel n Rewr i)"
proof (induction n arbitrary: i)
  case 0
  then show ?case using C by auto
next
  case (Suc n)
  let ?kids = "\<lambda>m. thenM (forM (vec (childs m)) (\<lambda>c. bindM (RewriteGeneric_fuel n Rewr c) (\<lambda>_. ret ()))) (ret True)"
  let ?rest = "\<lambda>m. thenM (forM (vec (instrs m)) (rewrite_instr Rewr)) (?kids m)"
  let ?f = "\<lambda>m. case fetch m of None \<Rightarrow> ret ()
      | Some v \<Rightarrow> bindM (Rewr (Some v)) (\<lambda>v'. on_world (ForceSetFetch i v'))"
  have split: "RewriteGeneric_fuel (Suc n) Rewr i =
      thenM (bindM (on_world (the_ila i)) (\<lambda>m. case valid m of None \<Rightarrow> ret ()
        | Some v \<Rightarrow> bindM (Rewr (Some v)) (\<lambda>v'. on_world (ForceSetValid i v'))))
        (bindM (on_world (the_ila i)) (\<lambda>m. thenM (?f m) (?rest m)))"
    by (simp add: thenM_def bindM_assoc)
  have "sound J K U (bindM (on_world (the_ila i)) (\<lambda>m. thenM (?f m) (?rest m)))"
  proof (rule soundI)
    fix b w T assume r: "ready J K U b w T"
    obtain m where m: "ila_heap w i = Some m" "set (vec (instrs m)) \<subseteq> K"
      "\<forall>c\<in>set (vec (childs m)). c \<in> J \<and> i < c" by (rule readyJ [OF r Suc.prems(1)])
    have the: "the_ila i w = Inr (m, w)" using m(1) by simp
    have f: "bindM (on_world (the_ila i)) ?f (b, w) = ?f m (b, w)"
      by (rule bind_world [where f = ?f]) (rule the)
    obtain r1 b1 w1 T1 where 1: "?f m (b, w) = Inr (r1, (b1, w1))" "world_rel R w w1" "ready J K U b1 w1 T1"
      using soundE [OF sound_fetch [OF Suc.prems(1)] r] unfolding f by blast
    have "sound J K U (RewriteGeneric_fuel n Rewr c)" if "c \<in> set (vec (childs m))" for c
      by (rule Suc.IH) (use m(3) that Suc.prems(2) in auto)
    then have "sound J K U (?rest m)"
      using m(2) by (intro sound_then sound_forM sound_bind sound_ret sound_instr) auto
    from soundE [OF this 1(3)]
    obtain r2 b2 w2 T2 where 2: "?rest m (b1, w1) = Inr (r2, (b2, w2))" "world_rel R w1 w2" "ready J K U b2 w2 T2" .
    have "bindM (on_world (the_ila i)) (\<lambda>m. thenM (?f m) (?rest m)) (b, w) = thenM (?f m) (?rest m) (b, w)"
      by (rule bind_world [where f = "\<lambda>m. thenM (?f m) (?rest m)"]) (rule the)
    also have "\<dots> = Inr (r2, (b2, w2))"
      by (rule trans [OF thenM_run]) (rule 1(1), rule 2(1))
    finally show "\<exists>r b' w' T'. bindM (on_world (the_ila i)) (\<lambda>m. thenM (?f m) (?rest m)) (b, w)
        = Inr (r, (b', w')) \<and> world_rel R w w' \<and> ready J K U b' w' T'"
      using 2(3) world_rel_trans [OF 1(2) 2(2)] by blast
  qed
  then show ?case unfolding split by (rule sound_then [OF sound_valid [OF Suc.prems(1)]])
qed

lemma RewriteGeneric_True:
  "RewriteGeneric_fuel n Rewr i s = Inr (r, s') \<Longrightarrow> r"
  by (cases n) (auto simp: bindM_Inr_iff thenM_Inr_iff)

end

lemma ila_order_closed:
  assumes ok: "world_ok w"
  shows "counter w < i + n \<Longrightarrow> j \<in> set (ila_order n w i) \<Longrightarrow> c \<in> set (child_ids w j) \<Longrightarrow>
    c \<in> set (ila_order n w i)"
proof (induction n arbitrary: i)
  case 0
  then show ?case by simp
next
  case (Suc n)
  have kid: "counter w < d + n" "d \<le> counter w" if d: "d \<in> set (child_ids w i)" for d
  proof -
    obtain m x where x: "ila_heap w d = Some x" "i < d" by (rule child_of [OF ok d])
    show "d \<le> counter w" using world_okD(1) [OF ok x(1)] by (simp add: ila_at_def)
    show "counter w < d + n" using x(2) Suc.prems(1) by simp
  qed
  show ?case
  proof (cases "j = i")
    case True
    then have "0 < n" "c \<in> set (child_ids w i)" using Suc.prems(3) kid [of c] by auto
    then have "c \<in> set (ila_order n w c)" by (cases n) auto
    with \<open>c \<in> set (child_ids w i)\<close> show ?thesis by auto
  next
    case False
    then obtain d where "d \<in> set (child_ids w i)" "j \<in> set (ila_order n w d)"
      using Suc.prems(2) by auto
    then have "c \<in> set (ila_order n w d)" using Suc.IH [of d] kid Suc.prems(3) by blast
    with \<open>d \<in> set (child_ids w i)\<close> show ?thesis by auto
  qed
qed

subsection \<open>The passes\<close>

text \<open>The expressions of the hierarchy are nodes of \<open>T\<close>: its instructions have decodes, and no
  update is null.\<close>

definition pass_ready :: "expr set \<Rightarrow> world \<Rightarrow> nat \<Rightarrow> bool" where
  "pass_ready T w i \<longleftrightarrow> node_heap T w \<and> (\<forall>x\<in>T. passable x)
     \<and> (\<forall>j\<in>set (ila_tree w i). \<forall>m. ila_heap w j = Some m \<longrightarrow>
          set_option (fetch m) \<union> set_option (valid m) \<subseteq> T
          \<and> (\<forall>k\<in>set (vec (instrs m)). \<forall>x. instr_heap w k = Some x \<longrightarrow>
               (\<exists>d\<in>T. decode x = Some d)
               \<and> (\<forall>n u. map_of (updates x) n = Some u \<longrightarrow> (\<exists>e\<in>T. u = Some e))))"

definition tree_instrs :: "world \<Rightarrow> nat \<Rightarrow> nat set" where
  "tree_instrs w i = (\<Union>j\<in>set (ila_tree w i). set (vec (instrs (the (ila_heap w j)))))"

lemma instr_of:
  assumes ok: "world_ok w" and m: "ila_heap w j = Some m" and k: "k \<in> set (vec (instrs m))"
  obtains x where "instr_heap w k = Some x" "i_host x = Some j"
proof -
  have at: "ila_at w j m" by (rule world_okD(1) [OF ok m])
  then obtain n where "kv_find (instrs m) n = Some k"
    using k kv_find_ex_of_vec [of "instrs m" k] by (auto simp: ila_at_def ila_local_def)
  with at that show thesis unfolding ila_at_def find_instr_def by blast
qed

lemma pass_ready_slots:
  assumes ok: "world_ok w" and i: "i \<in> dom (ila_heap w)" and p: "pass_ready T w i"
  shows "tree_slots (set (ila_tree w i)) (tree_instrs w i)
    (\<lambda>k. dom (map_of (updates (the (instr_heap w k))))) T w"
  unfolding tree_slots_def
proof (intro conjI ballI)
  fix j assume j: "j \<in> set (ila_tree w i)"
  then obtain m where m: "ila_heap w j = Some m" using ila_order_dom [OF ok i] by blast
  have "c \<in> set (ila_tree w i) \<and> j < c" if "c \<in> set (vec (childs m))" for c
  proof -
    have c: "c \<in> set (child_ids w j)" using that m by (simp add: child_ids_def)
    have "c \<in> set (ila_tree w i)" by (rule ila_order_closed [OF ok _ j c]) simp
    moreover have "j < c" using c child_of [OF ok c] by blast
    ultimately show ?thesis by blast
  qed
  moreover have "ila_slots T m"
  proof -
    have "set_option (fetch m) \<union> set_option (valid m) \<subseteq> T"
      using p j m unfolding pass_ready_def by blast
    moreover have "pred_option (\<lambda>e. is_bv (esort e) 0) (fetch m)" "pred_option (\<lambda>e. esort e = SortBool) (valid m)"
      using ila_local_of [OF ok m] by (simp_all add: ila_local_def)
    ultimately show ?thesis by (auto simp: ila_slots_def)
  qed
  moreover have "set (vec (instrs m)) \<subseteq> tree_instrs w i" using j m by (force simp: tree_instrs_def)
  ultimately show "\<exists>m. ila_heap w j = Some m \<and> ila_slots T m \<and> set (vec (instrs m)) \<subseteq> tree_instrs w i
      \<and> (\<forall>c\<in>set (vec (childs m)). c \<in> set (ila_tree w i) \<and> j < c)" using m by blast
next
  fix k assume "k \<in> tree_instrs w i"
  then obtain j where "j \<in> set (ila_tree w i)" "k \<in> set (vec (instrs (the (ila_heap w j))))"
    unfolding tree_instrs_def by blast
  moreover from this(1) have "j \<in> dom (ila_heap w)" using ila_order_dom [OF ok i] by blast
  ultimately obtain m where j: "j \<in> set (ila_tree w i)" "ila_heap w j = Some m" "k \<in> set (vec (instrs m))"
    by auto
  obtain x where x: "instr_heap w k = Some x" by (rule instr_of [OF ok j(2,3)])
  have "(\<exists>d\<in>T. decode x = Some d) \<and> (\<forall>n u. map_of (updates x) n = Some u \<longrightarrow> (\<exists>e\<in>T. u = Some e))"
    using p j x unfolding pass_ready_def by blast
  moreover have "pred_option (\<lambda>e. esort e = SortBool) (decode x)" "omap_ok str_less (updates x)"
    using instr_local_of [OF ok x] by (simp_all add: instr_local_def)
  ultimately have "instr_slots (dom (map_of (updates x))) T x"
    by (auto simp: instr_slots_def)
  then show "\<exists>x. instr_heap w k = Some x \<and> instr_slots (dom (map_of (updates (the (instr_heap w k))))) T x"
    using x by simp
qed

context expr_pass
begin

lemma run_pass_same:
  assumes ok: "world_ok w" and i: "i \<in> dom (ila_heap w)" and p: "pass_ready T w i" and b: "inv b w T"
  shows "\<exists>w'. run_pass Rewr b i w = Inr (True, w') \<and> world_rel R w w'"
proof -
  let ?J = "set (ila_tree w i)" and ?U = "\<lambda>k. dom (map_of (updates (the (instr_heap w k))))"
  have J: "\<forall>j\<in>?J. j \<le> counter w"
  proof
    fix j assume "j \<in> ?J"
    then obtain m where "ila_heap w j = Some m" using ila_order_dom [OF ok i] by blast
    then show "j \<le> counter w" using world_okD(1) [OF ok] by (auto simp: ila_at_def)
  qed
  have s: "sound ?J (tree_instrs w i) ?U (RewriteGeneric_fuel (Suc (counter w)) Rewr i)"
    by (rule sound_fuel [OF J]) auto
  have "ready ?J (tree_instrs w i) ?U b w T"
    unfolding ready_def using b pass_ready_slots [OF ok i p] by simp
  then obtain r b' w' T' where "RewriteGeneric_fuel (Suc (counter w)) Rewr i (b, w) = Inr (r, (b', w'))"
    "world_rel R w w'" using soundE [OF s] by blast
  moreover from this(1) have r by (rule RewriteGeneric_True)
  ultimately show ?thesis by (simp add: run_pass_def RewriteGeneric_def)
qed

end

text \<open>The table of the pass: it maps nodes in existence to related ones.\<close>

definition table_rel :: "(expr \<Rightarrow> expr \<Rightarrow> bool) \<Rightarrow> expr_map \<Rightarrow> world \<Rightarrow> expr set \<Rightarrow> bool" where
  "table_rel R rule w T \<longleftrightarrow> node_heap T w \<and> (\<forall>x\<in>T. passable x) \<and> mapped (kept R) T T rule
     \<and> dom rule \<subseteq> eid ` T"

lemma table_rel_empty: "pass_ready T w i \<Longrightarrow> table_rel R Map.empty w T"
  by (simp add: table_rel_def pass_ready_def mapped_def)

lemma table_rel_counter: "table_rel R rule w T \<Longrightarrow> counter w' = counter w \<Longrightarrow> table_rel R rule w' T"
  unfolding table_rel_def using node_heap_counter [of T w w'] by auto

lemma passable_heap:
  assumes "node_heap T w" shows "node_heap {x\<in>T. passable x} w"
  using assms passable_args unfolding node_heap_def dag_def by (auto intro: inj_on_subset)

locale expr_rewriter = expr_rel R + rewriting rw passable "kept R" for R rw
begin

lemma R_kept: "passable e \<Longrightarrow> kept R e e"
  by (simp add: kept_def R_refl)

lemma visit_sound:
  assumes t: "table_rel R rule w T" and e: "e \<in> T"
  shows "\<exists>e' rule' w' T'. rewr_visit rw e (rule, w) = Inr ((), (rule', w'))
    \<and> rewr_get rule' e = Inr (Some e') \<and> R e e' \<and> e' \<in> T' \<and> T \<subseteq> T' \<and> table_rel R rule' w' T'
    \<and> same_heaps w w'"
proof -
  have T: "node_heap T w" "\<forall>x\<in>T. passable x" "mapped (kept R) T T rule" "dom rule \<subseteq> eid ` T" "dag T"
    using t by (auto simp: table_rel_def node_heap_def)
  have sub: "subexprs e \<subseteq> T" by (rule dag_subexprs [OF T(5) e])
  have leaves: "\<forall>x\<in>subexprs e. \<not> is_op x \<longrightarrow> rule (eid x) = None \<longrightarrow> kept R x x"
    using sub T(2) by (auto intro: R_kept)
  from visit_get [OF T(5,2) e T(3,1) subset_refl leaves]
  obtain rule' w' T1 e' where v: "rewr_visit rw e (rule, w) = Inr ((), (rule', w'))"
    "rewr_get rule' e = Inr (Some e')" "kept R e e'" "e' \<in> T1" "same_heaps w w'"
    "mapped (kept R) T T1 rule'" "dom rule' \<subseteq> dom rule \<union> eid ` subexprs e" "T \<subseteq> T1" "node_heap T1 w'"
    by (elim exE conjE) (rule that)
  let ?T = "{x\<in>T1. passable x}"
  have dom: "dom rule' \<subseteq> eid ` T" using v(7) T(4) sub by blast
  have "mapped (kept R) ?T ?T rule'"
    unfolding mapped_def
  proof (intro ballI allI impI)
    fix x d assume x: "x \<in> ?T" "rule' (eid x) = Some d"
    then have "eid x \<in> eid ` T" using dom by (blast intro: domI)
    then obtain y where y: "y \<in> T" "eid y = eid x" by (metis imageE)
    moreover have "y \<in> T1" "x \<in> T1" using y(1) v(8) x(1) by blast+
    ultimately have "x \<in> T" using node_heap_inj [OF v(9)] by blast
    from mappedD [OF v(6) this x(2)] obtain x' where "d = Some x'" "kept R x x'" "x' \<in> T1" by blast
    then show "\<exists>x'. d = Some x' \<and> kept R x x' \<and> x' \<in> ?T" by (simp add: kept_def)
  qed
  moreover have "T \<subseteq> ?T" using v(8) T(2) by blast
  ultimately have "table_rel R rule' w' ?T"
    unfolding table_rel_def using passable_heap [OF v(9)] dom by blast
  moreover have "e' \<in> ?T" "R e e'" using v(3,4) by (auto simp: kept_def)
  ultimately show ?thesis using v(1,2,5) \<open>T \<subseteq> ?T\<close>
    by (intro exI [of _ e'] exI [of _ rule'] exI [of _ w'] exI [of _ ?T] conjI)
qed

end

interpretation condstore_values: expr_rewriter same_value CondStore_RewriteOp ..

lemma Rewr_CondStore_run:
  "rewr_visit CondStore_RewriteOp e (rule, w) = Inr ((), (rule', w')) \<Longrightarrow> rewr_get rule' e = Inr r \<Longrightarrow>
     Rewr_CondStore (Some e) (rule, w) = Inr (r, (rule', w'))"
  by (simp add: Rewr_CondStore_def bindM_lift)

interpretation condstore_pass: expr_pass same_value Rewr_CondStore "table_rel same_value"
proof unfold_locales
  fix b w T e assume "table_rel same_value b w T" "e \<in> T"
  from condstore_values.visit_sound [OF this]
  show "\<exists>e' b' w' T'. Rewr_CondStore (Some e) (b, w) = Inr (Some e', (b', w'))
      \<and> same_value e e' \<and> e' \<in> T' \<and> T \<subseteq> T' \<and> table_rel same_value b' w' T' \<and> same_heaps w w'"
    using Rewr_CondStore_run by blast
qed (rule table_rel_counter)

lemma CondStore_same:
  "world_ok w \<Longrightarrow> i \<in> dom (ila_heap w) \<Longrightarrow> pass_ready T w i \<Longrightarrow>
   \<exists>w'. RewriteConditionalStore i w = Inr (True, w') \<and> world_same w w'"
  unfolding RewriteConditionalStore_def
  by (rule condstore_pass.run_pass_same) (auto intro: table_rel_empty)

end
