(* ===== verification/Str_Loops.thy ===== *)
theory Str_Loops
  imports Str_Util
begin

text \<open>
  The search loops of \<^verbatim>\<open>str_util.cc\<close>: when \<^verbatim>\<open>Split\<close> and \<^verbatim>\<open>ReplaceAll\<close> return, and that
  they then return what a left-to-right scan of the string produces.
\<close>

subsection \<open>Reference scans\<close>

lemma starts_with_length: "starts_with a s \<Longrightarrow> length a \<le> length s"
  by (induction a s rule: starts_with.induct) auto

lemma drop_shrinks: "a \<noteq> [] \<Longrightarrow> length a \<le> length s \<Longrightarrow> length s - length a < length s"
  by (cases a) auto

text \<open>Replace at the first position where \<open>a\<close> occurs, and continue after the occurrence.\<close>

function replace_ref :: "string \<Rightarrow> string \<Rightarrow> string \<Rightarrow> string" where
  "replace_ref a b s =
     (if a \<noteq> [] \<and> starts_with a s then b @ replace_ref a b (drop (length a) s)
      else case s of [] \<Rightarrow> [] | c # cs \<Rightarrow> c # replace_ref a b cs)"
  by auto

termination
  by (relation "measure (\<lambda>(a, b, s). length s)")
     (auto dest!: starts_with_length intro: drop_shrinks)

declare replace_ref.simps [simp del]

text \<open>The non-empty pieces between occurrences of the delimiter; \<open>w\<close> is the piece being
  read.\<close>

function split_ref :: "string \<Rightarrow> string \<Rightarrow> string \<Rightarrow> string list" where
  "split_ref d w s =
     (if d \<noteq> [] \<and> starts_with d s
      then (if w = [] then [] else [w]) @ split_ref d [] (drop (length d) s)
      else case s of
        [] \<Rightarrow> (if w = [] then [] else [w])
      | c # cs \<Rightarrow> split_ref d (w @ [c]) cs)"
  by auto

termination
  by (relation "measure (\<lambda>(d, w, s). length s)")
     (auto dest!: starts_with_length intro: drop_shrinks)

declare split_ref.simps [simp del]

subsection \<open>Searching\<close>

lemma starts_with_Nil [simp]: "starts_with a [] \<longleftrightarrow> a = []"
  by (cases a) simp_all

lemma find_in_Some:
  "find_in a s = Some p \<Longrightarrow> starts_with a (drop p s) \<and> p + length a \<le> length s"
proof (induction a s arbitrary: p rule: find_in.induct)
  case (2 a c cs)
  then show ?case by (auto split: if_splits dest: starts_with_length)
qed (auto split: if_splits)

lemma replace_ref_find:
  assumes "a \<noteq> []"
  shows "replace_ref a b s = (case find_in a s of None \<Rightarrow> s
    | Some p \<Rightarrow> take p s @ b @ replace_ref a b (drop (p + length a) s))"
proof (induction s)
  case Nil
  then show ?case using assms by (simp add: replace_ref.simps [of a b "[]"])
next
  case (Cons c cs)
  then show ?case using assms
    by (auto simp: replace_ref.simps [of a b "c # cs"] split: option.splits)
qed

lemma split_ref_find:
  assumes "d \<noteq> []"
  shows "split_ref d w s = (case find_in d s of
      None \<Rightarrow> (if w @ s = [] then [] else [w @ s])
    | Some p \<Rightarrow> (if w @ take p s = [] then [] else [w @ take p s]) @ split_ref d [] (drop (p + length d) s))"
proof (induction s arbitrary: w)
  case Nil
  then show ?case using assms by (simp add: split_ref.simps [of d w "[]"])
next
  case (Cons c cs)
  then show ?case using assms
    by (auto simp: split_ref.simps [of d w "c # cs"] split: option.splits)
qed

lemma str_find_drop:
  "from \<le> length s \<Longrightarrow> str_find s a from = map_option (\<lambda>i. from + i) (find_in a (drop from s))"
  by (simp add: str_find_def)

lemma find_in_empty [simp]: "find_in [] s = Some 0"
  by (cases s) simp_all

subsection \<open>Replacing\<close>

lemma replace_loop_ref:
  assumes "a \<noteq> []"
  shows "from \<le> length s \<Longrightarrow> replace_loop s a b from r = Some (r @ replace_ref a b (drop from s))"
proof (induction "length s - from" arbitrary: "from" r rule: less_induct)
  case less
  show ?case
  proof (cases "find_in a (drop from s)")
    case None
    then show ?thesis using less.prems assms
      by (simp add: replace_loop.simps [of s a b "from" r] str_find_drop replace_ref_find [of a b "drop from s"])
  next
    case (Some p)
    have p: "p + length a \<le> length s - from" using find_in_Some [OF Some] less.prems by simp
    let ?from = "from + p + length a"
    have step: "length s - ?from < length s - from" "?from \<le> length s" using p assms less.prems
      by (cases a; simp)+
    have "replace_loop s a b from r = replace_loop s a b ?from (r @ take p (drop from s) @ b)"
      using Some less.prems by (simp add: replace_loop.simps [of s a b "from" r] str_find_drop)
    also have "\<dots> = Some ((r @ take p (drop from s) @ b) @ replace_ref a b (drop ?from s))"
      by (rule less.hyps [OF step])
    finally show ?thesis
      using Some assms by (simp add: replace_ref_find [of a b "drop from s"] add.commute add.left_commute)
  qed
qed

lemma replace_loop_returns:
  assumes "replace_loop s a b from r = Some y"
  shows "a = [] \<longrightarrow> \<not> from \<le> length s"
proof (rule replace_loop.raw_induct [OF _ assms])
  fix f s a b "from" r y
  assume IH: "\<And>s a b from r y. f s a b from r = Some y \<Longrightarrow> a = [] \<longrightarrow> \<not> from \<le> length s"
    and body: "(case str_find s a from of
        Some pos \<Rightarrow> f s a b (pos + length a) (r @ take (pos - from) (drop from s) @ b)
      | None \<Rightarrow> Some (r @ drop from s)) = Some y"
  show "a = [] \<longrightarrow> \<not> from \<le> length s"
    using body by (auto simp: str_find_drop dest: IH)
qed

lemma replace_loop_empty: "from \<le> length s \<Longrightarrow> replace_loop s [] b from r = None"
  using replace_loop_returns [of s "[]" b "from" r] by (cases "replace_loop s [] b from r") auto

lemma ReplaceAll_ref: "a \<noteq> [] \<Longrightarrow> ReplaceAll s a b = Some (replace_ref a b s)"
  by (simp add: ReplaceAll_def replace_loop_ref)

lemma ReplaceAll_empty: "ReplaceAll s [] b = None"
  by (simp add: ReplaceAll_def replace_loop_empty)

subsection \<open>Splitting\<close>

lemma split_loop_ref:
  assumes "d \<noteq> []"
  shows "from \<le> length s \<Longrightarrow> from < length s \<or> from = 0 \<Longrightarrow>
    split_loop s d from ts = Some (ts @ split_ref d [] (drop from s))"
proof (induction "length s - from" arbitrary: "from" ts rule: less_induct)
  case less
  show ?case
  proof (cases "find_in d (drop from s)")
    case None
    then show ?thesis using less.prems assms
      by (auto simp: split_loop.simps [of s d "from" ts] str_find_drop Let_def
          split_ref_find [of d "[]" "drop from s"])
  next
    case (Some p)
    have p: "p + length d \<le> length s - from" using find_in_Some [OF Some] less.prems by simp
    let ?from = "from + p + length d"
    let ?ts = "if take p (drop from s) \<noteq> [] then ts @ [take p (drop from s)] else ts"
    have step: "length s - ?from < length s - from" "?from \<le> length s" "from + p < length s"
      using p assms less.prems by (cases d; simp)+
    have run: "split_loop s d from ts = (if ?from < length s then split_loop s d ?from ?ts else Some ?ts)"
      using Some less.prems step(3)
      by (simp add: split_loop.simps [of s d "from" ts] str_find_drop Let_def)
    have "split_loop s d ?from ?ts = Some (?ts @ split_ref d [] (drop ?from s))" if "?from < length s"
      by (rule less.hyps [OF step(1,2)]) (use that in simp)
    moreover have "split_ref d [] (drop ?from s) = []" if "\<not> ?from < length s"
      using that assms by (simp add: split_ref.simps [of d "[]" "[]"])
    ultimately show ?thesis
      unfolding run using Some assms
      by (simp add: split_ref_find [of d "[]" "drop from s"] add.commute add.left_commute)
  qed
qed

lemma split_loop_returns:
  assumes "split_loop s d from ts = Some y"
  shows "d = [] \<longrightarrow> \<not> from < length s"
proof (rule split_loop.raw_induct [OF _ assms])
  fix f s d "from" ts y
  assume IH: "\<And>s d from ts y. f s d from ts = Some y \<Longrightarrow> d = [] \<longrightarrow> \<not> from < length s"
    and body: "(let pos = (case str_find s d from of None \<Rightarrow> length s | Some p \<Rightarrow> p);
          token = take (pos - from) (drop from s);
          tokens' = (if token \<noteq> [] then ts @ [token] else ts);
          prev' = pos + length d
      in if pos < length s \<and> prev' < length s then f s d prev' tokens' else Some tokens') = Some y"
  show "d = [] \<longrightarrow> \<not> from < length s"
    using body by (auto simp: str_find_drop Let_def split: if_splits dest: IH)
qed

lemma split_loop_empty: "from < length s \<Longrightarrow> split_loop s [] from ts = None"
  using split_loop_returns [of s "[]" "from" ts] by (cases "split_loop s [] from ts") auto

lemma Split_ref: "d \<noteq> [] \<Longrightarrow> Split s d = Some (split_ref d [] s)"
  by (simp add: Split_def split_loop_ref)

lemma Split_empty: "Split s [] = (if s = [] then Some [] else None)"
  by (simp add: Split_def split_loop_empty) (simp add: split_loop.simps str_find_def)

text \<open>Joining puts the delimiter between the pieces.\<close>

lemma join_loop_concat: "join_loop ss d e r = r @ concat (map (\<lambda>s. e @ s) ss)" if "d = e"
  using that by (induction ss arbitrary: d r) auto

lemma Join_Cons: "Join (s # ss) e = s @ concat (map (\<lambda>s. e @ s) ss)"
  by (simp add: Join_def join_loop_concat)

text \<open>Splitting what was joined returns the pieces: for a delimiter of one character that
  does not occur in them.\<close>

lemma split_ref_piece:
  assumes "c \<notin> set s"
  shows "split_ref [c] w (s @ t) = split_ref [c] (w @ s) t"
  using assms
proof (induction s arbitrary: w)
  case (Cons x s)
  then show ?case by (simp add: split_ref.simps [of _ w "x # s @ t"])
qed simp

lemma split_ref_delim:
  "split_ref [c] w (c # t) = (if w = [] then [] else [w]) @ split_ref [c] [] t"
  by (simp add: split_ref.simps [of _ w "c # t"])

lemma split_ref_rest:
  assumes "\<forall>s\<in>set ss. s \<noteq> [] \<and> c \<notin> set s" "w \<noteq> []"
  shows "split_ref [c] w (concat (map (\<lambda>s. [c] @ s) ss)) = w # ss"
  using assms
proof (induction ss arbitrary: w)
  case Nil
  then show ?case by (simp add: split_ref.simps [of _ w "[]"])
next
  case (Cons s ss)
  have "split_ref [c] w (concat (map (\<lambda>s. [c] @ s) (s # ss)))
      = w # split_ref [c] [] (s @ concat (map (\<lambda>s. [c] @ s) ss))"
    using Cons.prems(2) by (simp add: split_ref_delim)
  also have "\<dots> = w # split_ref [c] s (concat (map (\<lambda>s. [c] @ s) ss))"
    using Cons.prems(1) by (simp add: split_ref_piece)
  also have "\<dots> = w # s # ss" using Cons by simp
  finally show ?case .
qed

lemma Split_Join:
  assumes "\<forall>s\<in>set ss. s \<noteq> [] \<and> c \<notin> set s"
  shows "Split (Join ss [c]) [c] = Some ss"
proof (cases ss)
  case Nil
  then show ?thesis by (simp add: Split_ref Join_def split_ref.simps [of _ "[]" "[]"])
next
  case (Cons s ts)
  then have "split_ref [c] [] (Join ss [c]) = s # ts"
    using assms by (simp only: Join_Cons) (simp add: split_ref_piece split_ref_rest [simplified])
  then show ?thesis using Cons by (simp add: Split_ref)
qed

end
