(* ===== verification/Demo.thy ===== *)
theory Demo
  imports Pass_Values Str_Loops
begin

text \<open>
  A small hierarchy, built through the interface: an ILA with a memory, two bit-vector
  inputs, a flag and one instruction that stores conditionally, and a child with one
  instruction.  The theorems about hierarchies are applied to it.
\<close>

definition demo_build :: "unit W" where
  "demo_build =
     bindM (InstrLvlAbs_New ''m'' None) (\<lambda>m.
     bindM (NewMemState m ''mem'' 8 8) (\<lambda>mem.
     bindM (NewBvInput m ''addr'' 8) (\<lambda>a.
     bindM (NewBvInput m ''data'' 8) (\<lambda>d.
     bindM (NewBoolInput m ''c'') (\<lambda>c.
     thenM (SetValid m (Some c))
    (bindM (NewInstr m ''ST'') (\<lambda>k.
     thenM (set_decode k (Some c))
    (bindM (Store mem a d) (\<lambda>st.
     bindM (Ite c st mem) (\<lambda>upd.
     thenM (set_update k mem (Some upd))
    (bindM (NewChild m ''ch'') (\<lambda>ch.
     bindM (NewBvInput ch ''x'' 8) (\<lambda>x.
     bindM (NewInstr ch ''CI'') (\<lambda>ci.
     thenM (set_decode ci (Some c))
    (bindM (Store mem a x) (\<lambda>st2.
     thenM (set_update ci mem (Some st2)) (ret ())))))))))))))))))"

definition demo :: world where
  "demo = (case demo_build init_world of Inr (_, w) \<Rightarrow> w | Inl _ \<Rightarrow> init_world)"

definition v_mem :: expr where
  "v_mem = ExprVar \<lparr>sym_name = ''mem'', sym_id = 2\<rparr> (SortMem 8 8) (Some 1)"
definition v_addr :: expr where
  "v_addr = ExprVar \<lparr>sym_name = ''addr'', sym_id = 3\<rparr> (SortBv 8) (Some 1)"
definition v_data :: expr where
  "v_data = ExprVar \<lparr>sym_name = ''data'', sym_id = 4\<rparr> (SortBv 8) (Some 1)"
definition v_c :: expr where
  "v_c = ExprVar \<lparr>sym_name = ''c'', sym_id = 5\<rparr> SortBool (Some 1)"
definition v_x :: expr where
  "v_x = ExprVar \<lparr>sym_name = ''x'', sym_id = 10\<rparr> (SortBv 8) (Some 9)"
definition e_store :: expr where
  "e_store = ExprOp \<lparr>sym_name = ''$7'', sym_id = 7\<rparr> kStore (SortMem 8 8) [v_mem, v_addr, v_data] [] None (Some 1)"
definition e_ite :: expr where
  "e_ite = ExprOp \<lparr>sym_name = ''$8'', sym_id = 8\<rparr> kIfThenElse (SortMem 8 8) [v_c, e_store, v_mem] [] None (Some 1)"

lemma demo_counter: "counter demo = 12"
  by code_simp

lemma demo_instr: "instr_heap demo 6 = Some \<lparr>i_sym = \<lparr>sym_name = ''ST'', sym_id = 6\<rparr>,
   decode = Some v_c, updates = [(''mem'', Some e_ite)], i_host = Some 1, prog = None\<rparr>"
  by code_simp

definition e_store2 :: expr where
  "e_store2 = ExprOp \<lparr>sym_name = ''$12'', sym_id = 12\<rparr> kStore (SortMem 8 8) [v_mem, v_addr, v_x] [] None (Some 9)"

lemmas demo_exprs = v_mem_def v_addr_def v_data_def v_c_def v_x_def e_store_def e_ite_def e_store2_def

lemma demo_instr2: "instr_heap demo 11 = Some \<lparr>i_sym = \<lparr>sym_name = ''CI'', sym_id = 11\<rparr>,
   decode = Some v_c, updates = [(''mem'', Some e_store2)], i_host = Some 9, prog = None\<rparr>"
  by code_simp

lemma demo_tree: "ila_tree demo 1 = [9, 1]"
  by code_simp

lemma demo_top: "map_option (\<lambda>m. (fetch m, valid m, vec (instrs m), vec (childs m), vec (states m), vec (inputs m)))
    (ila_heap demo 1) = Some (None, Some v_c, [6], [9], [v_mem], [v_addr, v_data, v_c])"
  by code_simp

lemma demo_child: "map_option (\<lambda>m. (fetch m, valid m, vec (instrs m), vec (childs m), vec (states m), vec (inputs m)))
    (ila_heap demo 9) = Some (None, None, [11], [], [v_mem], [v_addr, v_data, v_c, v_x])"
  by code_simp

lemma demo_built: "demo_build init_world = Inr ((), demo)"
proof -
  have "isl (demo_build init_world) = False" by code_simp
  then show ?thesis by (cases "demo_build init_world") (auto simp: demo_def)
qed

lemma keeps_demo: "keeps demo_build"
proof -
  have new: "keeps (InstrLvlAbs_New n None)" for n
    by (rule keepsI) (auto simp: InstrLvlAbs_New_run intro: world_ok_with_ila heap_ext_with_ila)
  show ?thesis
    unfolding demo_build_def set_update_def
    by (intro keeps_bindM keeps_thenM new keeps_api keeps_simple draws_keeps draws_hub)
qed

lemma demo_ok: "world_ok demo"
  using keepsD [OF keeps_demo world_ok_init demo_built] by simp

definition demo_nodes :: "expr set" where
  "demo_nodes = {v_mem, v_addr, v_data, v_c, v_x, e_store, e_ite, e_store2}"

lemma demo_heap: "node_heap demo_nodes demo"
  unfolding node_heap_def dag_def demo_counter demo_nodes_def
  by (auto simp: demo_exprs inj_on_def)

lemma demo_passable: "x \<in> demo_nodes \<Longrightarrow> passable x"
  unfolding demo_nodes_def
  by (auto simp: demo_exprs smt_op.simps op_shape_def copyable_def)

text \<open>A load from the store, beside the hierarchy.\<close>

definition e_load :: expr where
  "e_load = ExprOp \<lparr>sym_name = ''$13'', sym_id = 13\<rparr> kLoad (SortBv 8) [e_store, v_addr] [] None (Some 1)"

lemma demo_load:
  "passable e_load" "node_heap (insert e_load demo_nodes) (demo\<lparr>counter := 13\<rparr>)"
  "eid e_store = 7" "eid v_addr = 3" "kept same_value e_store e_store" "kept same_value v_addr v_addr"
  "e_store \<in> demo_nodes" "v_addr \<in> demo_nodes"
proof -
  have "passable e_store" "passable v_addr" by (rule demo_passable, simp add: demo_nodes_def)+
  then show "kept same_value e_store e_store" "kept same_value v_addr v_addr" "passable e_load"
    by (simp_all add: kept_def e_load_def) (simp_all add: demo_exprs smt_op.simps op_shape_def copyable_def)
  show "node_heap (insert e_load demo_nodes) (demo\<lparr>counter := 13\<rparr>)"
    unfolding node_heap_def dag_def demo_nodes_def e_load_def
    by (auto simp: demo_exprs inj_on_def)
qed (simp_all add: demo_exprs demo_nodes_def)

lemma demo_at:
  "ila_heap demo 1 = Some m \<Longrightarrow> fetch m = None \<and> valid m = Some v_c \<and> vec (instrs m) = [6]"
  "ila_heap demo 9 = Some m \<Longrightarrow> fetch m = None \<and> valid m = None \<and> vec (instrs m) = [11]"
  using demo_top demo_child by simp_all

lemma demo_ready: "pass_ready demo_nodes demo 1"
proof -
  have mem: "v_c \<in> demo_nodes" "e_ite \<in> demo_nodes" "e_store2 \<in> demo_nodes"
    by (simp_all add: demo_nodes_def)
  have top: "set_option (fetch m) \<union> set_option (valid m) \<subseteq> demo_nodes
      \<and> (\<forall>k\<in>set (vec (instrs m)). \<forall>x. instr_heap demo k = Some x \<longrightarrow>
           (\<exists>d\<in>demo_nodes. decode x = Some d)
           \<and> (\<forall>n u. map_of (updates x) n = Some u \<longrightarrow> (\<exists>e\<in>demo_nodes. u = Some e)))"
    if "j = 9 \<or> j = 1" "ila_heap demo j = Some m" for j m
  proof -
    have "\<exists>k\<in>{6, 11}. vec (instrs m) = [k]" "fetch m = None" "valid m = None \<or> valid m = Some v_c"
      using that(1) demo_at [of m] that(2) by (elim disjE; simp)+
    then show ?thesis using mem by (auto simp: demo_instr demo_instr2 split: if_splits)
  qed
  show ?thesis
    unfolding pass_ready_def demo_tree using demo_heap demo_passable top by simp
qed

lemma demo_in: "1 \<in> dom (ila_heap demo)"
  using demo_top by auto

lemma demo_members:
  "v_mem \<in> demo_nodes" "v_addr \<in> demo_nodes" "v_data \<in> demo_nodes" "v_c \<in> demo_nodes"
  "v_x \<in> demo_nodes" "e_store \<in> demo_nodes" "e_ite \<in> demo_nodes" "e_store2 \<in> demo_nodes"
  by (simp_all add: demo_nodes_def)

lemma demo_dag: "dag demo_nodes"
  using demo_heap by (simp add: node_heap_def)

lemma demo_rewritable: "\<forall>x\<in>demo_nodes. rewritable x"
  using demo_passable
  by (auto simp: rewritable_def passable_smt smt_expr_wf demo_nodes_def demo_exprs copyable_def)

lemma demo_em_dom: "em_dom demo_nodes"
  using demo_dag demo_rewritable unfolding em_dom_def
  by (auto simp: rewritable_def demo_nodes_def demo_exprs inj_on_def)

lemma demo_table: "table_ok demo_nodes \<rho> \<rho> \<phi> Map.empty demo"
  using demo_dag demo_rewritable demo_heap by (auto simp: table_ok_def mapped_def)

lemma demo_instr_in: "instr_in demo_nodes \<lparr>i_sym = \<lparr>sym_name = ''ST'', sym_id = 6\<rparr>,
   decode = Some v_c, updates = [(''mem'', Some e_ite)], i_host = Some 1, prog = None\<rparr>"
  using demo_members by (auto simp: instr_in_def v_c_def split: if_splits)

text \<open>A renaming: the variable \<open>x\<close> of the child becomes \<open>data\<close>.\<close>

lemma demo_renaming:
  "mapped (copy_rel (\<lambda>_. VBv 8 0) (\<lambda>_. VBv 8 0) \<phi>) demo_nodes demo_nodes [10 \<mapsto> Some v_data]"
  unfolding mapped_def demo_nodes_def
  by (auto simp: demo_exprs copy_rel_def split: if_splits)

end
