(* ===== verification/Smt_Api.thy ===== *)
theory Smt_Api
  imports Semantics Ila
begin

text \<open>
  The SMT libraries the translations call, as parameters: \<^verbatim>\<open>z3::context\<close> with the functions
  of \<^verbatim>\<open>z3++.h\<close>, and \<^verbatim>\<open>smt::SmtSolver\<close> of smt-switch.  A library is a record of its
  functions over an unknown type of terms; a call throws or returns a term.  What the
  translations rely on is the documented meaning of the functions, which both libraries give
  by naming functions of SMT-LIB: the locales \<open>z3_laws\<close> and \<open>solver_laws\<close> state it over a
  sort and a denotation of terms, and are interpreted on a concrete library of denotations.
\<close>

subsection \<open>Functions of SMT-LIB\<close>

datatype smtlib =
    Lbvneg | Lnot | Lbvnot | Land | Lbvand | Lor | Lbvor | Lxor | Lbvxor
  | Lbvshl | Lbvashr | Lbvlshr | Lbvadd | Lbvsub | Lbvsdiv | Lbvsrem | Lbvurem | Lbvsmod | Lbvmul
  | Leq | Lbvslt | Lbvsgt | Lbvult | Lbvugt | Lselect | Lstore | Lconcat
  | Lextract int int | Lzext int | Lsext int | Lrotl int | Lrotr int | Limplies | Lite

definition bool2_sort :: "sort list \<Rightarrow> sort option" where
  "bool2_sort ss = (if ss = [SortBool, SortBool] then Some SortBool else None)"

definition bvrel_sort :: "sort list \<Rightarrow> sort option" where
  "bvrel_sort ss = same2 ss (\<lambda>s. case s of SortBv w \<Rightarrow> Some SortBool | _ \<Rightarrow> None)"

primrec smt_typed :: "smtlib \<Rightarrow> sort list \<Rightarrow> sort option" where
  "smt_typed Lbvneg = (\<lambda>ss. bv1 ss (\<lambda>w. Some (SortBv w)))"
| "smt_typed Lnot = (\<lambda>ss. if ss = [SortBool] then Some SortBool else None)"
| "smt_typed Lbvnot = (\<lambda>ss. bv1 ss (\<lambda>w. Some (SortBv w)))"
| "smt_typed Land = bool2_sort"
| "smt_typed Lbvand = (\<lambda>ss. same2 ss only_bv)"
| "smt_typed Lor = bool2_sort"
| "smt_typed Lbvor = (\<lambda>ss. same2 ss only_bv)"
| "smt_typed Lxor = bool2_sort"
| "smt_typed Lbvxor = (\<lambda>ss. same2 ss only_bv)"
| "smt_typed Lbvshl = (\<lambda>ss. same2 ss only_bv)"
| "smt_typed Lbvashr = (\<lambda>ss. same2 ss only_bv)"
| "smt_typed Lbvlshr = (\<lambda>ss. same2 ss only_bv)"
| "smt_typed Lbvadd = (\<lambda>ss. same2 ss only_bv)"
| "smt_typed Lbvsub = (\<lambda>ss. same2 ss only_bv)"
| "smt_typed Lbvsdiv = (\<lambda>ss. same2 ss only_bv)"
| "smt_typed Lbvsrem = (\<lambda>ss. same2 ss only_bv)"
| "smt_typed Lbvurem = (\<lambda>ss. same2 ss only_bv)"
| "smt_typed Lbvsmod = (\<lambda>ss. same2 ss only_bv)"
| "smt_typed Lbvmul = (\<lambda>ss. same2 ss only_bv)"
| "smt_typed Leq = (\<lambda>ss. same2 ss (\<lambda>_. Some SortBool))"
| "smt_typed Lbvslt = bvrel_sort"
| "smt_typed Lbvsgt = bvrel_sort"
| "smt_typed Lbvult = bvrel_sort"
| "smt_typed Lbvugt = bvrel_sort"
| "smt_typed Lselect = (\<lambda>ss. case ss of
     [SortMem aw dw, SortBv w] \<Rightarrow> if w = aw then Some (SortBv dw) else None | _ \<Rightarrow> None)"
| "smt_typed Lstore = (\<lambda>ss. case ss of
     [SortMem aw dw, SortBv w, SortBv w'] \<Rightarrow>
       if w = aw \<and> w' = dw then Some (SortMem aw dw) else None | _ \<Rightarrow> None)"
| "smt_typed Lconcat = (\<lambda>ss. case ss of
     [SortBv wh, SortBv wl] \<Rightarrow> Some (SortBv (wh + wl)) | _ \<Rightarrow> None)"
| "smt_typed (Lextract hi lo) = (\<lambda>ss. bv1 ss (\<lambda>w.
     if 0 \<le> lo \<and> lo \<le> hi \<and> hi < w then Some (SortBv (hi - lo + 1)) else None))"
| "smt_typed (Lzext n) = (\<lambda>ss. bv1 ss (\<lambda>w. if 0 \<le> n then Some (SortBv (w + n)) else None))"
| "smt_typed (Lsext n) = (\<lambda>ss. bv1 ss (\<lambda>w. if 0 \<le> n then Some (SortBv (w + n)) else None))"
| "smt_typed (Lrotl n) = (\<lambda>ss. bv1 ss (\<lambda>w. if 0 \<le> n then Some (SortBv w) else None))"
| "smt_typed (Lrotr n) = (\<lambda>ss. bv1 ss (\<lambda>w. if 0 \<le> n then Some (SortBv w) else None))"
| "smt_typed Limplies = bool2_sort"
| "smt_typed Lite = (\<lambda>ss. case ss of
     [SortBool, s, t] \<Rightarrow> if s = t then Some s else None | _ \<Rightarrow> None)"

definition bool2 :: "(bool \<Rightarrow> bool \<Rightarrow> bool) \<Rightarrow> val list \<Rightarrow> val" where
  "bool2 f vs = (case vs of [VBool a, VBool b] \<Rightarrow> VBool (f a b) | _ \<Rightarrow> VBool False)"

text \<open>An extension by \<open>n\<close> bits.\<close>

definition bvgrow :: "int \<Rightarrow> (int \<Rightarrow> int \<Rightarrow> int) \<Rightarrow> val list \<Rightarrow> val" where
  "bvgrow n f vs = (case vs of [VBv w a] \<Rightarrow> VBv (w + n) (trunc (w + n) (f w a)) | _ \<Rightarrow> VBool False)"

primrec smt_sem :: "smtlib \<Rightarrow> val list \<Rightarrow> val" where
  "smt_sem Lbvneg = bvun (\<lambda>w a. - a)"
| "smt_sem Lnot = (\<lambda>vs. case vs of [VBool b] \<Rightarrow> VBool (\<not> b) | _ \<Rightarrow> VBool False)"
| "smt_sem Lbvnot = bvun (\<lambda>w a. NOT a)"
| "smt_sem Land = bool2 (\<and>)"
| "smt_sem Lbvand = bv2 (\<lambda>w. (AND))"
| "smt_sem Lor = bool2 (\<or>)"
| "smt_sem Lbvor = bv2 (\<lambda>w. (OR))"
| "smt_sem Lxor = bool2 (\<noteq>)"
| "smt_sem Lbvxor = bv2 (\<lambda>w. (XOR))"
| "smt_sem Lbvshl = bv2 (\<lambda>w a b. a * 2 ^ nat b)"
| "smt_sem Lbvashr = bv2 (\<lambda>w a b. signed w a div 2 ^ nat b)"
| "smt_sem Lbvlshr = bv2 (\<lambda>w a b. a div 2 ^ nat b)"
| "smt_sem Lbvadd = bv2 (\<lambda>w a b. a + b)"
| "smt_sem Lbvsub = bv2 (\<lambda>w a b. a - b)"
| "smt_sem Lbvsdiv = bv2 bv_sdiv"
| "smt_sem Lbvsrem = bv2 bv_srem"
| "smt_sem Lbvurem = bv2 bv_urem"
| "smt_sem Lbvsmod = bv2 bv_smod"
| "smt_sem Lbvmul = bv2 (\<lambda>w a b. a * b)"
| "smt_sem Leq = (\<lambda>vs. case vs of [a, b] \<Rightarrow> VBool (a = b) | _ \<Rightarrow> VBool False)"
| "smt_sem Lbvslt = bvcmp (\<lambda>w a b. signed w a < signed w b)"
| "smt_sem Lbvsgt = bvcmp (\<lambda>w a b. signed w a > signed w b)"
| "smt_sem Lbvult = bvcmp (\<lambda>w a b. a < b)"
| "smt_sem Lbvugt = bvcmp (\<lambda>w a b. a > b)"
| "smt_sem Lselect = (\<lambda>vs. case vs of
     [VMem aw dw f, VBv w a] \<Rightarrow> VBv dw (f a) | _ \<Rightarrow> VBool False)"
| "smt_sem Lstore = (\<lambda>vs. case vs of
     [VMem aw dw f, VBv w a, VBv w' d] \<Rightarrow> VMem aw dw (f(a := d)) | _ \<Rightarrow> VBool False)"
| "smt_sem Lconcat = (\<lambda>vs. case vs of
     [VBv wh h, VBv wl l] \<Rightarrow> VBv (wh + wl) (trunc (wh + wl) (h * 2 ^ nat wl + l)) | _ \<Rightarrow> VBool False)"
| "smt_sem (Lextract hi lo) = bvext (hi - lo + 1) (\<lambda>w a. a div 2 ^ nat lo)"
| "smt_sem (Lzext n) = bvgrow n (\<lambda>w a. a)"
| "smt_sem (Lsext n) = bvgrow n (\<lambda>w a. signed w a)"
| "smt_sem (Lrotl n) = bvun (\<lambda>w. bv_rotl w n)"
| "smt_sem (Lrotr n) = bvun (\<lambda>w. bv_rotr w n)"
| "smt_sem Limplies = bool2 (\<longrightarrow>)"
| "smt_sem Lite = (\<lambda>vs. case vs of [VBool c, a, b] \<Rightarrow> (if c then a else b) | _ \<Rightarrow> VBool False)"

text \<open>The SMT-LIB function an operator of the ILA stands for.\<close>

definition bool_or_bv :: "sort list \<Rightarrow> smtlib \<Rightarrow> smtlib \<Rightarrow> smtlib" where
  "bool_or_bv ss a b = (if hd ss = SortBool then a else b)"

primrec lib_of :: "AstUidExprOp \<Rightarrow> sort list \<Rightarrow> int list \<Rightarrow> smtlib option" where
  "lib_of kInvalid = (\<lambda>ss ps. None)"
| "lib_of kNegate = (\<lambda>ss ps. Some Lbvneg)"
| "lib_of kNot = (\<lambda>ss ps. Some Lnot)"
| "lib_of kComplement = (\<lambda>ss ps. Some Lbvnot)"
| "lib_of kAnd = (\<lambda>ss ps. Some (bool_or_bv ss Land Lbvand))"
| "lib_of kOr = (\<lambda>ss ps. Some (bool_or_bv ss Lor Lbvor))"
| "lib_of kXor = (\<lambda>ss ps. Some (bool_or_bv ss Lxor Lbvxor))"
| "lib_of kShiftLeft = (\<lambda>ss ps. Some Lbvshl)"
| "lib_of kArithShiftRight = (\<lambda>ss ps. Some Lbvashr)"
| "lib_of kLogicShiftRight = (\<lambda>ss ps. Some Lbvlshr)"
| "lib_of kAdd = (\<lambda>ss ps. Some Lbvadd)"
| "lib_of kSubtract = (\<lambda>ss ps. Some Lbvsub)"
| "lib_of kMultiply = (\<lambda>ss ps. Some Lbvmul)"
| "lib_of kEqual = (\<lambda>ss ps. Some Leq)"
| "lib_of kLessThan = (\<lambda>ss ps. Some Lbvslt)"
| "lib_of kGreaterThan = (\<lambda>ss ps. Some Lbvsgt)"
| "lib_of kUnsignedLessThan = (\<lambda>ss ps. Some Lbvult)"
| "lib_of kUnsignedGreaterThan = (\<lambda>ss ps. Some Lbvugt)"
| "lib_of kLoad = (\<lambda>ss ps. Some Lselect)"
| "lib_of kStore = (\<lambda>ss ps. Some Lstore)"
| "lib_of kConcatenate = (\<lambda>ss ps. Some Lconcat)"
| "lib_of kExtract = (\<lambda>ss ps. case ps of [hi, lo] \<Rightarrow> Some (Lextract hi lo) | _ \<Rightarrow> None)"
| "lib_of kZeroExtend = (\<lambda>ss ps. case (ss, ps) of
     ([SortBv w], [bw]) \<Rightarrow> Some (Lzext (bw - w)) | _ \<Rightarrow> None)"
| "lib_of kSignedExtend = (\<lambda>ss ps. case (ss, ps) of
     ([SortBv w], [bw]) \<Rightarrow> Some (Lsext (bw - w)) | _ \<Rightarrow> None)"
| "lib_of kApplyFunc = (\<lambda>ss ps. None)"
| "lib_of kImply = (\<lambda>ss ps. Some Limplies)"
| "lib_of kIfThenElse = (\<lambda>ss ps. Some Lite)"
| "lib_of kDivide = (\<lambda>ss ps. Some Lbvsdiv)"
| "lib_of kRotateLeft = (\<lambda>ss ps. case ps of [n] \<Rightarrow> Some (Lrotl n) | _ \<Rightarrow> None)"
| "lib_of kRotateRight = (\<lambda>ss ps. case ps of [n] \<Rightarrow> Some (Lrotr n) | _ \<Rightarrow> None)"
| "lib_of kSignedRemainder = (\<lambda>ss ps. Some Lbvsrem)"
| "lib_of kUnsignedRemainder = (\<lambda>ss ps. Some Lbvurem)"
| "lib_of kSignedModular = (\<lambda>ss ps. Some Lbvsmod)"

lemma not_mem: "\<not> is_mem s \<longleftrightarrow> s = SortBool \<or> (\<exists>w. s = SortBv w)"
  by (cases s) auto

lemma lib_of_typed:
  assumes "op_sort u ss ps None = Some s" "smt_op u ss ps" "op_shape u ps None"
  shows "\<exists>L. lib_of u ss ps = Some L \<and> smt_typed L ss = Some s"
proof (cases "u = kZeroExtend \<or> u = kSignedExtend")
  case True
  then obtain w where w: "ss = [SortBv w]"
    and c: "(case ps of [bw] \<Rightarrow> if bw \<ge> w then Some (SortBv bw) else None | _ \<Rightarrow> None) = Some s"
    using assms(1) by auto
  from c obtain bw where "ps = [bw]" "w \<le> bw" "s = SortBv bw" by (auto split: list.splits if_splits)
  with w True show ?thesis by auto
next
  case False
  then show ?thesis
    using assms
    by (cases u)
       (auto simp: smt_op.simps op_shape_def same2_Some bool_or_bv_def bool2_sort_def bvrel_sort_def
          is_bv_0_iff not_mem split: list.splits sort.splits if_splits)
qed

lemma lib_of_sem:
  assumes "op_sort u ss ps None = Some s" "smt_op u ss ps" "lib_of u ss ps = Some L"
    "list_all2 has_sort vs ss"
  shows "smt_sem L vs = op_sem u ps vs"
  using assms
  by (cases u)
     (auto simp: smt_op.simps same2_Some bool_or_bv_def bool2_def op_sem_helpers bvgrow_def
        list_all2_Cons2 has_sort_Bool has_sort_Bv has_sort_Mem
        is_bv_0_iff not_mem split: list.splits sort.splits if_splits val.splits)

subsection \<open>Sorts of the libraries\<close>

text \<open>Sorts are built with \<^verbatim>\<open>bool_sort\<close>, \<^verbatim>\<open>bv_sort\<close>, \<^verbatim>\<open>array_sort\<close> (z3) and \<^verbatim>\<open>make_sort\<close>
  (smt-switch); \<open>of_msort\<close> are those the ILA has a sort for.\<close>

datatype msort = MBool | MBv int | MArray msort msort | MFun "msort list"

fun of_msort :: "msort \<Rightarrow> sort option" where
  "of_msort MBool = Some SortBool"
| "of_msort (MBv w) = (if 0 < w then Some (SortBv w) else None)"
| "of_msort (MArray (MBv a) (MBv d)) = (if 0 < a \<and> 0 < d then Some (SortMem a d) else None)"
| "of_msort s = None"

text \<open>\<^verbatim>\<open>static_cast<unsigned>\<close>\<close>

definition to_unsigned :: "int \<Rightarrow> int" where
  "to_unsigned i = i mod 2 ^ 32"

text \<open>Widths and parameters are of type \<^verbatim>\<open>int\<close>.\<close>

fun int_sort :: "sort \<Rightarrow> bool" where
  "int_sort SortBool = True"
| "int_sort (SortBv w) = (w < 2 ^ 31)"
| "int_sort (SortMem a d) = (a < 2 ^ 31 \<and> d < 2 ^ 31)"

definition int_node :: "expr \<Rightarrow> bool" where
  "int_node e \<longleftrightarrow> int_sort (esort e) \<and> (\<forall>p\<in>set (params e). p < 2 ^ 31)"

lemma to_unsigned_id [simp]: "0 \<le> i \<Longrightarrow> i < 2 ^ 31 \<Longrightarrow> to_unsigned i = i"
  by (simp add: to_unsigned_def)

subsection \<open>Interpretations of names\<close>

text \<open>A model of a formula gives each name at a sort a value, and each function name at a
  rank a function.\<close>

record interp =
  ivar :: "string \<Rightarrow> sort \<Rightarrow> val"
  ifun :: "string \<Rightarrow> sort list \<Rightarrow> sort \<Rightarrow> val list \<Rightarrow> val"

definition interp_ok :: "interp \<Rightarrow> bool" where
  "interp_ok I \<longleftrightarrow> (\<forall>n s. pos_sort s \<longrightarrow> has_sort (ivar I n s) s)
     \<and> (\<forall>n ss s vs. pos_sort s \<longrightarrow> list_all2 has_sort vs ss \<longrightarrow> has_sort (ifun I n ss s vs) s)"

text \<open>A term stands for an expression.\<close>

definition term_rel :: "('t \<Rightarrow> sort) \<Rightarrow> (interp \<Rightarrow> 't \<Rightarrow> val) \<Rightarrow> (interp \<Rightarrow> env) \<Rightarrow> (interp \<Rightarrow> finterp)
    \<Rightarrow> 't \<Rightarrow> expr \<Rightarrow> bool" where
  "term_rel tsort den env fn t e \<longleftrightarrow> tsort t = esort e
     \<and> (\<forall>I. interp_ok I \<longrightarrow> den I t = eval (env I) (fn I) e)"

subsection \<open>Application of a function of SMT-LIB\<close>

locale lib_apply =
  fixes app :: "smtlib \<Rightarrow> 't list \<Rightarrow> 't res"
    and tsort :: "'t \<Rightarrow> sort"
    and den :: "interp \<Rightarrow> 't \<Rightarrow> val"
  assumes app_ok: "smt_typed L (map tsort ts) = Some s \<Longrightarrow>
    \<exists>t. app L ts = Inr t \<and> tsort t = s \<and> (\<forall>I. den I t = smt_sem L (map (den I) ts))"
begin

lemma op_node:
  assumes ok: "\<And>I. interp_ok I \<Longrightarrow> env_ok (env I) \<and> finterp_ok (fn I)"
    and e: "smt_expr (ExprOp y u s as ps None h)"
    and ts: "list_all2 (term_rel tsort den env fn) ts as"
  shows "\<exists>L t. lib_of u (map esort as) ps = Some L \<and> app L ts = Inr t
    \<and> term_rel tsort den env fn t (ExprOp y u s as ps None h)"
proof -
  have wf: "op_sort u (map esort as) ps None = Some s" "smt_op u (map esort as) ps" "op_shape u ps None"
    and as: "\<forall>a\<in>set as. smt_expr a" using e by (auto simp: list_all_iff)
  have sorts: "map tsort ts = map esort as"
    using ts by (induction rule: list_all2_induct) (auto simp: term_rel_def)
  obtain L where L: "lib_of u (map esort as) ps = Some L" "smt_typed L (map esort as) = Some s"
    using lib_of_typed [OF wf] by blast
  obtain t where t: "app L ts = Inr t" "tsort t = s" "\<And>I. den I t = smt_sem L (map (den I) ts)"
    using app_ok [of L ts s] L(2) sorts by auto
  have "den I t = eval (env I) (fn I) (ExprOp y u s as ps None h)" if I: "interp_ok I" for I
  proof -
    have "map (den I) ts = map (eval (env I) (fn I)) as"
      using ts by (induction rule: list_all2_induct) (auto simp: term_rel_def I)
    moreover have "list_all2 has_sort (map (eval (env I) (fn I)) as) (map esort as)"
      using as eval_sort ok [OF I] by (simp add: list_all2_map1 list_all2_map2 list_all2_same)
    ultimately show ?thesis using lib_of_sem [OF wf(1,2) L(1)] t(3) by simp
  qed
  then show ?thesis using L(1) t(1,2) by (auto simp: term_rel_def)
qed

end

end
