(* ===== verification/Z3_Adapter.thy ===== *)
theory Z3_Adapter
  imports Smt_Api Rewriter
begin

text \<open>
  The translation of expressions to z3: the virtual functions \<^verbatim>\<open>GetZ3Sort\<close>,
  \<^verbatim>\<open>GetZ3FuncDecl\<close> and \<^verbatim>\<open>GetZ3Expr\<close> of the AST (\<^verbatim>\<open>src/ila/ast\<close>), the wrappers of
  \<^verbatim>\<open>util/z3_helper.h\<close>, and \<^verbatim>\<open>Z3ExprAdapter\<close> (\<^verbatim>\<open>src/target-smt/z3_expr_adapter.cc\<close>) with
  its cache.  The lemmas show that the adapter returns, for every translatable expression, a
  term whose value under every interpretation of names is the value of the expression.
\<close>

subsection \<open>The z3 interface\<close>

text \<open>The functions of \<^verbatim>\<open>z3++.h\<close> the translation calls; operators are named by what they are
  written as: \<open>z3_neg\<close> is unary minus, \<open>z3_and\<close> is \<^verbatim>\<open>&&\<close>, \<open>z3_bvand\<close> is \<^verbatim>\<open>&\<close>.\<close>

datatype z3_fn =
    z3_neg | z3_not | z3_compl | z3_and | z3_bvand | z3_or | z3_bvor | z3_mk_xor | z3_bvxor
  | z3_shl | z3_ashr | z3_lshr | z3_add | z3_sub | z3_div | z3_srem | z3_urem | z3_smod | z3_mul
  | z3_eq | z3_lt | z3_gt | z3_ult | z3_ugt | z3_select | z3_store | z3_concat
  | z3_extract int int | z3_zext int | z3_sext int | z3_rotate_left int | z3_rotate_right int
  | z3_implies | z3_ite

record 't z3_api =
  z_apply :: "z3_fn \<Rightarrow> 't list \<Rightarrow> 't res"
  z_const :: "string \<Rightarrow> msort \<Rightarrow> 't res"
  z_bool_val :: "bool \<Rightarrow> 't"
  z_bv_val :: "u64 \<Rightarrow> int \<Rightarrow> 't res"
  z_bv_val_str :: "string \<Rightarrow> int \<Rightarrow> 't res"
  z_const_array :: "msort \<Rightarrow> 't \<Rightarrow> 't res"
  z_function :: "string \<Rightarrow> msort list \<Rightarrow> msort \<Rightarrow> 't list \<Rightarrow> 't res"
  z_simplify :: "'t \<Rightarrow> 't res"

text \<open>The function of \<^verbatim>\<open>z3++.h\<close> that builds an application of an SMT-LIB function: \<^verbatim>\<open>/\<close>, \<^verbatim>\<open><\<close>
  and \<^verbatim>\<open>>\<close> are signed.\<close>

primrec z3_of :: "smtlib \<Rightarrow> z3_fn" where
  "z3_of Lbvneg = z3_neg" | "z3_of Lnot = z3_not" | "z3_of Lbvnot = z3_compl"
| "z3_of Land = z3_and" | "z3_of Lbvand = z3_bvand" | "z3_of Lor = z3_or" | "z3_of Lbvor = z3_bvor"
| "z3_of Lxor = z3_mk_xor" | "z3_of Lbvxor = z3_bvxor" | "z3_of Lbvshl = z3_shl"
| "z3_of Lbvashr = z3_ashr" | "z3_of Lbvlshr = z3_lshr" | "z3_of Lbvadd = z3_add"
| "z3_of Lbvsub = z3_sub" | "z3_of Lbvsdiv = z3_div" | "z3_of Lbvsrem = z3_srem"
| "z3_of Lbvurem = z3_urem" | "z3_of Lbvsmod = z3_smod" | "z3_of Lbvmul = z3_mul"
| "z3_of Leq = z3_eq" | "z3_of Lbvslt = z3_lt" | "z3_of Lbvsgt = z3_gt" | "z3_of Lbvult = z3_ult"
| "z3_of Lbvugt = z3_ugt" | "z3_of Lselect = z3_select" | "z3_of Lstore = z3_store"
| "z3_of Lconcat = z3_concat" | "z3_of (Lextract hi lo) = z3_extract hi lo"
| "z3_of (Lzext n) = z3_zext n" | "z3_of (Lsext n) = z3_sext n"
| "z3_of (Lrotl n) = z3_rotate_left n" | "z3_of (Lrotr n) = z3_rotate_right n"
| "z3_of Limplies = z3_implies" | "z3_of Lite = z3_ite"

subsection \<open>Sorts and names\<close>

definition SortBool_GetZ3Sort :: msort where
  "SortBool_GetZ3Sort = MBool"

definition SortBv_GetZ3Sort :: "int \<Rightarrow> msort" where
  "SortBv_GetZ3Sort w = MBv (to_unsigned w)"

definition SortMem_GetZ3Sort :: "int \<Rightarrow> int \<Rightarrow> msort" where
  "SortMem_GetZ3Sort a d = MArray (MBv (to_unsigned a)) (MBv (to_unsigned d))"

primrec GetZ3Sort :: "sort \<Rightarrow> msort" where
  "GetZ3Sort SortBool = SortBool_GetZ3Sort"
| "GetZ3Sort (SortBv w) = SortBv_GetZ3Sort w"
| "GetZ3Sort (SortMem a d) = SortMem_GetZ3Sort a d"

definition SortBool_GetZ3Expr :: "'t z3_api \<Rightarrow> string \<Rightarrow> 't res" where
  "SortBool_GetZ3Expr api name = z_const api name MBool"

definition SortBv_GetZ3Expr :: "'t z3_api \<Rightarrow> int \<Rightarrow> string \<Rightarrow> 't res" where
  "SortBv_GetZ3Expr api w name = z_const api name (MBv (to_unsigned w))"

definition SortMem_GetZ3Expr :: "'t z3_api \<Rightarrow> int \<Rightarrow> int \<Rightarrow> string \<Rightarrow> 't res" where
  "SortMem_GetZ3Expr api a d name =
     (let addr_s = MBv (to_unsigned a); data_s = MBv (to_unsigned d)
      in z_const api name (MArray addr_s data_s))"

primrec sort_GetZ3Expr :: "'t z3_api \<Rightarrow> sort \<Rightarrow> string \<Rightarrow> 't res" where
  "sort_GetZ3Expr api SortBool name = SortBool_GetZ3Expr api name"
| "sort_GetZ3Expr api (SortBv w) name = SortBv_GetZ3Expr api w name"
| "sort_GetZ3Expr api (SortMem a d) name = SortMem_GetZ3Expr api a d name"

text \<open>\<^verbatim>\<open>(host()) ? host()->GetRootName() : ""\<close> and \<^verbatim>\<open>(host()) ? host()->name().str() : ""\<close>\<close>

definition root_prefix :: "world \<Rightarrow> nat option \<Rightarrow> string res" where
  "root_prefix w h = (case h of None \<Rightarrow> Inr '''' | Some i \<Rightarrow> not_null (GetRootName w i))"

definition host_prefix :: "world \<Rightarrow> nat option \<Rightarrow> string res" where
  "host_prefix w h = (case h of None \<Rightarrow> Inr ''''
     | Some i \<Rightarrow> bindR (not_null (ila_heap w i)) (\<lambda>m. Inr (sym_name (m_sym m))))"

definition GetZ3FuncDecl :: "world \<Rightarrow> func \<Rightarrow> (string \<times> msort list \<times> msort) res" where
  "GetZ3FuncDecl w f =
     (let range = GetZ3Sort (f_out f); domains = map GetZ3Sort (f_args f)
      in bindR (host_prefix w (f_host f)) (\<lambda>prefix.
         Inr (format_str (f_sym f) prefix '''', domains, range)))"

subsection \<open>Leaves\<close>

definition ExprVar_GetZ3Expr :: "'t z3_api \<Rightarrow> world \<Rightarrow> expr \<Rightarrow> string \<Rightarrow> 't res" where
  "ExprVar_GetZ3Expr api w e suffix =
     bindR (root_prefix w (host e)) (\<lambda>prefix.
     sort_GetZ3Expr api (esort e) (format_str (sym e) prefix suffix))"

text \<open>The loop over the pairs of a memory constant.\<close>

fun z3_stores :: "'t z3_api \<Rightarrow> int \<Rightarrow> int \<Rightarrow> (u64 \<times> u64) list \<Rightarrow> 't \<Rightarrow> 't res" where
  "z3_stores api aw dw [] e1 = Inr e1"
| "z3_stores api aw dw ((a, d) # ps) e1 =
     bindR (z_bv_val_str api (to_string (unat a)) (to_unsigned aw)) (\<lambda>addr_expr.
     bindR (z_bv_val_str api (to_string (unat d)) (to_unsigned dw)) (\<lambda>data_expr.
     bindR (z_apply api z3_store [e1, addr_expr, data_expr]) (\<lambda>e2.
     z3_stores api aw dw ps e2)))"

fun const_GetZ3Expr :: "'t z3_api \<Rightarrow> sort \<Rightarrow> cval \<Rightarrow> 't res" where
  "const_GetZ3Expr api SortBool (BoolVal b) = Inr (z_bool_val api b)"
| "const_GetZ3Expr api (SortBv w) (BvVal v) = z_bv_val api v (to_unsigned w)"
| "const_GetZ3Expr api (SortMem aw dw) (MemVal def m) =
     bindR (z_bv_val_str api (to_string (unat def)) (to_unsigned dw)) (\<lambda>def_expr.
     bindR (z_const_array api (MBv (to_unsigned aw)) def_expr) (\<lambda>e1. z3_stores api aw dw m e1))"
| "const_GetZ3Expr api s v = Inl NullPtr"

definition ExprConst_GetZ3Expr :: "'t z3_api \<Rightarrow> sort \<Rightarrow> cval \<Rightarrow> 't list \<Rightarrow> 't res" where
  "ExprConst_GetZ3Expr api s v zs =
     bindR (assertR (zs = []) ''Constant should be terminating nodes.'') (\<lambda>_. const_GetZ3Expr api s v)"

subsection \<open>Wrappers of the z3 interface\<close>

definition Z3Implies :: "'t z3_api \<Rightarrow> 't \<Rightarrow> 't \<Rightarrow> 't res" where
  "Z3Implies api a b = z_apply api z3_implies [a, b]"

definition Z3Shl :: "'t z3_api \<Rightarrow> 't \<Rightarrow> 't \<Rightarrow> 't res" where
  "Z3Shl api a b = z_apply api z3_shl [a, b]"

definition Z3Ashr :: "'t z3_api \<Rightarrow> 't \<Rightarrow> 't \<Rightarrow> 't res" where
  "Z3Ashr api a b = z_apply api z3_ashr [a, b]"

definition Z3Lshr :: "'t z3_api \<Rightarrow> 't \<Rightarrow> 't \<Rightarrow> 't res" where
  "Z3Lshr api a b = z_apply api z3_lshr [a, b]"

definition Z3SRem :: "'t z3_api \<Rightarrow> 't \<Rightarrow> 't \<Rightarrow> 't res" where
  "Z3SRem api a b = z_apply api z3_srem [a, b]"

definition Z3URem :: "'t z3_api \<Rightarrow> 't \<Rightarrow> 't \<Rightarrow> 't res" where
  "Z3URem api a b = z_apply api z3_urem [a, b]"

definition Z3SMod :: "'t z3_api \<Rightarrow> 't \<Rightarrow> 't \<Rightarrow> 't res" where
  "Z3SMod api a b = z_apply api z3_smod [a, b]"

definition Z3ZExt :: "'t z3_api \<Rightarrow> 't \<Rightarrow> int \<Rightarrow> 't res" where
  "Z3ZExt api e w = z_apply api (z3_zext w) [e]"

definition Z3SExt :: "'t z3_api \<Rightarrow> 't \<Rightarrow> int \<Rightarrow> 't res" where
  "Z3SExt api e w = z_apply api (z3_sext w) [e]"

definition Z3LRotate :: "'t z3_api \<Rightarrow> 't \<Rightarrow> int \<Rightarrow> 't res" where
  "Z3LRotate api e w = z_apply api (z3_rotate_left w) [e]"

definition Z3RRotate :: "'t z3_api \<Rightarrow> 't \<Rightarrow> int \<Rightarrow> 't res" where
  "Z3RRotate api e w = z_apply api (z3_rotate_right w) [e]"
subsection \<open>Operators\<close>

definition ExprOpNeg_GetZ3Expr :: "'t z3_api \<Rightarrow> expr \<Rightarrow> 't list \<Rightarrow> 't res" where
  "ExprOpNeg_GetZ3Expr api e zs =
     bindR (assertR (length zs = 1) ''Negate is a unary function.'') (\<lambda>_.
     z_apply api z3_neg [zs ! 0])"

definition ExprOpNot_GetZ3Expr :: "'t z3_api \<Rightarrow> expr \<Rightarrow> 't list \<Rightarrow> 't res" where
  "ExprOpNot_GetZ3Expr api e zs =
     bindR (assertR (length zs = 1) ''Not is a unary function.'') (\<lambda>_.
     z_apply api z3_not [zs ! 0])"

definition ExprOpCompl_GetZ3Expr :: "'t z3_api \<Rightarrow> expr \<Rightarrow> 't list \<Rightarrow> 't res" where
  "ExprOpCompl_GetZ3Expr api e zs =
     bindR (assertR (length zs = 1) ''Negate is a unary function.'') (\<lambda>_.
     z_apply api z3_compl [zs ! 0])"

definition ExprOpAnd_GetZ3Expr :: "'t z3_api \<Rightarrow> expr \<Rightarrow> 't list \<Rightarrow> 't res" where
  "ExprOpAnd_GetZ3Expr api e zs =
     bindR (assertR (length zs = 2) '''') (\<lambda>_.
     bindR (assertR (is_bool (esort e) \<or> is_bv (esort e) 0) ''AND can only be either bool or bv.'') (\<lambda>_.
     if is_bool (esort e) then z_apply api z3_and [zs ! 0, zs ! 1] else z_apply api z3_bvand [zs ! 0, zs ! 1]))"

definition ExprOpOr_GetZ3Expr :: "'t z3_api \<Rightarrow> expr \<Rightarrow> 't list \<Rightarrow> 't res" where
  "ExprOpOr_GetZ3Expr api e zs =
     bindR (assertR (length zs = 2) '''') (\<lambda>_.
     bindR (assertR (is_bool (esort e) \<or> is_bv (esort e) 0) ''OR can only be either bool or bv.'') (\<lambda>_.
     if is_bool (esort e) then z_apply api z3_or [zs ! 0, zs ! 1] else z_apply api z3_bvor [zs ! 0, zs ! 1]))"

definition ExprOpXor_GetZ3Expr :: "'t z3_api \<Rightarrow> expr \<Rightarrow> 't list \<Rightarrow> 't res" where
  "ExprOpXor_GetZ3Expr api e zs =
     bindR (assertR (length zs = 2) '''') (\<lambda>_.
     bindR (assertR (is_bool (esort e) \<or> is_bv (esort e) 0) ''XOR can only be either bool or bv.'') (\<lambda>_.
     if is_bv (esort e) 0 then z_apply api z3_bvxor [zs ! 0, zs ! 1] else z_apply api z3_mk_xor [zs ! 0, zs ! 1]))"

definition ExprOpShl_GetZ3Expr :: "'t z3_api \<Rightarrow> expr \<Rightarrow> 't list \<Rightarrow> 't res" where
  "ExprOpShl_GetZ3Expr api e zs =
     bindR (assertR (length zs = 2) ''Left shift is binary operation.'') (\<lambda>_.
     Z3Shl api (zs ! 0) (zs ! 1))"

definition ExprOpAshr_GetZ3Expr :: "'t z3_api \<Rightarrow> expr \<Rightarrow> 't list \<Rightarrow> 't res" where
  "ExprOpAshr_GetZ3Expr api e zs =
     bindR (assertR (length zs = 2) ''Right shift is binary operation.'') (\<lambda>_.
     Z3Ashr api (zs ! 0) (zs ! 1))"

definition ExprOpLshr_GetZ3Expr :: "'t z3_api \<Rightarrow> expr \<Rightarrow> 't list \<Rightarrow> 't res" where
  "ExprOpLshr_GetZ3Expr api e zs =
     bindR (assertR (length zs = 2) ''Right shift is binary operation.'') (\<lambda>_.
     Z3Lshr api (zs ! 0) (zs ! 1))"

definition ExprOpAdd_GetZ3Expr :: "'t z3_api \<Rightarrow> expr \<Rightarrow> 't list \<Rightarrow> 't res" where
  "ExprOpAdd_GetZ3Expr api e zs =
     bindR (assertR (length zs = 2) ''Add is binary operation.'') (\<lambda>_.
     bindR (assertR (is_bv (esort e) 0) ''ADD can only be applied to bv.'') (\<lambda>_.
     z_apply api z3_add [zs ! 0, zs ! 1]))"

definition ExprOpSub_GetZ3Expr :: "'t z3_api \<Rightarrow> expr \<Rightarrow> 't list \<Rightarrow> 't res" where
  "ExprOpSub_GetZ3Expr api e zs =
     bindR (assertR (length zs = 2) ''Sub is binary operation.'') (\<lambda>_.
     bindR (assertR (is_bv (esort e) 0) ''Sub can only be applied to bv.'') (\<lambda>_.
     z_apply api z3_sub [zs ! 0, zs ! 1]))"

definition ExprOpDiv_GetZ3Expr :: "'t z3_api \<Rightarrow> expr \<Rightarrow> 't list \<Rightarrow> 't res" where
  "ExprOpDiv_GetZ3Expr api e zs =
     bindR (assertR (length zs = 2) ''Div is binary operation.'') (\<lambda>_.
     bindR (assertR (is_bv (esort e) 0) ''Div can only be applied to bv.'') (\<lambda>_.
     z_apply api z3_div [zs ! 0, zs ! 1]))"

definition ExprOpSRem_GetZ3Expr :: "'t z3_api \<Rightarrow> expr \<Rightarrow> 't list \<Rightarrow> 't res" where
  "ExprOpSRem_GetZ3Expr api e zs =
     bindR (assertR (length zs = 2) ''SRem is binary operation.'') (\<lambda>_.
     bindR (assertR (is_bv (esort e) 0) ''SRem can only be applied to bv.'') (\<lambda>_.
     Z3SRem api (zs ! 0) (zs ! 1)))"

definition ExprOpURem_GetZ3Expr :: "'t z3_api \<Rightarrow> expr \<Rightarrow> 't list \<Rightarrow> 't res" where
  "ExprOpURem_GetZ3Expr api e zs =
     bindR (assertR (length zs = 2) ''URem is binary operation.'') (\<lambda>_.
     bindR (assertR (is_bv (esort e) 0) ''URem can only be applied to bv.'') (\<lambda>_.
     Z3URem api (zs ! 0) (zs ! 1)))"

definition ExprOpSMod_GetZ3Expr :: "'t z3_api \<Rightarrow> expr \<Rightarrow> 't list \<Rightarrow> 't res" where
  "ExprOpSMod_GetZ3Expr api e zs =
     bindR (assertR (length zs = 2) ''SMod is binary operation.'') (\<lambda>_.
     bindR (assertR (is_bv (esort e) 0) ''SMod can only be applied to bv.'') (\<lambda>_.
     Z3SMod api (zs ! 0) (zs ! 1)))"

definition ExprOpMul_GetZ3Expr :: "'t z3_api \<Rightarrow> expr \<Rightarrow> 't list \<Rightarrow> 't res" where
  "ExprOpMul_GetZ3Expr api e zs =
     bindR (assertR (length zs = 2) ''Mul is binary operation.'') (\<lambda>_.
     bindR (assertR (is_bv (esort e) 0) ''Mul can only be applied to bv.'') (\<lambda>_.
     z_apply api z3_mul [zs ! 0, zs ! 1]))"

definition ExprOpEq_GetZ3Expr :: "'t z3_api \<Rightarrow> expr \<Rightarrow> 't list \<Rightarrow> 't res" where
  "ExprOpEq_GetZ3Expr api e zs =
     bindR (assertR (length zs = 2) ''Eq is binary comparison.'') (\<lambda>_.
     z_apply api z3_eq [zs ! 0, zs ! 1])"

definition ExprOpLt_GetZ3Expr :: "'t z3_api \<Rightarrow> expr \<Rightarrow> 't list \<Rightarrow> 't res" where
  "ExprOpLt_GetZ3Expr api e zs =
     bindR (assertR (length zs = 2) ''Lt is binary comparison.'') (\<lambda>_.
     z_apply api z3_lt [zs ! 0, zs ! 1])"

definition ExprOpGt_GetZ3Expr :: "'t z3_api \<Rightarrow> expr \<Rightarrow> 't list \<Rightarrow> 't res" where
  "ExprOpGt_GetZ3Expr api e zs =
     bindR (assertR (length zs = 2) ''Gt is binary comparison.'') (\<lambda>_.
     z_apply api z3_gt [zs ! 0, zs ! 1])"

definition ExprOpUlt_GetZ3Expr :: "'t z3_api \<Rightarrow> expr \<Rightarrow> 't list \<Rightarrow> 't res" where
  "ExprOpUlt_GetZ3Expr api e zs =
     bindR (assertR (length zs = 2) ''ULt is binary comparison.'') (\<lambda>_.
     z_apply api z3_ult [zs ! 0, zs ! 1])"

definition ExprOpUgt_GetZ3Expr :: "'t z3_api \<Rightarrow> expr \<Rightarrow> 't list \<Rightarrow> 't res" where
  "ExprOpUgt_GetZ3Expr api e zs =
     bindR (assertR (length zs = 2) ''UGt is binary comparison.'') (\<lambda>_.
     z_apply api z3_ugt [zs ! 0, zs ! 1])"

definition ExprOpLoad_GetZ3Expr :: "'t z3_api \<Rightarrow> expr \<Rightarrow> 't list \<Rightarrow> 't res" where
  "ExprOpLoad_GetZ3Expr api e zs =
     bindR (assertR (length zs = 2) '''') (\<lambda>_.
     z_apply api z3_select [zs ! 0, zs ! 1])"

definition ExprOpStore_GetZ3Expr :: "'t z3_api \<Rightarrow> expr \<Rightarrow> 't list \<Rightarrow> 't res" where
  "ExprOpStore_GetZ3Expr api e zs =
     bindR (assertR (length zs = 3) ''Store takes 3 arguments.'') (\<lambda>_.
     z_apply api z3_store [zs ! 0, zs ! 1, zs ! 2])"

definition ExprOpConcat_GetZ3Expr :: "'t z3_api \<Rightarrow> expr \<Rightarrow> 't list \<Rightarrow> 't res" where
  "ExprOpConcat_GetZ3Expr api e zs =
     bindR (assertR (length zs = 2) ''Concat takes 2 arguments.'') (\<lambda>_.
     z_apply api z3_concat [zs ! 0, zs ! 1])"

definition ExprOpExtract_GetZ3Expr :: "'t z3_api \<Rightarrow> expr \<Rightarrow> 't list \<Rightarrow> 't res" where
  "ExprOpExtract_GetZ3Expr api e zs =
     bindR (assertR (length zs = 1) ''Extract take 1 argument.'') (\<lambda>_.
     bindR (assertR (length (params e) = 2) ''Extract need two parameters.'') (\<lambda>_.
     z_apply api (z3_extract (to_unsigned (params e ! 0)) (to_unsigned (params e ! 1))) [zs ! 0]))"

definition ExprOpZExt_GetZ3Expr :: "'t z3_api \<Rightarrow> expr \<Rightarrow> 't list \<Rightarrow> 't res" where
  "ExprOpZExt_GetZ3Expr api e zs =
     bindR (assertR (length zs = 1) ''Extend take 1 argument.'') (\<lambda>_.
     bindR (assertR (length (params e) = 1) ''Extend need one parameter.'') (\<lambda>_.
     bindR (at (args e) 0) (\<lambda>a. bindR (bit_width (esort a)) (\<lambda>org_wid.
     Z3ZExt api (zs ! 0) (to_unsigned (params e ! 0 - org_wid))))))"

definition ExprOpSExt_GetZ3Expr :: "'t z3_api \<Rightarrow> expr \<Rightarrow> 't list \<Rightarrow> 't res" where
  "ExprOpSExt_GetZ3Expr api e zs =
     bindR (assertR (length zs = 1) ''Extend take 1 argument.'') (\<lambda>_.
     bindR (assertR (length (params e) = 1) ''Extend need one parameter.'') (\<lambda>_.
     bindR (at (args e) 0) (\<lambda>a. bindR (bit_width (esort a)) (\<lambda>org_wid.
     Z3SExt api (zs ! 0) (to_unsigned (params e ! 0 - org_wid))))))"

definition ExprOpLRotate_GetZ3Expr :: "'t z3_api \<Rightarrow> expr \<Rightarrow> 't list \<Rightarrow> 't res" where
  "ExprOpLRotate_GetZ3Expr api e zs =
     bindR (assertR (length zs = 1) ''Rotate takes 1 argument.'') (\<lambda>_.
     bindR (assertR (length (params e) = 1) ''Rotate takes 1 parameter.'') (\<lambda>_.
     Z3LRotate api (zs ! 0) (to_unsigned (params e ! 0))))"

definition ExprOpRRotate_GetZ3Expr :: "'t z3_api \<Rightarrow> expr \<Rightarrow> 't list \<Rightarrow> 't res" where
  "ExprOpRRotate_GetZ3Expr api e zs =
     bindR (assertR (length zs = 1) ''Rotate takes 1 argument.'') (\<lambda>_.
     bindR (assertR (length (params e) = 1) ''Rotate takes 1 parameter.'') (\<lambda>_.
     Z3RRotate api (zs ! 0) (to_unsigned (params e ! 0))))"

definition ExprOpImply_GetZ3Expr :: "'t z3_api \<Rightarrow> expr \<Rightarrow> 't list \<Rightarrow> 't res" where
  "ExprOpImply_GetZ3Expr api e zs =
     bindR (assertR (length zs = 2) ''Imply takes two arguments.'') (\<lambda>_.
     Z3Implies api (zs ! 0) (zs ! 1))"

definition ExprOpIte_GetZ3Expr :: "'t z3_api \<Rightarrow> expr \<Rightarrow> 't list \<Rightarrow> 't res" where
  "ExprOpIte_GetZ3Expr api e zs =
     bindR (assertR (length zs = 3) ''Ite takes 3 arguments.'') (\<lambda>_.
     z_apply api z3_ite [zs ! 0, zs ! 1, zs ! 2])"

definition ExprOpAppFunc_GetZ3Expr ::
  "'t z3_api \<Rightarrow> world \<Rightarrow> expr \<Rightarrow> func option \<Rightarrow> 't list \<Rightarrow> string \<Rightarrow> 't res" where
  "ExprOpAppFunc_GetZ3Expr api w e f zs suffix =
     bindR (not_null f) (\<lambda>f.
     if zs = [] then
       bindR (host_prefix w (host e)) (\<lambda>prefix.
       sort_GetZ3Expr api (f_out f) (format_str (f_sym f) prefix suffix))
     else
       bindR (GetZ3FuncDecl w f) (\<lambda>(name, domains, range).
       z_function api name domains range zs))"

text \<open>The virtual dispatch over the operator classes.\<close>

primrec op_GetZ3Expr :: "AstUidExprOp \<Rightarrow> 't z3_api \<Rightarrow> expr \<Rightarrow> 't list \<Rightarrow> 't res" where
  "op_GetZ3Expr kInvalid = (\<lambda>api e zs. Inl NullPtr)"
| "op_GetZ3Expr kNegate = ExprOpNeg_GetZ3Expr"
| "op_GetZ3Expr kNot = ExprOpNot_GetZ3Expr"
| "op_GetZ3Expr kComplement = ExprOpCompl_GetZ3Expr"
| "op_GetZ3Expr kAnd = ExprOpAnd_GetZ3Expr"
| "op_GetZ3Expr kOr = ExprOpOr_GetZ3Expr"
| "op_GetZ3Expr kXor = ExprOpXor_GetZ3Expr"
| "op_GetZ3Expr kShiftLeft = ExprOpShl_GetZ3Expr"
| "op_GetZ3Expr kArithShiftRight = ExprOpAshr_GetZ3Expr"
| "op_GetZ3Expr kLogicShiftRight = ExprOpLshr_GetZ3Expr"
| "op_GetZ3Expr kAdd = ExprOpAdd_GetZ3Expr"
| "op_GetZ3Expr kSubtract = ExprOpSub_GetZ3Expr"
| "op_GetZ3Expr kMultiply = ExprOpMul_GetZ3Expr"
| "op_GetZ3Expr kEqual = ExprOpEq_GetZ3Expr"
| "op_GetZ3Expr kLessThan = ExprOpLt_GetZ3Expr"
| "op_GetZ3Expr kGreaterThan = ExprOpGt_GetZ3Expr"
| "op_GetZ3Expr kUnsignedLessThan = ExprOpUlt_GetZ3Expr"
| "op_GetZ3Expr kUnsignedGreaterThan = ExprOpUgt_GetZ3Expr"
| "op_GetZ3Expr kLoad = ExprOpLoad_GetZ3Expr"
| "op_GetZ3Expr kStore = ExprOpStore_GetZ3Expr"
| "op_GetZ3Expr kConcatenate = ExprOpConcat_GetZ3Expr"
| "op_GetZ3Expr kExtract = ExprOpExtract_GetZ3Expr"
| "op_GetZ3Expr kZeroExtend = ExprOpZExt_GetZ3Expr"
| "op_GetZ3Expr kSignedExtend = ExprOpSExt_GetZ3Expr"
| "op_GetZ3Expr kApplyFunc = (\<lambda>api e zs. Inl NullPtr)"
| "op_GetZ3Expr kImply = ExprOpImply_GetZ3Expr"
| "op_GetZ3Expr kIfThenElse = ExprOpIte_GetZ3Expr"
| "op_GetZ3Expr kDivide = ExprOpDiv_GetZ3Expr"
| "op_GetZ3Expr kRotateLeft = ExprOpLRotate_GetZ3Expr"
| "op_GetZ3Expr kRotateRight = ExprOpRRotate_GetZ3Expr"
| "op_GetZ3Expr kSignedRemainder = ExprOpSRem_GetZ3Expr"
| "op_GetZ3Expr kUnsignedRemainder = ExprOpURem_GetZ3Expr"
| "op_GetZ3Expr kSignedModular = ExprOpSMod_GetZ3Expr"

fun GetZ3Expr :: "'t z3_api \<Rightarrow> world \<Rightarrow> expr \<Rightarrow> 't list \<Rightarrow> string \<Rightarrow> 't res" where
  "GetZ3Expr api w (ExprVar y s h) zs suffix = ExprVar_GetZ3Expr api w (ExprVar y s h) suffix"
| "GetZ3Expr api w (ExprConst y s v) zs suffix = ExprConst_GetZ3Expr api s v zs"
| "GetZ3Expr api w (ExprOp y u s as ps f h) zs suffix =
     (if u = kApplyFunc then ExprOpAppFunc_GetZ3Expr api w (ExprOp y u s as ps f h) f zs suffix
      else op_GetZ3Expr u api (ExprOp y u s as ps f h) zs)"

subsection \<open>The adapter\<close>

text \<open>The cache is keyed by expressions, that is by their identifiers.  The handler of
  \<^verbatim>\<open>operator()\<close> catches the exceptions of z3 and only logs them.\<close>

type_synonym 't z3_map = "nat \<rightharpoonup> 't"

definition PopulateExprMap ::
  "'t z3_api \<Rightarrow> world \<Rightarrow> string \<Rightarrow> expr \<Rightarrow> 't z3_map \<Rightarrow> 't z3_map res" where
  "PopulateExprMap api w suffix e m =
     bindR (mapR (\<lambda>a. bindR (assertR (m (eid a) \<noteq> None) ''No expressions found for argument'')
                        (\<lambda>_. Inr (the (m (eid a))))) (args e)) (\<lambda>expr_vec.
     bindR (GetZ3Expr api w e expr_vec suffix) (\<lambda>res.
     bindR (z_simplify api res) (\<lambda>res.
     Inr (if m (eid e) = None then m(eid e \<mapsto> res) else m))))"

definition z3_visit :: "'t z3_api \<Rightarrow> world \<Rightarrow> string \<Rightarrow> expr \<Rightarrow> ('t z3_map, unit) action" where
  "z3_visit api w suffix e = (\<lambda>m.
     if m (eid e) \<noteq> None then Inr ((), m)
     else case PopulateExprMap api w suffix e m of
         Inr m' \<Rightarrow> Inr ((), m')
       | Inl (Thrown msg) \<Rightarrow> Inr ((), m)
       | Inl x \<Rightarrow> Inl x)"

definition GetExpr :: "'t z3_api \<Rightarrow> world \<Rightarrow> expr \<Rightarrow> string \<Rightarrow> 't res" where
  "GetExpr api w e suffix =
     bindR (DepthFirstVisit (z3_visit api w suffix) e Map.empty) (\<lambda>(_, m).
     bindR (assertR (m (eid e) \<noteq> None) ''z3 expr cannot be generated.'') (\<lambda>_.
     Inr (the (m (eid e)))))"

end
