(* ===== verification/Z3_Sound.thy ===== *)
theory Z3_Sound
  imports Z3_Adapter Ila_Inv Hash_Ast
begin

text \<open>
  Soundness of the translation to z3: under the documented laws of the z3 interface
  (\<open>z3_laws\<close>) the adapter terminates without a fault on every translatable expression and
  returns a term that denotes the expression; \<open>z3_model\<close> is a library that satisfies the laws.
  The traversal argument (\<open>translator\<close>) is shared with the translation to smt-switch.
\<close>

subsection \<open>A traversal that fills a cache\<close>

lemma sub_chain: "A \<subseteq> B \<union> Y \<Longrightarrow> B \<subseteq> C \<union> X \<Longrightarrow> Z = X \<union> Y \<Longrightarrow> A \<subseteq> C \<union> Z"
  by blast

lemma map_le_Some: "m \<subseteq>\<^sub>m m' \<Longrightarrow> m k = Some v \<Longrightarrow> m' k = Some v"
  unfolding map_le_def dom_def by auto

lemma map_le_known: "m \<subseteq>\<^sub>m m' \<Longrightarrow> m k \<noteq> None \<Longrightarrow> m' k \<noteq> None"
  unfolding map_le_def dom_def by auto

locale translator =
  fixes node :: "expr \<Rightarrow> ('s, unit) action"
    and cache :: "'s \<Rightarrow> nat \<rightharpoonup> 't"
    and inv :: "'s \<Rightarrow> bool"
    and S :: "expr set"
  assumes closed: "dag S"
    and node_ok: "e \<in> S \<Longrightarrow> inv s \<Longrightarrow> cache s (eid e) = None \<Longrightarrow>
      \<forall>a\<in>set (args e). cache s (eid a) \<noteq> None \<Longrightarrow>
      \<exists>s'. node e s = Inr ((), s') \<and> inv s' \<and> cache s \<subseteq>\<^sub>m cache s' \<and> cache s' (eid e) \<noteq> None
        \<and> dom (cache s') \<subseteq> insert (eid e) (dom (cache s))"
begin

text \<open>The run succeeds, caches \<open>X\<close>, and caches nothing outside the subexpressions of \<open>X\<close>.\<close>

definition fills :: "'s \<Rightarrow> ('s, unit) action \<Rightarrow> expr set \<Rightarrow> bool" where
  "fills s m X \<longleftrightarrow> (\<exists>s'. m s = Inr ((), s') \<and> inv s' \<and> cache s \<subseteq>\<^sub>m cache s'
     \<and> (\<forall>x\<in>X. cache s' (eid x) \<noteq> None) \<and> dom (cache s') \<subseteq> dom (cache s) \<union> eid ` (\<Union>x\<in>X. subexprs x))"

lemma fills_single: "fills s m {e} \<longleftrightarrow> (\<exists>s'. m s = Inr ((), s') \<and> inv s' \<and> cache s \<subseteq>\<^sub>m cache s'
     \<and> cache s' (eid e) \<noteq> None \<and> dom (cache s') \<subseteq> dom (cache s) \<union> eid ` subexprs e)"
  by (simp add: fills_def)

lemma loop_fills:
  assumes "\<And>a s. a \<in> set as \<Longrightarrow> inv s \<Longrightarrow> fills s (f a) {a}" "inv s"
  shows "fills s (forM as f) (set as)"
  using assms
proof (induction as arbitrary: s)
  case Nil
  then show ?case by (simp add: fills_def)
next
  case (Cons a as)
  have "fills s (f a) {a}" using Cons.prems by simp
  then obtain s1 where 1: "f a s = Inr ((), s1)" "inv s1" "cache s \<subseteq>\<^sub>m cache s1" "cache s1 (eid a) \<noteq> None"
      "dom (cache s1) \<subseteq> dom (cache s) \<union> eid ` subexprs a" unfolding fills_single by (elim exE conjE)
  have "fills s1 (forM as f) (set as)" by (rule Cons.IH [OF _ 1(2)]) (simp add: Cons.prems(1))
  then obtain s2 where 2: "forM as f s1 = Inr ((), s2)" "inv s2" "cache s1 \<subseteq>\<^sub>m cache s2"
      "\<forall>x\<in>set as. cache s2 (eid x) \<noteq> None"
      "dom (cache s2) \<subseteq> dom (cache s1) \<union> eid ` (\<Union>x\<in>set as. subexprs x)" unfolding fills_def by (elim exE conjE)
  have "cache s2 (eid a) \<noteq> None" by (rule map_le_known [OF 2(3) 1(4)])
  then have all: "\<forall>x\<in>set (a # as). cache s2 (eid x) \<noteq> None" using 2(4) by simp
  have "eid ` (\<Union>x\<in>set (a # as). subexprs x) =
      eid ` subexprs a \<union> eid ` (\<Union>x\<in>set as. subexprs x)" by (simp only: list.simps(15) UN_insert image_Un)
  then have sub: "dom (cache s2) \<subseteq> dom (cache s) \<union> eid ` (\<Union>x\<in>set (a # as). subexprs x)"
    by (rule sub_chain [OF 2(5) 1(5)])
  have run: "forM (a # as) f s = Inr ((), s2)"
    unfolding forM.simps thenM_run [where m = "f a", OF 1(1)] by (rule 2(1))
  show ?case
    unfolding fills_def by (intro exI [of _ s2] conjI run 2(2) map_le_trans [OF 1(3) 2(3)] all sub)
qed

lemma args_fill:
  assumes e: "e \<in> S" and f: "\<And>a s. a \<in> set (args e) \<Longrightarrow> inv s \<Longrightarrow> fills s (f a) {a}" and s: "inv s"
  obtains s1 where "forM (args e) f s = Inr ((), s1)" "inv s1" "cache s \<subseteq>\<^sub>m cache s1"
    "\<forall>a\<in>set (args e). cache s1 (eid a) \<noteq> None" "cache s1 (eid e) = cache s (eid e)"
    "dom (cache s1) \<subseteq> dom (cache s) \<union> eid ` subexprs e"
proof -
  have "fills s (forM (args e) f) (set (args e))"
    by (rule loop_fills) (rule f, assumption+, rule s)
  then obtain s1 where 1: "forM (args e) f s = Inr ((), s1)" "inv s1" "cache s \<subseteq>\<^sub>m cache s1"
      "\<forall>a\<in>set (args e). cache s1 (eid a) \<noteq> None"
      "dom (cache s1) \<subseteq> dom (cache s) \<union> eid ` (\<Union>a\<in>set (args e). subexprs a)"
    unfolding fills_def by (elim exE conjE)
  have "e \<notin> subexprs a" if "a \<in> set (args e)" for a
    using subexprs_size [of e a] size_args [OF that] by auto
  moreover have "subexprs a \<subseteq> S" if "a \<in> set (args e)" for a
  proof (rule dag_subexprs [OF closed])
    show "a \<in> S" using that e closed by (auto simp: dag_def)
  qed
  ultimately have "e \<notin> (\<Union>a\<in>set (args e). subexprs a)" "(\<Union>a\<in>set (args e). subexprs a) \<subseteq> S" by blast+
  then have new: "eid e \<notin> eid ` (\<Union>a\<in>set (args e). subexprs a)"
    using inj_on_image_mem_iff [of eid S e] e closed by (simp add: dag_def)
  have "cache s1 (eid e) = cache s (eid e)"
  proof (cases "cache s (eid e)")
    case None
    then have "eid e \<notin> dom (cache s)" by (simp add: domIff)
    then have "eid e \<notin> dom (cache s1)" using new subsetD [OF 1(5), of "eid e"] by (auto simp del: image_iff)
    then show ?thesis using None by (simp add: domIff)
  next
    case (Some t)
    then show ?thesis using map_le_Some [OF 1(3)] by simp
  qed
  moreover have "(\<Union>a\<in>set (args e). subexprs a) \<subseteq> subexprs e" by (subst (2) subexprs_unfold) blast
  then have "dom (cache s1) \<subseteq> dom (cache s) \<union> eid ` subexprs e"
    by (intro order_trans [OF 1(5)] Un_mono order_refl image_mono)
  from that [OF 1(1-4) calculation this] show ?thesis .
qed

lemma visit_fills:
  assumes e: "e \<in> S" and s: "inv s" "cache s (eid e) = None"
    and f: "\<And>a s. a \<in> set (args e) \<Longrightarrow> inv s \<Longrightarrow> fills s (f a) {a}"
  shows "fills s (thenM (forM (args e) f) (node e)) {e}"
proof -
  obtain s1 where 1: "forM (args e) f s = Inr ((), s1)" "inv s1" "cache s \<subseteq>\<^sub>m cache s1"
      "\<forall>a\<in>set (args e). cache s1 (eid a) \<noteq> None" "cache s1 (eid e) = cache s (eid e)"
      "dom (cache s1) \<subseteq> dom (cache s) \<union> eid ` subexprs e"
    using args_fill [OF e f s(1)] .
  have "cache s1 (eid e) = None" using 1(5) s(2) by simp
  from node_ok [OF e 1(2) this 1(4)] obtain s2 where
    2: "node e s1 = Inr ((), s2)" "inv s2" "cache s1 \<subseteq>\<^sub>m cache s2" "cache s2 (eid e) \<noteq> None"
      "dom (cache s2) \<subseteq> insert (eid e) (dom (cache s1))" by blast
  have "eid e \<in> eid ` subexprs e" by (rule imageI) simp
  then have "dom (cache s2) \<subseteq> dom (cache s) \<union> eid ` subexprs e"
    using 2(5) 1(6) by blast
  then show ?thesis
    unfolding fills_def thenM_run [where m = "forM (args e) f", OF 1(1)]
    using 2 map_le_trans [OF 1(3) 2(3)] by auto
qed

lemma in_args: "e \<in> S \<Longrightarrow> a \<in> set (args e) \<Longrightarrow> a \<in> S"
  using closed by (auto simp: dag_def)

lemma known_fills: "inv s \<Longrightarrow> cache s (eid e) \<noteq> None \<Longrightarrow> m s = Inr ((), s) \<Longrightarrow> fills s m {e}"
  by (auto simp: fills_def)

lemma PrePost_fills:
  assumes pre: "\<And>e s. pre e s \<longleftrightarrow> cache s (eid e) \<noteq> None"
  shows "e \<in> S \<Longrightarrow> inv s \<Longrightarrow> fills s (DepthFirstVisitPrePost pre node e) {e}"
proof (induction e arbitrary: s rule: measure_induct_rule [of size])
  case (less e)
  have eq: "DepthFirstVisitPrePost pre node e s = (if cache s (eid e) \<noteq> None then Inr ((), s)
      else thenM (forM (args e) (DepthFirstVisitPrePost pre node)) (node e) s)"
    by (subst DepthFirstVisitPrePost.simps) (simp only: pre)
  show ?case
  proof (cases "cache s (eid e)")
    case None
    have "fills s (thenM (forM (args e) (DepthFirstVisitPrePost pre node)) (node e)) {e}"
      by (rule visit_fills [OF less.prems None]) (blast intro: less.IH size_args in_args less.prems(1))
    then show ?thesis using eq None by (simp add: fills_def)
  next
    case (Some t)
    then show ?thesis using eq less.prems(2) by (simp add: known_fills)
  qed
qed

end

text \<open>A visitor that checks the cache itself.\<close>

locale checking_translator = translator +
  assumes known: "cache s (eid e) \<noteq> None \<Longrightarrow> node e s = Inr ((), s)"
begin

lemma DepthFirst_fills: "e \<in> S \<Longrightarrow> inv s \<Longrightarrow> fills s (DepthFirstVisit node e) {e}"
proof (induction e arbitrary: s rule: measure_induct_rule [of size])
  case (less e)
  have f: "fills s (DepthFirstVisit node a) {a}" if "a \<in> set (args e)" "inv s" for a s
    using that less.IH size_args in_args less.prems(1) by blast
  show ?case
  proof (cases "cache s (eid e)")
    case None
    show ?thesis
      unfolding DepthFirstVisit.simps [of node e]
      by (rule visit_fills [OF less.prems None]) (rule f)
  next
    case (Some t)
    obtain s1 where 1: "forM (args e) (DepthFirstVisit node) s = Inr ((), s1)" "inv s1" "cache s \<subseteq>\<^sub>m cache s1"
        "cache s1 (eid e) = cache s (eid e)" "dom (cache s1) \<subseteq> dom (cache s) \<union> eid ` subexprs e"
      using args_fill [OF less.prems(1) f less.prems(2)] by metis
    have "node e s1 = Inr ((), s1)" using 1(4) Some by (intro known) simp
    then show ?thesis
      unfolding fills_def DepthFirstVisit.simps [of node e]
        thenM_run [where m = "forM (args e) (DepthFirstVisit node)", OF 1(1)]
      using 1 Some by auto
  qed
qed

end

subsection \<open>The laws of the z3 interface\<close>

definition const_mem :: "int \<Rightarrow> val \<Rightarrow> val" where
  "const_mem aw v = (case v of VBv dw x \<Rightarrow> VMem aw dw (\<lambda>a. if in_bv aw a then x else 0)
     | _ \<Rightarrow> VBool False)"

locale z3_laws = lib_apply "\<lambda>L. z_apply api (z3_of L)" tsort den
  for api :: "'t z3_api" and tsort :: "'t \<Rightarrow> sort" and den :: "interp \<Rightarrow> 't \<Rightarrow> val" +
  assumes const_ok: "of_msort ms = Some s \<Longrightarrow>
      \<exists>t. z_const api n ms = Inr t \<and> tsort t = s \<and> (\<forall>I. den I t = ivar I n s)"
    and bool_ok: "tsort (z_bool_val api b) = SortBool \<and> den I (z_bool_val api b) = VBool b"
    and bv_ok: "0 < w \<Longrightarrow> \<exists>t. z_bv_val api v w = Inr t \<and> tsort t = SortBv w
      \<and> (\<forall>I. den I t = VBv w (trunc w (uint v)))"
    and bv_str_ok: "0 < w \<Longrightarrow> \<exists>t. z_bv_val_str api (to_string k) w = Inr t \<and> tsort t = SortBv w
      \<and> (\<forall>I. den I t = VBv w (trunc w (int k)))"
    and array_ok: "0 < aw \<Longrightarrow> tsort t = SortBv dw \<Longrightarrow>
      \<exists>r. z_const_array api (MBv aw) t = Inr r \<and> tsort r = SortMem aw dw
      \<and> (\<forall>I. den I r = const_mem aw (den I t))"
    and fun_ok: "ts \<noteq> [] \<Longrightarrow> map of_msort ds = map (\<lambda>t. Some (tsort t)) ts \<Longrightarrow> of_msort r = Some s \<Longrightarrow>
      \<exists>t. z_function api n ds r ts = Inr t \<and> tsort t = s
      \<and> (\<forall>I. den I t = ifun I n (map tsort ts) s (map (den I) ts))"
    and simplify_ok: "\<exists>r. z_simplify api t = Inr r \<and> tsort r = tsort t \<and> (\<forall>I. den I r = den I t)"

subsection \<open>What a name stands for\<close>

definition prefix_of :: "string res \<Rightarrow> string" where
  "prefix_of r = (case r of Inr p \<Rightarrow> p | Inl _ \<Rightarrow> [])"

definition z3_env :: "world \<Rightarrow> string \<Rightarrow> interp \<Rightarrow> env" where
  "z3_env w suffix I = (\<lambda>e. ivar I (format_str (sym e) (prefix_of (root_prefix w (host e))) suffix) (esort e))"

definition z3_finterp :: "world \<Rightarrow> string \<Rightarrow> interp \<Rightarrow> finterp" where
  "z3_finterp w suffix I = (\<lambda>g vs.
     if vs = [] then ivar I (format_str (f_sym g) [] suffix) (f_out g)
     else ifun I (format_str (f_sym g) (prefix_of (host_prefix w (f_host g))) []) (f_args g) (f_out g) vs)"

lemma z3_env_ok: "interp_ok I \<Longrightarrow> env_ok (z3_env w sfx I) \<and> finterp_ok (z3_finterp w sfx I)"
  unfolding interp_ok_def env_ok_def finterp_ok_def
  by (auto simp: z3_env_def z3_finterp_def)

definition host_ok :: "world \<Rightarrow> nat option \<Rightarrow> bool" where
  "host_ok w h \<longleftrightarrow> (\<forall>i. h = Some i \<longrightarrow> i \<in> dom (ila_heap w))"

text \<open>What a node needs: checked operands, widths of type \<^verbatim>\<open>int\<close>, hosts that exist, and no
  host on a call without arguments.\<close>

definition z3_ready :: "world \<Rightarrow> expr \<Rightarrow> bool" where
  "z3_ready w e \<longleftrightarrow> smt_expr e \<and> int_node e \<and> host_ok w (host e)
     \<and> (\<forall>g. efunc e = Some g \<longrightarrow> host_ok w (f_host g) \<and> (args e = [] \<longrightarrow> host e = None))"

lemma root_prefix_ok:
  "world_ok w \<Longrightarrow> host_ok w h \<Longrightarrow> root_prefix w h = Inr (prefix_of (root_prefix w h))"
  using GetRootName_total [of w]
  by (fastforce simp: root_prefix_def prefix_of_def host_ok_def not_null_def split: option.splits)

lemma host_prefix_ok: "host_ok w h \<Longrightarrow> host_prefix w h = Inr (prefix_of (host_prefix w h))"
  by (auto simp: host_prefix_def prefix_of_def host_ok_def not_null_def split: option.splits)

lemma of_GetZ3Sort: "int_sort s \<Longrightarrow> pos_sort s \<Longrightarrow> of_msort (GetZ3Sort s) = Some s"
  by (cases s) (auto simp: SortBool_GetZ3Sort_def SortBv_GetZ3Sort_def SortMem_GetZ3Sort_def)

lemma sort_GetZ3Expr_const: "sort_GetZ3Expr api s n = z_const api n (GetZ3Sort s)"
  by (cases s) (simp_all add: SortBool_GetZ3Sort_def SortBv_GetZ3Sort_def SortMem_GetZ3Sort_def
    SortBool_GetZ3Expr_def SortBv_GetZ3Expr_def SortMem_GetZ3Expr_def)

lemma smt_pos:
  assumes "smt_expr e"
  shows "pos_sort (esort e)"
proof -
  from eval_sort [OF zero_env assms] show ?thesis by (rule has_sort_pos)
qed

subsection \<open>Nodes\<close>

lemmas z3_op_defs = ExprOpNeg_GetZ3Expr_def ExprOpNot_GetZ3Expr_def ExprOpCompl_GetZ3Expr_def
  ExprOpAnd_GetZ3Expr_def ExprOpOr_GetZ3Expr_def ExprOpXor_GetZ3Expr_def ExprOpShl_GetZ3Expr_def
  ExprOpAshr_GetZ3Expr_def ExprOpLshr_GetZ3Expr_def ExprOpAdd_GetZ3Expr_def ExprOpSub_GetZ3Expr_def
  ExprOpDiv_GetZ3Expr_def ExprOpSRem_GetZ3Expr_def ExprOpURem_GetZ3Expr_def ExprOpSMod_GetZ3Expr_def
  ExprOpMul_GetZ3Expr_def ExprOpEq_GetZ3Expr_def ExprOpLt_GetZ3Expr_def ExprOpGt_GetZ3Expr_def
  ExprOpUlt_GetZ3Expr_def ExprOpUgt_GetZ3Expr_def ExprOpLoad_GetZ3Expr_def ExprOpStore_GetZ3Expr_def
  ExprOpConcat_GetZ3Expr_def ExprOpExtract_GetZ3Expr_def ExprOpZExt_GetZ3Expr_def
  ExprOpSExt_GetZ3Expr_def ExprOpLRotate_GetZ3Expr_def ExprOpRRotate_GetZ3Expr_def
  ExprOpImply_GetZ3Expr_def ExprOpIte_GetZ3Expr_def

lemmas z3_helper_defs = Z3Implies_def Z3Shl_def Z3Ashr_def Z3Lshr_def Z3SRem_def Z3URem_def
  Z3SMod_def Z3ZExt_def Z3SExt_def Z3LRotate_def Z3RRotate_def

lemma op_shape_params:
  assumes "op_sort u ss ps None = Some s" "op_shape u ps None"
  shows "length ss = op_arity u" "length ps = op_params u"
  using assms op_sort_arity op_sort_nparams by (auto simp: op_shape_def)

text \<open>The operators with parameters: one bit-vector operand, parameters in range.\<close>

lemma param_op_cases:
  assumes e: "smt_expr (ExprOp y u s as ps None h)" "int_node (ExprOp y u s as ps None h)"
    and u: "op_params u \<noteq> 0" and zs: "length zs = length as"
    and as: "\<forall>a\<in>set as. int_sort (esort a) \<and> pos_sort (esort a)"
  obtains
    a z wd hi lo where "as = [a]" "zs = [z]" "esort a = SortBv wd" "0 < wd" "u = kExtract"
      "ps = [hi, lo]" "0 \<le> lo" "lo \<le> hi" "hi < 2 ^ 31"
  | a z wd n where "as = [a]" "zs = [z]" "esort a = SortBv wd" "0 < wd"
      "u \<in> {kZeroExtend, kSignedExtend}" "ps = [n]" "wd \<le> n" "n < 2 ^ 31"
  | a z wd n where "as = [a]" "zs = [z]" "esort a = SortBv wd" "0 < wd"
      "u \<in> {kRotateLeft, kRotateRight}" "ps = [n]" "0 \<le> n" "n < 2 ^ 31"
proof -
  have wf: "op_sort u (map esort as) ps None = Some s" "smt_op u (map esort as) ps" "op_shape u ps None"
    using e(1) by auto
  note len = op_shape_params [OF wf(1,3)]
  obtain a z where a: "as = [a]" "zs = [z]"
    using len zs u by (auto simp: op_params_def op_arity_def length_Suc_conv split: if_splits)
  obtain wd where wd: "esort a = SortBv wd" "0 < wd"
    using wf(1) a as u by (auto simp: op_params_def split: if_splits)
  have ps: "\<forall>p\<in>set ps. p < 2 ^ 31" using e(2) by (simp add: int_node_def)
  consider hi lo where "u = kExtract" "ps = [hi, lo]" "0 \<le> lo" "lo \<le> hi" |
    n where "u \<in> {kZeroExtend, kSignedExtend}" "ps = [n]" "wd \<le> n" |
    n where "u \<in> {kRotateLeft, kRotateRight}" "ps = [n]" "0 \<le> n"
    using u len wf(1,2) a wd
    by (auto simp: op_params_def smt_op.simps split: if_splits list.splits)
  then show ?thesis
    by cases (use that a wd ps in auto)
qed

text \<open>Each operator class calls the function of z3 for its operator.\<close>

lemma op_GetZ3Expr_lib:
  assumes e: "smt_expr (ExprOp y u s as ps None h)" "int_node (ExprOp y u s as ps None h)"
    and L: "lib_of u (map esort as) ps = Some L" and zs: "length zs = length as"
    and as: "\<forall>a\<in>set as. int_sort (esort a) \<and> pos_sort (esort a)"
  shows "op_GetZ3Expr u api (ExprOp y u s as ps None h) zs = z_apply api (z3_of L) zs"
proof -
  have wf: "op_sort u (map esort as) ps None = Some s" "smt_op u (map esort as) ps" "op_shape u ps None"
    using e(1) by auto
  note len = op_shape_params [OF wf(1,3)]
  show ?thesis
  proof (cases "op_params u = 0")
    case True
    then show ?thesis
      using wf L zs len
      by (cases u)
         (auto simp: op_arity_def op_params_def z3_op_defs z3_helper_defs same2_Some smt_op.simps
            bool_or_bv_def is_bv_0_iff not_mem length_Suc_conv numeral_2_eq_2 numeral_3_eq_3
            split: if_splits)
  next
    case False
    from param_op_cases [OF e False zs as] show ?thesis
      using L by cases (auto simp: z3_op_defs z3_helper_defs at_def)
  qed
qed

lemma mem_fun_foldl:
  "mem_fun aw dw def (rev ps) = foldl (\<lambda>g (a, d). g(trunc aw (uint a) := trunc dw (uint d)))
     (mem_fun aw dw def []) ps"
proof (induction ps rule: rev_induct)
  case (snoc p ps)
  then show ?case by (cases p) (simp del: mem_fun.simps(1))
qed simp

context z3_laws
begin

abbreviation rel :: "world \<Rightarrow> string \<Rightarrow> 't \<Rightarrow> expr \<Rightarrow> bool" where
  "rel w sfx \<equiv> term_rel tsort den (z3_env w sfx) (z3_finterp w sfx)"

text \<open>Leaves.\<close>

lemma var_ok:
  assumes "world_ok w" "z3_ready w (ExprVar y s h)"
  shows "\<exists>t. GetZ3Expr api w (ExprVar y s h) zs sfx = Inr t \<and> rel w sfx t (ExprVar y s h)"
proof -
  have s: "int_sort s" "pos_sort s" and h: "host_ok w h"
    using assms(2) by (auto simp: z3_ready_def int_node_def)
  obtain p where p: "root_prefix w h = Inr p" using root_prefix_ok [OF assms(1) h] ..
  from const_ok [OF of_GetZ3Sort [OF s], of "format_str y p sfx"] show ?thesis
    by (auto simp: p prefix_of_def ExprVar_GetZ3Expr_def sort_GetZ3Expr_const term_rel_def z3_env_def)
qed

lemma bv_word_ok:
  fixes v :: u64
  shows "0 < w \<Longrightarrow> \<exists>t. z_bv_val_str api (to_string (unat v)) w = Inr t \<and> tsort t = SortBv w
    \<and> (\<forall>I. den I t = VBv w (trunc w (uint v)))"
  using bv_str_ok [of w "unat v"] by (simp only: uint_nat)

lemma stores_ok:
  assumes "0 < aw" "aw < 2 ^ 31" "0 < dw" "dw < 2 ^ 31"
  shows "tsort e1 = SortMem aw dw \<Longrightarrow> \<forall>I. den I e1 = VMem aw dw (f I) \<Longrightarrow>
    \<exists>t. z3_stores api aw dw ps e1 = Inr t \<and> tsort t = SortMem aw dw
      \<and> (\<forall>I. den I t = VMem aw dw (foldl (\<lambda>g (a, d). g(trunc aw (uint a) := trunc dw (uint d))) (f I) ps))"
proof (induction ps arbitrary: e1 f)
  case Nil
  then show ?case by simp
next
  case (Cons p ps)
  obtain a d where p: "p = (a, d)" by (cases p)
  obtain ta where ta: "z_bv_val_str api (to_string (unat a)) aw = Inr ta" "tsort ta = SortBv aw"
      "\<And>I. den I ta = VBv aw (trunc aw (uint a))"
    using bv_word_ok [OF assms(1)] by blast
  obtain td where td: "z_bv_val_str api (to_string (unat d)) dw = Inr td" "tsort td = SortBv dw"
      "\<And>I. den I td = VBv dw (trunc dw (uint d))"
    using bv_word_ok [OF assms(3)] by blast
  obtain e2 where e2: "z_apply api z3_store [e1, ta, td] = Inr e2" "tsort e2 = SortMem aw dw"
      "\<And>I. den I e2 = smt_sem Lstore (map (den I) [e1, ta, td])"
    using app_ok [of Lstore "[e1, ta, td]"] Cons.prems(1) ta(2) td(2) by auto
  have "\<forall>I. den I e2 = VMem aw dw ((f I)(trunc aw (uint a) := trunc dw (uint d)))"
    using Cons.prems(2) ta(3) td(3) e2(3) by simp
  from Cons.IH [OF e2(2) this] show ?case
    using ta(1) td(1) e2(1) assms by (simp only: p z3_stores.simps bindR_simps foldl.simps prod.case
      to_unsigned_id order_less_imp_le)
qed

lemma const_val_ok:
  assumes "wf_const s v" "pos_sort s" "int_sort s"
  shows "\<exists>t. const_GetZ3Expr api s v = Inr t \<and> tsort t = s \<and> (\<forall>I. den I t = const_val s v)"
  using assms
proof (cases "(s, v)" rule: wf_const.cases)
  case (1 b)
  then show ?thesis using bool_ok by auto
next
  case (2 w x)
  then have "in_bv w (uint x)" using assms word_fits by auto
  then show ?thesis using 2 assms bv_ok [of w x] by (auto simp: trunc_id)
next
  case (3 a d def m)
  obtain t where t: "z_bv_val_str api (to_string (unat def)) d = Inr t" "tsort t = SortBv d"
      "\<And>I. den I t = VBv d (trunc d (uint def))"
    using bv_word_ok [of d] assms(2) 3 by auto
  obtain r where r: "z_const_array api (MBv a) t = Inr r" "tsort r = SortMem a d"
      "\<And>I. den I r = const_mem a (den I t)"
    using array_ok [of a t d] t(2) assms(2) 3 by auto
  have "\<forall>I. den I r = VMem a d (mem_fun a d def [])"
    using r(3) t(3) by (simp add: const_mem_def)
  from stores_ok [OF _ _ _ _ r(2) this, of m] show ?thesis
    using t(1) r(1) assms(2,3) 3 by (auto simp: mem_fun_foldl simp del: mem_fun.simps)
qed simp_all

lemma sorts_ok:
  assumes "list_all2 (rel w sfx) ts as"
  shows "map tsort ts = map esort as" "interp_ok I \<Longrightarrow>
    map (den I) ts = map (eval (z3_env w sfx I) (z3_finterp w sfx I)) as"
  using assms by (induction rule: list_all2_induct) (auto simp: term_rel_def)

lemma call_ok:
  assumes w: "world_ok w" and e: "z3_ready w (ExprOp y kApplyFunc s as ps (Some g) h)"
    and as: "\<forall>a\<in>set as. int_sort (esort a)" and ts: "list_all2 (rel w sfx) ts as"
  shows "\<exists>t. ExprOpAppFunc_GetZ3Expr api w (ExprOp y kApplyFunc s as ps (Some g) h) (Some g) ts sfx = Inr t
    \<and> rel w sfx t (ExprOp y kApplyFunc s as ps (Some g) h)"
proof -
  have g: "f_args g = map esort as" "f_out g = s" "pos_sort s" "int_sort s" "host_ok w (f_host g)"
    and h: "as = [] \<longrightarrow> h = None" and smt: "\<forall>a\<in>set as. smt_expr a"
    using e by (auto simp: z3_ready_def int_node_def list_all_iff split: if_splits)
  note sorts = sorts_ok [OF ts]
  show ?thesis
  proof (cases "as = []")
    case True
    then have "ts = []" using ts by simp
    from const_ok [OF of_GetZ3Sort [OF g(4,3)], of "format_str (f_sym g) [] sfx"] show ?thesis
      using True \<open>ts = []\<close> g h
      by (auto simp: ExprOpAppFunc_GetZ3Expr_def host_prefix_def sort_GetZ3Expr_const term_rel_def z3_finterp_def)
  next
    case False
    then have ne: "ts \<noteq> []" using ts by auto
    have "map of_msort (map GetZ3Sort (f_args g)) = map Some (map esort as)"
      using as smt smt_pos by (auto simp: of_GetZ3Sort g(1))
    then have ds: "map of_msort (map GetZ3Sort (f_args g)) = map (\<lambda>t. Some (tsort t)) ts"
      unfolding sorts(1) [symmetric] by (simp add: comp_def)
    obtain p where p: "host_prefix w (f_host g) = Inr p" using host_prefix_ok [OF g(5)] ..
    then have "GetZ3FuncDecl w g = Inr (format_str (f_sym g) p [], map GetZ3Sort (f_args g), GetZ3Sort s)"
      using g(2) by (simp add: GetZ3FuncDecl_def)
    with fun_ok [OF ne ds of_GetZ3Sort [OF g(4,3)]] show ?thesis
      using ne False g sorts p
      by (fastforce simp: ExprOpAppFunc_GetZ3Expr_def term_rel_def z3_finterp_def prefix_of_def)
  qed
qed

lemma GetZ3Expr_ok:
  assumes w: "world_ok w" and e: "z3_ready w e" and as: "\<forall>a\<in>set (args e). z3_ready w a"
    and ts: "list_all2 (rel w sfx) ts (args e)"
  shows "\<exists>t. GetZ3Expr api w e ts sfx = Inr t \<and> rel w sfx t e"
proof (cases e)
  case (ExprVar y s h)
  then show ?thesis using var_ok w e by simp
next
  case (ExprConst y s v)
  then show ?thesis
    using const_val_ok [of s v] e ts
    by (auto simp: z3_ready_def int_node_def ExprConst_GetZ3Expr_def term_rel_def)
next
  case (ExprOp y u s as ps f h)
  have ints: "\<forall>a\<in>set as. int_sort (esort a) \<and> pos_sort (esort a)"
    using as smt_pos by (auto simp: ExprOp z3_ready_def int_node_def)
  show ?thesis
  proof (cases f)
    case None
    obtain L t where L: "lib_of u (map esort as) ps = Some L" "z_apply api (z3_of L) ts = Inr t" "rel w sfx t e"
      using op_node [of "z3_env w sfx" "z3_finterp w sfx" y u s as ps h ts] z3_env_ok e ts
      by (auto simp: ExprOp None z3_ready_def)
    have "u \<noteq> kApplyFunc" using e by (auto simp: ExprOp None z3_ready_def op_shape_def)
    moreover have "op_GetZ3Expr u api e ts = z_apply api (z3_of L) ts"
      using op_GetZ3Expr_lib [OF _ _ L(1), of y s h ts api] e ts ints
      by (auto simp: ExprOp None z3_ready_def list_all2_lengthD)
    ultimately show ?thesis using L(2,3) by (simp add: ExprOp)
  next
    case (Some g)
    then have "u = kApplyFunc" using e by (auto simp: ExprOp z3_ready_def op_shape_def)
    then show ?thesis using call_ok [of w y s as ps g h sfx ts] w e ts ints by (simp add: ExprOp Some)
  qed
qed

text \<open>The adapter.\<close>

definition cached :: "world \<Rightarrow> string \<Rightarrow> expr set \<Rightarrow> 't z3_map \<Rightarrow> bool" where
  "cached w sfx S m \<longleftrightarrow> (\<forall>x\<in>S. \<forall>t. m (eid x) = Some t \<longrightarrow> rel w sfx t x)"

lemma cached_args:
  assumes "cached w sfx S m" "set as \<subseteq> S" "\<forall>a\<in>set as. m (eid a) \<noteq> None"
  shows "mapR (\<lambda>a. bindR (assertR (m (eid a) \<noteq> None) msg) (\<lambda>_. Inr (the (m (eid a))))) as =
      Inr (map (\<lambda>a. the (m (eid a))) as)"
    "list_all2 (rel w sfx) (map (\<lambda>a. the (m (eid a))) as) as"
  using assms by (auto simp: cached_def list_all2_map1 list_all2_same intro!: mapR_all)

lemma visit_ok:
  assumes w: "world_ok w" and S: "dag S" "\<forall>x\<in>S. z3_ready w x"
    and e: "e \<in> S" "cached w sfx S m" "\<forall>a\<in>set (args e). m (eid a) \<noteq> None" and None: "m (eid e) = None"
  shows "\<exists>m'. z3_visit api w sfx e m = Inr ((), m') \<and> cached w sfx S m' \<and> m \<subseteq>\<^sub>m m' \<and> m' (eid e) \<noteq> None
    \<and> dom m' \<subseteq> insert (eid e) (dom m)"
proof -
  have sub: "set (args e) \<subseteq> S" using S(1) e(1) by (auto simp: dag_def)
  note as = cached_args [OF e(2) sub e(3)]
  have ready: "z3_ready w e" "\<forall>a\<in>set (args e). z3_ready w a" using S(2) e(1) sub by auto
  obtain t where t: "GetZ3Expr api w e (map (\<lambda>a. the (m (eid a))) (args e)) sfx = Inr t" "rel w sfx t e"
    using GetZ3Expr_ok [OF w ready as(2)] by blast
  obtain r where r: "z_simplify api t = Inr r" "tsort r = tsort t" "\<And>I. den I r = den I t"
    using simplify_ok by blast
  have "PopulateExprMap api w sfx e m = Inr (m(eid e \<mapsto> r))"
    using as(1) t(1) r(1) None by (simp add: PopulateExprMap_def)
  moreover have "cached w sfx S (m(eid e \<mapsto> r))"
    using e(1,2) S(1) t(2) r(2,3) by (auto simp: cached_def term_rel_def dag_def dest: inj_onD)
  moreover have "m \<subseteq>\<^sub>m m(eid e \<mapsto> r)" using None by (auto simp: map_le_def)
  ultimately show ?thesis using None by (auto simp: z3_visit_def)
qed

end

text \<open>The visitor of the adapter fills its cache with terms of the expressions.\<close>

locale z3_run = z3_laws api tsort den
  for api :: "'t z3_api" and tsort :: "'t \<Rightarrow> sort" and den :: "interp \<Rightarrow> 't \<Rightarrow> val" +
  fixes w :: world and sfx :: string and S :: "expr set"
  assumes heap: "world_ok w" and closed_nodes: "dag S" and ready: "\<forall>x\<in>S. z3_ready w x"

sublocale z3_run \<subseteq> checking_translator "z3_visit api w sfx" "\<lambda>m. m" "cached w sfx S" S
  by unfold_locales (use closed_nodes visit_ok [OF heap closed_nodes ready] in \<open>auto simp: z3_visit_def\<close>)

context z3_run
begin

lemma GetExpr_ok:
  assumes e: "e \<in> S"
  shows "\<exists>t. GetExpr api w e sfx = Inr t \<and> rel w sfx t e"
proof -
  obtain m where "DepthFirstVisit (z3_visit api w sfx) e Map.empty = Inr ((), m)"
      "cached w sfx S m" "m (eid e) \<noteq> None"
    using DepthFirst_fills [OF e, of Map.empty] by (auto simp: fills_def cached_def)
  then show ?thesis using e by (auto simp: GetExpr_def cached_def)
qed

end

lemma z3_GetExpr:
  assumes "z3_laws api tsort den" "world_ok w" "dag S" "\<forall>x\<in>S. z3_ready w x" "e \<in> S"
  shows "\<exists>t. GetExpr api w e sfx = Inr t
    \<and> term_rel tsort den (z3_env w sfx) (z3_finterp w sfx) t e"
proof -
  have "z3_run api tsort den w S"
    using assms(1-4) by (simp add: z3_run_def z3_run_axioms_def)
  from z3_run.GetExpr_ok [OF this assms(5)] show ?thesis .
qed

subsection \<open>A library that satisfies the laws\<close>

text \<open>Terms are pairs of a sort and a denotation; an ill-sorted call throws.\<close>

type_synonym dterm = "sort \<times> (interp \<Rightarrow> val)"

definition den_apply :: "smtlib \<Rightarrow> dterm list \<Rightarrow> dterm res" where
  "den_apply L ts = (case smt_typed L (map fst ts) of
       Some s \<Rightarrow> Inr (s, \<lambda>I. smt_sem L (map (\<lambda>t. snd t I) ts))
     | None \<Rightarrow> Inl (Thrown ''sort mismatch''))"

primrec lib_of_z3 :: "z3_fn \<Rightarrow> smtlib" where
  "lib_of_z3 z3_neg = Lbvneg" | "lib_of_z3 z3_not = Lnot" | "lib_of_z3 z3_compl = Lbvnot"
| "lib_of_z3 z3_and = Land" | "lib_of_z3 z3_bvand = Lbvand" | "lib_of_z3 z3_or = Lor"
| "lib_of_z3 z3_bvor = Lbvor" | "lib_of_z3 z3_mk_xor = Lxor" | "lib_of_z3 z3_bvxor = Lbvxor"
| "lib_of_z3 z3_shl = Lbvshl" | "lib_of_z3 z3_ashr = Lbvashr" | "lib_of_z3 z3_lshr = Lbvlshr"
| "lib_of_z3 z3_add = Lbvadd" | "lib_of_z3 z3_sub = Lbvsub" | "lib_of_z3 z3_div = Lbvsdiv"
| "lib_of_z3 z3_srem = Lbvsrem" | "lib_of_z3 z3_urem = Lbvurem" | "lib_of_z3 z3_smod = Lbvsmod"
| "lib_of_z3 z3_mul = Lbvmul" | "lib_of_z3 z3_eq = Leq" | "lib_of_z3 z3_lt = Lbvslt"
| "lib_of_z3 z3_gt = Lbvsgt" | "lib_of_z3 z3_ult = Lbvult" | "lib_of_z3 z3_ugt = Lbvugt"
| "lib_of_z3 z3_select = Lselect" | "lib_of_z3 z3_store = Lstore" | "lib_of_z3 z3_concat = Lconcat"
| "lib_of_z3 (z3_extract hi lo) = Lextract hi lo" | "lib_of_z3 (z3_zext n) = Lzext n"
| "lib_of_z3 (z3_sext n) = Lsext n" | "lib_of_z3 (z3_rotate_left n) = Lrotl n"
| "lib_of_z3 (z3_rotate_right n) = Lrotr n" | "lib_of_z3 z3_implies = Limplies"
| "lib_of_z3 z3_ite = Lite"

lemma lib_of_z3_of [simp]: "lib_of_z3 (z3_of L) = L"
  by (cases L) simp_all

definition den_const :: "string \<Rightarrow> msort \<Rightarrow> dterm res" where
  "den_const n ms = (case of_msort ms of
       Some s \<Rightarrow> Inr (s, \<lambda>I. ivar I n s) | None \<Rightarrow> Inl (Thrown ''sort''))"

definition den_bv :: "int \<Rightarrow> int \<Rightarrow> dterm res" where
  "den_bv v n = (if 0 < n then Inr (SortBv n, \<lambda>I. VBv n (trunc n v)) else Inl (Thrown ''width''))"

definition den_array :: "msort \<Rightarrow> dterm \<Rightarrow> dterm res" where
  "den_array ms t = (case (ms, fst t) of
       (MBv aw, SortBv dw) \<Rightarrow> Inr (SortMem aw dw, \<lambda>I. const_mem aw (snd t I))
     | _ \<Rightarrow> Inl (Thrown ''sort''))"

definition den_call :: "string \<Rightarrow> msort list \<Rightarrow> msort \<Rightarrow> dterm list \<Rightarrow> dterm res" where
  "den_call n ds r ts = (case of_msort r of
       Some s \<Rightarrow> if map of_msort ds = map (\<lambda>t. Some (fst t)) ts
         then Inr (s, \<lambda>I. ifun I n (map fst ts) s (map (\<lambda>t. snd t I) ts))
         else Inl (Thrown ''sort mismatch'')
     | None \<Rightarrow> Inl (Thrown ''sort''))"

definition z3_model :: "dterm z3_api" where
  "z3_model = \<lparr>z_apply = \<lambda>f. den_apply (lib_of_z3 f), z_const = den_const,
     z_bool_val = \<lambda>b. (SortBool, \<lambda>I. VBool b), z_bv_val = \<lambda>v. den_bv (uint v),
     z_bv_val_str = \<lambda>s. den_bv (case parse_c s 10 of Some (neg, k) \<Rightarrow> int k | None \<Rightarrow> 0),
     z_const_array = den_array, z_function = den_call, z_simplify = Inr\<rparr>"

definition den_term :: "interp \<Rightarrow> dterm \<Rightarrow> val" where
  "den_term I t = snd t I"

lemma den_apply_ok: "lib_apply den_apply fst den_term"
  by unfold_locales (auto simp: den_apply_def den_term_def [abs_def])

interpretation z3_den: z3_laws z3_model fst den_term
proof unfold_locales
  show "\<exists>t. z_apply z3_model (z3_of L) ts = Inr t \<and> fst t = s
      \<and> (\<forall>I. den_term I t = smt_sem L (map (den_term I) ts))"
    if "smt_typed L (map fst ts) = Some s" for L ts s
    using lib_apply.app_ok [OF den_apply_ok that] by (simp add: z3_model_def)
qed (auto simp: z3_model_def den_const_def den_bv_def den_array_def den_call_def den_term_def [abs_def])

end
