(* ===== verification/Smt_Switch.thy ===== *)
theory Smt_Switch
  imports Z3_Sound
begin

text \<open>
  The translation of expressions to smt-switch (\<^verbatim>\<open>SmtSwitchItf\<close>,
  \<^verbatim>\<open>src/target-smt/smt_switch_itf.cc\<close>).  The solver is a parameter: its functions and its
  own state, in which symbols are declared.  An exception of the solver is caught by \<^verbatim>\<open>post\<close>;
  what was changed before it stays changed, so the handlers return a result and a state.
\<close>

subsection \<open>The solver interface\<close>

datatype prim_op =
    P_BVNeg | P_Not | P_BVNot | P_And | P_BVAnd | P_Or | P_BVOr | P_Xor | P_BVXor
  | P_BVShl | P_BVAshr | P_BVLshr | P_BVAdd | P_BVSub | P_BVSdiv | P_BVSrem | P_BVUrem | P_BVSmod
  | P_BVMul | P_Equal | P_BVSlt | P_BVSgt | P_BVUlt | P_BVUgt | P_Select | P_Store | P_Concat
  | P_Extract int int | P_Zero_Extend int | P_Sign_Extend int | P_Rotate_Left int
  | P_Rotate_Right int | P_Implies | P_Ite | P_Apply

record ('t, 'c) smt_solver =
  make_term :: "prim_op \<Rightarrow> 't list \<Rightarrow> 't res"
  make_bool :: "bool \<Rightarrow> 't res"
  make_int :: "int \<Rightarrow> msort \<Rightarrow> 't res"
  make_array :: "'t \<Rightarrow> msort \<Rightarrow> 't res"
  make_symbol :: "string \<Rightarrow> msort \<Rightarrow> ('c, 't) action"
  solver_reset :: "('c, unit) action"

text \<open>The function of SMT-LIB each \<^verbatim>\<open>PrimOp\<close> stands for.\<close>

primrec prim_of :: "smtlib \<Rightarrow> prim_op" where
  "prim_of Lbvneg = P_BVNeg"
| "prim_of Lnot = P_Not"
| "prim_of Lbvnot = P_BVNot"
| "prim_of Land = P_And"
| "prim_of Lbvand = P_BVAnd"
| "prim_of Lor = P_Or"
| "prim_of Lbvor = P_BVOr"
| "prim_of Lxor = P_Xor"
| "prim_of Lbvxor = P_BVXor"
| "prim_of Lbvshl = P_BVShl"
| "prim_of Lbvashr = P_BVAshr"
| "prim_of Lbvlshr = P_BVLshr"
| "prim_of Lbvadd = P_BVAdd"
| "prim_of Lbvsub = P_BVSub"
| "prim_of Lbvsdiv = P_BVSdiv"
| "prim_of Lbvsrem = P_BVSrem"
| "prim_of Lbvurem = P_BVUrem"
| "prim_of Lbvsmod = P_BVSmod"
| "prim_of Lbvmul = P_BVMul"
| "prim_of Leq = P_Equal"
| "prim_of Lbvslt = P_BVSlt"
| "prim_of Lbvsgt = P_BVSgt"
| "prim_of Lbvult = P_BVUlt"
| "prim_of Lbvugt = P_BVUgt"
| "prim_of Lselect = P_Select"
| "prim_of Lstore = P_Store"
| "prim_of Lconcat = P_Concat"
| "prim_of (Lextract hi lo) = P_Extract hi lo"
| "prim_of (Lzext n) = P_Zero_Extend n" | "prim_of (Lsext n) = P_Sign_Extend n"
| "prim_of (Lrotl n) = P_Rotate_Left n" | "prim_of (Lrotr n) = P_Rotate_Right n"
| "prim_of Limplies = P_Implies" | "prim_of Lite = P_Ite"

text \<open>Conversions to \<^verbatim>\<open>uint64_t\<close> (widths and indices) and from it to \<^verbatim>\<open>int64_t\<close> (constants).\<close>

definition to_u64 :: "int \<Rightarrow> int" where
  "to_u64 i = i mod 2 ^ 64"

definition to_int64 :: "u64 \<Rightarrow> int" where
  "to_int64 v = sint v"

subsection \<open>The interface object\<close>

record ('t, 'c) switch =
  sw_solver :: 'c
  sw_exprs :: "nat \<rightharpoonup> 't"
  sw_funcs :: "nat \<rightharpoonup> 't"
  sw_suffix :: string

type_synonym ('t, 'c, 'a) sw = "('t, 'c) switch \<Rightarrow> 'a res \<times> ('t, 'c) switch"

definition liftX :: "'a res \<Rightarrow> ('t, 'c, 'a) sw" where
  "liftX r s = (r, s)"

definition bindX :: "('t, 'c, 'a) sw \<Rightarrow> ('a \<Rightarrow> ('t, 'c, 'b) sw) \<Rightarrow> ('t, 'c, 'b) sw" where
  "bindX m f s = (case m s of (Inl x, s') \<Rightarrow> (Inl x, s') | (Inr a, s') \<Rightarrow> f a s')"

definition on_solver :: "('c, 'a) action \<Rightarrow> ('t, 'c, 'a) sw" where
  "on_solver m s = (case m (sw_solver s) of
       Inl x \<Rightarrow> (Inl x, s) | Inr (a, c) \<Rightarrow> (Inr a, s\<lparr>sw_solver := c\<rparr>))"

definition IlaSort2SmtSort :: "sort \<Rightarrow> msort" where
  "IlaSort2SmtSort s = (case s of
       SortBool \<Rightarrow> MBool
     | SortBv w \<Rightarrow> MBv (to_u64 w)
     | SortMem a d \<Rightarrow> MArray (MBv (to_u64 a)) (MBv (to_u64 d)))"

definition ExprVar2Term :: "('t, 'c) smt_solver \<Rightarrow> world \<Rightarrow> expr \<Rightarrow> ('t, 'c, 't) sw" where
  "ExprVar2Term sv w e = (\<lambda>s.
     bindX (liftX (root_prefix w (host e))) (\<lambda>prefix.
     on_solver (make_symbol sv (format_str (sym e) prefix (sw_suffix s)) (IlaSort2SmtSort (esort e)))) s)"

fun switch_stores :: "('t, 'c) smt_solver \<Rightarrow> msort \<Rightarrow> msort \<Rightarrow> (u64 \<times> u64) list \<Rightarrow> 't \<Rightarrow> 't res" where
  "switch_stores sv addr_sort data_sort [] const_memory = Inr const_memory"
| "switch_stores sv addr_sort data_sort ((a, d) # ps) const_memory =
     bindR (make_int sv (to_int64 a) addr_sort) (\<lambda>addr_term.
     bindR (make_int sv (to_int64 d) data_sort) (\<lambda>data_term.
     bindR (make_term sv P_Store [const_memory, addr_term, data_term]) (\<lambda>memory_wr.
     switch_stores sv addr_sort data_sort ps memory_wr)))"

fun ExprConst2Term :: "('t, 'c) smt_solver \<Rightarrow> sort \<Rightarrow> cval \<Rightarrow> 't res" where
  "ExprConst2Term sv SortBool (BoolVal b) = make_bool sv b"
| "ExprConst2Term sv (SortBv w) (BvVal v) = make_int sv (to_int64 v) (MBv (to_u64 w))"
| "ExprConst2Term sv (SortMem aw dw) (MemVal def m) =
     (let addr_sort = MBv (to_u64 aw); data_sort = MBv (to_u64 dw); mem_sort = MArray addr_sort data_sort
      in bindR (make_int sv (to_int64 def) data_sort) (\<lambda>def_val_term.
         bindR (make_array sv def_val_term mem_sort) (\<lambda>const_memory.
         switch_stores sv addr_sort data_sort m const_memory)))"
| "ExprConst2Term sv s v = Inl NullPtr"

definition Func2Term :: "('t, 'c) smt_solver \<Rightarrow> world \<Rightarrow> func \<Rightarrow> ('t, 'c, 't) sw" where
  "Func2Term sv w f = (\<lambda>s.
     bindX (liftX (root_prefix w (f_host f))) (\<lambda>prefix.
     let f_name = format_str (f_sym f) prefix (sw_suffix s);
         arg_sorts = map IlaSort2SmtSort (f_args f) @ [IlaSort2SmtSort (f_out f)]
     in on_solver (make_symbol sv f_name (MFun arg_sorts))) s)"

definition un_term :: "('t, 'c) smt_solver \<Rightarrow> prim_op \<Rightarrow> 't list \<Rightarrow> 't res" where
  "un_term sv p ts = bindR (at ts 0) (\<lambda>a. make_term sv p [a])"

definition bin_term :: "('t, 'c) smt_solver \<Rightarrow> prim_op \<Rightarrow> 't list \<Rightarrow> 't res" where
  "bin_term sv p ts = bindR (at ts 0) (\<lambda>a. bindR (at ts 1) (\<lambda>b. make_term sv p [a, b]))"

definition ter_term :: "('t, 'c) smt_solver \<Rightarrow> prim_op \<Rightarrow> 't list \<Rightarrow> 't res" where
  "ter_term sv p ts = bindR (at ts 0) (\<lambda>a. bindR (at ts 1) (\<lambda>b. bindR (at ts 2) (\<lambda>c.
     make_term sv p [a, b, c])))"

primrec op2term :: "AstUidExprOp \<Rightarrow> ('t, 'c) smt_solver \<Rightarrow> expr \<Rightarrow> 't list \<Rightarrow> 't res" where
  "op2term kNegate = (\<lambda>sv e ts. un_term sv P_BVNeg ts)"
| "op2term kNot = (\<lambda>sv e ts. un_term sv P_Not ts)"
| "op2term kComplement = (\<lambda>sv e ts. un_term sv P_BVNot ts)"
| "op2term kAnd = (\<lambda>sv e ts.
     bin_term sv (if is_bool (esort e) then P_And else P_BVAnd) ts)"
| "op2term kOr = (\<lambda>sv e ts.
     bin_term sv (if is_bool (esort e) then P_Or else P_BVOr) ts)"
| "op2term kXor = (\<lambda>sv e ts.
     bin_term sv (if is_bool (esort e) then P_Xor else P_BVXor) ts)"
| "op2term kShiftLeft = (\<lambda>sv e ts. bin_term sv P_BVShl ts)"
| "op2term kArithShiftRight = (\<lambda>sv e ts. bin_term sv P_BVAshr ts)"
| "op2term kLogicShiftRight = (\<lambda>sv e ts. bin_term sv P_BVLshr ts)"
| "op2term kAdd = (\<lambda>sv e ts. bin_term sv P_BVAdd ts)"
| "op2term kSubtract = (\<lambda>sv e ts. bin_term sv P_BVSub ts)"
| "op2term kDivide = (\<lambda>sv e ts. bin_term sv P_BVSdiv ts)"
| "op2term kSignedRemainder = (\<lambda>sv e ts. bin_term sv P_BVSrem ts)"
| "op2term kUnsignedRemainder = (\<lambda>sv e ts. bin_term sv P_BVUrem ts)"
| "op2term kSignedModular = (\<lambda>sv e ts. bin_term sv P_BVSmod ts)"
| "op2term kMultiply = (\<lambda>sv e ts. bin_term sv P_BVMul ts)"
| "op2term kEqual = (\<lambda>sv e ts. bin_term sv P_Equal ts)"
| "op2term kLessThan = (\<lambda>sv e ts. bin_term sv P_BVSlt ts)"
| "op2term kGreaterThan = (\<lambda>sv e ts. bin_term sv P_BVSgt ts)"
| "op2term kUnsignedLessThan = (\<lambda>sv e ts. bin_term sv P_BVUlt ts)"
| "op2term kUnsignedGreaterThan = (\<lambda>sv e ts. bin_term sv P_BVUgt ts)"
| "op2term kLoad = (\<lambda>sv e ts. bin_term sv P_Select ts)"
| "op2term kStore = (\<lambda>sv e ts. ter_term sv P_Store ts)"
| "op2term kConcatenate = (\<lambda>sv e ts. bin_term sv P_Concat ts)"
| "op2term kExtract = (\<lambda>sv e ts.
     bindR (at (params e) 0) (\<lambda>p0. bindR (at (params e) 1) (\<lambda>p1.
     un_term sv (P_Extract (to_u64 p0) (to_u64 p1)) ts)))"
| "op2term kZeroExtend = (\<lambda>sv e ts.
     bindR (at (params e) 0) (\<lambda>p0. bindR (at (args e) 0) (\<lambda>a0. bindR (bit_width (esort a0)) (\<lambda>bw.
     un_term sv (P_Zero_Extend (to_u64 (p0 - bw))) ts))))"
| "op2term kSignedExtend = (\<lambda>sv e ts.
     bindR (at (params e) 0) (\<lambda>p0. bindR (at (args e) 0) (\<lambda>a0. bindR (bit_width (esort a0)) (\<lambda>bw.
     un_term sv (P_Sign_Extend (to_u64 (p0 - bw))) ts))))"
| "op2term kRotateLeft = (\<lambda>sv e ts.
     bindR (at (params e) 0) (\<lambda>p0. un_term sv (P_Rotate_Left (to_u64 p0)) ts))"
| "op2term kRotateRight = (\<lambda>sv e ts.
     bindR (at (params e) 0) (\<lambda>p0. un_term sv (P_Rotate_Right (to_u64 p0)) ts))"
| "op2term kImply = (\<lambda>sv e ts. bin_term sv P_Implies ts)"
| "op2term kIfThenElse = (\<lambda>sv e ts. ter_term sv P_Ite ts)"
| "op2term kInvalid = (\<lambda>sv e ts. Inl (CheckFail ''Op not supported in smt-switch''))"
| "op2term kApplyFunc = (\<lambda>sv e ts. Inl (CheckFail ''Op not supported in smt-switch''))"

text \<open>The case \<^verbatim>\<open>kApplyFunc\<close>: the symbol of the function is made once.\<close>

definition app2term :: "('t, 'c) smt_solver \<Rightarrow> world \<Rightarrow> func option \<Rightarrow> 't list \<Rightarrow> ('t, 'c, 't) sw" where
  "app2term sv w f arg_terms =
     bindX (liftX (not_null f)) (\<lambda>func.
     bindX (\<lambda>s. case sw_funcs s (sym_id (f_sym func)) of
         Some t \<Rightarrow> (Inr t, s)
       | None \<Rightarrow> bindX (Func2Term sv w func) (\<lambda>func_term s.
           (Inr func_term, s\<lparr>sw_funcs := (sw_funcs s)(sym_id (f_sym func) \<mapsto> func_term)\<rparr>)) s)
     (\<lambda>func_term. liftX (make_term sv P_Apply (func_term # arg_terms))))"

definition ExprOp2Term :: "('t, 'c) smt_solver \<Rightarrow> world \<Rightarrow> expr \<Rightarrow> 't list \<Rightarrow> ('t, 'c, 't) sw" where
  "ExprOp2Term sv w e arg_terms =
     bindX (liftX (GetUidExprOp e)) (\<lambda>u.
     if u = kApplyFunc then app2term sv w (efunc e) arg_terms
     else liftX (op2term u sv e arg_terms))"

fun Expr2Term :: "('t, 'c) smt_solver \<Rightarrow> world \<Rightarrow> expr \<Rightarrow> 't list \<Rightarrow> ('t, 'c, 't) sw" where
  "Expr2Term sv w (ExprVar y s h) ts = ExprVar2Term sv w (ExprVar y s h)"
| "Expr2Term sv w (ExprConst y s v) ts = liftX (ExprConst2Term sv s v)"
| "Expr2Term sv w (ExprOp y u s as ps f h) ts = ExprOp2Term sv w (ExprOp y u s as ps f h) ts"

definition switch_populate :: "('t, 'c) smt_solver \<Rightarrow> world \<Rightarrow> expr \<Rightarrow> ('t, 'c, unit) sw" where
  "switch_populate sv w e = (\<lambda>s.
     bindX (liftX (mapR (\<lambda>a. bindR (assertR (sw_exprs s (eid a) \<noteq> None) [])
                               (\<lambda>_. Inr (the (sw_exprs s (eid a))))) (args e))) (\<lambda>arg_terms.
     bindX (Expr2Term sv w e arg_terms) (\<lambda>res s.
     (Inr (), if sw_exprs s (eid e) = None then s\<lparr>sw_exprs := (sw_exprs s)(eid e \<mapsto> res)\<rparr> else s))) s)"

definition switch_pre :: "expr \<Rightarrow> ('t, 'c) switch \<Rightarrow> bool" where
  "switch_pre e s \<longleftrightarrow> sw_exprs s (eid e) \<noteq> None"

definition switch_post :: "('t, 'c) smt_solver \<Rightarrow> world \<Rightarrow> expr \<Rightarrow> (('t, 'c) switch, unit) action" where
  "switch_post sv w e = (\<lambda>s. case switch_populate sv w e s of
       (Inr u, s') \<Rightarrow> Inr ((), s')
     | (Inl (Thrown msg), s') \<Rightarrow> Inr ((), s')
     | (Inl x, s') \<Rightarrow> Inl x)"

definition GetSmtTerm :: "('t, 'c) smt_solver \<Rightarrow> world \<Rightarrow> expr \<Rightarrow> string \<Rightarrow> (('t, 'c) switch, 't) action" where
  "GetSmtTerm sv w e suffix =
     thenM (modify (\<lambda>s. s\<lparr>sw_suffix := suffix\<rparr>))
    (thenM (DepthFirstVisitPrePost switch_pre (switch_post sv w) e)
    (bindM (gets (\<lambda>s. sw_exprs s (eid e))) (\<lambda>pos.
     thenM (ila_assert (pos \<noteq> None) [])
    (ret (the pos)))))"

definition switch_Reset :: "('t, 'c) smt_solver \<Rightarrow> (('t, 'c) switch, unit) action" where
  "switch_Reset sv = (\<lambda>s.
     let clear = (\<lambda>s. Inr ((), s\<lparr>sw_exprs := Map.empty, sw_funcs := Map.empty\<rparr>))
     in case solver_reset sv (sw_solver s) of
          Inr (_, c) \<Rightarrow> clear (s\<lparr>sw_solver := c\<rparr>)
        | Inl (Thrown msg) \<Rightarrow> clear s
        | Inl x \<Rightarrow> Inl x)"

end
