(* ===== verification/Switch_Sound.thy ===== *)
theory Switch_Sound
  imports Smt_Switch
begin

text \<open>
  Soundness of the translation to smt-switch from an interface without cached terms, and what
  the cache does to a second query: the term of the first suffix is returned.
\<close>

subsection \<open>The laws of the solver\<close>

text \<open>
  A symbol can be declared once; \<open>declared\<close> reads the names from the state of the solver.
  \<open>frank\<close> and \<open>fden\<close> are the rank and the meaning of a function symbol.  Constants are given
  as \<^verbatim>\<open>int64_t\<close> and taken modulo the width.
\<close>

locale solver_laws = lib_apply "\<lambda>L. make_term sv (prim_of L)" tsort den
  for sv :: "('t, 'c) smt_solver" and tsort :: "'t \<Rightarrow> sort" and den :: "interp \<Rightarrow> 't \<Rightarrow> val" +
  fixes frank :: "'t \<Rightarrow> sort list \<times> sort"
    and fden :: "interp \<Rightarrow> 't \<Rightarrow> val list \<Rightarrow> val"
    and declared :: "'c \<Rightarrow> string set"
  assumes bool_ok: "\<exists>t. make_bool sv b = Inr t \<and> tsort t = SortBool \<and> (\<forall>I. den I t = VBool b)"
    and int_ok: "0 < w \<Longrightarrow> \<exists>t. make_int sv v (MBv w) = Inr t \<and> tsort t = SortBv w
      \<and> (\<forall>I. den I t = VBv w (trunc w v))"
    and array_ok: "0 < aw \<Longrightarrow> tsort t = SortBv dw \<Longrightarrow>
      \<exists>r. make_array sv t (MArray (MBv aw) (MBv dw)) = Inr r \<and> tsort r = SortMem aw dw
      \<and> (\<forall>I. den I r = const_mem aw (den I t))"
    and symbol_ok: "of_msort ms = Some s \<Longrightarrow> n \<notin> declared c \<Longrightarrow>
      \<exists>t c'. make_symbol sv n ms c = Inr (t, c') \<and> declared c' = insert n (declared c)
      \<and> tsort t = s \<and> (\<forall>I. den I t = ivar I n s)"
    and fsymbol_ok: "ds \<noteq> [] \<Longrightarrow> map of_msort ds = map Some ss \<Longrightarrow> of_msort r = Some s \<Longrightarrow>
      n \<notin> declared c \<Longrightarrow>
      \<exists>t c'. make_symbol sv n (MFun (ds @ [r])) c = Inr (t, c') \<and> declared c' = insert n (declared c)
      \<and> frank t = (ss, s) \<and> (\<forall>I. fden I t = ifun I n ss s)"
    and apply_ok: "ts \<noteq> [] \<Longrightarrow> frank f = (map tsort ts, s) \<Longrightarrow>
      \<exists>t. make_term sv P_Apply (f # ts) = Inr t \<and> tsort t = s
      \<and> (\<forall>I. den I t = fden I f (map (den I) ts))"

subsection \<open>What is translatable\<close>

definition int64_fits :: "int \<Rightarrow> u64 \<Rightarrow> bool" where
  "int64_fits w v \<longleftrightarrow> w \<le> 64 \<or> uint v < 2 ^ 63"

fun const_fits :: "sort \<Rightarrow> cval \<Rightarrow> bool" where
  "const_fits (SortBv w) (BvVal v) = int64_fits w v"
| "const_fits (SortMem aw dw) (MemVal def m) =
     (int64_fits dw def \<and> (\<forall>(a, d)\<in>set m. int64_fits aw a \<and> int64_fits dw d))"
| "const_fits s v = True"

fun cval_of :: "expr \<Rightarrow> cval option" where
  "cval_of (ExprConst y s v) = Some v"
| "cval_of e = None"

definition switch_ready :: "world \<Rightarrow> expr \<Rightarrow> bool" where
  "switch_ready w e \<longleftrightarrow> smt_expr e \<and> int_node e \<and> host_ok w (host e)
     \<and> (\<forall>v. cval_of e = Some v \<longrightarrow> const_fits (esort e) v)
     \<and> (\<forall>g. efunc e = Some g \<longrightarrow> host_ok w (f_host g) \<and> args e \<noteq> [])"

definition var_name :: "world \<Rightarrow> string \<Rightarrow> expr \<Rightarrow> string" where
  "var_name w sfx e = format_str (sym e) (prefix_of (root_prefix w (host e))) sfx"

definition func_name :: "world \<Rightarrow> string \<Rightarrow> func \<Rightarrow> string" where
  "func_name w sfx g = format_str (f_sym g) (prefix_of (root_prefix w (f_host g))) sfx"

definition funcs_of :: "expr set \<Rightarrow> func set" where
  "funcs_of S = {g. \<exists>x\<in>S. efunc x = Some g}"

definition vars_of :: "expr set \<Rightarrow> expr set" where
  "vars_of S = {x \<in> S. is_var x}"

text \<open>Different variables and functions get different names.\<close>

definition names_apart :: "world \<Rightarrow> string \<Rightarrow> expr set \<Rightarrow> bool" where
  "names_apart w sfx S \<longleftrightarrow> inj_on (var_name w sfx) (vars_of S) \<and> inj_on (func_name w sfx) (funcs_of S)
     \<and> inj_on (\<lambda>g. sym_id (f_sym g)) (funcs_of S)
     \<and> var_name w sfx ` vars_of S \<inter> func_name w sfx ` funcs_of S = {}"

definition switch_names :: "world \<Rightarrow> string \<Rightarrow> expr set \<Rightarrow> string set" where
  "switch_names w sfx S = var_name w sfx ` vars_of S \<union> func_name w sfx ` funcs_of S"

definition switch_finterp :: "world \<Rightarrow> string \<Rightarrow> interp \<Rightarrow> finterp" where
  "switch_finterp w sfx I = (\<lambda>g vs. ifun I (func_name w sfx g) (f_args g) (f_out g) vs)"

lemma switch_env_ok: "interp_ok I \<Longrightarrow> env_ok (z3_env w sfx I) \<and> finterp_ok (switch_finterp w sfx I)"
  using z3_env_ok [of I w sfx] by (auto simp: interp_ok_def finterp_ok_def switch_finterp_def)

lemma int64_trunc: "int64_fits w v \<Longrightarrow> trunc w (to_int64 v) = trunc w (uint v)"
proof -
  assume fits: "int64_fits w v"
  have s: "sint v = signed_take_bit 63 (uint v)" by (simp add: sint_uint)
  show ?thesis
  proof (cases "w \<le> 64")
    case True
    then have "nat w \<le> Suc 63" by simp
    then show ?thesis unfolding trunc_def to_int64_def s by (rule take_bit_signed_take_bit)
  next
    case False
    then have "uint v < 2 ^ 63" using fits by (simp add: int64_fits_def)
    then have "sint v = uint v" unfolding s by (intro signed_take_bit_int_eq_self) (auto intro: order_trans [of _ 0])
    then show ?thesis by (simp add: to_int64_def)
  qed
qed

lemma to_u64_id [simp]: "0 \<le> i \<Longrightarrow> i < 2 ^ 31 \<Longrightarrow> to_u64 i = i"
  by (simp add: to_u64_def)

lemma of_IlaSort: "int_sort s \<Longrightarrow> pos_sort s \<Longrightarrow> of_msort (IlaSort2SmtSort s) = Some s"
  by (cases s) (auto simp: IlaSort2SmtSort_def)

text \<open>Each operator calls the function of smt-switch for it.\<close>

lemma op2term_lib:
  assumes e: "smt_expr (ExprOp y u s as ps None h)" "int_node (ExprOp y u s as ps None h)"
    and L: "lib_of u (map esort as) ps = Some L" and ts: "length ts = length as"
    and as: "\<forall>a\<in>set as. int_sort (esort a) \<and> pos_sort (esort a)"
  shows "op2term u sv (ExprOp y u s as ps None h) ts = make_term sv (prim_of L) ts"
proof -
  have wf: "op_sort u (map esort as) ps None = Some s" "smt_op u (map esort as) ps" "op_shape u ps None"
    using e(1) by auto
  note len = op_shape_params [OF wf(1,3)]
  note defs = un_term_def bin_term_def ter_term_def at_def
  show ?thesis
  proof (cases "op_params u = 0")
    case True
    then show ?thesis
      using wf L ts len
      by (cases u)
         (auto simp: op_arity_def op_params_def defs same2_Some smt_op.simps
            bool_or_bv_def is_bv_0_iff not_mem length_Suc_conv numeral_2_eq_2 numeral_3_eq_3
            split: if_splits)
  next
    case False
    from param_op_cases [OF e False ts as] show ?thesis
      using L by cases (auto simp: defs)
  qed
qed

subsection \<open>One node\<close>

lemma bindX_run: "m s = (Inr a, s') \<Longrightarrow> bindX m f s = f a s'"
  by (simp add: bindX_def)

lemma bindX_lift [simp]: "bindX (liftX (Inr a)) f = f a"
  by (rule ext) (simp add: bindX_def liftX_def)

locale switch_run = solver_laws sv tsort den frank fden declared
  for sv :: "('t, 'c) smt_solver" and tsort :: "'t \<Rightarrow> sort" and den :: "interp \<Rightarrow> 't \<Rightarrow> val"
    and frank :: "'t \<Rightarrow> sort list \<times> sort" and fden :: "interp \<Rightarrow> 't \<Rightarrow> val list \<Rightarrow> val"
    and declared :: "'c \<Rightarrow> string set" +
  fixes w :: world and sfx :: string and S :: "expr set"
  assumes heap: "world_ok w" and closed_nodes: "dag S" and ready: "\<forall>x\<in>S. switch_ready w x"
    and apart: "names_apart w sfx S"
begin

abbreviation rel :: "'t \<Rightarrow> expr \<Rightarrow> bool" where
  "rel \<equiv> term_rel tsort den (z3_env w sfx) (switch_finterp w sfx)"

definition fun_term :: "func \<Rightarrow> 't \<Rightarrow> bool" where
  "fun_term g t \<longleftrightarrow> frank t = (f_args g, f_out g)
     \<and> (\<forall>I. fden I t = ifun I (func_name w sfx g) (f_args g) (f_out g))"

definition sound :: "('t, 'c) switch \<Rightarrow> bool" where
  "sound s \<longleftrightarrow> sw_suffix s = sfx
     \<and> (\<forall>x\<in>S. \<forall>t. sw_exprs s (eid x) = Some t \<longrightarrow> rel t x)
     \<and> (\<forall>g\<in>funcs_of S. \<forall>t. sw_funcs s (sym_id (f_sym g)) = Some t \<longrightarrow> fun_term g t)
     \<and> (\<forall>x\<in>vars_of S. sw_exprs s (eid x) = None \<longrightarrow> var_name w sfx x \<notin> declared (sw_solver s))
     \<and> (\<forall>g\<in>funcs_of S. sw_funcs s (sym_id (f_sym g)) = None \<longrightarrow> func_name w sfx g \<notin> declared (sw_solver s))"

text \<open>What the translation of an uncached node changes.\<close>

definition node_step :: "expr \<Rightarrow> ('t, 'c) switch \<Rightarrow> ('t, 'c) switch \<Rightarrow> bool" where
  "node_step e s s' \<longleftrightarrow> sw_exprs s' = sw_exprs s \<and> sw_suffix s' = sw_suffix s
     \<and> (is_var e \<longrightarrow> sw_funcs s' = sw_funcs s
          \<and> declared (sw_solver s') = insert (var_name w sfx e) (declared (sw_solver s)))
     \<and> (\<not> is_var e \<longrightarrow> s' = s \<or> (\<exists>g\<in>funcs_of S. \<exists>t. fun_term g t
          \<and> sw_funcs s' = (sw_funcs s)(sym_id (f_sym g) \<mapsto> t)
          \<and> declared (sw_solver s') = insert (func_name w sfx g) (declared (sw_solver s))))"

lemma eid_inj: "x \<in> S \<Longrightarrow> y \<in> S \<Longrightarrow> eid x = eid y \<Longrightarrow> x = y"
  using closed_nodes unfolding dag_def by (meson inj_onD)

lemma fid_inj: "g \<in> funcs_of S \<Longrightarrow> k \<in> funcs_of S \<Longrightarrow> sym_id (f_sym g) = sym_id (f_sym k) \<Longrightarrow> g = k"
  using apart unfolding names_apart_def by (meson inj_onD)

lemma names_differ:
  "x \<in> vars_of S \<Longrightarrow> y \<in> vars_of S \<Longrightarrow> var_name w sfx x = var_name w sfx y \<Longrightarrow> x = y"
  "g \<in> funcs_of S \<Longrightarrow> k \<in> funcs_of S \<Longrightarrow> func_name w sfx g = func_name w sfx k \<Longrightarrow> g = k"
  "x \<in> vars_of S \<Longrightarrow> g \<in> funcs_of S \<Longrightarrow> var_name w sfx x \<noteq> func_name w sfx g"
  using apart unfolding names_apart_def by (meson inj_onD, meson inj_onD, blast)

lemma sound_step:
  assumes e: "e \<in> S" "rel t e" and s: "sound s" and step: "node_step e s s1"
  shows "sound (s1\<lparr>sw_exprs := (sw_exprs s1)(eid e \<mapsto> t)\<rparr>)"
proof (cases "is_var e")
  case True
  then have "e \<in> vars_of S" using e(1) by (simp add: vars_of_def)
  then show ?thesis
    using e s step True names_differ names_differ(3) [THEN not_sym]
    by (auto simp: sound_def node_step_def dest: eid_inj)
next
  case False
  have ne: "eid x \<noteq> eid e" if "x \<in> vars_of S" for x
    using that False e(1) eid_inj [of x e] by (auto simp: vars_of_def)
  consider "s1 = s" | g u where "g \<in> funcs_of S" "fun_term g u"
      "sw_funcs s1 = (sw_funcs s)(sym_id (f_sym g) \<mapsto> u)" "sw_exprs s1 = sw_exprs s"
      "declared (sw_solver s1) = insert (func_name w sfx g) (declared (sw_solver s))"
      "sw_suffix s1 = sw_suffix s"
    using step False by (auto simp: node_step_def)
  then show ?thesis
  proof cases
    case 1
    then show ?thesis using e s ne by (auto simp: sound_def dest: eid_inj)
  next
    case 2
    have "func_name w sfx k \<noteq> func_name w sfx g"
      if "k \<in> funcs_of S" "sym_id (f_sym k) \<noteq> sym_id (f_sym g)" for k
      using names_differ(2) [OF that(1) 2(1)] that(2) by auto
    then show ?thesis
      using 2 e s ne names_differ(3) by (auto simp: sound_def dest: eid_inj fid_inj)
  qed
qed

lemma word_term:
  assumes "0 < n" "n < 2 ^ 31" "int64_fits n v"
  shows "\<exists>t. make_int sv (to_int64 v) (MBv (to_u64 n)) = Inr t \<and> tsort t = SortBv n
    \<and> (\<forall>I. den I t = VBv n (trunc n (uint v)))"
  using int_ok [OF assms(1), of "to_int64 v"] assms by (simp add: int64_trunc)

lemma stores_term:
  assumes w: "0 < aw" "aw < 2 ^ 31" "0 < dw" "dw < 2 ^ 31"
  shows "\<forall>(a, d)\<in>set ps. int64_fits aw a \<and> int64_fits dw d \<Longrightarrow> tsort e1 = SortMem aw dw \<Longrightarrow>
    \<forall>I. den I e1 = VMem aw dw (f I) \<Longrightarrow>
    \<exists>t. switch_stores sv (MBv (to_u64 aw)) (MBv (to_u64 dw)) ps e1 = Inr t \<and> tsort t = SortMem aw dw
      \<and> (\<forall>I. den I t = VMem aw dw (foldl (\<lambda>g (a, d). g(trunc aw (uint a) := trunc dw (uint d))) (f I) ps))"
proof (induction ps arbitrary: e1 f)
  case Nil
  then show ?case by simp
next
  case (Cons p ps)
  obtain a d where p: "p = (a, d)" by (cases p)
  have fits: "int64_fits aw a" "int64_fits dw d" using Cons.prems(1) p by auto
  obtain ta where ta: "make_int sv (to_int64 a) (MBv (to_u64 aw)) = Inr ta" "tsort ta = SortBv aw"
      "\<And>I. den I ta = VBv aw (trunc aw (uint a))"
    using word_term [OF w(1,2) fits(1)] by blast
  obtain td where td: "make_int sv (to_int64 d) (MBv (to_u64 dw)) = Inr td" "tsort td = SortBv dw"
      "\<And>I. den I td = VBv dw (trunc dw (uint d))"
    using word_term [OF w(3,4) fits(2)] by blast
  obtain e2 where e2: "make_term sv P_Store [e1, ta, td] = Inr e2" "tsort e2 = SortMem aw dw"
      "\<And>I. den I e2 = smt_sem Lstore (map (den I) [e1, ta, td])"
    using app_ok [of Lstore "[e1, ta, td]"] Cons.prems(2) ta(2) td(2) by auto
  have f: "\<forall>I. den I e2 = VMem aw dw ((f I)(trunc aw (uint a) := trunc dw (uint d)))"
    using Cons.prems(3) ta(3) td(3) e2(3) by simp
  have "\<forall>(a, d)\<in>set ps. int64_fits aw a \<and> int64_fits dw d" using Cons.prems(1) by simp
  from Cons.IH [OF this e2(2) f] show ?case
    using ta(1) td(1) e2(1) by (simp only: p switch_stores.simps bindR_simps foldl.simps prod.case)
qed

lemma const_term:
  assumes "wf_const s v" "pos_sort s" "int_sort s" "const_fits s v"
  shows "\<exists>t. ExprConst2Term sv s v = Inr t \<and> tsort t = s \<and> (\<forall>I. den I t = const_val s v)"
  using assms
proof (cases "(s, v)" rule: wf_const.cases)
  case (1 b)
  then show ?thesis using bool_ok by auto
next
  case (2 n x)
  then have "in_bv n (uint x)" using assms word_fits by auto
  then show ?thesis using 2 assms word_term [of n x] by (auto simp: trunc_id)
next
  case (3 a d def m)
  have w: "0 < a" "a < 2 ^ 31" "0 < d" "d < 2 ^ 31" and fits: "int64_fits d def"
    and ps: "\<forall>(x, y)\<in>set m. int64_fits a x \<and> int64_fits d y"
    using assms 3 by auto
  obtain t where t: "make_int sv (to_int64 def) (MBv (to_u64 d)) = Inr t" "tsort t = SortBv d"
      "\<And>I. den I t = VBv d (trunc d (uint def))"
    using word_term [OF w(3,4) fits] by blast
  obtain r where r: "make_array sv t (MArray (MBv (to_u64 a)) (MBv (to_u64 d))) = Inr r"
      "tsort r = SortMem a d" "\<And>I. den I r = const_mem a (den I t)"
    using array_ok [OF w(1) t(2)] w by auto
  have "\<forall>I. den I r = VMem a d (mem_fun a d def [])"
    using r(3) t(3) by (simp add: const_mem_def)
  from stores_term [OF w ps r(2) this] show ?thesis
    using t(1) r(1) 3 by (auto simp: mem_fun_foldl simp del: mem_fun.simps)
qed simp_all

lemma var_term:
  assumes e: "ExprVar y s h \<in> S" and st: "sound st" "sw_exprs st (eid (ExprVar y s h)) = None"
  shows "\<exists>t s1. Expr2Term sv w (ExprVar y s h) ts st = (Inr t, s1) \<and> rel t (ExprVar y s h)
    \<and> node_step (ExprVar y s h) st s1"
proof -
  let ?e = "ExprVar y s h"
  have ok: "int_sort s" "pos_sort s" "host_ok w h"
    using ready e by (force simp: switch_ready_def int_node_def)+
  obtain p where p: "root_prefix w h = Inr p" using root_prefix_ok [OF heap ok(3)] ..
  have name: "var_name w sfx ?e = format_str y p sfx" by (simp add: var_name_def p prefix_of_def)
  have "?e \<in> vars_of S" using e by (simp add: vars_of_def)
  then have fresh: "format_str y p sfx \<notin> declared (sw_solver st)"
    using st name by (auto simp: sound_def)
  obtain t c where t: "make_symbol sv (format_str y p sfx) (IlaSort2SmtSort s) (sw_solver st) = Inr (t, c)"
      "declared c = insert (format_str y p sfx) (declared (sw_solver st))" "tsort t = s"
      "\<And>I. den I t = ivar I (format_str y p sfx) s"
    using symbol_ok [OF of_IlaSort [OF ok(1,2)] fresh] by blast
  have "Expr2Term sv w ?e ts st = (Inr t, st\<lparr>sw_solver := c\<rparr>)"
    using st(1) t(1) by (simp add: ExprVar2Term_def p on_solver_def sound_def)
  moreover have "rel t ?e" using t(3,4) by (simp add: term_rel_def z3_env_def p prefix_of_def)
  moreover have "node_step ?e st (st\<lparr>sw_solver := c\<rparr>)" using t(2) name by (simp add: node_step_def)
  ultimately show ?thesis by blast
qed

lemma rel_sorts:
  assumes "list_all2 rel ts as"
  shows "map tsort ts = map esort as" "interp_ok I \<Longrightarrow>
    map (den I) ts = map (eval (z3_env w sfx I) (switch_finterp w sfx I)) as"
  using assms by (induction rule: list_all2_induct) (auto simp: term_rel_def)

text \<open>The symbol of a function: from the table, or declared now.\<close>

lemma func_term:
  assumes g: "g \<in> funcs_of S" "host_ok w (f_host g)" "f_args g \<noteq> []"
    "\<forall>s\<in>set (f_out g # f_args g). int_sort s \<and> pos_sort s"
    and st: "sound st" "sw_funcs st (sym_id (f_sym g)) = None"
  shows "\<exists>t c. Func2Term sv w g st = (Inr t, st\<lparr>sw_solver := c\<rparr>) \<and> fun_term g t
    \<and> declared c = insert (func_name w sfx g) (declared (sw_solver st))"
proof -
  obtain p where p: "root_prefix w (f_host g) = Inr p" using root_prefix_ok [OF heap g(2)] ..
  have name: "func_name w sfx g = format_str (f_sym g) p sfx" by (simp add: func_name_def p prefix_of_def)
  have fresh: "format_str (f_sym g) p sfx \<notin> declared (sw_solver st)"
    using st g(1) name by (auto simp: sound_def)
  have ds: "map IlaSort2SmtSort (f_args g) \<noteq> []"
    "map of_msort (map IlaSort2SmtSort (f_args g)) = map Some (f_args g)"
    "of_msort (IlaSort2SmtSort (f_out g)) = Some (f_out g)"
    using g(3,4) by (auto simp: of_IlaSort)
  from fsymbol_ok [OF ds fresh] obtain t c where
    "make_symbol sv (format_str (f_sym g) p sfx)
       (MFun (map IlaSort2SmtSort (f_args g) @ [IlaSort2SmtSort (f_out g)])) (sw_solver st) = Inr (t, c)"
    "declared c = insert (format_str (f_sym g) p sfx) (declared (sw_solver st))"
    "frank t = (f_args g, f_out g)" "\<forall>I. fden I t = ifun I (format_str (f_sym g) p sfx) (f_args g) (f_out g)"
    by blast
  then show ?thesis
    using st(1) name by (auto simp: Func2Term_def p on_solver_def sound_def fun_term_def)
qed

lemma call_term:
  assumes e: "ExprOp y kApplyFunc s as ps (Some g) h \<in> S" and ts: "list_all2 rel ts as" and st: "sound st"
  shows "\<exists>t s1. Expr2Term sv w (ExprOp y kApplyFunc s as ps (Some g) h) ts st = (Inr t, s1)
    \<and> rel t (ExprOp y kApplyFunc s as ps (Some g) h) \<and> node_step (ExprOp y kApplyFunc s as ps (Some g) h) st s1"
proof -
  let ?e = "ExprOp y kApplyFunc s as ps (Some g) h"
  have rdy: "switch_ready w ?e" using ready e by blast
  have gS: "g \<in> funcs_of S" using e by (force simp: funcs_of_def)
  have g: "f_args g = map esort as" "f_out g = s" "pos_sort s" "int_sort s" "host_ok w (f_host g)" "as \<noteq> []"
    and smt: "\<forall>a\<in>set as. smt_expr a"
    using rdy by (auto simp: switch_ready_def int_node_def list_all_iff split: if_splits)
  have "set as \<subseteq> S" using closed_nodes e by (force simp: dag_def)
  then have ints: "\<forall>a\<in>set as. int_sort (esort a)"
    using ready by (auto simp: switch_ready_def int_node_def)
  note sorts = rel_sorts [OF ts]
  have app: "\<exists>t. make_term sv P_Apply (f # ts) = Inr t \<and> rel t ?e" if f: "fun_term g f" for f
  proof -
    have "ts \<noteq> []" using g(6) ts by auto
    moreover have "frank f = (map tsort ts, s)" using f g(1,2) sorts(1) by (simp add: fun_term_def)
    ultimately obtain t where "make_term sv P_Apply (f # ts) = Inr t" "tsort t = s"
        "\<And>I. den I t = fden I f (map (den I) ts)" using apply_ok by blast
    then show ?thesis using f g(2) sorts(2) by (auto simp: term_rel_def fun_term_def switch_finterp_def)
  qed
  show ?thesis
  proof (cases "sw_funcs st (sym_id (f_sym g))")
    case (Some f)
    then have f: "fun_term g f" using st gS by (auto simp: sound_def)
    obtain t where "make_term sv P_Apply (f # ts) = Inr t" "rel t ?e" using app [OF f] by blast
    then have "Expr2Term sv w ?e ts st = (Inr t, st)"
      using Some by (simp add: ExprOp2Term_def app2term_def bindX_def liftX_def)
    then show ?thesis using \<open>rel t ?e\<close> by (auto simp: node_step_def)
  next
    case None
    have sorts_ok: "\<forall>s\<in>set (f_out g # f_args g). int_sort s \<and> pos_sort s"
      using g(1-4) ints smt smt_pos by auto
    obtain f c where f: "Func2Term sv w g st = (Inr f, st\<lparr>sw_solver := c\<rparr>)" "fun_term g f"
        "declared c = insert (func_name w sfx g) (declared (sw_solver st))"
      using func_term [OF gS g(5) _ sorts_ok st None] g(1,6) by auto
    obtain t where t: "make_term sv P_Apply (f # ts) = Inr t" "rel t ?e" using app [OF f(2)] by blast
    let ?s = "st\<lparr>sw_solver := c, sw_funcs := (sw_funcs st)(sym_id (f_sym g) \<mapsto> f)\<rparr>"
    have "Expr2Term sv w ?e ts st = (Inr t, ?s)"
      using None f(1) t(1) by (simp add: ExprOp2Term_def app2term_def bindX_def liftX_def)
    moreover have "node_step ?e st ?s" using f(2,3) gS by (auto simp: node_step_def)
    ultimately show ?thesis using t(2) by blast
  qed
qed

lemma node_term:
  assumes e: "e \<in> S" and ts: "list_all2 rel ts (args e)" and st: "sound st" "sw_exprs st (eid e) = None"
  shows "\<exists>t s1. Expr2Term sv w e ts st = (Inr t, s1) \<and> rel t e \<and> node_step e st s1"
proof (cases e)
  case (ExprVar y s h)
  then show ?thesis using var_term e st by simp
next
  case (ExprConst y s v)
  have "switch_ready w e" using ready e by blast
  then show ?thesis
    using const_term [of s v] ExprConst
    by (auto simp: switch_ready_def int_node_def liftX_def term_rel_def node_step_def)
next
  case (ExprOp y u s as ps f h)
  have rdy: "switch_ready w e" using ready e by blast
  have "set as \<subseteq> S" using closed_nodes e ExprOp by (force simp: dag_def)
  then have ints: "\<forall>a\<in>set as. int_sort (esort a) \<and> pos_sort (esort a)"
    using ready smt_pos by (auto simp: switch_ready_def int_node_def)
  show ?thesis
  proof (cases f)
    case None
    obtain L t where L: "lib_of u (map esort as) ps = Some L" "make_term sv (prim_of L) ts = Inr t" "rel t e"
      using op_node [of "z3_env w sfx" "switch_finterp w sfx" y u s as ps h ts] switch_env_ok rdy ts
      by (auto simp: ExprOp None switch_ready_def)
    have "u \<noteq> kApplyFunc" using rdy by (auto simp: ExprOp None switch_ready_def op_shape_def)
    moreover have "op2term u sv e ts = make_term sv (prim_of L) ts"
      using op2term_lib [OF _ _ L(1), of y s h ts sv] rdy ts ints
      by (auto simp: ExprOp None switch_ready_def list_all2_lengthD)
    ultimately have "Expr2Term sv w e ts st = (Inr t, st)"
      using L(2) by (simp add: ExprOp ExprOp2Term_def liftX_def)
    then show ?thesis using L(3) by (auto simp: ExprOp node_step_def)
  next
    case (Some g)
    then have "u = kApplyFunc" using rdy by (auto simp: ExprOp switch_ready_def op_shape_def)
    then show ?thesis using call_term e ts st by (simp add: ExprOp Some)
  qed
qed

lemma post_ok:
  assumes e: "e \<in> S" and st: "sound st" and as: "\<forall>a\<in>set (args e). sw_exprs st (eid a) \<noteq> None"
    and new: "sw_exprs st (eid e) = None"
  shows "\<exists>s'. switch_post sv w e st = Inr ((), s') \<and> sound s' \<and> sw_exprs st \<subseteq>\<^sub>m sw_exprs s'
    \<and> sw_exprs s' (eid e) \<noteq> None \<and> dom (sw_exprs s') \<subseteq> insert (eid e) (dom (sw_exprs st))"
proof -
  let ?ts = "map (\<lambda>a. the (sw_exprs st (eid a))) (args e)"
  have sub: "set (args e) \<subseteq> S" using closed_nodes e by (auto simp: dag_def)
  have args: "mapR (\<lambda>a. bindR (assertR (sw_exprs st (eid a) \<noteq> None) [])
      (\<lambda>_. Inr (the (sw_exprs st (eid a))))) (args e) = Inr ?ts"
    using as by (intro mapR_all) auto
  have "list_all2 rel ?ts (args e)"
    using as st sub by (auto simp: list_all2_map1 list_all2_same sound_def)
  from node_term [OF e this st new] obtain t s1 where
    t: "Expr2Term sv w e ?ts st = (Inr t, s1)" "rel t e" "node_step e st s1" by blast
  let ?s = "s1\<lparr>sw_exprs := (sw_exprs s1)(eid e \<mapsto> t)\<rparr>"
  have ex: "sw_exprs s1 = sw_exprs st" using t(3) by (simp add: node_step_def)
  have "switch_populate sv w e st = (Inr (), ?s)"
    using args t(1) new ex by (simp add: switch_populate_def bindX_def liftX_def)
  moreover have "sw_exprs st \<subseteq>\<^sub>m sw_exprs ?s" using ex new by (auto simp: map_le_def)
  ultimately show ?thesis
    using sound_step [OF e t(2) st t(3)] ex by (intro exI [of _ ?s]) (simp add: switch_post_def)
qed

end

sublocale switch_run \<subseteq> translator "switch_post sv w" sw_exprs sound S
  by unfold_locales (use closed_nodes post_ok in auto)

context switch_run
begin

text \<open>An interface without cached terms whose solver has none of the names.\<close>

lemma GetSmtTerm_ok:
  assumes e: "e \<in> S" and st: "sw_exprs s = Map.empty" "sw_funcs s = Map.empty"
    "declared (sw_solver s) \<inter> switch_names w sfx S = {}"
  shows "\<exists>t s'. GetSmtTerm sv w e sfx s = Inr (t, s') \<and> rel t e \<and> sound s'
    \<and> sw_exprs s' (eid e) = Some t"
proof -
  let ?s = "s\<lparr>sw_suffix := sfx\<rparr>"
  have "sound ?s" using st by (auto simp: sound_def switch_names_def)
  then have "fills ?s (DepthFirstVisitPrePost switch_pre (switch_post sv w) e) {e}"
    using PrePost_fills [of switch_pre, OF _ e] by (simp add: switch_pre_def)
  then obtain s' where s': "DepthFirstVisitPrePost switch_pre (switch_post sv w) e ?s = Inr ((), s')"
      "sound s'" "sw_exprs s' (eid e) \<noteq> None" unfolding fills_single by blast
  then obtain t where t: "sw_exprs s' (eid e) = Some t" by blast
  have "GetSmtTerm sv w e sfx s = Inr (t, s')"
    using s'(1) t by (simp add: GetSmtTerm_def thenM_def bindM_def)
  then show ?thesis using s'(2) t e by (auto simp: sound_def)
qed

end

text \<open>A cached expression: the suffix of the query is not looked at.\<close>

lemma GetSmtTerm_cached:
  assumes "sw_exprs s (eid e) = Some t"
  shows "GetSmtTerm sv w e suffix s = Inr (t, s\<lparr>sw_suffix := suffix\<rparr>)"
proof -
  have "DepthFirstVisitPrePost switch_pre (switch_post sv w) e (s\<lparr>sw_suffix := suffix\<rparr>) =
      Inr ((), s\<lparr>sw_suffix := suffix\<rparr>)"
    using assms by (subst DepthFirstVisitPrePost.simps) (simp add: switch_pre_def)
  then show ?thesis using assms by (simp add: GetSmtTerm_def thenM_def bindM_def)
qed

lemma switch_GetSmtTerm:
  assumes "solver_laws sv tsort den frank fden declared" "world_ok w" "dag S"
    "\<forall>x\<in>S. switch_ready w x" "names_apart w sfx S" "e \<in> S"
    "sw_exprs s = Map.empty" "sw_funcs s = Map.empty"
    "declared (sw_solver s) \<inter> switch_names w sfx S = {}"
  shows "\<exists>t s'. GetSmtTerm sv w e sfx s = Inr (t, s')
    \<and> term_rel tsort den (z3_env w sfx) (switch_finterp w sfx) t e
    \<and> (\<forall>sfx'. \<exists>s''. GetSmtTerm sv w e sfx' s' = Inr (t, s''))"
proof -
  have run: "switch_run sv tsort den frank fden declared w sfx S"
    using assms(1-5) by (simp add: switch_run_def switch_run_axioms_def)
  from switch_run.GetSmtTerm_ok [OF run assms(6-9)] obtain t s' where
    t: "GetSmtTerm sv w e sfx s = Inr (t, s')"
      "term_rel tsort den (z3_env w sfx) (switch_finterp w sfx) t e" "sw_exprs s' (eid e) = Some t"
    by (elim exE conjE) (rule that)
  show ?thesis
    using t(1,2) GetSmtTerm_cached [OF t(3), of sv w] by (intro exI [of _ t] exI [of _ s']) auto
qed

subsection \<open>A solver that satisfies the laws\<close>

text \<open>Terms of \<open>z3_model\<close> with a rank and a function; the state lists the declared names.\<close>

type_synonym sterm = "dterm \<times> (sort list \<times> sort) \<times> (interp \<Rightarrow> val list \<Rightarrow> val)"

definition plain :: "dterm \<Rightarrow> sterm" where
  "plain d = (d, ([], SortBool), \<lambda>_ _. VBool False)"

primrec lib_of_prim :: "prim_op \<Rightarrow> smtlib" where
  "lib_of_prim P_BVNeg = Lbvneg" | "lib_of_prim P_Not = Lnot" | "lib_of_prim P_BVNot = Lbvnot"
| "lib_of_prim P_And = Land" | "lib_of_prim P_BVAnd = Lbvand" | "lib_of_prim P_Or = Lor"
| "lib_of_prim P_BVOr = Lbvor" | "lib_of_prim P_Xor = Lxor" | "lib_of_prim P_BVXor = Lbvxor"
| "lib_of_prim P_BVShl = Lbvshl" | "lib_of_prim P_BVAshr = Lbvashr" | "lib_of_prim P_BVLshr = Lbvlshr"
| "lib_of_prim P_BVAdd = Lbvadd" | "lib_of_prim P_BVSub = Lbvsub" | "lib_of_prim P_BVSdiv = Lbvsdiv"
| "lib_of_prim P_BVSrem = Lbvsrem" | "lib_of_prim P_BVUrem = Lbvurem" | "lib_of_prim P_BVSmod = Lbvsmod"
| "lib_of_prim P_BVMul = Lbvmul" | "lib_of_prim P_Equal = Leq" | "lib_of_prim P_BVSlt = Lbvslt"
| "lib_of_prim P_BVSgt = Lbvsgt" | "lib_of_prim P_BVUlt = Lbvult" | "lib_of_prim P_BVUgt = Lbvugt"
| "lib_of_prim P_Select = Lselect" | "lib_of_prim P_Store = Lstore" | "lib_of_prim P_Concat = Lconcat"
| "lib_of_prim (P_Extract hi lo) = Lextract hi lo" | "lib_of_prim (P_Zero_Extend n) = Lzext n"
| "lib_of_prim (P_Sign_Extend n) = Lsext n" | "lib_of_prim (P_Rotate_Left n) = Lrotl n"
| "lib_of_prim (P_Rotate_Right n) = Lrotr n" | "lib_of_prim P_Implies = Limplies"
| "lib_of_prim P_Ite = Lite" | "lib_of_prim P_Apply = Lnot"

lemma lib_of_prim_of [simp]: "lib_of_prim (prim_of L) = L" "prim_of L \<noteq> P_Apply"
  by (cases L; simp)+

fun model_apply :: "sterm list \<Rightarrow> sterm res" where
  "model_apply (f # ts) =
     (if ts \<noteq> [] \<and> fst (fst (snd f)) = map (fst \<circ> fst) ts
      then Inr (plain (snd (fst (snd f)), \<lambda>I. snd (snd f) I (map (\<lambda>t. snd (fst t) I) ts)))
      else Inl (Thrown ''rank''))"
| "model_apply [] = Inl (Thrown ''rank'')"

definition model_symbol :: "string \<Rightarrow> msort \<Rightarrow> (string list, sterm) action" where
  "model_symbol n ms c =
     (if n \<in> set c then Inl (Thrown ''name'')
      else case ms of
          MFun l \<Rightarrow> (case (map of_msort (butlast l), of_msort (last l)) of
              (ss, Some s) \<Rightarrow> if None \<in> set ss then Inl (Thrown ''sort'')
                else Inr (((SortBool, \<lambda>_. VBool False), (map the ss, s), \<lambda>I. ifun I n (map the ss) s), n # c)
            | (ss, None) \<Rightarrow> Inl (Thrown ''sort''))
        | _ \<Rightarrow> (case den_const n ms of Inr d \<Rightarrow> Inr (plain d, n # c) | Inl x \<Rightarrow> Inl x))"

definition switch_model :: "(sterm, string list) smt_solver" where
  "switch_model = \<lparr>
     make_term = (\<lambda>p ts. if p = P_Apply then model_apply ts
       else bindR (den_apply (lib_of_prim p) (map fst ts)) (\<lambda>d. Inr (plain d))),
     make_bool = (\<lambda>b. Inr (plain (SortBool, \<lambda>_. VBool b))),
     make_int = (\<lambda>v ms. case ms of MBv n \<Rightarrow> bindR (den_bv v n) (\<lambda>d. Inr (plain d)) | _ \<Rightarrow> Inl (Thrown ''sort'')),
     make_array = (\<lambda>t ms. case ms of
         MArray a d \<Rightarrow> bindR (den_array a (fst t)) (\<lambda>d. Inr (plain d)) | _ \<Rightarrow> Inl (Thrown ''sort'')),
     make_symbol = model_symbol, solver_reset = (\<lambda>c. Inr ((), []))\<rparr>"

definition sterm_den :: "interp \<Rightarrow> sterm \<Rightarrow> val" where
  "sterm_den I t = snd (fst t) I"

interpretation switch_den: solver_laws switch_model "\<lambda>t. fst (fst t)" sterm_den
  "\<lambda>t. fst (snd t)" "\<lambda>I t. snd (snd t) I" set
proof unfold_locales
  show "\<exists>t c'. make_symbol switch_model n ms c = Inr (t, c') \<and> set c' = insert n (set c)
      \<and> fst (fst t) = s \<and> (\<forall>I. sterm_den I t = ivar I n s)"
    if "of_msort ms = Some s" "n \<notin> set c" for ms s n c
    using that by (cases ms) (auto simp: switch_model_def model_symbol_def den_const_def plain_def sterm_den_def)
  show "\<exists>t c'. make_symbol switch_model n (MFun (ds @ [r])) c = Inr (t, c') \<and> set c' = insert n (set c)
      \<and> fst (snd t) = (ss, s) \<and> (\<forall>I. snd (snd t) I = ifun I n ss s)"
    if "ds \<noteq> []" "map of_msort ds = map Some ss" "of_msort r = Some s" "n \<notin> set c" for ds ss r s n c
    using that by (auto simp: switch_model_def model_symbol_def comp_def)
qed (auto simp: switch_model_def plain_def sterm_den_def [abs_def] den_apply_def den_bv_def den_array_def comp_def)

end
