(* ===== verification/Demo_Smt.thy ===== *)
theory Demo_Smt
  imports Demo Switch_Sound
begin

text \<open>The demonstration hierarchy meets the conditions of the two translations.\<close>

lemma demo_hosts: "x \<in> demo_nodes \<Longrightarrow> host_ok demo (host x)"
  unfolding demo_nodes_def host_ok_def using demo_top demo_child by (auto simp: demo_exprs)

lemma demo_int: "x \<in> demo_nodes \<Longrightarrow> int_node x"
  unfolding demo_nodes_def by (auto simp: demo_exprs int_node_def)

lemma demo_leaf: "x \<in> demo_nodes \<Longrightarrow> efunc x = None \<and> cval_of x = None"
  unfolding demo_nodes_def by (auto simp: demo_exprs)

lemma demo_z3_ready: "\<forall>x\<in>demo_nodes. z3_ready demo x"
  using demo_hosts demo_int demo_leaf passable_smt [OF demo_passable] by (auto simp: z3_ready_def)

lemma demo_switch_ready: "\<forall>x\<in>demo_nodes. switch_ready demo x"
  using demo_hosts demo_int demo_leaf passable_smt [OF demo_passable] by (auto simp: switch_ready_def)

lemma demo_vars: "vars_of demo_nodes = {v_mem, v_addr, v_data, v_c, v_x}" "funcs_of demo_nodes = {}"
proof -
  have "is_var v_mem" "is_var v_addr" "is_var v_data" "is_var v_c" "is_var v_x"
    "\<not> is_var e_store" "\<not> is_var e_ite" "\<not> is_var e_store2" by (simp_all add: demo_exprs)
  then show "vars_of demo_nodes = {v_mem, v_addr, v_data, v_c, v_x}"
    by (auto simp: vars_of_def demo_nodes_def)
  show "funcs_of demo_nodes = {}" by (auto simp: funcs_of_def demo_leaf)
qed

lemma demo_parents:
  "map_option (\<lambda>m. (parent m, sym_name (m_sym m))) (ila_heap demo 1) = Some (None, ''m'')"
  "map_option (\<lambda>m. (parent m, sym_name (m_sym m))) (ila_heap demo 9) = Some (Some 1, ''ch'')"
  by code_simp+

lemma demo_roots: "GetRootName demo 1 = Some ''m''" "GetRootName demo 9 = Some ''m.ch''"
proof -
  obtain m where m: "ila_heap demo 1 = Some m" "parent m = None" "sym_name (m_sym m) = ''m''"
    using demo_parents(1) by auto
  obtain c where c: "ila_heap demo 9 = Some c" "parent c = Some 1" "sym_name (m_sym c) = ''ch''"
    using demo_parents(2) by auto
  show one: "GetRootName demo 1 = Some ''m''" using m by (subst GetRootName.simps) simp
  show "GetRootName demo 9 = Some ''m.ch''" using c one by (subst GetRootName.simps) simp
qed

lemma demo_names: "map (var_name demo ''0'') [v_mem, v_addr, v_data, v_c, v_x] =
    [''m_sEp_mem_sEp_0'', ''m_sEp_addr_sEp_0'', ''m_sEp_data_sEp_0'', ''m_sEp_c_sEp_0'', ''m.ch_sEp_x_sEp_0'']"
  using demo_roots
  by (simp add: var_name_def demo_exprs root_prefix_def prefix_of_def format_str_def sep_def)

lemma demo_apart: "names_apart demo ''0'' demo_nodes"
proof -
  have "distinct (map (var_name demo ''0'') [v_mem, v_addr, v_data, v_c, v_x])"
    unfolding demo_names by simp
  then have "inj_on (var_name demo ''0'') (set [v_mem, v_addr, v_data, v_c, v_x])"
    unfolding distinct_map by blast
  then show ?thesis unfolding names_apart_def demo_vars by simp
qed

interpretation demo_z3: z3_run z3_model fst den_term demo "''0''" demo_nodes
  by unfold_locales (rule demo_ok demo_dag demo_z3_ready)+

interpretation demo_switch: switch_run switch_model "\<lambda>t. fst (fst t)" sterm_den
  "\<lambda>t. fst (snd t)" "\<lambda>I t. snd (snd t) I" set demo "''0''" demo_nodes
  by unfold_locales (rule demo_ok demo_dag demo_switch_ready demo_apart)+

definition switch_start :: "(sterm, string list) switch" where
  "switch_start = \<lparr>sw_solver = [], sw_exprs = Map.empty, sw_funcs = Map.empty, sw_suffix = []\<rparr>"

end
