(* ===== verification/Unroll_Smt.thy ===== *)
theory Unroll_Smt
  imports Smt_Switch Abs_Knob_Inv
begin

text \<open>
  Unrolling of instruction sequences into formulas (\<^verbatim>\<open>src/ila-mngr/u_unroller_smt.cc\<close> and
  its header): the template \<^verbatim>\<open>SmtShim\<close> over the two translations, \<^verbatim>\<open>UnrollerSmt\<close> and
  \<^verbatim>\<open>PathUnroller\<close>.  The generator keeps a state of its own, so a run works on the world, the
  state of the generator and the fields of the unroller.
\<close>

subsection \<open>The unified interface\<close>

record ('s, 't, 'f) shim =
  GetShimExpr :: "world \<Rightarrow> expr \<Rightarrow> string \<Rightarrow> ('s, 't) action"
  GetShimFunc :: "world \<Rightarrow> func \<Rightarrow> ('s, 'f) action"
  BoolAnd :: "'t \<Rightarrow> 't \<Rightarrow> ('s, 't) action"
  Equal :: "'t \<Rightarrow> 't \<Rightarrow> ('s, 't) action"

text \<open>\<^verbatim>\<open>Z3ExprAdapter\<close> starts every query from an empty cache and keeps no state.\<close>

definition z3_shim :: "'t z3_api \<Rightarrow> (unit, 't, string \<times> msort list \<times> msort) shim" where
  "z3_shim api = \<lparr>
     GetShimExpr = \<lambda>w e suffix. liftR (GetExpr api w e suffix),
     GetShimFunc = \<lambda>w f. liftR (GetZ3FuncDecl w f),
     BoolAnd = \<lambda>a b. liftR (z_apply api z3_and [a, b]),
     Equal = \<lambda>a b. liftR (z_apply api z3_eq [a, b])\<rparr>"

definition switch_shim :: "('t, 'c) smt_solver \<Rightarrow> (('t, 'c) switch, 't, 't) shim" where
  "switch_shim sv = \<lparr>
     GetShimExpr = GetSmtTerm sv,
     GetShimFunc = \<lambda>w f s. (case Func2Term sv w f s of (Inl x, s') \<Rightarrow> Inl x | (Inr t, s') \<Rightarrow> Inr (t, s')),
     BoolAnd = \<lambda>a b. liftR (make_term sv P_And [a, b]),
     Equal = \<lambda>a b. liftR (make_term sv P_Equal [a, b])\<rparr>"

subsection \<open>The unroller\<close>

text \<open>\<^verbatim>\<open>step_pred_\<close> is read with \<^verbatim>\<open>operator[]\<close>, which gives the empty set at a new key.\<close>

record unroller =
  u_suffix :: string
  global_pred :: expr_set
  initial_pred :: expr_set
  step_pred :: "u64 \<Rightarrow> expr_set"
  deciding_vars :: "expr list"
  update_holder :: "expr list"
  assert_holder :: "expr list"
  u_seq :: "nat list"

definition UnrollerSmt_New :: "string \<Rightarrow> unroller" where
  "UnrollerSmt_New suffix = \<lparr>u_suffix = suffix, global_pred = [], initial_pred = [],
     step_pred = (\<lambda>_. []), deciding_vars = [], update_holder = [], assert_holder = [], u_seq = []\<rparr>"

definition AssertGlobal :: "expr \<Rightarrow> unroller \<Rightarrow> unroller" where
  "AssertGlobal p u = u\<lparr>global_pred := set_insert p (global_pred u)\<rparr>"

definition AssertInitial :: "expr \<Rightarrow> unroller \<Rightarrow> unroller" where
  "AssertInitial p u = u\<lparr>initial_pred := set_insert p (initial_pred u)\<rparr>"

text \<open>The \<^verbatim>\<open>int\<close> is converted to \<^verbatim>\<open>size_t\<close>.\<close>

definition AssertStep :: "expr \<Rightarrow> int \<Rightarrow> unroller \<Rightarrow> unroller" where
  "AssertStep p k u =
     u\<lparr>step_pred := (step_pred u)(word_of_int k := set_insert p (step_pred u (word_of_int k)))\<rparr>"

definition ClearGlobalAssertion :: "unroller \<Rightarrow> unroller" where
  "ClearGlobalAssertion u = u\<lparr>global_pred := []\<rparr>"

definition ClearInitialAssertion :: "unroller \<Rightarrow> unroller" where
  "ClearInitialAssertion u = u\<lparr>initial_pred := []\<rparr>"

definition ClearStepAssertion :: "unroller \<Rightarrow> unroller" where
  "ClearStepAssertion u = u\<lparr>step_pred := (\<lambda>_. [])\<rparr>"

definition SuffixCurrent :: "unroller \<Rightarrow> u64 \<Rightarrow> string" where
  "SuffixCurrent u t = to_string (unat t) @ ''_'' @ u_suffix u"

definition SuffixNext :: "unroller \<Rightarrow> u64 \<Rightarrow> string" where
  "SuffixNext u t = to_string (unat t) @ ''_'' @ u_suffix u @ ''.nxt''"

subsection \<open>Runs of an unroller\<close>

record 's run_state =
  r_world :: world
  r_gen :: 's
  r_self :: unroller

type_synonym ('s, 'a) U = "('s run_state, 'a) action"

definition on_world :: "'a W \<Rightarrow> ('s, 'a) U" where
  "on_world m = (\<lambda>st. case m (r_world st) of
       Inl x \<Rightarrow> Inl x | Inr (a, w) \<Rightarrow> Inr (a, st\<lparr>r_world := w\<rparr>))"

definition on_gen :: "(world \<Rightarrow> ('s, 'a) action) \<Rightarrow> ('s, 'a) U" where
  "on_gen m = (\<lambda>st. case m (r_world st) (r_gen st) of
       Inl x \<Rightarrow> Inl x | Inr (a, g) \<Rightarrow> Inr (a, st\<lparr>r_gen := g\<rparr>))"

definition self :: "(unroller \<Rightarrow> 'a) \<Rightarrow> ('s, 'a) U" where
  "self f = gets (\<lambda>st. f (r_self st))"

definition set_self :: "(unroller \<Rightarrow> unroller) \<Rightarrow> ('s, unit) U" where
  "set_self f = modify (\<lambda>st. st\<lparr>r_self := f (r_self st)\<rparr>)"

definition GetSmtCurrent :: "('s, 't, 'f) shim \<Rightarrow> expr \<Rightarrow> u64 \<Rightarrow> ('s, 't) U" where
  "GetSmtCurrent G e k =
     bindM (self (\<lambda>u. SuffixCurrent u k)) (\<lambda>suffix. on_gen (\<lambda>w. GetShimExpr G w e suffix))"

definition GetSmtNext :: "('s, 't, 'f) shim \<Rightarrow> expr \<Rightarrow> u64 \<Rightarrow> ('s, 't) U" where
  "GetSmtNext G e k =
     bindM (self (\<lambda>u. SuffixNext u k)) (\<lambda>suffix. on_gen (\<lambda>w. GetShimExpr G w e suffix))"

definition GetSmtFuncDecl :: "('s, 't, 'f) shim \<Rightarrow> func \<Rightarrow> ('s, 'f) U" where
  "GetSmtFuncDecl G f = on_gen (\<lambda>w. GetShimFunc G w f)"

subsection \<open>Helpers of the unrolling\<close>

definition InterpIlaExprAndAppend ::
  "('s, 't, 'f) shim \<Rightarrow> expr list \<Rightarrow> string \<Rightarrow> 't list \<Rightarrow> ('s, 't list) U" where
  "InterpIlaExprAndAppend G ila_expr_src suffix smt_expr_dst =
     foldM (\<lambda>dst e. bindM (on_gen (\<lambda>w. GetShimExpr G w e suffix)) (\<lambda>t. ret (dst @ [t])))
       smt_expr_dst ila_expr_src"

definition InterpIlaExprAndAppend_set ::
  "('s, 't, 'f) shim \<Rightarrow> expr_set \<Rightarrow> string \<Rightarrow> 't list \<Rightarrow> ('s, 't list) U" where
  "InterpIlaExprAndAppend_set G ila_expr_src suffix smt_expr_dst =
     bindM (on_world (iterate ila_expr_src)) (\<lambda>es. InterpIlaExprAndAppend G es suffix smt_expr_dst)"

definition ElementWiseEqualAndAppend ::
  "('s, 't, 'f) shim \<Rightarrow> 't list \<Rightarrow> 't list \<Rightarrow> 't list \<Rightarrow> ('s, 't list) U" where
  "ElementWiseEqualAndAppend G a b smt_expr_dst =
     thenM (ila_assert (length a = length b) [])
    (foldM (\<lambda>dst i.
       bindM (liftR (at a i)) (\<lambda>ai. bindM (liftR (at b i)) (\<lambda>bi.
       bindM (on_gen (\<lambda>w. Equal G ai bi)) (\<lambda>t. ret (dst @ [t])))))
       smt_expr_dst [0..<length a])"

definition ConjunctAll :: "('s, 't, 'f) shim \<Rightarrow> 't list \<Rightarrow> ('s, 't) U" where
  "ConjunctAll G ts =
     bindM (on_world (BoolConst True)) (\<lambda>c.
     bindM (on_gen (\<lambda>w. GetShimExpr G w c [])) (\<lambda>conjunct_holder.
     foldM (\<lambda>acc e. on_gen (\<lambda>w. BoolAnd G acc e)) conjunct_holder ts))"

subsection \<open>Unrolling\<close>

text \<open>The virtual functions \<^verbatim>\<open>SetDecidingVars\<close> and \<^verbatim>\<open>MakeOneTransition\<close> are arguments.\<close>

definition unroll_step ::
  "('s, 't, 'f) shim \<Rightarrow> (nat \<Rightarrow> ('s, unit) U) \<Rightarrow> u64 \<Rightarrow> 't list \<Rightarrow> nat \<Rightarrow> ('s, 't list) U" where
  "unroll_step G make_transition from smt_holder i =
     bindM (self (\<lambda>u. SuffixCurrent u (from + of_nat i))) (\<lambda>suffix.
     bindM (self (\<lambda>u. SuffixCurrent u (from + of_nat i + 1))) (\<lambda>suffix_next.
     thenM (make_transition i)
    (bindM (bindM (self global_pred) (\<lambda>ps. InterpIlaExprAndAppend_set G ps suffix smt_holder)) (\<lambda>h.
     bindM (bindM (self (\<lambda>u. step_pred u (of_nat i))) (\<lambda>ps. InterpIlaExprAndAppend_set G ps suffix h)) (\<lambda>h.
     bindM (bindM (self assert_holder) (\<lambda>ps. InterpIlaExprAndAppend G ps suffix h)) (\<lambda>h.
     bindM (if i = 0 then bindM (self initial_pred) (\<lambda>ps. InterpIlaExprAndAppend_set G ps suffix h)
            else ret h) (\<lambda>h.
     bindM (bindM (self update_holder) (\<lambda>es. InterpIlaExprAndAppend G es suffix [])) (\<lambda>smt_next_val.
     bindM (bindM (self deciding_vars) (\<lambda>es. InterpIlaExprAndAppend G es suffix_next [])) (\<lambda>smt_next_var.
     ElementWiseEqualAndAppend G smt_next_val smt_next_var h)))))))))"

text \<open>The end state is named by \<open>len\<close>, whatever the first step is.\<close>

definition unroll_end :: "('s, 't, 'f) shim \<Rightarrow> nat \<Rightarrow> 't list \<Rightarrow> ('s, 't list) U" where
  "unroll_end G len smt_holder =
     bindM (self (\<lambda>u. SuffixCurrent u (of_nat len))) (\<lambda>suffix.
     bindM (bindM (self global_pred) (\<lambda>ps. InterpIlaExprAndAppend_set G ps suffix smt_holder)) (\<lambda>h.
     bindM (self (\<lambda>u. step_pred u (of_nat len))) (\<lambda>ps. InterpIlaExprAndAppend_set G ps suffix h)))"

definition Unroll_steps ::
  "('s, 't, 'f) shim \<Rightarrow> ('s, unit) U \<Rightarrow> (nat \<Rightarrow> ('s, unit) U) \<Rightarrow> nat \<Rightarrow> u64 \<Rightarrow> ('s, 't) U" where
  "Unroll_steps G set_vars make_transition len from =
     thenM (set_self (\<lambda>u. u\<lparr>deciding_vars := [], update_holder := [], assert_holder := []\<rparr>))
    (thenM set_vars
    (bindM (self deciding_vars) (\<lambda>vs.
     thenM (ila_assert (vs \<noteq> []) [])
    (bindM (foldM (unroll_step G make_transition from) [] [0..<len]) (\<lambda>smt_holder.
     bindM (unroll_end G len smt_holder) (\<lambda>smt_holder.
     ConjunctAll G smt_holder))))))"

definition UnrollWithStepsUnconnected_steps :: "('s, 't, 'f) shim \<Rightarrow> nat \<Rightarrow> u64 \<Rightarrow> ('s, 't) U" where
  "UnrollWithStepsUnconnected_steps G len from =
     thenM (ila_check False ''Not implemented'') (fail NullPtr)"

subsection \<open>Sequences of instructions\<close>

definition SetDecidingVars :: "('s, unit) U" where
  "SetDecidingVars =
     bindM (self u_seq) (\<lambda>ks.
     bindM (foldM (\<lambda>vs k. on_world (InsertStt_instr k vs)) [] ks) (\<lambda>unique_vars.
     thenM (set_self (\<lambda>u. u\<lparr>deciding_vars := []\<rparr>))
    (bindM (on_world (iterate unique_vars)) (\<lambda>vs.
     set_self (\<lambda>u. u\<lparr>deciding_vars := deciding_vars u @ vs\<rparr>)))))"

definition CompleteStateUpdate :: "nat \<Rightarrow> expr \<Rightarrow> expr W" where
  "CompleteStateUpdate k s =
     bindM (instr_update_var k s) (\<lambda>update. ret (case update of Some e \<Rightarrow> e | None \<Rightarrow> s))"

definition MakeOneTransition :: "nat \<Rightarrow> ('s, unit) U" where
  "MakeOneTransition i =
     bindM (self u_seq) (\<lambda>ks.
     thenM (ila_assert (i < length ks) [])
    (bindM (liftR (at ks i)) (\<lambda>k.
     bindM (self deciding_vars) (\<lambda>vs.
     bindM (on_world (mapM (CompleteStateUpdate k) vs)) (\<lambda>es.
     thenM (set_self (\<lambda>u. u\<lparr>update_holder := es, assert_holder := []\<rparr>))
    (bindM (on_world (the_instr k)) (\<lambda>x.
     bindM (ila_not_null (decode x)) (\<lambda>d.
     set_self (\<lambda>u. u\<lparr>assert_holder := [d]\<rparr>)))))))))"

definition Unroll :: "('s, 't, 'f) shim \<Rightarrow> nat list \<Rightarrow> u64 \<Rightarrow> ('s, 't) U" where
  "Unroll G ks from =
     thenM (set_self (\<lambda>u. u\<lparr>u_seq := ks\<rparr>))
           (Unroll_steps G SetDecidingVars MakeOneTransition (length ks) from)"

definition UnrollWithStepsUnconnected :: "('s, 't, 'f) shim \<Rightarrow> nat list \<Rightarrow> u64 \<Rightarrow> ('s, 't) U" where
  "UnrollWithStepsUnconnected G ks from =
     thenM (set_self (\<lambda>u. u\<lparr>u_seq := ks\<rparr>)) (UnrollWithStepsUnconnected_steps G (length ks) from)"

end
