(* ===== verification/Realise.thy ===== *)
theory Realise
  imports Switch_Sound
begin

text \<open>
  Valuations as interpretations of names.  A formula about several moments names the variables
  of the moment \<open>i\<close> with a suffix \<open>c i\<close>.  When these names are apart, every sequence of
  valuations is what some interpretation of the names gives.
\<close>

definition name_at :: "world \<Rightarrow> (nat \<Rightarrow> string) \<Rightarrow> nat \<times> expr \<Rightarrow> string" where
  "name_at w c = (\<lambda>(i, v). var_name w (c i) v)"

definition func_rank :: "world \<Rightarrow> func \<Rightarrow> string \<times> sort list \<times> sort" where
  "func_rank w g = (format_str (f_sym g) (prefix_of (host_prefix w (f_host g))) [], f_args g, f_out g)"

text \<open>The names of the variables differ at every moment, functions differ, and no function is
  applied to nothing (such a call is translated to a variable of its moment).\<close>

definition apart_at :: "world \<Rightarrow> (nat \<Rightarrow> string) \<Rightarrow> nat \<Rightarrow> expr set \<Rightarrow> bool" where
  "apart_at w c n S \<longleftrightarrow> inj_on (name_at w c) ({0..n} \<times> vars_of S) \<and> inj_on (func_rank w) (funcs_of S)
     \<and> (\<forall>x\<in>S. efunc x \<noteq> None \<longrightarrow> args x \<noteq> [])"

definition realise_at :: "world \<Rightarrow> (nat \<Rightarrow> string) \<Rightarrow> nat \<Rightarrow> expr set \<Rightarrow> (nat \<Rightarrow> env) \<Rightarrow> finterp \<Rightarrow> interp" where
  "realise_at w c n S \<rho> \<phi> =
     (let D = {0..n} \<times> vars_of S in
      \<lparr>ivar = \<lambda>x s. (if x \<in> name_at w c ` D \<and> esort (snd (inv_into D (name_at w c) x)) = s
         then (\<lambda>(i, v). \<rho> i v) (inv_into D (name_at w c) x) else zero_val s),
       ifun = \<lambda>x ss s vs. (if (x, ss, s) \<in> func_rank w ` funcs_of S \<and> list_all2 has_sort vs ss
         then \<phi> (inv_into (funcs_of S) (func_rank w) (x, ss, s)) vs else zero_val s)\<rparr>)"

lemma realise_at_ok:
  assumes "\<forall>i. env_ok (\<rho> i)" "finterp_ok \<phi>"
  shows "interp_ok (realise_at w c n S \<rho> \<phi>)"
proof -
  let ?D = "{0..n} \<times> vars_of S"
  have "has_sort ((\<lambda>(i, v). \<rho> i v) (inv_into ?D (name_at w c) x)) s"
    if "x \<in> name_at w c ` ?D" "esort (snd (inv_into ?D (name_at w c) x)) = s" "pos_sort s" for x s
  proof -
    obtain i v where iv: "inv_into ?D (name_at w c) x = (i, v)" by (cases "inv_into ?D (name_at w c) x")
    with inv_into_into [OF that(1)] have "is_var v" by (auto simp: vars_of_def)
    then show ?thesis using assms(1) that(2,3) iv by (cases v) (auto simp: env_ok_def)
  qed
  moreover have "has_sort (\<phi> (inv_into (funcs_of S) (func_rank w) (x, ss, s)) vs) s" (is "has_sort (\<phi> ?g vs) s")
    if "(x, ss, s) \<in> func_rank w ` funcs_of S" "list_all2 has_sort vs ss" "pos_sort s" for x ss s vs
  proof -
    have "f_args ?g = ss" "f_out ?g = s" using f_inv_into_f [OF that(1)] by (simp_all add: func_rank_def)
    with assms(2) [unfolded finterp_ok_def, rule_format, of ?g vs] that(2,3) show ?thesis by simp
  qed
  ultimately show ?thesis
    unfolding interp_ok_def realise_at_def Let_def using zero_val_sort by auto
qed

lemma eval_agree:
  assumes S: "dag S" "\<forall>x\<in>S. smt_expr x" and ok: "env_ok \<rho>" "finterp_ok \<phi>"
    and v: "\<forall>x\<in>vars_of S. \<rho>' x = \<rho> x"
    and f: "\<forall>g\<in>funcs_of S. \<forall>vs. vs \<noteq> [] \<longrightarrow> list_all2 has_sort vs (f_args g) \<longrightarrow> \<phi>' g vs = \<phi> g vs"
    and n: "\<forall>x\<in>S. efunc x \<noteq> None \<longrightarrow> args x \<noteq> []"
  shows "x \<in> S \<Longrightarrow> eval \<rho>' \<phi>' x = eval \<rho> \<phi> x"
proof (induction x rule: measure_induct_rule [of size])
  case (less x)
  have IH: "map (eval \<rho>' \<phi>') (args x) = map (eval \<rho> \<phi>) (args x)"
  proof (rule map_cong [OF refl])
    fix a assume a: "a \<in> set (args x)"
    show "eval \<rho>' \<phi>' a = eval \<rho> \<phi> a"
      by (rule less.IH [OF size_args [OF a]]) (use S(1) less.prems a in \<open>auto simp: dag_def\<close>)
  qed
  show ?case
  proof (cases x)
    case (ExprOp y u s as ps fo h)
    have "smt_expr x" using S(2) less.prems by blast
    then have as: "\<forall>a\<in>set as. smt_expr a" by (auto simp: ExprOp list_all_iff)
    show ?thesis
    proof (cases fo)
      case (Some g)
      have "smt_expr x" using S(2) less.prems by blast
      then have "f_args g = map esort as" by (auto simp: ExprOp Some op_shape_def split: if_splits)
      moreover have "list_all2 has_sort (map (eval \<rho> \<phi>) as) (map esort as)"
        using as eval_sort [OF ok] by (simp add: list_all2_map1 list_all2_map2 list_all2_same)
      moreover have "efunc x = Some g" by (simp add: ExprOp Some)
      then have "g \<in> funcs_of S" "as \<noteq> []" using less.prems n ExprOp unfolding funcs_of_def by (blast, force)
      ultimately have "\<phi>' g (map (eval \<rho> \<phi>) as) = \<phi> g (map (eval \<rho> \<phi>) as)"
        using f [rule_format, of g "map (eval \<rho> \<phi>) as"] by simp
      moreover have "map (eval \<rho>' \<phi>') as = map (eval \<rho> \<phi>) as" using IH by (simp add: ExprOp)
      ultimately show ?thesis by (simp only: ExprOp Some eval.simps option.case)
    next
      case None
      have "map (eval \<rho>' \<phi>') as = map (eval \<rho> \<phi>) as" using IH by (simp add: ExprOp)
      then show ?thesis by (simp only: ExprOp None eval.simps option.case)
    qed
  qed (use v less.prems in \<open>auto simp: vars_of_def\<close>)
qed

lemma realise_at_agree:
  assumes S: "dag S" "\<forall>x\<in>S. smt_expr x" and ok: "\<forall>i. env_ok (\<rho> i)" "finterp_ok \<phi>"
    and apart: "apart_at w c n S" and i: "i \<le> n" and x: "x \<in> S"
  shows "eval (z3_env w (c i) (realise_at w c n S \<rho> \<phi>))
      (z3_finterp w (c i) (realise_at w c n S \<rho> \<phi>)) x = eval (\<rho> i) \<phi> x"
proof (rule eval_agree [OF S _ ok(2) _ _ _ x])
  have inj: "inj_on (name_at w c) ({0..n} \<times> vars_of S)" "inj_on (func_rank w) (funcs_of S)"
    using apart by (auto simp: apart_at_def)
  show "\<forall>v\<in>vars_of S. z3_env w (c i) (realise_at w c n S \<rho> \<phi>) v = \<rho> i v"
  proof
    fix v assume v: "v \<in> vars_of S"
    have "(i, v) \<in> {0..n} \<times> vars_of S" using v i by simp
    with inv_into_f_f [OF inj(1) this] imageI [OF this, of "name_at w c"]
    show "z3_env w (c i) (realise_at w c n S \<rho> \<phi>) v = \<rho> i v"
      by (simp add: z3_env_def realise_at_def Let_def var_name_def [symmetric] name_at_def)
  qed
  show "\<forall>g\<in>funcs_of S. \<forall>vs. vs \<noteq> [] \<longrightarrow> list_all2 has_sort vs (f_args g) \<longrightarrow>
      z3_finterp w (c i) (realise_at w c n S \<rho> \<phi>) g vs = \<phi> g vs"
  proof (intro ballI allI impI)
    fix g and vs :: "val list"
    assume g: "g \<in> funcs_of S" and vs: "vs \<noteq> []" "list_all2 has_sort vs (f_args g)"
    from inv_into_f_f [OF inj(2) g] imageI [OF g, of "func_rank w"] vs
    show "z3_finterp w (c i) (realise_at w c n S \<rho> \<phi>) g vs = \<phi> g vs"
      by (simp add: z3_finterp_def realise_at_def Let_def func_rank_def)
  qed
qed (use ok apart in \<open>auto simp: apart_at_def\<close>)

lemma var_name_suffix: "var_name w sfx v = var_name w [] v @ (if sfx = [] then [] else sep @ sfx)"
  by (simp add: var_name_def format_str_def Let_def)

text \<open>Drawing an identifier changes no name.\<close>

lemma GetRootName_heap:
  fixes w w' :: world
  assumes h: "ila_heap w' = ila_heap w"
  shows "GetRootName w' i = GetRootName w i"
proof -
  have "\<forall>w'. ila_heap w' = ila_heap w \<longrightarrow> GetRootName w' i = Some y" if "GetRootName w i = Some y" for w i y
  proof (rule GetRootName.raw_induct [of "\<lambda>w i y. \<forall>w'. ila_heap w' = ila_heap w \<longrightarrow> GetRootName w' i = Some y", OF _ that])
    fix G :: "world \<Rightarrow> nat \<Rightarrow> string option" and w :: world and i y
    assume IH: "\<And>w i y. G w i = Some y \<Longrightarrow> \<forall>w'. ila_heap w' = ila_heap w \<longrightarrow> GetRootName w' i = Some y"
      and G: "(case ila_heap w i of None \<Rightarrow> None | Some m \<Rightarrow> (case parent m of None \<Rightarrow> Some (sym_name (m_sym m))
         | Some p \<Rightarrow> Option.bind (G w p) (\<lambda>s. Some (s @ ''.'' @ sym_name (m_sym m))))) = Some y"
    show "\<forall>w'. ila_heap w' = ila_heap w \<longrightarrow> GetRootName w' i = Some y"
    proof (intro allI impI)
      fix w' :: world assume h: "ila_heap w' = ila_heap w"
      from G obtain m where m: "ila_heap w' i = Some m" by (auto simp: h split: option.splits)
      show "GetRootName w' i = Some y"
      proof (cases "parent m")
        case None
        then show ?thesis using G m by (simp add: GetRootName.simps [of w' i] h)
      next
        case (Some p)
        with G m obtain s where "G w p = Some s" "y = s @ ''.'' @ sym_name (m_sym m)"
          by (auto simp: h Option.bind_eq_Some_conv)
        then show ?thesis using IH [of w p s] h m Some by (simp add: GetRootName.simps [of w' i])
      qed
    qed
  qed
  then have mono: "GetRootName w i = Some y \<Longrightarrow> ila_heap w' = ila_heap w \<Longrightarrow> GetRootName w' i = Some y" for w w' i y
    by blast
  show ?thesis
    using mono [of w i _ w'] mono [of w' i _ w] h
    by (cases "GetRootName w i"; cases "GetRootName w' i") auto
qed

lemma heap_names:
  fixes w w' :: world
  assumes h: "ila_heap w' = ila_heap w"
  shows "z3_env w' = z3_env w" "z3_finterp w' = z3_finterp w" "var_name w' = var_name w" "func_rank w' = func_rank w"
proof -
  have "root_prefix w' = root_prefix w" "host_prefix w' = host_prefix w"
    by (rule ext, simp add: root_prefix_def host_prefix_def GetRootName_heap [OF h] h split: option.split)+
  then show "z3_env w' = z3_env w" "z3_finterp w' = z3_finterp w" "var_name w' = var_name w" "func_rank w' = func_rank w"
    by (simp_all add: z3_env_def z3_finterp_def var_name_def func_rank_def fun_eq_iff)
qed

end
