(* ===== verification/Unroll_Sound.thy ===== *)
theory Unroll_Sound
  imports Unroll_Smt Realise
begin

text \<open>
  What the formula of an unrolled sequence says.  The reference is a path: a valuation of the
  variables for every step, each of which satisfies the decode of its instruction and gives
  the states their next values.  \<open>shim_laws\<close> is the contract of \<^verbatim>\<open>SmtShim\<close>; the translation to
  z3 meets it.
\<close>

subsection \<open>Paths of a sequence\<close>

definition instr_step :: "world \<Rightarrow> expr set \<Rightarrow> nat \<Rightarrow> env \<Rightarrow> finterp \<Rightarrow> env \<Rightarrow> bool" where
  "instr_step w V k \<rho> \<phi> \<rho>' \<longleftrightarrow>
     (\<exists>x d. instr_heap w k = Some x \<and> decode x = Some d \<and> eval \<rho> \<phi> d = VBool True)
     \<and> (\<forall>s\<in>V. \<rho>' s = eval \<rho> \<phi> (next_state w k s))"

definition all_hold :: "env \<Rightarrow> finterp \<Rightarrow> expr_set \<Rightarrow> bool" where
  "all_hold \<rho> \<phi> ps \<longleftrightarrow> (\<forall>p\<in>set ps. eval \<rho> \<phi> p = VBool True)"

definition seq_states :: "world \<Rightarrow> nat list \<Rightarrow> expr set" where
  "seq_states w ks = {s. \<exists>k\<in>set ks. \<exists>x h m. instr_heap w k = Some x \<and> i_host x = Some h
     \<and> ila_heap w h = Some m \<and> s \<in> set (vec (states m))}"

text \<open>The valuation of a step is the one its suffix names.\<close>

definition step_holds :: "world \<Rightarrow> unroller \<Rightarrow> nat list \<Rightarrow> u64 \<Rightarrow> (string \<Rightarrow> env) \<Rightarrow> (string \<Rightarrow> finterp)
    \<Rightarrow> nat \<Rightarrow> bool" where
  "step_holds w u ks from \<rho> \<phi> i \<longleftrightarrow>
     (let c = SuffixCurrent u (from + of_nat i); n = SuffixCurrent u (from + of_nat i + 1) in
        all_hold (\<rho> c) (\<phi> c) (global_pred u) \<and> all_hold (\<rho> c) (\<phi> c) (step_pred u (of_nat i))
        \<and> (i = 0 \<longrightarrow> all_hold (\<rho> c) (\<phi> c) (initial_pred u))
        \<and> instr_step w (seq_states w ks) (ks ! i) (\<rho> c) (\<phi> c) (\<rho> n))"

definition end_holds :: "unroller \<Rightarrow> nat \<Rightarrow> (string \<Rightarrow> env) \<Rightarrow> (string \<Rightarrow> finterp) \<Rightarrow> bool" where
  "end_holds u len \<rho> \<phi> \<longleftrightarrow>
     (let c = SuffixCurrent u (of_nat len) in
        all_hold (\<rho> c) (\<phi> c) (global_pred u) \<and> all_hold (\<rho> c) (\<phi> c) (step_pred u (of_nat len)))"

definition path_holds :: "world \<Rightarrow> unroller \<Rightarrow> nat list \<Rightarrow> u64 \<Rightarrow> (string \<Rightarrow> env) \<Rightarrow> (string \<Rightarrow> finterp)
    \<Rightarrow> bool" where
  "path_holds w u ks from \<rho> \<phi> \<longleftrightarrow>
     (\<forall>i<length ks. step_holds w u ks from \<rho> \<phi> i) \<and> end_holds u (length ks) \<rho> \<phi>"

subsection \<open>What unrolling needs\<close>

text \<open>The sets of predicates have no duplicates and hold Boolean expressions.\<close>

definition preds_ok :: "expr set \<Rightarrow> expr_set \<Rightarrow> bool" where
  "preds_ok S ps \<longleftrightarrow> set ps \<subseteq> S \<and> distinct (map eid ps) \<and> (\<forall>p\<in>set ps. esort p = SortBool)"

definition unroller_ok :: "expr set \<Rightarrow> unroller \<Rightarrow> bool" where
  "unroller_ok S u \<longleftrightarrow> preds_ok S (global_pred u) \<and> preds_ok S (initial_pred u)
     \<and> (\<forall>k. preds_ok S (step_pred u k))"

definition seq_ready :: "expr set \<Rightarrow> world \<Rightarrow> nat list \<Rightarrow> bool" where
  "seq_ready S w ks \<longleftrightarrow> seq_states w ks \<noteq> {} \<and> seq_states w ks \<subseteq> S
     \<and> (\<forall>k\<in>set ks. \<exists>x h d. instr_heap w k = Some x \<and> i_host x = Some h \<and> h \<in> dom (ila_heap w)
          \<and> decode x = Some d \<and> d \<in> S \<and> esort d = SortBool)
     \<and> (\<forall>k\<in>set ks. \<forall>s\<in>seq_states w ks. next_state w k s \<in> S \<and> esort (next_state w k s) = esort s)"

lemma preds_ok_insert:
  "dag S \<Longrightarrow> preds_ok S ps \<Longrightarrow> p \<in> S \<Longrightarrow> esort p = SortBool \<Longrightarrow> preds_ok S (set_insert p ps)"
  using set_insert_cases [of p ps] by (fastforce simp: preds_ok_def)

lemma preds_ok_Nil [simp]: "preds_ok S []"
  by (simp add: preds_ok_def)

lemma unroller_ok_ops:
  "unroller_ok S (UnrollerSmt_New sfx)"
  "dag S \<Longrightarrow> unroller_ok S u \<Longrightarrow> p \<in> S \<Longrightarrow> esort p = SortBool \<Longrightarrow> unroller_ok S (AssertGlobal p u)"
  "dag S \<Longrightarrow> unroller_ok S u \<Longrightarrow> p \<in> S \<Longrightarrow> esort p = SortBool \<Longrightarrow> unroller_ok S (AssertInitial p u)"
  "dag S \<Longrightarrow> unroller_ok S u \<Longrightarrow> p \<in> S \<Longrightarrow> esort p = SortBool \<Longrightarrow> unroller_ok S (AssertStep p k u)"
  "unroller_ok S u \<Longrightarrow> unroller_ok S (ClearGlobalAssertion u)"
  "unroller_ok S u \<Longrightarrow> unroller_ok S (ClearInitialAssertion u)"
  "unroller_ok S u \<Longrightarrow> unroller_ok S (ClearStepAssertion u)"
  by (auto simp: unroller_ok_def UnrollerSmt_New_def AssertGlobal_def AssertInitial_def AssertStep_def
      ClearGlobalAssertion_def ClearInitialAssertion_def ClearStepAssertion_def preds_ok_insert)

text \<open>The fields of the unroller the virtual functions leave alone.\<close>

definition steady :: "unroller \<Rightarrow> expr list \<Rightarrow> nat list \<Rightarrow> unroller \<Rightarrow> bool" where
  "steady u0 vs ks u \<longleftrightarrow> u_suffix u = u_suffix u0 \<and> global_pred u = global_pred u0
     \<and> initial_pred u = initial_pred u0 \<and> step_pred u = step_pred u0
     \<and> deciding_vars u = vs \<and> u_seq u = ks"

lemma SuffixCurrent_steady: "steady u0 vs ks u \<Longrightarrow> SuffixCurrent u = SuffixCurrent u0"
  by (simp add: steady_def SuffixCurrent_def fun_eq_iff)

lemma on_world_run: "m (r_world st) = Inr (a, r_world st) \<Longrightarrow> on_world m st = Inr (a, st)"
  by (simp add: on_world_def)

lemma self_run [simp]: "self f st = Inr (f (r_self st), st)"
  by (simp add: self_def)

lemma set_self_run [simp]: "set_self f st = Inr ((), st\<lparr>r_self := f (r_self st)\<rparr>)"
  by (simp add: set_self_def)

lemma iterate_run: "on_world (iterate xs) st = Inr (iter_order (r_world st) xs, st)"
  by (simp add: on_world_def iterate_def)

subsection \<open>The virtual functions of the sequence\<close>

text \<open>The loop that collects the states, run by a lifting \<open>L\<close> of actions on the world.\<close>

lemma InsertStt_instr_run:
  assumes "instr_heap w k = Some x" "i_host x = Some h" "ila_heap w h = Some m"
  shows "InsertStt_instr k vs w = Inr (fold set_insert (vec (states m)) vs, w)"
  using assms by (simp add: InsertStt_instr_def InsertStt_def the_instr_def the_ila_def bindM_def)

lemma InsertStt_loop:
  assumes S: "inj_on eid S"
    and hosts: "\<forall>k\<in>set ks. \<exists>x h. instr_heap w k = Some x \<and> i_host x = Some h \<and> h \<in> dom (ila_heap w)"
    and L: "\<And>m a. m w = Inr (a :: expr_set, w) \<Longrightarrow> L m st = Inr (a, st)"
    and sub: "set vs \<union> seq_states w ks \<subseteq> S" and d: "distinct (map eid vs)"
  shows "\<exists>us. foldM (\<lambda>vs k. L (InsertStt_instr k vs)) vs ks st = Inr (us, st)
    \<and> set us = set vs \<union> seq_states w ks \<and> distinct (map eid us)"
  using hosts sub d
proof (induction ks arbitrary: vs)
  case Nil
  then show ?case by (simp add: seq_states_def)
next
  case (Cons k ks)
  obtain x h m where x: "instr_heap w k = Some x" "i_host x = Some h" "ila_heap w h = Some m"
    using Cons.prems(1) by auto
  let ?vs = "fold set_insert (vec (states m)) vs"
  have split: "seq_states w (k # ks) = set (vec (states m)) \<union> seq_states w ks"
    using x by (auto simp: seq_states_def)
  have step: "L (InsertStt_instr k vs) st = Inr (?vs, st)" by (rule L) (rule InsertStt_instr_run [OF x])
  have vs: "set ?vs = set vs \<union> set (vec (states m))" "distinct (map eid ?vs)"
    using fold_set_insert [OF S, of "vec (states m)" vs] Cons.prems(2,3) split by auto
  obtain us where "foldM (\<lambda>vs k. L (InsertStt_instr k vs)) ?vs ks st = Inr (us, st)"
      "set us = set ?vs \<union> seq_states w ks" "distinct (map eid us)"
    using Cons.IH [of ?vs] Cons.prems vs split by auto
  then show ?case using step vs(1) split by auto
qed

lemma SetDecidingVars_run:
  assumes S: "inj_on eid S" and fair: "iter_fair (r_world st)"
    and r: "seq_ready S (r_world st) ks" and ks: "u_seq (r_self st) = ks"
  shows "\<exists>vs. SetDecidingVars st = Inr ((), st\<lparr>r_self := (r_self st)\<lparr>deciding_vars := vs\<rparr>\<rparr>)
    \<and> set vs = seq_states (r_world st) ks"
proof -
  have "\<forall>k\<in>set ks. \<exists>x h. instr_heap (r_world st) k = Some x \<and> i_host x = Some h \<and> h \<in> dom (ila_heap (r_world st))"
    using r unfolding seq_ready_def by blast
  from InsertStt_loop [where L = on_world and w = "r_world st" and st = st and vs = "[]", OF S this on_world_run] r
  obtain us where
    us: "foldM (\<lambda>vs k. on_world (InsertStt_instr k vs)) [] ks st = Inr (us, st)"
      "set us = seq_states (r_world st) ks" "distinct (map eid us)" by (auto simp: seq_ready_def)
  have "set (iter_order (r_world st) us) = seq_states (r_world st) ks" using fair us by (simp add: iter_fair_def)
  moreover have "SetDecidingVars st =
      Inr ((), st\<lparr>r_self := (r_self st)\<lparr>deciding_vars := iter_order (r_world st) us\<rparr>\<rparr>)"
    using us(1) ks by (simp add: SetDecidingVars_def bindM_def thenM_def iterate_run [unfolded iterate_def] iterate_def)
  ultimately show ?thesis by blast
qed

lemma update_map:
  assumes "instr_heap w k = Some x"
  shows "mapM (CompleteStateUpdate k) vs w = Inr (map (next_state w k) vs, w)"
proof (induction vs)
  case (Cons v vs)
  have "CompleteStateUpdate k v w = Inr (next_state w k v, w)"
    using assms by (simp add: CompleteStateUpdate_def instr_update_var_def instr_update_def the_instr_def
      bindM_def next_state_def split: option.splits)
  with Cons.IH show ?case by (simp add: bindM_def)
qed simp

lemma MakeOneTransition_run:
  assumes "steady u0 vs ks (r_self st)" "i < length ks" "instr_heap (r_world st) (ks ! i) = Some x" "decode x = Some d"
  shows "MakeOneTransition i st = Inr ((), st\<lparr>r_self := (r_self st)
    \<lparr>update_holder := map (next_state (r_world st) (ks ! i)) vs, assert_holder := [d]\<rparr>\<rparr>)"
  using assms
  by (simp add: MakeOneTransition_def steady_def bindM_def thenM_def at_def on_world_def update_map the_instr_def)

subsection \<open>Boolean terms\<close>

text \<open>A list of Boolean terms says \<open>C\<close>.\<close>

definition bool_says :: "('t \<Rightarrow> sort) \<Rightarrow> (interp \<Rightarrow> 't \<Rightarrow> val) \<Rightarrow> 't list \<Rightarrow> (interp \<Rightarrow> bool) \<Rightarrow> bool" where
  "bool_says tsort den ts C \<longleftrightarrow> (\<forall>t\<in>set ts. tsort t = SortBool)
     \<and> (\<forall>I. interp_ok I \<longrightarrow> (\<forall>t\<in>set ts. \<exists>b. den I t = VBool b)
          \<and> ((\<forall>t\<in>set ts. den I t = VBool True) \<longleftrightarrow> C I))"

lemma says_Nil: "bool_says tsort den [] (\<lambda>_. True)"
  by (simp add: bool_says_def)

lemma says_append: "bool_says tsort den ts C \<Longrightarrow> bool_says tsort den us D \<Longrightarrow>
    bool_says tsort den (ts @ us) (\<lambda>I. C I \<and> D I)"
  unfolding bool_says_def by auto

lemma says_cong: "bool_says tsort den ts C \<Longrightarrow> (\<And>I. interp_ok I \<Longrightarrow> C I \<longleftrightarrow> D I) \<Longrightarrow> bool_says tsort den ts D"
  unfolding bool_says_def by auto

lemma terms_say:
  assumes "list_all2 (term_rel tsort den E F) ts es" "\<forall>e\<in>set es. smt_expr e \<and> esort e = SortBool"
    and ok: "\<And>I. interp_ok I \<Longrightarrow> env_ok (E I) \<and> finterp_ok (F I)"
  shows "bool_says tsort den ts (\<lambda>I. all_hold (E I) (F I) es)"
  using assms(1,2)
proof (induction rule: list_all2_induct)
  case Nil
  then show ?case by (simp add: bool_says_def all_hold_def)
next
  case (Cons t ts e es)
  have "has_sort (eval (E I) (F I) e) SortBool" if "interp_ok I" for I
    using eval_sort [of "E I" "F I" e] ok [OF that] Cons.prems by simp
  then have "bool_says tsort den [t] (\<lambda>I. eval (E I) (F I) e = VBool True)"
    using Cons by (auto simp: bool_says_def term_rel_def has_sort_Bool)
  moreover have "bool_says tsort den ts (\<lambda>I. all_hold (E I) (F I) es)" using Cons by simp
  ultimately have "bool_says tsort den ([t] @ ts) (\<lambda>I. eval (E I) (F I) e = VBool True \<and> all_hold (E I) (F I) es)"
    by (rule says_append)
  then show ?case by (simp add: all_hold_def)
qed

subsection \<open>The contract of the generator\<close>

locale shim_laws =
  fixes G :: "('s, 't, 'f) shim" and tsort :: "'t \<Rightarrow> sort" and den :: "interp \<Rightarrow> 't \<Rightarrow> val"
    and w :: world and S :: "expr set" and \<rho> :: "string \<Rightarrow> interp \<Rightarrow> env" and \<phi> :: "string \<Rightarrow> interp \<Rightarrow> finterp"
    and ginv :: "'s \<Rightarrow> bool"
  assumes expr_ok: "e \<in> S \<Longrightarrow> ginv g \<Longrightarrow> \<exists>t g'. GetShimExpr G w e sfx g = Inr (t, g') \<and> ginv g'
      \<and> term_rel tsort den (\<rho> sfx) (\<phi> sfx) t e"
    and true_ok: "ginv g \<Longrightarrow> \<exists>t g'. GetShimExpr G (tick w) (ExprConst y SortBool (BoolVal True)) [] g = Inr (t, g')
      \<and> ginv g' \<and> tsort t = SortBool \<and> (\<forall>I. interp_ok I \<longrightarrow> den I t = VBool True)"
    and and_ok: "ginv g \<Longrightarrow> tsort a = SortBool \<Longrightarrow> tsort b = SortBool \<Longrightarrow>
      \<exists>t g'. BoolAnd G a b g = Inr (t, g') \<and> ginv g' \<and> tsort t = SortBool
      \<and> (\<forall>I. den I t = bool2 (\<and>) [den I a, den I b])"
    and equal_ok: "ginv g \<Longrightarrow> tsort a = tsort b \<Longrightarrow>
      \<exists>t g'. Equal G a b g = Inr (t, g') \<and> ginv g' \<and> tsort t = SortBool
      \<and> (\<forall>I. den I t = VBool (den I a = den I b))"
    and names_ok: "interp_ok I \<Longrightarrow> env_ok (\<rho> sfx I) \<and> finterp_ok (\<phi> sfx I)"
    and exprs_ok: "e \<in> S \<Longrightarrow> smt_expr e" and ids: "inj_on eid S" and fair: "iter_fair w" and heap: "world_ok w"
begin

lemma states_vars: "s \<in> seq_states w ks \<Longrightarrow> is_var s"
  using ila_local_of [OF heap] kv_find_ex_of_vec
  by (fastforce simp: seq_states_def ila_local_def vars_ok_def)

abbreviation live :: "'s run_state \<Rightarrow> bool" where
  "live st \<equiv> r_world st = w \<and> ginv (r_gen st)"

abbreviation says :: "'t list \<Rightarrow> (interp \<Rightarrow> bool) \<Rightarrow> bool" where
  "says \<equiv> bool_says tsort den"

text \<open>A loop that appends the results of its body to a list.\<close>

lemma append_loop:
  assumes body: "\<And>x st. x \<in> set xs \<Longrightarrow> live st \<Longrightarrow>
      \<exists>t g. m x st = Inr (t, st\<lparr>r_gen := g\<rparr>) \<and> ginv g \<and> P t x"
    and st: "live st"
  shows "\<exists>ts g. foldM (\<lambda>dst x. bindM (m x) (\<lambda>t. ret (dst @ [t]))) dst xs st = Inr (dst @ ts, st\<lparr>r_gen := g\<rparr>)
    \<and> ginv g \<and> list_all2 P ts xs"
  using assms
proof (induction xs arbitrary: dst st)
  case Nil
  then show ?case by (intro exI [of _ "[]"] exI [of _ "r_gen st"]) simp
next
  case (Cons x xs)
  obtain t g where t: "m x st = Inr (t, st\<lparr>r_gen := g\<rparr>)" "ginv g" "P t x"
    using Cons.prems(1) [of x st] Cons.prems(2) by auto
  have "\<exists>ts g'. foldM (\<lambda>dst x. bindM (m x) (\<lambda>t. ret (dst @ [t]))) (dst @ [t]) xs (st\<lparr>r_gen := g\<rparr>) =
      Inr ((dst @ [t]) @ ts, st\<lparr>r_gen := g\<rparr>\<lparr>r_gen := g'\<rparr>) \<and> ginv g' \<and> list_all2 P ts xs"
    by (rule Cons.IH) (use Cons.prems t(2) in auto)
  then obtain ts g' where ts: "foldM (\<lambda>dst x. bindM (m x) (\<lambda>t. ret (dst @ [t]))) (dst @ [t]) xs (st\<lparr>r_gen := g\<rparr>) =
      Inr ((dst @ [t]) @ ts, st\<lparr>r_gen := g\<rparr>\<lparr>r_gen := g'\<rparr>)" "ginv g'" "list_all2 P ts xs" by (elim exE conjE)
  then show ?case
    using t(3) unfolding foldM.simps bindM_assoc bindM_run [where m = "m x", OF t(1)]
      bindM_run [where m = "ret y" for y, OF ret_run]
    by (intro exI [of _ "t # ts"] exI [of _ g']) simp
qed

abbreviation rel :: "string \<Rightarrow> 't \<Rightarrow> expr \<Rightarrow> bool" where
  "rel sfx \<equiv> term_rel tsort den (\<rho> sfx) (\<phi> sfx)"

lemma interp_run:
  assumes "set es \<subseteq> S" "live st"
  shows "\<exists>ts g. InterpIlaExprAndAppend G es sfx dst st = Inr (dst @ ts, st\<lparr>r_gen := g\<rparr>)
    \<and> ginv g \<and> list_all2 (rel sfx) ts es"
  unfolding InterpIlaExprAndAppend_def
proof (rule append_loop [OF _ assms(2)])
  fix e and st :: "'s run_state"
  assume e: "e \<in> set es" and st: "live st"
  from expr_ok [of e "r_gen st" sfx] e st assms(1) obtain t g where
    "GetShimExpr G w e sfx (r_gen st) = Inr (t, g)" "ginv g" "rel sfx t e" by blast
  then show "\<exists>t g. on_gen (\<lambda>w. GetShimExpr G w e sfx) st = Inr (t, st\<lparr>r_gen := g\<rparr>) \<and> ginv g \<and> rel sfx t e"
    using st by (auto simp: on_gen_def)
qed

lemma rel_says:
  assumes "list_all2 (rel sfx) ts es" "set es \<subseteq> S" "\<forall>e\<in>set es. esort e = SortBool"
  shows "says ts (\<lambda>I. all_hold (\<rho> sfx I) (\<phi> sfx I) es)"
  by (rule terms_say [OF assms(1)]) (use names_ok exprs_ok assms in auto)

lemma preds_run:
  assumes "preds_ok S ps" "live st"
  shows "\<exists>ts g. InterpIlaExprAndAppend_set G ps sfx dst st = Inr (dst @ ts, st\<lparr>r_gen := g\<rparr>)
    \<and> ginv g \<and> says ts (\<lambda>I. all_hold (\<rho> sfx I) (\<phi> sfx I) ps)"
proof -
  let ?es = "iter_order w ps"
  have es: "set ?es = set ps" using assms(1) fair by (simp add: preds_ok_def iter_fair_def)
  with assms(1) have sub: "set ?es \<subseteq> S" "\<forall>e\<in>set ?es. esort e = SortBool" by (auto simp: preds_ok_def)
  from interp_run [OF sub(1) assms(2), of sfx dst] obtain ts g where
    "InterpIlaExprAndAppend G ?es sfx dst st = Inr (dst @ ts, st\<lparr>r_gen := g\<rparr>)" "ginv g"
    "list_all2 (rel sfx) ts ?es" by blast
  with rel_says [OF this(3) sub] es assms(2) show ?thesis
    by (intro exI [of _ ts] exI [of _ g])
      (simp add: InterpIlaExprAndAppend_set_def bindM_def iterate_run all_hold_def)
qed

lemma equal_run:
  assumes "map tsort a = map tsort b" "live st"
  shows "\<exists>ts g. ElementWiseEqualAndAppend G a b dst st = Inr (dst @ ts, st\<lparr>r_gen := g\<rparr>)
    \<and> ginv g \<and> says ts (\<lambda>I. map (den I) a = map (den I) b)"
proof -
  have len: "length a = length b" using arg_cong [OF assms(1), of length] by simp
  let ?m = "\<lambda>i. bindM (liftR (at a i)) (\<lambda>ai. bindM (liftR (at b i)) (\<lambda>bi. on_gen (\<lambda>w. Equal G ai bi)))"
  let ?P = "\<lambda>t i. tsort t = SortBool \<and> (\<forall>I. den I t = VBool (den I (a ! i) = den I (b ! i)))"
  have body: "\<exists>t g. ?m i st = Inr (t, st\<lparr>r_gen := g\<rparr>) \<and> ginv g \<and> ?P t i"
    if i: "i \<in> set [0..<length a]" and st: "live st" for i and st :: "'s run_state"
  proof -
    have "tsort (a ! i) = tsort (b ! i)" using i assms(1) len by (metis atLeastLessThan_iff nth_map set_upt)
    from equal_ok [OF _ this, of "r_gen st"] st obtain t g where
      "Equal G (a ! i) (b ! i) (r_gen st) = Inr (t, g)" "ginv g" "?P t i" by blast
    then show ?thesis using i len by (auto simp: bindM_def at_def on_gen_def)
  qed
  from append_loop [where m = ?m and P = ?P and xs = "[0..<length a]" and dst = dst, OF body assms(2)]
  obtain ts g where
    ts: "foldM (\<lambda>dst i. bindM (?m i) (\<lambda>t. ret (dst @ [t]))) dst [0..<length a] st = Inr (dst @ ts, st\<lparr>r_gen := g\<rparr>)"
      "ginv g" "list_all2 ?P ts [0..<length a]" by blast
  have "says ts (\<lambda>I. \<forall>i<length a. den I (a ! i) = den I (b ! i))"
    using ts(3) by (auto simp: bool_says_def list_all2_conv_all_nth all_set_conv_all_nth)
  then have "says ts (\<lambda>I. map (den I) a = map (den I) b)"
    by (rule says_cong) (simp add: list_eq_iff_nth_eq len)
  then show ?thesis
    using ts(1,2) by (auto simp: ElementWiseEqualAndAppend_def thenM_def len bindM_assoc)
qed

text \<open>The conjunction.\<close>

lemma and_loop:
  assumes "says ts C" "ginv (r_gen st)" "tsort c = SortBool" "\<forall>I. interp_ok I \<longrightarrow> den I c = VBool (D I)"
  shows "\<exists>t g. foldM (\<lambda>acc e. on_gen (\<lambda>w. BoolAnd G acc e)) c ts st = Inr (t, st\<lparr>r_gen := g\<rparr>)
    \<and> ginv g \<and> tsort t = SortBool \<and> (\<forall>I. interp_ok I \<longrightarrow> den I t = VBool (D I \<and> C I))"
  using assms
proof (induction ts arbitrary: st c C D)
  case Nil
  then show ?case by (intro exI [of _ c] exI [of _ "r_gen st"]) (auto simp: bool_says_def)
next
  case (Cons x ts)
  let ?X = "\<lambda>I. den I x = VBool True" and ?T = "\<lambda>I. \<forall>t\<in>set ts. den I t = VBool True"
  have x: "tsort x = SortBool" "\<And>I. interp_ok I \<Longrightarrow> \<exists>b. den I x = VBool b" and
    C: "\<And>I. interp_ok I \<Longrightarrow> C I \<longleftrightarrow> ?X I \<and> ?T I" and ts: "says ts ?T"
    using Cons.prems(1) by (auto simp: bool_says_def)
  from and_ok [OF Cons.prems(2,3) x(1)] obtain t g where
    t: "BoolAnd G c x (r_gen st) = Inr (t, g)" "ginv g" "tsort t = SortBool"
      "\<And>I. den I t = bool2 (\<and>) [den I c, den I x]" by blast
  have "\<forall>I. interp_ok I \<longrightarrow> den I t = VBool (D I \<and> ?X I)"
    using Cons.prems(4) x(2) t(4) by (fastforce simp: bool2_def)
  from Cons.IH [OF ts _ t(3) this, of "st\<lparr>r_gen := g\<rparr>"] t(1,2) C show ?case
    by (auto simp: bindM_def on_gen_def)
qed

lemma ConjunctAll_run:
  assumes "says ts C" "live st"
  shows "\<exists>t g. ConjunctAll G ts st = Inr (t, st\<lparr>r_world := tick w, r_gen := g\<rparr>) \<and> tsort t = SortBool
    \<and> (\<forall>I. interp_ok I \<longrightarrow> den I t = VBool (C I))"
proof -
  let ?c = "ExprConst (fresh_symbol w) SortBool (BoolVal True)"
  from true_ok [of "r_gen st" "fresh_symbol w"] assms(2) obtain c g where
    c: "GetShimExpr G (tick w) ?c [] (r_gen st) = Inr (c, g)" "ginv g" "tsort c = SortBool"
      "\<forall>I. interp_ok I \<longrightarrow> den I c = VBool True" by blast
  from and_loop [OF assms(1) _ c(3,4), of "st\<lparr>r_world := tick w, r_gen := g\<rparr>"] c(2) obtain t g' where
    "foldM (\<lambda>acc e. on_gen (\<lambda>w. BoolAnd G acc e)) c ts (st\<lparr>r_world := tick w, r_gen := g\<rparr>) =
      Inr (t, st\<lparr>r_world := tick w, r_gen := g'\<rparr>)" "tsort t = SortBool"
    "\<forall>I. interp_ok I \<longrightarrow> den I t = VBool (C I)" by auto
  then show ?thesis
    using c(1) assms(2)
    by (intro exI [of _ t] exI [of _ g'])
      (simp add: ConjunctAll_def bindM_def on_world_def on_gen_def BoolConst_def ExprConst_bool_def)
qed

text \<open>One step.\<close>

definition at_step :: "unroller \<Rightarrow> expr list \<Rightarrow> nat list \<Rightarrow> 's run_state \<Rightarrow> bool" where
  "at_step u vs ks st \<longleftrightarrow> live st \<and> steady u vs ks (r_self st)"

lemma at_step_gen: "at_step u vs ks st \<Longrightarrow> ginv g \<Longrightarrow> at_step u vs ks (st\<lparr>r_gen := g\<rparr>)"
  by (simp add: at_step_def)

lemma preds_at:
  assumes "at_step u vs ks st" "preds_ok S (f u)" "f (r_self st) = f u"
  shows "\<exists>ts st'. bindM (self f) (\<lambda>ps. InterpIlaExprAndAppend_set G ps sfx dst) st = Inr (dst @ ts, st')
    \<and> at_step u vs ks st' \<and> r_self st' = r_self st \<and> says ts (\<lambda>I. all_hold (\<rho> sfx I) (\<phi> sfx I) (f u))"
proof -
  from preds_run [OF assms(2), of st sfx dst] assms(1) obtain ts g where
    "InterpIlaExprAndAppend_set G (f u) sfx dst st = Inr (dst @ ts, st\<lparr>r_gen := g\<rparr>)" "ginv g"
    "says ts (\<lambda>I. all_hold (\<rho> sfx I) (\<phi> sfx I) (f u))" by (auto simp: at_step_def)
  then show ?thesis
    using assms(1,3) by (intro exI [of _ ts] exI [of _ "st\<lparr>r_gen := g\<rparr>"]) (simp add: bindM_def at_step_def)
qed

lemma exprs_at:
  assumes "at_step u vs ks st" "set es \<subseteq> S" "f (r_self st) = es"
  shows "\<exists>ts st'. bindM (self f) (\<lambda>es. InterpIlaExprAndAppend G es sfx dst) st = Inr (dst @ ts, st')
    \<and> at_step u vs ks st' \<and> r_self st' = r_self st \<and> list_all2 (rel sfx) ts es"
proof -
  from interp_run [OF assms(2), of st sfx dst] assms(1) obtain ts g where
    "InterpIlaExprAndAppend G es sfx dst st = Inr (dst @ ts, st\<lparr>r_gen := g\<rparr>)" "ginv g"
    "list_all2 (rel sfx) ts es" by (auto simp: at_step_def)
  then show ?thesis
    using assms(1,3) by (intro exI [of _ ts] exI [of _ "st\<lparr>r_gen := g\<rparr>"]) (simp add: bindM_def at_step_def)
qed

lemma rel_maps:
  assumes "list_all2 (rel sfx) ts es"
  shows "map tsort ts = map esort es" "interp_ok I \<Longrightarrow> map (den I) ts = map (eval (\<rho> sfx I) (\<phi> sfx I)) es"
  using assms by (induction rule: list_all2_induct) (auto simp: term_rel_def)

text \<open>The equations between the next values and the variables of the next step.\<close>

lemma update_run:
  assumes st: "at_step u vs ks st" "deciding_vars (r_self st) = vs" "update_holder (r_self st) = map nx vs"
    and vs: "set vs \<subseteq> S" "\<forall>s\<in>set vs. is_var s \<and> nx s \<in> S \<and> esort (nx s) = esort s"
  shows "\<exists>ts st'. bindM (bindM (self update_holder) (\<lambda>es. InterpIlaExprAndAppend G es sfx [])) (\<lambda>smt_next_val.
     bindM (bindM (self deciding_vars) (\<lambda>es. InterpIlaExprAndAppend G es sfx' [])) (\<lambda>smt_next_var.
     ElementWiseEqualAndAppend G smt_next_val smt_next_var dst)) st = Inr (dst @ ts, st')
    \<and> at_step u vs ks st' \<and> says ts (\<lambda>I. \<forall>s\<in>set vs. \<rho> sfx' I s = eval (\<rho> sfx I) (\<phi> sfx I) (nx s))"
proof -
  have sub: "set (map nx vs) \<subseteq> S" using vs(2) by auto
  from exprs_at [where f = update_holder and sfx = sfx and dst = "[]", OF st(1) sub st(3)] obtain a st1 where
    a: "bindM (self update_holder) (\<lambda>es. InterpIlaExprAndAppend G es sfx []) st = Inr (a, st1)"
      "at_step u vs ks st1" "r_self st1 = r_self st" "list_all2 (rel sfx) a (map nx vs)" by auto
  from exprs_at [where f = deciding_vars and sfx = sfx' and dst = "[]", OF a(2) vs(1)] st(2) a(3) obtain b st2 where
    b: "bindM (self deciding_vars) (\<lambda>es. InterpIlaExprAndAppend G es sfx' []) st1 = Inr (b, st2)"
      "at_step u vs ks st2" "list_all2 (rel sfx') b vs" by auto
  have "map tsort a = map tsort b" using rel_maps(1) [OF a(4)] rel_maps(1) [OF b(3)] vs(2) by simp
  from equal_run [OF this, of st2 dst] b(2) obtain ts g where
    ts: "ElementWiseEqualAndAppend G a b dst st2 = Inr (dst @ ts, st2\<lparr>r_gen := g\<rparr>)" "ginv g"
      "says ts (\<lambda>I. map (den I) a = map (den I) b)" by (auto simp: at_step_def)
  have "eval (\<rho> sfx' I) (\<phi> sfx' I) s = \<rho> sfx' I s" if "s \<in> set vs" for I s
    using vs(2) that by (cases s) auto
  then have "map (den I) a = map (den I) b \<longleftrightarrow> (\<forall>s\<in>set vs. \<rho> sfx' I s = eval (\<rho> sfx I) (\<phi> sfx I) (nx s))"
    if "interp_ok I" for I
    using rel_maps(2) [OF a(4) that] rel_maps(2) [OF b(3) that] by auto
  from says_cong [OF ts(3) this] show ?thesis
    using a(1) b(1) ts(1,2) at_step_gen [OF b(2)]
    by (intro exI [of _ ts] exI [of _ "st2\<lparr>r_gen := g\<rparr>"]) (simp add: a(1) b(1))
qed

lemma step_run:
  assumes st: "at_step u vs ks st" and u: "unroller_ok S u" and ks: "seq_ready S w ks"
    and vs: "set vs = seq_states w ks" and i: "i < length ks"
  shows "\<exists>ts st'. unroll_step G MakeOneTransition from dst i st = Inr (dst @ ts, st') \<and> at_step u vs ks st'
    \<and> says ts (\<lambda>I. step_holds w u ks from (\<lambda>s. \<rho> s I) (\<lambda>s. \<phi> s I) i)"
proof -
  let ?c = "SuffixCurrent u (from + of_nat i)" and ?n = "SuffixCurrent u (from + of_nat i + 1)"
  have k: "ks ! i \<in> set ks" using i by simp
  obtain x d where x: "instr_heap w (ks ! i) = Some x" "decode x = Some d" "d \<in> S" "esort d = SortBool"
    using ks k unfolding seq_ready_def by blast
  note P = u [unfolded unroller_ok_def]
  let ?st1 = "st\<lparr>r_self := (r_self st)\<lparr>update_holder := map (next_state w (ks ! i)) vs, assert_holder := [d]\<rparr>\<rparr>"
  have mk: "MakeOneTransition i st = Inr ((), ?st1)"
    using MakeOneTransition_run [of u vs ks st i x d] st i x by (simp add: at_step_def)
  have st1: "at_step u vs ks ?st1" using st by (simp add: at_step_def steady_def)
  have sfx: "SuffixCurrent (r_self st) = SuffixCurrent u" using st SuffixCurrent_steady by (auto simp: at_step_def)
  obtain g st2 where g: "bindM (self global_pred) (\<lambda>ps. InterpIlaExprAndAppend_set G ps ?c dst) ?st1 = Inr (dst @ g, st2)"
      "at_step u vs ks st2" "r_self st2 = r_self ?st1" "says g (\<lambda>I. all_hold (\<rho> ?c I) (\<phi> ?c I) (global_pred u))"
    using preds_at [where f = global_pred and sfx = ?c and dst = dst, OF st1] P st1 by (auto simp: at_step_def steady_def)
  obtain s st3 where s: "bindM (self (\<lambda>u. step_pred u (of_nat i))) (\<lambda>ps. InterpIlaExprAndAppend_set G ps ?c (dst @ g)) st2
        = Inr (dst @ g @ s, st3)" "at_step u vs ks st3" "r_self st3 = r_self st2"
      "says s (\<lambda>I. all_hold (\<rho> ?c I) (\<phi> ?c I) (step_pred u (of_nat i)))"
    using preds_at [where f = "\<lambda>u. step_pred u (of_nat i)" and sfx = ?c and dst = "dst @ g", OF g(2)] P g(2)
    by (auto simp: at_step_def steady_def)
  obtain a st4 where a: "bindM (self assert_holder) (\<lambda>es. InterpIlaExprAndAppend G es ?c (dst @ g @ s)) st3
        = Inr (dst @ g @ s @ a, st4)" "at_step u vs ks st4" "r_self st4 = r_self st3" "list_all2 (rel ?c) a [d]"
    using exprs_at [where f = assert_holder and sfx = ?c and dst = "dst @ g @ s", OF s(2), of "[d]"] s(3) g(3) x(3) by auto
  have a_says: "says a (\<lambda>I. all_hold (\<rho> ?c I) (\<phi> ?c I) [d])" by (rule rel_says [OF a(4)]) (use x in auto)
  obtain b st5 where b: "(if i = 0 then bindM (self initial_pred) (\<lambda>ps. InterpIlaExprAndAppend_set G ps ?c (dst @ g @ s @ a))
        else ret (dst @ g @ s @ a)) st4 = Inr (dst @ g @ s @ a @ b, st5)" "at_step u vs ks st5" "r_self st5 = r_self st4"
      "says b (\<lambda>I. i = 0 \<longrightarrow> all_hold (\<rho> ?c I) (\<phi> ?c I) (initial_pred u))"
  proof (cases "i = 0")
    case True
    then show ?thesis
      using preds_at [where f = initial_pred and sfx = ?c and dst = "dst @ g @ s @ a", OF a(2)] P a(2) that
      by (auto simp: at_step_def steady_def)
  next
    case False
    then show ?thesis using that [of "[]" st4] a(2) says_Nil [of tsort den] by simp
  qed
  have self5: "deciding_vars (r_self st5) = vs" "update_holder (r_self st5) = map (next_state w (ks ! i)) vs"
    using st g(3) s(3) a(3) b(3) by (auto simp: at_step_def steady_def)
  have "set vs \<subseteq> S" "\<forall>s\<in>set vs. is_var s \<and> next_state w (ks ! i) s \<in> S \<and> esort (next_state w (ks ! i) s) = esort s"
    using ks k vs states_vars unfolding seq_ready_def by blast+
  from update_run [OF b(2) self5 this, of ?c ?n "dst @ g @ s @ a @ b"] obtain e st6 where
    e: "bindM (bindM (self update_holder) (\<lambda>es. InterpIlaExprAndAppend G es ?c [])) (\<lambda>smt_next_val.
     bindM (bindM (self deciding_vars) (\<lambda>es. InterpIlaExprAndAppend G es ?n [])) (\<lambda>smt_next_var.
     ElementWiseEqualAndAppend G smt_next_val smt_next_var (dst @ g @ s @ a @ b))) st5 = Inr ((dst @ g @ s @ a @ b) @ e, st6)"
    "at_step u vs ks st6" "says e (\<lambda>I. \<forall>s\<in>set vs. \<rho> ?n I s = eval (\<rho> ?c I) (\<phi> ?c I) (next_state w (ks ! i) s))"
    by blast
  have "unroll_step G MakeOneTransition from dst i st = Inr (dst @ g @ s @ a @ b @ e, st6)"
    unfolding unroll_step_def
    using e(1) by (simp add: sfx mk g(1) s(1) a(1) b(1))
  moreover have "says (g @ s @ a @ b @ e) (\<lambda>I. step_holds w u ks from (\<lambda>s. \<rho> s I) (\<lambda>s. \<phi> s I) i)"
    by (rule says_cong [OF says_append [OF g(4) says_append [OF s(4) says_append [OF a_says says_append [OF b(4) e(3)]]]]])
      (use x vs in \<open>auto simp: step_holds_def instr_step_def all_hold_def Let_def\<close>)
  ultimately show ?thesis using e(2) by blast
qed

text \<open>All steps.\<close>

lemma steps_run:
  assumes "at_step u vs ks st" "unroller_ok S u" "seq_ready S w ks" "set vs = seq_states w ks"
  shows "set is \<subseteq> {..<length ks} \<Longrightarrow>
    \<exists>ts st'. foldM (unroll_step G MakeOneTransition from) dst is st = Inr (dst @ ts, st') \<and> at_step u vs ks st'
    \<and> says ts (\<lambda>I. \<forall>i\<in>set is. step_holds w u ks from (\<lambda>s. \<rho> s I) (\<lambda>s. \<phi> s I) i)"
  using assms(1)
proof (induction "is" arbitrary: dst st)
  case Nil
  then show ?case by (auto simp: says_Nil)
next
  case (Cons i "is")
  from step_run [OF Cons.prems(2) assms(2-4), of i "from" dst] Cons.prems(1) obtain ts st1 where
    1: "unroll_step G MakeOneTransition from dst i st = Inr (dst @ ts, st1)" "at_step u vs ks st1"
      "says ts (\<lambda>I. step_holds w u ks from (\<lambda>s. \<rho> s I) (\<lambda>s. \<phi> s I) i)" by auto
  from Cons.IH [OF _ 1(2), of "dst @ ts"] Cons.prems(1) obtain us st2 where
    2: "foldM (unroll_step G MakeOneTransition from) (dst @ ts) is st1 = Inr ((dst @ ts) @ us, st2)" "at_step u vs ks st2"
      "says us (\<lambda>I. \<forall>i\<in>set is. step_holds w u ks from (\<lambda>s. \<rho> s I) (\<lambda>s. \<phi> s I) i)" by auto
  from says_append [OF 1(3) 2(3)] 1(1) 2(1,2) show ?case by auto
qed

lemma end_run:
  assumes st: "at_step u vs ks st" and u: "unroller_ok S u"
  shows "\<exists>ts st'. unroll_end G len dst st = Inr (dst @ ts, st') \<and> at_step u vs ks st'
    \<and> says ts (\<lambda>I. end_holds u len (\<lambda>s. \<rho> s I) (\<lambda>s. \<phi> s I))"
proof -
  let ?c = "SuffixCurrent u (of_nat len)"
  note P = u [unfolded unroller_ok_def]
  have sfx: "SuffixCurrent (r_self st) = SuffixCurrent u" using st SuffixCurrent_steady by (auto simp: at_step_def)
  obtain g st2 where g: "bindM (self global_pred) (\<lambda>ps. InterpIlaExprAndAppend_set G ps ?c dst) st = Inr (dst @ g, st2)"
      "at_step u vs ks st2" "says g (\<lambda>I. all_hold (\<rho> ?c I) (\<phi> ?c I) (global_pred u))"
    using preds_at [where f = global_pred and sfx = ?c and dst = dst, OF st] P st by (auto simp: at_step_def steady_def)
  obtain s st3 where s: "bindM (self (\<lambda>u. step_pred u (of_nat len))) (\<lambda>ps. InterpIlaExprAndAppend_set G ps ?c (dst @ g)) st2
        = Inr ((dst @ g) @ s, st3)" "at_step u vs ks st3"
      "says s (\<lambda>I. all_hold (\<rho> ?c I) (\<phi> ?c I) (step_pred u (of_nat len)))"
    using preds_at [where f = "\<lambda>u. step_pred u (of_nat len)" and sfx = ?c and dst = "dst @ g", OF g(2)] P g(2)
    by (auto simp: at_step_def steady_def)
  have "unroll_end G len dst st = Inr (dst @ g @ s, st3)"
    unfolding unroll_end_def using s(1) by (simp add: sfx g(1))
  moreover have "says (g @ s) (\<lambda>I. end_holds u len (\<lambda>s. \<rho> s I) (\<lambda>s. \<phi> s I))"
    by (rule says_cong [OF says_append [OF g(3) s(3)]]) (simp add: end_holds_def Let_def)
  ultimately show ?thesis using s(2) by blast
qed

lemma Unroll_run:
  assumes st: "live st" and u: "unroller_ok S (r_self st)" and ks: "seq_ready S w ks"
  shows "\<exists>t st'. Unroll G ks from st = Inr (t, st') \<and> tsort t = SortBool
    \<and> (\<forall>I. interp_ok I \<longrightarrow> den I t = VBool (path_holds w (r_self st) ks from (\<lambda>s. \<rho> s I) (\<lambda>s. \<phi> s I)))"
proof -
  let ?u = "r_self st"
  let ?st0 = "st\<lparr>r_self := ?u\<lparr>u_seq := ks, deciding_vars := [], update_holder := [], assert_holder := []\<rparr>\<rparr>"
  obtain vs where vs: "SetDecidingVars ?st0 = Inr ((), ?st0\<lparr>r_self := (r_self ?st0)\<lparr>deciding_vars := vs\<rparr>\<rparr>)"
      "set vs = seq_states w ks"
    using SetDecidingVars_run [OF ids, of ?st0 ks] fair ks st by auto
  have ne: "vs \<noteq> []" using ks vs(2) by (auto simp: seq_ready_def)
  let ?st1 = "?st0\<lparr>r_self := (r_self ?st0)\<lparr>deciding_vars := vs\<rparr>\<rparr>"
  have st1: "at_step ?u vs ks ?st1" using st by (simp add: at_step_def steady_def)
  have range: "set [0..<length ks] \<subseteq> {..<length ks}" by auto
  from steps_run [OF st1 u ks vs(2) range, of "from" "[]"] obtain ts st2 where
    2: "foldM (unroll_step G MakeOneTransition from) [] [0..<length ks] ?st1 = Inr (ts, st2)" "at_step ?u vs ks st2"
      "says ts (\<lambda>I. \<forall>i\<in>set [0..<length ks]. step_holds w ?u ks from (\<lambda>s. \<rho> s I) (\<lambda>s. \<phi> s I) i)" by auto
  from end_run [OF 2(2) u, of "length ks" ts] obtain us st3 where
    3: "unroll_end G (length ks) ts st2 = Inr (ts @ us, st3)" "at_step ?u vs ks st3"
      "says us (\<lambda>I. end_holds ?u (length ks) (\<lambda>s. \<rho> s I) (\<lambda>s. \<phi> s I))" by auto
  have "says (ts @ us) (\<lambda>I. path_holds w ?u ks from (\<lambda>s. \<rho> s I) (\<lambda>s. \<phi> s I))"
    by (rule says_cong [OF says_append [OF 2(3) 3(3)]]) (auto simp: path_holds_def)
  from ConjunctAll_run [OF this, of st3] 3(2) obtain t g where
    4: "ConjunctAll G (ts @ us) st3 = Inr (t, st3\<lparr>r_world := tick w, r_gen := g\<rparr>)" "tsort t = SortBool"
      "\<forall>I. interp_ok I \<longrightarrow> den I t = VBool (path_holds w ?u ks from (\<lambda>s. \<rho> s I) (\<lambda>s. \<phi> s I))"
    by (auto simp: at_step_def)
  have "Unroll_steps G SetDecidingVars MakeOneTransition (length ks) from (st\<lparr>r_self := ?u\<lparr>u_seq := ks\<rparr>\<rparr>) =
      Inr (t, st3\<lparr>r_world := tick w, r_gen := g\<rparr>)"
    unfolding Unroll_steps_def using vs(1) ne 2(1) 3(1) 4(1) by simp
  then show ?thesis using 4(2,3) by (simp add: Unroll_def)
qed

end

subsection \<open>The translation to z3 meets the contract\<close>

lemma z3_shim_laws:
  assumes laws: "z3_laws api tsort den" and heap: "world_ok w" and S: "dag S" "\<forall>x\<in>S. z3_ready w x"
    and fair: "iter_fair w"
  shows "shim_laws (z3_shim api) tsort den w S (z3_env w) (z3_finterp w) (\<lambda>_. True)"
proof
  note app = lib_apply.app_ok [OF z3_laws.axioms(1) [OF laws]]
  show "\<exists>t g'. GetShimExpr (z3_shim api) w e sfx g = Inr (t, g') \<and> True
      \<and> term_rel tsort den (z3_env w sfx) (z3_finterp w sfx) t e" if "e \<in> S" for e sfx and g :: unit
    using z3_GetExpr [OF laws heap S that, of sfx] by (auto simp: z3_shim_def)
  show "\<exists>t g'. GetShimExpr (z3_shim api) (tick w) (ExprConst y SortBool (BoolVal True)) [] g = Inr (t, g')
      \<and> True \<and> tsort t = SortBool \<and> (\<forall>I. interp_ok I \<longrightarrow> den I t = VBool True)" for y and g :: unit
  proof -
    let ?c = "ExprConst y SortBool (BoolVal True)"
    have "world_ok (tick w)" using heap by simp
    moreover have "dag {?c}" "\<forall>x\<in>{?c}. z3_ready (tick w) x"
      by (auto simp: dag_def z3_ready_def int_node_def host_ok_def)
    ultimately show ?thesis
      using z3_GetExpr [OF laws, of "tick w" "{?c}" ?c "[]"] by (auto simp: z3_shim_def term_rel_def)
  qed
  show "\<exists>t g'. BoolAnd (z3_shim api) a b g = Inr (t, g') \<and> True \<and> tsort t = SortBool
      \<and> (\<forall>I. den I t = bool2 (\<and>) [den I a, den I b])"
    if "tsort a = SortBool" "tsort b = SortBool" for a b and g :: unit
    using app [of Land "[a, b]" SortBool] that by (auto simp: z3_shim_def bool2_sort_def)
  show "\<exists>t g'. Equal (z3_shim api) a b g = Inr (t, g') \<and> True \<and> tsort t = SortBool
      \<and> (\<forall>I. den I t = VBool (den I a = den I b))"
    if "tsort a = tsort b" for a b and g :: unit
    using app [of Leq "[a, b]" SortBool] that by (auto simp: z3_shim_def same2_def)
  show "smt_expr e" if "e \<in> S" for e using S(2) that by (simp add: z3_ready_def)
  show "inj_on eid S" using S(1) by (simp add: dag_def)
qed (use z3_env_ok fair heap in auto)

subsection \<open>Executions of a sequence\<close>

text \<open>A valuation for each step and one interpretation of the functions.\<close>

definition execution :: "world \<Rightarrow> unroller \<Rightarrow> nat list \<Rightarrow> (nat \<Rightarrow> env) \<Rightarrow> finterp \<Rightarrow> bool" where
  "execution w u ks \<rho> \<phi> \<longleftrightarrow>
     (\<forall>i<length ks. instr_step w (seq_states w ks) (ks ! i) (\<rho> i) \<phi> (\<rho> (Suc i)))
     \<and> (\<forall>i\<le>length ks. all_hold (\<rho> i) \<phi> (global_pred u) \<and> all_hold (\<rho> i) \<phi> (step_pred u (of_nat i)))
     \<and> (ks \<noteq> [] \<longrightarrow> all_hold (\<rho> 0) \<phi> (initial_pred u))"

lemma preds_agree:
  assumes "set ps \<subseteq> S" "\<forall>x\<in>S. eval \<rho> \<phi> x = eval \<rho>' \<phi>' x"
  shows "all_hold \<rho> \<phi> ps \<longleftrightarrow> all_hold \<rho>' \<phi>' ps"
proof -
  have "eval \<rho> \<phi> p = eval \<rho>' \<phi>' p" if "p \<in> set ps" for p
    using that assms by auto
  then show ?thesis by (simp add: all_hold_def)
qed

lemma step_agree:
  assumes ks: "seq_ready S w ks" "k \<in> set ks" and var: "\<forall>s\<in>seq_states w ks. is_var s"
    and now: "\<forall>x\<in>S. eval \<rho> \<phi> x = eval \<rho>' \<phi>' x" and "next": "\<forall>x\<in>S. eval \<sigma> \<psi> x = eval \<sigma>' \<psi>' x"
  shows "instr_step w (seq_states w ks) k \<rho> \<phi> \<sigma> \<longleftrightarrow> instr_step w (seq_states w ks) k \<rho>' \<phi>' \<sigma>'"
proof -
  obtain x d where x: "instr_heap w k = Some x" "decode x = Some d" "d \<in> S"
    using ks unfolding seq_ready_def by blast
  have "\<sigma> s = \<sigma>' s" if "s \<in> seq_states w ks" for s
  proof -
    have "s \<in> S" using that ks(1) by (auto simp: seq_ready_def)
    moreover have "is_var s" using var that by blast
    ultimately show ?thesis using "next" by (cases s) auto
  qed
  moreover have "next_state w k s \<in> S" if "s \<in> seq_states w ks" for s
    using that ks by (auto simp: seq_ready_def)
  ultimately show ?thesis using x now by (auto simp: instr_step_def)
qed

lemma path_execution:
  assumes u: "\<forall>ps\<in>{global_pred u, initial_pred u} \<union> range (step_pred u). set ps \<subseteq> S" and ks: "seq_ready S w ks" and var: "\<forall>s\<in>seq_states w ks. is_var s"
    and agree: "\<forall>i\<le>length ks. \<forall>x\<in>S. eval (\<rho>' (SuffixCurrent u (of_nat i))) (\<phi>' (SuffixCurrent u (of_nat i))) x
      = eval (\<rho> i) \<phi> x"
  shows "path_holds w u ks 0 \<rho>' \<phi>' \<longleftrightarrow> execution w u ks \<rho> \<phi>"
proof -
  let ?c = "\<lambda>i. SuffixCurrent u (of_nat i)" and ?n = "length ks"
  have P: "all_hold (\<rho>' (?c i)) (\<phi>' (?c i)) ps \<longleftrightarrow> all_hold (\<rho> i) \<phi> ps" if "i \<le> ?n" "set ps \<subseteq> S" for i ps
    using preds_agree [OF that(2)] agree that(1) by blast
  have preds: "set (global_pred u) \<subseteq> S" "set (initial_pred u) \<subseteq> S" "\<And>k. set (step_pred u k) \<subseteq> S"
    using u by auto
  have step: "instr_step w (seq_states w ks) (ks ! i) (\<rho>' (?c i)) (\<phi>' (?c i)) (\<rho>' (?c (Suc i)))
      \<longleftrightarrow> instr_step w (seq_states w ks) (ks ! i) (\<rho> i) \<phi> (\<rho> (Suc i))" if "i < ?n" for i
  proof (rule step_agree [where \<psi> = "\<phi>' (?c (Suc i))" and \<psi>' = \<phi>, OF ks _ var])
    show "ks ! i \<in> set ks" using that by simp
    show "\<forall>x\<in>S. eval (\<rho>' (?c i)) (\<phi>' (?c i)) x = eval (\<rho> i) \<phi> x"
      using agree less_imp_le_nat [OF that] by blast
    show "\<forall>x\<in>S. eval (\<rho>' (?c (Suc i))) (\<phi>' (?c (Suc i))) x = eval (\<rho> (Suc i)) \<phi> x"
      using agree Suc_leI [OF that] by blast
  qed
  have suc: "of_nat i + 1 = (of_nat (Suc i) :: u64)" for i by simp
  have "step_holds w u ks 0 \<rho>' \<phi>' i \<longleftrightarrow> all_hold (\<rho> i) \<phi> (global_pred u) \<and> all_hold (\<rho> i) \<phi> (step_pred u (of_nat i))
      \<and> (i = 0 \<longrightarrow> all_hold (\<rho> i) \<phi> (initial_pred u))
      \<and> instr_step w (seq_states w ks) (ks ! i) (\<rho> i) \<phi> (\<rho> (Suc i))" if "i < ?n" for i
    using step [OF that] unfolding step_holds_def Let_def add_0 suc
    using P [OF less_imp_le_nat [OF that] preds(1)] P [OF less_imp_le_nat [OF that] preds(2)]
      P [OF less_imp_le_nat [OF that] preds(3)] by (simp only:)
  moreover have "end_holds u ?n \<rho>' \<phi>' \<longleftrightarrow>
      all_hold (\<rho> ?n) \<phi> (global_pred u) \<and> all_hold (\<rho> ?n) \<phi> (step_pred u (of_nat ?n))"
    unfolding end_holds_def Let_def using P [of ?n] preds by simp
  ultimately show ?thesis
    unfolding path_holds_def execution_def le_less by (auto 0 3)
qed

subsection \<open>Valuations as interpretations of names\<close>

definition step_name :: "world \<Rightarrow> unroller \<Rightarrow> nat \<times> expr \<Rightarrow> string" where
  "step_name w u = (\<lambda>(i, v). var_name w (SuffixCurrent u (of_nat i)) v)"

text \<open>The names of the variables differ at every step, functions differ, and no function is
  applied to nothing (such a call is translated to a variable of its step).\<close>

definition steps_apart :: "world \<Rightarrow> unroller \<Rightarrow> nat \<Rightarrow> expr set \<Rightarrow> bool" where
  "steps_apart w u n S \<longleftrightarrow> inj_on (step_name w u) ({0..n} \<times> vars_of S) \<and> inj_on (func_rank w) (funcs_of S)
     \<and> (\<forall>x\<in>S. efunc x \<noteq> None \<longrightarrow> args x \<noteq> [])"

abbreviation realise :: "world \<Rightarrow> unroller \<Rightarrow> nat \<Rightarrow> expr set \<Rightarrow> (nat \<Rightarrow> env) \<Rightarrow> finterp \<Rightarrow> interp" where
  "realise w u \<equiv> realise_at w (\<lambda>i. SuffixCurrent u (of_nat i))"

lemma steps_apart_at: "steps_apart w u n S \<longleftrightarrow> apart_at w (\<lambda>i. SuffixCurrent u (of_nat i)) n S"
  by (simp add: steps_apart_def apart_at_def step_name_def name_at_def)

lemmas realise_ok = realise_at_ok

lemma realise_agree:
  assumes "dag S" "\<forall>x\<in>S. smt_expr x" "\<forall>i. env_ok (\<rho> i)" "finterp_ok \<phi>" "steps_apart w u n S" "i \<le> n" "x \<in> S"
  shows "eval (z3_env w (SuffixCurrent u (of_nat i)) (realise w u n S \<rho> \<phi>))
      (z3_finterp w (SuffixCurrent u (of_nat i)) (realise w u n S \<rho> \<phi>)) x = eval (\<rho> i) \<phi> x"
  by (rule realise_at_agree [OF assms(1-4) _ assms(6,7)]) (use assms(5) in \<open>simp add: steps_apart_at\<close>)

lemma z3_Unroll:
  assumes "z3_laws api tsort den" "world_ok (r_world st)" "iter_fair (r_world st)" "dag S"
    "\<forall>x\<in>S. z3_ready (r_world st) x" "unroller_ok S (r_self st)" "seq_ready S (r_world st) ks"
  shows "\<exists>t st'. Unroll (z3_shim api) ks from st = Inr (t, st') \<and> tsort t = SortBool
    \<and> (\<forall>I. interp_ok I \<longrightarrow> den I t = VBool (path_holds (r_world st) (r_self st) ks from
          (\<lambda>sfx. z3_env (r_world st) sfx I) (\<lambda>sfx. z3_finterp (r_world st) sfx I)))"
  using shim_laws.Unroll_run [OF z3_shim_laws [OF assms(1,2,4,5,3)], of st ks "from"] assms(6,7) by simp

lemma z3_Unroll_executions:
  assumes laws: "z3_laws api tsort den" "world_ok (r_world st)" "iter_fair (r_world st)" and S: "dag S"
    "\<forall>x\<in>S. z3_ready (r_world st) x" and u: "unroller_ok S (r_self st)" and ks: "seq_ready S (r_world st) ks"
    and apart: "steps_apart (r_world st) (r_self st) (length ks) S"
  shows "\<exists>t st'. Unroll (z3_shim api) ks 0 st = Inr (t, st') \<and> tsort t = SortBool
    \<and> ((\<exists>I. interp_ok I \<and> den I t = VBool True) \<longleftrightarrow>
       (\<exists>\<rho> \<phi>. (\<forall>i. env_ok (\<rho> i)) \<and> finterp_ok \<phi> \<and> execution (r_world st) (r_self st) ks \<rho> \<phi>))"
proof -
  let ?w = "r_world st" and ?u = "r_self st" and ?n = "length ks"
  let ?c = "\<lambda>i. SuffixCurrent ?u (of_nat i)"
  obtain t st' where t: "Unroll (z3_shim api) ks 0 st = Inr (t, st')" "tsort t = SortBool"
      "\<And>I. interp_ok I \<Longrightarrow> den I t = VBool (path_holds ?w ?u ks 0 (\<lambda>sfx. z3_env ?w sfx I) (\<lambda>sfx. z3_finterp ?w sfx I))"
    using z3_Unroll [OF laws S u ks, of 0] by blast
  have smt: "\<forall>x\<in>S. smt_expr x" using S(2) by (auto simp: z3_ready_def)
  have var: "\<forall>s\<in>seq_states ?w ks. is_var s"
    using shim_laws.states_vars [OF z3_shim_laws [OF laws(1,2) S laws(3)]] by blast
  have "\<forall>ps\<in>{global_pred ?u, initial_pred ?u} \<union> range (step_pred ?u). set ps \<subseteq> S"
    using u by (auto simp: unroller_ok_def preds_ok_def)
  note exec = path_execution [OF this ks var]
  have "\<exists>\<rho> \<phi>. (\<forall>i. env_ok (\<rho> i)) \<and> finterp_ok \<phi> \<and> execution ?w ?u ks \<rho> \<phi>"
    if I: "interp_ok I" "den I t = VBool True" for I
  proof -
    have "eval (z3_env ?w (?c i) I) (z3_finterp ?w (?c i) I) x = eval (z3_env ?w (?c i) I) (z3_finterp ?w [] I) x"
      if "x \<in> S" for i x
      by (rule eval_agree [OF S(1) smt _ _ _ _ _ that])
        (use z3_env_ok [OF I(1)] apart in \<open>auto simp: steps_apart_def z3_finterp_def\<close>)
    then have "execution ?w ?u ks (\<lambda>i. z3_env ?w (?c i) I) (z3_finterp ?w [] I)"
      using exec [of "\<lambda>sfx. z3_env ?w sfx I" "\<lambda>sfx. z3_finterp ?w sfx I"] t(3) [OF I(1)] I(2) by auto
    moreover have "\<forall>i. env_ok (z3_env ?w (?c i) I)" "finterp_ok (z3_finterp ?w [] I)"
      using z3_env_ok [OF I(1)] by blast+
    ultimately show ?thesis
      by (intro exI [of _ "\<lambda>i. z3_env ?w (?c i) I"] exI [of _ "z3_finterp ?w [] I"] conjI)
  qed
  moreover have "\<exists>I. interp_ok I \<and> den I t = VBool True"
    if e: "\<forall>i. env_ok (\<rho> i)" "finterp_ok \<phi>" "execution ?w ?u ks \<rho> \<phi>" for \<rho> \<phi>
  proof -
    let ?I = "realise ?w ?u ?n S \<rho> \<phi>"
    have "path_holds ?w ?u ks 0 (\<lambda>sfx. z3_env ?w sfx ?I) (\<lambda>sfx. z3_finterp ?w sfx ?I)"
      using exec [of "\<lambda>sfx. z3_env ?w sfx ?I" "\<lambda>sfx. z3_finterp ?w sfx ?I" \<rho> \<phi>]
        realise_agree [OF S(1) smt e(1,2) apart] e(3) by blast
    with t(3) realise_ok [OF e(1,2)] show ?thesis by metis
  qed
  ultimately show ?thesis using t(1,2) by blast
qed

end
