(* ===== verification/Demo_Unroll.thy ===== *)
theory Demo_Unroll
  imports Demo_Smt Unroll_Sound
begin

text \<open>The demonstration hierarchy, its instruction taken twice, and a predicate on the first
  state: the conditions of the unrolling.\<close>

definition demo_unroller :: unroller where
  "demo_unroller = AssertInitial v_c (UnrollerSmt_New ''u'')"

definition demo_start :: "unit run_state" where
  "demo_start = \<lparr>r_world = demo, r_gen = (), r_self = demo_unroller\<rparr>"

lemma demo_fair: "iter_fair demo"
proof -
  have "iter_order demo xs = xs" for xs by code_simp
  then show ?thesis by (simp add: iter_fair_def)
qed

lemma demo_states: "seq_states demo [6, 6] = {v_mem}"
  using demo_top by (auto simp: seq_states_def demo_instr)

lemma demo_seq_ready: "seq_ready demo_nodes demo [6, 6]"
proof -
  have "next_state demo 6 v_mem = e_ite" by (simp add: next_state_def demo_instr) (simp add: v_mem_def)
  then show ?thesis
    using demo_in demo_members unfolding seq_ready_def demo_states by (auto simp: demo_instr) (auto simp: demo_exprs)
qed

lemma demo_unroller_ok: "unroller_ok demo_nodes demo_unroller"
  unfolding demo_unroller_def using demo_members(4)
  by (intro unroller_ok_ops demo_dag) (simp_all add: v_c_def)

lemma demo_step_names: "map (step_name demo demo_unroller)
    (List.product [0, 1, 2] [v_mem, v_addr, v_data, v_c, v_x]) =
   [''m_sEp_mem_sEp_0_u'', ''m_sEp_addr_sEp_0_u'', ''m_sEp_data_sEp_0_u'', ''m_sEp_c_sEp_0_u'', ''m.ch_sEp_x_sEp_0_u'',
    ''m_sEp_mem_sEp_1_u'', ''m_sEp_addr_sEp_1_u'', ''m_sEp_data_sEp_1_u'', ''m_sEp_c_sEp_1_u'', ''m.ch_sEp_x_sEp_1_u'',
    ''m_sEp_mem_sEp_2_u'', ''m_sEp_addr_sEp_2_u'', ''m_sEp_data_sEp_2_u'', ''m_sEp_c_sEp_2_u'', ''m.ch_sEp_x_sEp_2_u'']"
proof -
  have sfx: "SuffixCurrent demo_unroller (word_of_nat 0) = ''0_u''" "SuffixCurrent demo_unroller (word_of_nat 1) = ''1_u''"
    "SuffixCurrent demo_unroller (word_of_nat 2) = ''2_u''" by code_simp+
  show ?thesis
    using demo_roots
    by (simp add: step_name_def sfx [simplified] var_name_def demo_exprs root_prefix_def prefix_of_def
        format_str_def sep_def)
qed

lemma demo_step_distinct:
  "distinct (map (step_name demo demo_unroller) (List.product [0, 1, 2] [v_mem, v_addr, v_data, v_c, v_x]))"
  unfolding demo_step_names by code_simp

lemma demo_steps_apart: "steps_apart demo demo_unroller 2 demo_nodes"
proof -
  have steps: "{0..2::nat} = set [0, 1, 2]" by auto
  have vars: "vars_of demo_nodes = set [v_mem, v_addr, v_data, v_c, v_x]"
    by (simp only: demo_vars(1) list.set)
  have "inj_on (step_name demo demo_unroller) (set [0, 1, 2] \<times> set [v_mem, v_addr, v_data, v_c, v_x])"
    using demo_step_distinct unfolding distinct_map set_product by (rule conjunct2)
  then have "inj_on (step_name demo demo_unroller) ({0..2} \<times> vars_of demo_nodes)"
    unfolding steps vars .
  moreover have "\<forall>x\<in>demo_nodes. efunc x \<noteq> None \<longrightarrow> args x \<noteq> []"
    by (intro ballI impI) (simp only: demo_leaf simp_thms)
  moreover have "inj_on (func_rank demo) (funcs_of demo_nodes)" unfolding demo_vars(2) by (rule inj_on_empty)
  ultimately show ?thesis unfolding steps_apart_def by (intro conjI)
qed

interpretation demo_unroll: shim_laws "z3_shim z3_model" fst den_term demo demo_nodes "z3_env demo"
  "z3_finterp demo" "\<lambda>_. True"
  by (rule z3_shim_laws [OF z3_den.z3_laws_axioms demo_ok demo_dag demo_z3_ready demo_fair])

end
