(* ===== verification/Unroll_Z3.thy ===== *)
theory Unroll_Z3
  imports Z3_Adapter Abs_Knob_Inv
begin

text \<open>
  The older unroller (\<^verbatim>\<open>src/ila-mngr/u_unroller.cc\<close> and its header): \<^verbatim>\<open>Unroller\<close> with its
  three ways of unrolling, \<^verbatim>\<open>PathUnroll\<close> for a sequence of instructions and \<^verbatim>\<open>MonoUnroll\<close> for a
  hierarchy as one transition system.  The vectors of z3 terms are members of the object; their
  copies in \<^verbatim>\<open>UnrollSubs\<close> are not changed while they are in use, so they are values here.
\<close>

subsection \<open>State\<close>

text \<open>\<^verbatim>\<open>z3::expr::substitute\<close>, the one further function of \<^verbatim>\<open>z3++.h\<close> that is called.\<close>

type_synonym 't z3_subst = "'t \<Rightarrow> 't list \<Rightarrow> 't list \<Rightarrow> 't res"

record 't zunroller =
  extra_suff :: string
  g_pred :: "expr list"
  i_pred :: "expr list"
  s_pred :: "int \<Rightarrow> expr list"
  dep_vars :: "expr list"
  k_pred :: "expr list"
  k_next :: "expr list"
  k_prev_z3 :: "'t list"
  k_curr_z3 :: "'t list"
  k_next_z3 :: "'t list"
  cstr :: "'t list"
  z_seq :: "nat list"
  z_top :: nat

record 't zstate =
  z_world :: world
  z_self :: "'t zunroller"

type_synonym ('t, 'a) Z = "('t zstate, 'a) action"

definition Unroller_New :: "string \<Rightarrow> 't zunroller" where
  "Unroller_New suff = \<lparr>extra_suff = suff, g_pred = [], i_pred = [], s_pred = (\<lambda>_. []),
     dep_vars = [], k_pred = [], k_next = [], k_prev_z3 = [], k_curr_z3 = [], k_next_z3 = [],
     cstr = [], z_seq = [], z_top = 0\<rparr>"

definition AddGlobPred :: "expr \<Rightarrow> 't zunroller \<Rightarrow> 't zunroller" where
  "AddGlobPred p u = u\<lparr>g_pred := g_pred u @ [p]\<rparr>"

definition AddInitPred :: "expr \<Rightarrow> 't zunroller \<Rightarrow> 't zunroller" where
  "AddInitPred p u = u\<lparr>i_pred := i_pred u @ [p]\<rparr>"

definition AddStepPred :: "expr \<Rightarrow> int \<Rightarrow> 't zunroller \<Rightarrow> 't zunroller" where
  "AddStepPred p k u = u\<lparr>s_pred := (s_pred u)(k := s_pred u k @ [p])\<rparr>"

definition ClearGlobPred :: "'t zunroller \<Rightarrow> 't zunroller" where
  "ClearGlobPred u = u\<lparr>g_pred := []\<rparr>"

definition ClearInitPred :: "'t zunroller \<Rightarrow> 't zunroller" where
  "ClearInitPred u = u\<lparr>i_pred := []\<rparr>"

definition ClearStepPred :: "'t zunroller \<Rightarrow> 't zunroller" where
  "ClearStepPred u = u\<lparr>s_pred := (\<lambda>_. [])\<rparr>"

definition ClearPred :: "'t zunroller \<Rightarrow> 't zunroller" where
  "ClearPred u = ClearStepPred (ClearInitPred (ClearGlobPred u))"

text \<open>Suffixes take an \<^verbatim>\<open>int\<close>; a \<^verbatim>\<open>size_t\<close> argument is narrowed.\<close>

definition SuffCurr :: "'t zunroller \<Rightarrow> int \<Rightarrow> string" where
  "SuffCurr u t = int_to_string t @ ''_'' @ extra_suff u"

definition SuffNext :: "'t zunroller \<Rightarrow> int \<Rightarrow> string" where
  "SuffNext u t = int_to_string t @ ''_'' @ extra_suff u @ ''.nxt''"

definition z_on_world :: "'a W \<Rightarrow> ('t, 'a) Z" where
  "z_on_world m = (\<lambda>st. case m (z_world st) of
       Inl x \<Rightarrow> Inl x | Inr (a, w) \<Rightarrow> Inr (a, st\<lparr>z_world := w\<rparr>))"

definition z_gen :: "'t z3_api \<Rightarrow> expr \<Rightarrow> string \<Rightarrow> ('t, 't) Z" where
  "z_gen api e suffix = (\<lambda>st. liftR (GetExpr api (z_world st) e suffix) st)"

definition z_get :: "('t zunroller \<Rightarrow> 'a) \<Rightarrow> ('t, 'a) Z" where
  "z_get f = gets (\<lambda>st. f (z_self st))"

definition z_set :: "('t zunroller \<Rightarrow> 't zunroller) \<Rightarrow> ('t, unit) Z" where
  "z_set f = modify (\<lambda>st. st\<lparr>z_self := f (z_self st)\<rparr>)"

definition CurrState :: "'t z3_api \<Rightarrow> expr \<Rightarrow> int \<Rightarrow> ('t, 't) Z" where
  "CurrState api v t =
     thenM (ila_assert (is_var v) ''Use GetZ3Expr for non-var Expr'')
    (bindM (z_get (\<lambda>u. SuffCurr u t)) (z_gen api v))"

definition NextState :: "'t z3_api \<Rightarrow> expr \<Rightarrow> int \<Rightarrow> ('t, 't) Z" where
  "NextState api v t =
     thenM (ila_assert (is_var v) ''Next state only exist for var'')
    (bindM (z_get (\<lambda>u. SuffNext u t)) (z_gen api v))"

definition Unroller_GetZ3Expr :: "'t z3_api \<Rightarrow> expr \<Rightarrow> int \<Rightarrow> ('t, 't) Z" where
  "Unroller_GetZ3Expr api e t = bindM (z_get (\<lambda>u. SuffCurr u t)) (z_gen api e)"

definition Unroller_GetZ3Expr_unique :: "'t z3_api \<Rightarrow> expr \<Rightarrow> ('t, 't) Z" where
  "Unroller_GetZ3Expr_unique api e = bindM (z_get extra_suff) (z_gen api e)"

definition Unroller_Equal :: "'t z3_api \<Rightarrow> expr \<Rightarrow> int \<Rightarrow> expr \<Rightarrow> int \<Rightarrow> ('t, 't) Z" where
  "Unroller_Equal api a ta b tb =
     bindM (Unroller_GetZ3Expr api a ta) (\<lambda>a_expr.
     bindM (Unroller_GetZ3Expr api b tb) (\<lambda>b_expr.
     liftR (z_apply api z3_eq [a_expr, b_expr])))"

definition Unroller_GetZ3FuncDecl :: "func \<Rightarrow> ('t, string \<times> msort list \<times> msort) Z" where
  "Unroller_GetZ3FuncDecl f = (\<lambda>st. liftR (GetZ3FuncDecl (z_world st) f) st)"

subsection \<open>Helpers\<close>

definition StateUpdCmpl :: "nat \<Rightarrow> expr \<Rightarrow> expr W" where
  "StateUpdCmpl k var = bindM (instr_update_var k var) (\<lambda>upd. ret (case upd of Some e \<Rightarrow> e | None \<Rightarrow> var))"

definition DecodeCmpl :: "nat \<Rightarrow> expr W" where
  "DecodeCmpl k = bindM (the_instr k) (\<lambda>x. case decode x of Some d \<Rightarrow> ret d | None \<Rightarrow> BoolConst True)"

definition NewBoolFreeVar :: "nat \<Rightarrow> string \<Rightarrow> expr W" where
  "NewBoolFreeVar i name = bindM (NewBoolVar name) (\<lambda>v. ret (set_host (Some i) v))"

definition NewBvFreeVar :: "nat \<Rightarrow> string \<Rightarrow> int \<Rightarrow> expr W" where
  "NewBvFreeVar i name bw = bindM (NewBvVar name bw) (\<lambda>v. ret (set_host (Some i) v))"

definition NewMemFreeVar :: "nat \<Rightarrow> string \<Rightarrow> int \<Rightarrow> int \<Rightarrow> expr W" where
  "NewMemFreeVar i name aw dw = bindM (NewMemVar name aw dw) (\<lambda>v. ret (set_host (Some i) v))"

definition NewFreeVar :: "expr \<Rightarrow> string \<Rightarrow> expr W" where
  "NewFreeVar var name =
     bindM (ila_not_null (host var)) (\<lambda>h.
     case esort var of
       SortBool \<Rightarrow> NewBoolFreeVar h name
     | SortBv w \<Rightarrow> NewBvFreeVar h name w
     | SortMem a d \<Rightarrow> NewMemFreeVar h name a d)"

definition IExprToZExpr :: "'t z3_api \<Rightarrow> expr list \<Rightarrow> string \<Rightarrow> 't list \<Rightarrow> ('t, 't list) Z" where
  "IExprToZExpr api i_expr_src suffix z_expr_dst =
     foldM (\<lambda>dst e. bindM (z_gen api e suffix) (\<lambda>z_expr. ret (dst @ [z_expr]))) z_expr_dst i_expr_src"

definition IExprToZExpr_subs :: "'t z3_api \<Rightarrow> 't z3_subst \<Rightarrow> expr list \<Rightarrow> string \<Rightarrow> 't list \<Rightarrow> 't list \<Rightarrow> 't list
    \<Rightarrow> ('t, 't list) Z" where
  "IExprToZExpr_subs api sb i_expr_src suffix z_expr_dst subs_src subs_dst =
     foldM (\<lambda>dst e. bindM (z_gen api e suffix) (\<lambda>z_expr.
       bindM (liftR (sb z_expr subs_src subs_dst)) (\<lambda>z_subs. ret (dst @ [z_subs])))) z_expr_dst i_expr_src"

text \<open>The constraints of a vector of expressions, appended to \<^verbatim>\<open>cstr_\<close>.\<close>

definition add_cstr :: "('t list \<Rightarrow> ('t, 't list) Z) \<Rightarrow> ('t, unit) Z" where
  "add_cstr m = bindM (z_get cstr) (\<lambda>cs. bindM (m cs) (\<lambda>cs'. z_set (\<lambda>u. u\<lparr>cstr := cs'\<rparr>)))"

definition AssertEqual :: "'t z3_api \<Rightarrow> 't list \<Rightarrow> expr list \<Rightarrow> string \<Rightarrow> ('t, unit) Z" where
  "AssertEqual api a b suffix =
     thenM (ila_assert (length a = length b) ''Var num mismatch.'')
    (add_cstr (\<lambda>cs. foldM (\<lambda>cs i.
       bindM (liftR (at a i)) (\<lambda>ai. bindM (liftR (at b i)) (\<lambda>bv.
       bindM (z_gen api bv suffix) (\<lambda>bi.
       bindM (liftR (z_apply api z3_eq [ai, bi])) (\<lambda>equal. ret (cs @ [equal])))))) cs [0..<length a]))"

definition ConjPred :: "'t z3_api \<Rightarrow> 't list \<Rightarrow> ('t, 't) Z" where
  "ConjPred api ts =
     bindM (foldM (\<lambda>conj e. liftR (z_apply api z3_and [conj, e])) (z_bool_val api True) ts) (\<lambda>conj.
     liftR (z_simplify api conj))"

text \<open>The table of the states at the first step.\<close>

definition prepare_prev :: "'t z3_api \<Rightarrow> int \<Rightarrow> ('t, unit) Z" where
  "prepare_prev api pos =
     bindM (z_get dep_vars) (\<lambda>vs.
     bindM (z_get (\<lambda>u. SuffCurr u pos)) (\<lambda>suffix.
     bindM (z_get k_prev_z3) (\<lambda>prev.
     bindM (IExprToZExpr api vs suffix prev) (\<lambda>prev. z_set (\<lambda>u. u\<lparr>k_prev_z3 := prev\<rparr>)))))"

definition BootStrap :: "'t z3_api \<Rightarrow> ('t, unit) Z \<Rightarrow> int \<Rightarrow> bool \<Rightarrow> ('t, unit) Z" where
  "BootStrap api define_dep_var pos cache =
     (if \<not> cache then
        thenM (z_set (\<lambda>u. u\<lparr>dep_vars := [], k_pred := [], k_next := []\<rparr>))
       (thenM define_dep_var
       (bindM (z_get dep_vars) (\<lambda>vs.
        thenM (ila_assert (vs \<noteq> []) ''No state variable defined.'')
       (thenM (z_set (\<lambda>u. u\<lparr>k_prev_z3 := [], k_curr_z3 := [], k_next_z3 := [], cstr := []\<rparr>))
       (prepare_prev api pos)))))
      else
        bindM (z_get dep_vars) (\<lambda>vs.
        if vs = [] then
          thenM define_dep_var
         (bindM (z_get k_prev_z3) (\<lambda>prev.
          thenM (ila_assert (prev = []) ''Unexpected behavior in cacheing'')
         (prepare_prev api pos)))
        else ret ()))"

subsection \<open>Unrolling\<close>

text \<open>\<^verbatim>\<open>SuffCurr(pos + i)\<close>: the sum is a \<^verbatim>\<open>size_t\<close>.\<close>

definition step_suffix :: "int \<Rightarrow> nat \<Rightarrow> 't zunroller \<Rightarrow> string" where
  "step_suffix pos i u = SuffCurr u (to_int32 (pos + int i))"

definition subs_step :: "'t z3_api \<Rightarrow> 't z3_subst \<Rightarrow> (int \<Rightarrow> ('t, unit) Z) \<Rightarrow> int \<Rightarrow> nat \<Rightarrow> ('t, unit) Z" where
  "subs_step api sb transition pos i =
     bindM (z_get (step_suffix pos i)) (\<lambda>k_suffix.
     thenM (transition (to_int32 (int i)))
    (bindM (z_get dep_vars) (\<lambda>vs.
     bindM (IExprToZExpr api vs k_suffix []) (\<lambda>subs_src.
     thenM (z_set (\<lambda>u. u\<lparr>k_curr_z3 := subs_src\<rparr>))
    (bindM (z_get k_prev_z3) (\<lambda>subs_dst.
     let pred = (\<lambda>f. bindM (z_get f) (\<lambda>ps.
           add_cstr (\<lambda>cs. IExprToZExpr_subs api sb ps k_suffix cs subs_src subs_dst))) in
     thenM (if i = 0 then pred i_pred else ret ())
    (thenM (pred g_pred)
    (thenM (pred k_pred)
    (thenM (pred (\<lambda>u. s_pred u (to_int32 (int i))))
    (bindM (z_get k_next) (\<lambda>nx.
     bindM (IExprToZExpr_subs api sb nx k_suffix [] subs_src subs_dst) (\<lambda>nz.
     z_set (\<lambda>u. u\<lparr>k_next_z3 := nz, k_prev_z3 := nz\<rparr>)))))))))))))"

text \<open>The end state is named by \<open>len\<close>, whatever the first step is.\<close>

definition unroll_end_z3 :: "'t z3_api \<Rightarrow> nat \<Rightarrow> ('t, unit) Z" where
  "unroll_end_z3 api len =
     bindM (z_get (\<lambda>u. SuffCurr u (to_int32 (int len)))) (\<lambda>k_suffix.
     thenM (bindM (z_get g_pred) (\<lambda>ps. add_cstr (IExprToZExpr api ps k_suffix)))
           (bindM (z_get (\<lambda>u. s_pred u (to_int32 (int len)))) (\<lambda>ps. add_cstr (IExprToZExpr api ps k_suffix))))"

definition UnrollSubs :: "'t z3_api \<Rightarrow> 't z3_subst \<Rightarrow> ('t, unit) Z \<Rightarrow> (int \<Rightarrow> ('t, unit) Z) \<Rightarrow> nat \<Rightarrow> int \<Rightarrow> ('t, 't) Z" where
  "UnrollSubs api sb define_dep_var transition len pos =
     thenM (BootStrap api define_dep_var pos False)
    (thenM (forM [0..<len] (subs_step api sb transition pos))
    (bindM (z_get k_prev_z3) (\<lambda>prev.
     bindM (z_get dep_vars) (\<lambda>vs.
     bindM (z_get (\<lambda>u. SuffCurr u (to_int32 (int len)))) (\<lambda>suffix.
     thenM (AssertEqual api prev vs suffix)
    (thenM (unroll_end_z3 api len)
    (bindM (z_get cstr) (ConjPred api))))))))"

definition assn_step :: "'t z3_api \<Rightarrow> (int \<Rightarrow> ('t, unit) Z) \<Rightarrow> int \<Rightarrow> nat \<Rightarrow> ('t, unit) Z" where
  "assn_step api transition pos i =
     bindM (z_get (step_suffix pos i)) (\<lambda>k_suffix.
     let pred = (\<lambda>f. bindM (z_get f) (\<lambda>ps. add_cstr (IExprToZExpr api ps k_suffix))) in
     thenM (transition (to_int32 (int i)))
    (thenM (if i = 0 then pred i_pred else ret ())
    (thenM (pred g_pred)
    (thenM (pred (\<lambda>u. s_pred u (to_int32 (int i))))
    (thenM (pred k_pred)
    (bindM (z_get k_next) (\<lambda>nx.
     bindM (IExprToZExpr api nx k_suffix []) (\<lambda>nz.
     thenM (z_set (\<lambda>u. u\<lparr>k_next_z3 := nz\<rparr>))
    (bindM (z_get dep_vars) (\<lambda>vs.
     bindM (z_get (step_suffix (pos + 1) i)) (\<lambda>suffix_next.
     AssertEqual api nz vs suffix_next)))))))))))"

definition UnrollAssn :: "'t z3_api \<Rightarrow> ('t, unit) Z \<Rightarrow> (int \<Rightarrow> ('t, unit) Z) \<Rightarrow> nat \<Rightarrow> int \<Rightarrow> bool \<Rightarrow> ('t, 't) Z" where
  "UnrollAssn api define_dep_var transition len pos cache =
     thenM (BootStrap api define_dep_var pos cache)
    (thenM (forM [0..<len] (assn_step api transition pos))
    (thenM (unroll_end_z3 api len)
    (bindM (z_get cstr) (ConjPred api))))"

definition none_step :: "'t z3_api \<Rightarrow> (int \<Rightarrow> ('t, unit) Z) \<Rightarrow> int \<Rightarrow> nat \<Rightarrow> ('t, unit) Z" where
  "none_step api transition pos i =
     bindM (z_get (step_suffix pos i)) (\<lambda>k_suffix.
     let pred = (\<lambda>f. bindM (z_get f) (\<lambda>ps. add_cstr (IExprToZExpr api ps k_suffix))) in
     thenM (transition (to_int32 (int i)))
    (thenM (if i = 0 then pred i_pred else ret ())
    (thenM (pred g_pred)
    (thenM (pred k_pred)
    (thenM (pred (\<lambda>u. s_pred u (to_int32 (int i))))
    (bindM (z_get k_next) (\<lambda>nx.
     bindM (IExprToZExpr api nx k_suffix []) (\<lambda>nz.
     thenM (z_set (\<lambda>u. u\<lparr>k_next_z3 := nz\<rparr>))
    (bindM (z_get dep_vars) (\<lambda>vs.
     bindM (z_get (\<lambda>u. SuffNext u (to_int32 (pos + int i)))) (\<lambda>suffix_next.
     AssertEqual api nz vs suffix_next)))))))))))"

definition UnrollNone :: "'t z3_api \<Rightarrow> ('t, unit) Z \<Rightarrow> (int \<Rightarrow> ('t, unit) Z) \<Rightarrow> nat \<Rightarrow> int \<Rightarrow> ('t, 't) Z" where
  "UnrollNone api define_dep_var transition len pos =
     thenM (BootStrap api define_dep_var pos False)
    (thenM (forM [0..<len] (none_step api transition pos))
    (bindM (z_get cstr) (ConjPred api)))"

subsection \<open>Paths\<close>

definition PathUnroll_DefineDepVar :: "('t, unit) Z" where
  "PathUnroll_DefineDepVar =
     bindM (z_get z_seq) (\<lambda>ks.
     bindM (foldM (\<lambda>vs k. z_on_world (InsertStt_instr k vs)) [] ks) (\<lambda>dep_var.
     thenM (z_set (\<lambda>u. u\<lparr>dep_vars := []\<rparr>))
    (bindM (z_on_world (iterate dep_var)) (\<lambda>vs.
     z_set (\<lambda>u. u\<lparr>dep_vars := dep_vars u @ vs\<rparr>)))))"

definition PathUnroll_Transition :: "int \<Rightarrow> ('t, unit) Z" where
  "PathUnroll_Transition i =
     bindM (z_get z_seq) (\<lambda>ks.
     thenM (ila_check (i < to_int32 (int (length ks))) ''Out-of-bound transition not defined.'')
    (bindM (liftR (at ks (nat i))) (\<lambda>k.
     bindM (z_get dep_vars) (\<lambda>vs.
     bindM (z_on_world (mapM (StateUpdCmpl k) vs)) (\<lambda>nx.
     thenM (z_set (\<lambda>u. u\<lparr>k_next := nx, k_pred := []\<rparr>))
    (bindM (z_on_world (the_instr k)) (\<lambda>x.
     bindM (ila_not_null (decode x)) (\<lambda>dec.
     z_set (\<lambda>u. u\<lparr>k_pred := [dec]\<rparr>)))))))))"

definition PathSubs :: "'t z3_api \<Rightarrow> 't z3_subst \<Rightarrow> nat list \<Rightarrow> int \<Rightarrow> ('t, 't) Z" where
  "PathSubs api sb ks pos =
     thenM (z_set (\<lambda>u. u\<lparr>z_seq := ks\<rparr>))
           (UnrollSubs api sb PathUnroll_DefineDepVar PathUnroll_Transition (length ks) pos)"

definition PathAssn :: "'t z3_api \<Rightarrow> nat list \<Rightarrow> int \<Rightarrow> ('t, 't) Z" where
  "PathAssn api ks pos =
     thenM (z_set (\<lambda>u. u\<lparr>z_seq := ks\<rparr>))
           (UnrollAssn api PathUnroll_DefineDepVar PathUnroll_Transition (length ks) pos False)"

definition PathNone :: "'t z3_api \<Rightarrow> nat list \<Rightarrow> int \<Rightarrow> ('t, 't) Z" where
  "PathNone api ks pos =
     thenM (z_set (\<lambda>u. u\<lparr>z_seq := ks\<rparr>))
           (UnrollNone api PathUnroll_DefineDepVar PathUnroll_Transition (length ks) pos)"

subsection \<open>Hierarchies as one transition system\<close>

definition MonoUnroll_DefineDepVar :: "('t, unit) Z" where
  "MonoUnroll_DefineDepVar =
     thenM (z_set (\<lambda>u. u\<lparr>dep_vars := []\<rparr>))
    (bindM (z_get z_top) (\<lambda>top.
     bindM (z_on_world (GetSttTree top)) (\<lambda>dep_var.
     thenM (ila_assert (dep_var \<noteq> []) ''No state var found.'')
    (bindM (z_on_world (iterate dep_var)) (\<lambda>vs.
     z_set (\<lambda>u. u\<lparr>dep_vars := dep_vars u @ vs\<rparr>))))))"

definition new_sel_bit :: "nat \<Rightarrow> expr W" where
  "new_sel_bit k =
     bindM (the_instr k) (\<lambda>x.
     bindM (ila_not_null (i_host x)) (\<lambda>h.
     NewBoolFreeVar h (sym_name (i_sym x) @ ''.sel'')))"

text \<open>One instruction in the loop over the update of a variable.\<close>

definition mono_instr :: "expr \<Rightarrow> expr \<Rightarrow> expr \<times> expr \<times> expr \<Rightarrow> nat \<times> expr \<Rightarrow> (expr \<times> expr \<times> expr) W" where
  "mono_instr var var_next = (\<lambda>(not_dec, acc_dec, acc_upd) (k, sel).
     bindM (DecodeCmpl k) (\<lambda>dec.
     bindM (Imply sel dec) (\<lambda>sel_dec. bindM (And acc_dec sel_dec) (\<lambda>acc_dec.
     bindM (LogicNot dec) (\<lambda>ndec. bindM (And not_dec ndec) (\<lambda>not_dec.
     bindM (StateUpdCmpl k var) (\<lambda>next.
     bindM (Eq var_next next) (\<lambda>equal.
     bindM (Imply sel equal) (\<lambda>sel_upd. bindM (And acc_upd sel_upd) (\<lambda>acc_upd.
     ret (not_dec, acc_dec, acc_upd)))))))))))"

text \<open>One variable: its next state, and the two predicates.\<close>

definition mono_var :: "(nat \<times> expr) list \<Rightarrow> expr \<Rightarrow> expr \<Rightarrow> (expr \<times> expr \<times> expr) W" where
  "mono_var sels sel_dum var =
     bindM (NewFreeVar var (ename var @ ''.vnxt'')) (\<lambda>var_next.
     bindM (BoolConst True) (\<lambda>not_dec. bindM (BoolConst True) (\<lambda>acc_dec. bindM (BoolConst True) (\<lambda>acc_upd.
     bindM (foldM (mono_instr var var_next) (not_dec, acc_dec, acc_upd) sels) (\<lambda>(not_dec, acc_dec, acc_upd).
     bindM (Imply sel_dum not_dec) (\<lambda>dum_dec. bindM (And acc_dec dum_dec) (\<lambda>acc_dec.
     bindM (Eq var_next var) (\<lambda>same. bindM (Imply sel_dum same) (\<lambda>dum_upd.
     bindM (And acc_upd dum_upd) (\<lambda>acc_upd.
     ret (var_next, acc_dec, acc_upd)))))))))))"

definition one_hot_pair :: "expr list \<Rightarrow> nat \<Rightarrow> expr \<Rightarrow> nat \<Rightarrow> expr W" where
  "one_hot_pair sels i acc j =
     bindM (liftR (at sels i)) (\<lambda>sel_i. bindM (liftR (at sels j)) (\<lambda>sel_j.
     bindM (LogicNot sel_i) (\<lambda>ni. bindM (LogicNot sel_j) (\<lambda>nj.
     bindM (Or ni nj) (\<lambda>not_both_true. And acc not_both_true)))))"

definition MonoUnroll_Transition :: "int \<Rightarrow> ('t, unit) Z" where
  "MonoUnroll_Transition i =
     bindM (z_get k_next) (\<lambda>nx. bindM (z_get dep_vars) (\<lambda>vs.
     if nx \<noteq> [] then ila_assert (length nx = length vs) ''Table size mismatch.''
     else
       bindM (z_get z_top) (\<lambda>top.
       bindM (z_on_world (GetInstrTree top)) (\<lambda>instr_set.
       bindM (z_on_world (mapM new_sel_bit instr_set)) (\<lambda>sel_bits.
       bindM (z_on_world (NewBoolFreeVar top ''dead.sel'')) (\<lambda>sel_dum.
       thenM (ila_assert (length instr_set = length sel_bits) [])
      (thenM (forM vs (\<lambda>var.
         bindM (z_on_world (mono_var (zip instr_set sel_bits) sel_dum var)) (\<lambda>(var_next, acc_dec, acc_upd).
         z_set (\<lambda>u. u\<lparr>k_next := k_next u @ [var_next], k_pred := k_pred u @ [acc_dec, acc_upd]\<rparr>))))
      (bindM (z_on_world (foldM Or sel_dum sel_bits)) (\<lambda>at_least_one.
       bindM (z_on_world (bindM (BoolConst True) (\<lambda>c.
         foldM (\<lambda>acc i. foldM (one_hot_pair sel_bits i) acc [i + 1..<length sel_bits]) c
           [0..<length sel_bits]))) (\<lambda>at_most_one.
       z_set (\<lambda>u. u\<lparr>k_pred := k_pred u @ [at_least_one, at_most_one]\<rparr>)))))))))))"

text \<open>The length, an \<^verbatim>\<open>int\<close>, is converted to \<^verbatim>\<open>size_t\<close>.\<close>

definition MonoSubs :: "'t z3_api \<Rightarrow> 't z3_subst \<Rightarrow> nat \<Rightarrow> int \<Rightarrow> int \<Rightarrow> ('t, 't) Z" where
  "MonoSubs api sb m len pos =
     thenM (z_set (\<lambda>u. u\<lparr>z_top := m\<rparr>))
           (UnrollSubs api sb MonoUnroll_DefineDepVar MonoUnroll_Transition (unat (word_of_int len :: u64)) pos)"

definition MonoAssn :: "'t z3_api \<Rightarrow> nat \<Rightarrow> int \<Rightarrow> int \<Rightarrow> ('t, 't) Z" where
  "MonoAssn api m len pos =
     thenM (z_set (\<lambda>u. u\<lparr>z_top := m\<rparr>))
           (UnrollAssn api MonoUnroll_DefineDepVar MonoUnroll_Transition (unat (word_of_int len :: u64)) pos False)"

definition MonoNone :: "'t z3_api \<Rightarrow> nat \<Rightarrow> int \<Rightarrow> int \<Rightarrow> ('t, 't) Z" where
  "MonoNone api m len pos =
     thenM (z_set (\<lambda>u. u\<lparr>z_top := m\<rparr>))
           (UnrollNone api MonoUnroll_DefineDepVar MonoUnroll_Transition (unat (word_of_int len :: u64)) pos)"

definition MonoIncr :: "'t z3_api \<Rightarrow> nat \<Rightarrow> int \<Rightarrow> int \<Rightarrow> ('t, 't) Z" where
  "MonoIncr api m len pos =
     thenM (z_set (\<lambda>u. u\<lparr>z_top := m\<rparr>))
           (UnrollAssn api MonoUnroll_DefineDepVar MonoUnroll_Transition (unat (word_of_int len :: u64)) pos False)"

end
