(* ===== verification/Unroll_Z3_Sound.thy ===== *)
theory Unroll_Z3_Sound
  imports Unroll_Z3 Unroll_Sound
begin

text \<open>
  What the formulas of the older unroller say: \<^verbatim>\<open>PathAssn\<close> says what \<^verbatim>\<open>PathUnroller\<close> says, and
  \<^verbatim>\<open>PathSubs\<close>, which inlines the states between the steps, is satisfiable exactly when the
  sequence has an execution.
\<close>

subsection \<open>Steps of a run\<close>

lemma z_get_run [simp]: "z_get f st = Inr (f (z_self st), st)"
  by (simp add: z_get_def)

lemma z_set_run [simp]: "z_set f st = Inr ((), st\<lparr>z_self := f (z_self st)\<rparr>)"
  by (simp add: z_set_def)

lemma z_on_world_run: "m (z_world st) = Inr (a, z_world st) \<Longrightarrow> z_on_world m st = Inr (a, st)"
  by (simp add: z_on_world_def)

lemma z_iterate_run: "z_on_world (iterate xs) st = Inr (iter_order (z_world st) xs, st)"
  by (simp add: z_on_world_def iterate_def)

definition append_all :: "('a \<Rightarrow> ('s, 'b) action) \<Rightarrow> 'a list \<Rightarrow> 'b list \<Rightarrow> ('s, 'b list) action" where
  "append_all m xs dst = foldM (\<lambda>dst x. bindM (m x) (\<lambda>t. ret (dst @ [t]))) dst xs"

lemma append_all_run:
  assumes "\<And>x. x \<in> set xs \<Longrightarrow> \<exists>t. m x st = Inr (t, st) \<and> P t x"
  shows "\<exists>ts. append_all m xs dst st = Inr (dst @ ts, st) \<and> list_all2 P ts xs"
  using assms
proof (induction xs arbitrary: dst)
  case Nil
  then show ?case by (simp add: append_all_def)
next
  case (Cons x xs)
  obtain t where t: "m x st = Inr (t, st)" "P t x" using Cons.prems [of x] by auto
  obtain ts where ts: "append_all m xs (dst @ [t]) st = Inr (dst @ t # ts, st)" "list_all2 P ts xs"
    using Cons.IH [of "dst @ [t]"] Cons.prems by auto
  have "append_all m (x # xs) dst st = append_all m xs (dst @ [t]) st"
    unfolding append_all_def foldM.simps bindM_assoc bindM_run [where m = "m x", OF t(1)]
    by (simp add: bindM_def ret_def)
  then show ?case using ts t(2) by (intro exI [of _ "t # ts"]) simp
qed

lemma IExprToZExpr_append: "IExprToZExpr api es sfx = append_all (\<lambda>e. z_gen api e sfx) es"
  by (simp add: IExprToZExpr_def append_all_def fun_eq_iff)

lemma IExprToZExpr_subs_append: "IExprToZExpr_subs api sb es sfx dst src dsts =
    append_all (\<lambda>e. bindM (z_gen api e sfx) (\<lambda>z. liftR (sb z src dsts))) es dst"
  by (simp add: IExprToZExpr_subs_def append_all_def bindM_assoc)

lemma add_cstr_run:
  assumes "m (cstr (z_self st)) st = Inr (cs, st)"
  shows "add_cstr m st = Inr ((), st\<lparr>z_self := (z_self st)\<lparr>cstr := cs\<rparr>\<rparr>)"
  using assms by (simp add: add_cstr_def bindM_def z_get_def z_set_def gets_def)

definition with_cstr :: "'t zstate \<Rightarrow> 't list \<Rightarrow> 't zstate" where
  "with_cstr st cs = st\<lparr>z_self := (z_self st)\<lparr>cstr := cs\<rparr>\<rparr>"

lemma with_cstr_simps [simp]:
  "with_cstr st (cstr (z_self st)) = st" "with_cstr (with_cstr st a) b = with_cstr st b"
  "z_world (with_cstr st a) = z_world st" "cstr (z_self (with_cstr st a)) = a"
  by (simp_all add: with_cstr_def)

subsection \<open>The unroller as the reference has it\<close>

definition as_unroller :: "'t zunroller \<Rightarrow> unroller" where
  "as_unroller u = \<lparr>u_suffix = extra_suff u, global_pred = g_pred u, initial_pred = i_pred u,
     step_pred = (\<lambda>k. s_pred u (int (unat k))), deciding_vars = dep_vars u, update_holder = k_next u,
     assert_holder = k_pred u, u_seq = z_seq u\<rparr>"

lemma SuffCurr_as: "i < 2 ^ 31 \<Longrightarrow> SuffCurr u (to_int32 (int i)) = SuffixCurrent (as_unroller u) (of_nat i)"
  by (simp add: to_int32_id SuffCurr_def SuffixCurrent_def as_unroller_def int_to_string_def unat_of_nat)

lemma s_pred_as: "i < 2 ^ 31 \<Longrightarrow> step_pred (as_unroller u) (of_nat i) = s_pred u (to_int32 (int i))"
proof -
  assume i: "i < 2 ^ 31"
  then have "unat (of_nat i :: u64) = i" by (simp add: unat_of_nat)
  then have "step_pred (as_unroller u) (of_nat i) = s_pred u (int i)"
    unfolding as_unroller_def unroller.simps by (simp only:)
  then show ?thesis using i by (simp add: to_int32_id)
qed

lemma preds_as: "global_pred (as_unroller u) = g_pred u" "initial_pred (as_unroller u) = i_pred u"
  by (simp_all add: as_unroller_def)

definition z_unroller_ok :: "expr set \<Rightarrow> 't zunroller \<Rightarrow> bool" where
  "z_unroller_ok S u \<longleftrightarrow> (\<forall>ps\<in>{g_pred u, i_pred u} \<union> range (s_pred u). \<forall>p\<in>set ps. p \<in> S \<and> esort p = SortBool)"

text \<open>The fields of the unroller that a step leaves alone.\<close>

definition z_steady :: "'t zunroller \<Rightarrow> expr list \<Rightarrow> nat list \<Rightarrow> 't zunroller \<Rightarrow> bool" where
  "z_steady u0 vs ks u \<longleftrightarrow> extra_suff u = extra_suff u0 \<and> g_pred u = g_pred u0 \<and> i_pred u = i_pred u0
     \<and> s_pred u = s_pred u0 \<and> dep_vars u = vs \<and> z_seq u = ks"

lemma SuffCurr_steady: "z_steady u0 vs ks u \<Longrightarrow> SuffCurr u = SuffCurr u0"
  by (simp add: z_steady_def SuffCurr_def fun_eq_iff)

subsection \<open>The contract\<close>

locale z3_unroll = z3_laws api tsort den
  for api :: "'t z3_api" and tsort :: "'t \<Rightarrow> sort" and den :: "interp \<Rightarrow> 't \<Rightarrow> val" +
  fixes w :: world and S :: "expr set"
  assumes heap: "world_ok w" and nodes: "dag S" "\<forall>x\<in>S. z3_ready w x" and fair: "iter_fair w"
begin

abbreviation says :: "'t list \<Rightarrow> (interp \<Rightarrow> bool) \<Rightarrow> bool" where
  "says \<equiv> bool_says tsort den"

text \<open>An action turns every expression into a term for it, and changes nothing.\<close>

definition translates :: "(expr \<Rightarrow> ('t, 't) Z) \<Rightarrow> (interp \<Rightarrow> env) \<Rightarrow> (interp \<Rightarrow> finterp) \<Rightarrow> bool" where
  "translates M E F \<longleftrightarrow> (\<forall>e\<in>S. \<forall>st. z_world st = w \<longrightarrow> (\<exists>t. M e st = Inr (t, st) \<and> term_rel tsort den E F t e))
     \<and> (\<forall>I. interp_ok I \<longrightarrow> env_ok (E I) \<and> finterp_ok (F I))"

lemma gen_translates: "translates (\<lambda>e. z_gen api e sfx) (z3_env w sfx) (z3_finterp w sfx)"
proof -
  have "\<exists>t. z_gen api e sfx st = Inr (t, st) \<and> term_rel tsort den (z3_env w sfx) (z3_finterp w sfx) t e"
    if "e \<in> S" "z_world st = w" for e st
    using z3_GetExpr [OF z3_laws_axioms heap nodes that(1), of sfx] that(2) by (auto simp: z_gen_def)
  then show ?thesis using z3_env_ok by (simp add: translates_def)
qed

lemma vec_run:
  assumes "translates M E F" "set es \<subseteq> S" "z_world st = w"
  shows "\<exists>ts. append_all M es dst st = Inr (dst @ ts, st) \<and> list_all2 (term_rel tsort den E F) ts es"
  by (rule append_all_run) (use assms in \<open>auto simp: translates_def\<close>)

lemma smt_nodes: "x \<in> S \<Longrightarrow> smt_expr x"
  using nodes(2) by (simp add: z3_ready_def)

lemma preds_run:
  assumes "translates M E F" "\<forall>p\<in>set ps. p \<in> S \<and> esort p = SortBool" "z_world st = w"
    and "says (cstr (z_self st)) C"
  shows "\<exists>cs. add_cstr (append_all M ps) st = Inr ((), st\<lparr>z_self := (z_self st)\<lparr>cstr := cs\<rparr>\<rparr>)
    \<and> says cs (\<lambda>I. C I \<and> all_hold (E I) (F I) ps)"
proof -
  from vec_run [OF assms(1) _ assms(3), of ps "cstr (z_self st)"] assms(2) obtain ts where
    ts: "append_all M ps (cstr (z_self st)) st = Inr (cstr (z_self st) @ ts, st)"
      "list_all2 (term_rel tsort den E F) ts ps" by blast
  have "says ts (\<lambda>I. all_hold (E I) (F I) ps)"
    by (rule terms_say [OF ts(2)]) (use assms smt_nodes in \<open>auto simp: translates_def\<close>)
  from says_append [OF assms(4) this] add_cstr_run [of "append_all M ps", OF ts(1)] show ?thesis by blast
qed

text \<open>Terms with the values of the variables.\<close>

definition valued :: "(interp \<Rightarrow> env) \<Rightarrow> 't \<Rightarrow> expr \<Rightarrow> bool" where
  "valued V t v \<longleftrightarrow> tsort t = esort v \<and> (\<forall>I. interp_ok I \<longrightarrow> den I t = V I v)"

lemma AssertEqual_run:
  assumes a: "list_all2 (valued V) a vs" and vs: "set vs \<subseteq> S" "\<forall>v\<in>set vs. is_var v"
    and st: "z_world st = w" "says (cstr (z_self st)) C"
  shows "\<exists>cs. AssertEqual api a vs sfx st = Inr ((), st\<lparr>z_self := (z_self st)\<lparr>cstr := cs\<rparr>\<rparr>)
    \<and> says cs (\<lambda>I. C I \<and> (\<forall>v\<in>set vs. V I v = z3_env w sfx I v))"
proof -
  have len: "length a = length vs" by (rule list_all2_lengthD [OF a])
  let ?m = "\<lambda>i. bindM (liftR (at a i)) (\<lambda>ai. bindM (liftR (at vs i)) (\<lambda>bv.
     bindM (z_gen api bv sfx) (\<lambda>bi. liftR (z_apply api z3_eq [ai, bi]))))"
  let ?P = "\<lambda>t i. tsort t = SortBool \<and> (\<forall>I. interp_ok I \<longrightarrow> den I t = VBool (V I (vs ! i) = z3_env w sfx I (vs ! i)))"
  have body: "\<exists>t. ?m i st = Inr (t, st) \<and> ?P t i" if "i \<in> set [0..<length a]" for i
  proof -
    have i: "i < length vs" using that len by simp
    have ai: "tsort (a ! i) = esort (vs ! i)" "\<And>I. interp_ok I \<Longrightarrow> den I (a ! i) = V I (vs ! i)"
      using list_all2_nthD2 [OF a i] by (auto simp: valued_def)
    have v: "vs ! i \<in> S" "is_var (vs ! i)" using i vs nth_mem by blast+
    obtain b where b: "z_gen api (vs ! i) sfx st = Inr (b, st)"
        "term_rel tsort den (z3_env w sfx) (z3_finterp w sfx) b (vs ! i)"
      using gen_translates [of sfx] v(1) st(1) unfolding translates_def by blast
    have "eval (z3_env w sfx I) (z3_finterp w sfx I) (vs ! i) = z3_env w sfx I (vs ! i)" for I
      using v(2) by (cases "vs ! i") auto
    with b(2) have bv: "tsort b = esort (vs ! i)" "\<And>I. interp_ok I \<Longrightarrow> den I b = z3_env w sfx I (vs ! i)"
      by (auto simp: term_rel_def)
    obtain t where "z_apply api z3_eq [a ! i, b] = Inr t" "tsort t = SortBool"
        "\<And>I. den I t = VBool (den I (a ! i) = den I b)"
      using app_ok [of Leq "[a ! i, b]" SortBool] ai(1) bv(1) by (auto simp: same2_def)
    then show ?thesis using i len ai(2) bv(2) b(1) by (auto simp: bindM_def at_def)
  qed
  from append_all_run [where m = ?m and P = ?P and xs = "[0..<length a]" and dst = "cstr (z_self st)", OF body]
  obtain ts where ts: "append_all ?m [0..<length a] (cstr (z_self st)) st = Inr (cstr (z_self st) @ ts, st)"
      "list_all2 ?P ts [0..<length a]" by blast
  have "says ts (\<lambda>I. \<forall>i<length vs. V I (vs ! i) = z3_env w sfx I (vs ! i))"
    using ts(2) by (auto simp: bool_says_def list_all2_conv_all_nth all_set_conv_all_nth len)
  then have "says ts (\<lambda>I. \<forall>v\<in>set vs. V I v = z3_env w sfx I v)"
    by (rule says_cong) (simp add: all_set_conv_all_nth)
  moreover have "AssertEqual api a vs sfx = thenM (ila_assert (length a = length vs) ''Var num mismatch.'')
      (add_cstr (\<lambda>cs. append_all ?m [0..<length a] cs))"
    by (simp only: AssertEqual_def append_all_def bindM_assoc)
  ultimately show ?thesis
    using says_append [OF st(2)] add_cstr_run [of "append_all ?m [0..<length a]", OF ts(1)] len
    by (auto simp: thenM_def)
qed

lemma ConjPred_run:
  assumes "says ts C"
  shows "\<exists>t. ConjPred api ts st = Inr (t, st) \<and> tsort t = SortBool \<and> (\<forall>I. interp_ok I \<longrightarrow> den I t = VBool (C I))"
proof -
  have "\<exists>t. foldM (\<lambda>conj e. liftR (z_apply api z3_and [conj, e])) c ts st = Inr (t, st) \<and> tsort t = SortBool
      \<and> (\<forall>I. interp_ok I \<longrightarrow> den I t = VBool (D I \<and> C I))"
    if "says ts C" "tsort c = SortBool" "\<forall>I. interp_ok I \<longrightarrow> den I c = VBool (D I)" for c D C
    using that
  proof (induction ts arbitrary: c C D)
    case Nil
    then show ?case by (auto simp: bool_says_def)
  next
    case (Cons x ts)
    let ?X = "\<lambda>I. den I x = VBool True" and ?T = "\<lambda>I. \<forall>t\<in>set ts. den I t = VBool True"
    have x: "tsort x = SortBool" "\<And>I. interp_ok I \<Longrightarrow> \<exists>b. den I x = VBool b" and
      C: "\<And>I. interp_ok I \<Longrightarrow> C I \<longleftrightarrow> ?X I \<and> ?T I" and ts: "says ts ?T"
      using Cons.prems(1) by (auto simp: bool_says_def)
    obtain t where t: "z_apply api z3_and [c, x] = Inr t" "tsort t = SortBool"
        "\<And>I. den I t = bool2 (\<and>) [den I c, den I x]"
      using app_ok [of Land "[c, x]" SortBool] x(1) Cons.prems(2) by (auto simp: bool2_sort_def)
    have "\<forall>I. interp_ok I \<longrightarrow> den I t = VBool (D I \<and> ?X I)"
      using Cons.prems(3) x(2) t(3) by (fastforce simp: bool2_def)
    from Cons.IH [OF ts t(2) this] t(1) C show ?case by (auto simp: bindM_def)
  qed
  from this [OF assms, of "z_bool_val api True" "\<lambda>_. True"] bool_ok obtain c where
    c: "foldM (\<lambda>conj e. liftR (z_apply api z3_and [conj, e])) (z_bool_val api True) ts st = Inr (c, st)"
      "tsort c = SortBool" "\<forall>I. interp_ok I \<longrightarrow> den I c = VBool (C I)" by auto
  obtain r where "z_simplify api c = Inr r" "tsort r = tsort c" "\<forall>I. den I r = den I c" using simplify_ok by blast
  then show ?thesis using c by (auto simp: ConjPred_def bindM_def)
qed

text \<open>The virtual functions of the sequence.\<close>

lemma DefineDepVar_run:
  assumes st: "z_world st = w" "z_seq (z_self st) = ks" and r: "seq_ready S w ks"
  shows "\<exists>vs. PathUnroll_DefineDepVar st = Inr ((), st\<lparr>z_self := (z_self st)\<lparr>dep_vars := vs\<rparr>\<rparr>)
    \<and> set vs = seq_states w ks \<and> distinct (map eid vs)"
proof -
  have ids: "inj_on eid S" using nodes(1) by (simp add: dag_def)
  have hosts: "\<forall>k\<in>set ks. \<exists>x h. instr_heap w k = Some x \<and> i_host x = Some h \<and> h \<in> dom (ila_heap w)"
    using r unfolding seq_ready_def by blast
  have lift: "m w = Inr (a :: expr_set, w) \<Longrightarrow> z_on_world m st = Inr (a, st)" for m a
    using z_on_world_run [of m st a] st(1) by simp
  from InsertStt_loop [where L = z_on_world and w = w and st = st and vs = "[]", OF ids hosts lift] r
  obtain us where us: "foldM (\<lambda>vs k. z_on_world (InsertStt_instr k vs)) [] ks st = Inr (us, st)"
      "set us = seq_states w ks" "distinct (map eid us)" by (auto simp: seq_ready_def)
  have "set (iter_order w us) = seq_states w ks" "distinct (map eid (iter_order w us))"
    using fair us by (simp_all add: iter_fair_def)
  moreover have "PathUnroll_DefineDepVar st =
      Inr ((), st\<lparr>z_self := (z_self st)\<lparr>dep_vars := iter_order w us\<rparr>\<rparr>)"
    using us(1) st by (simp add: PathUnroll_DefineDepVar_def bindM_def thenM_def z_iterate_run [unfolded iterate_def] iterate_def)
  ultimately show ?thesis by blast
qed

lemma Transition_run:
  assumes st: "z_world st = w" "z_steady u vs ks (z_self st)" and i: "i < length ks" "length ks < 2 ^ 31"
    and x: "instr_heap w (ks ! i) = Some x" "decode x = Some d"
  shows "PathUnroll_Transition (to_int32 (int i)) st = Inr ((), st\<lparr>z_self := (z_self st)
    \<lparr>k_next := map (next_state w (ks ! i)) vs, k_pred := [d]\<rparr>\<rparr>)"
proof -
  have "StateUpdCmpl = CompleteStateUpdate" by (simp add: fun_eq_iff StateUpdCmpl_def CompleteStateUpdate_def)
  then have "z_on_world (mapM (StateUpdCmpl (ks ! i)) vs) st = Inr (map (next_state w (ks ! i)) vs, st)"
    using update_map [OF x(1), of vs] st(1) z_on_world_run by metis
  moreover have "to_int32 (int i) = int i" "to_int32 (int (length ks)) = int (length ks)"
    using i by (simp_all add: to_int32_id)
  ultimately show ?thesis
    using st i(1) x
    by (simp add: PathUnroll_Transition_def z_steady_def bindM_def thenM_def at_def z_on_world_def the_instr_def)
qed

lemma BootStrap_run:
  assumes st: "z_world st = w" "z_seq (z_self st) = ks" and r: "seq_ready S w ks"
  shows "\<exists>vs prev. BootStrap api PathUnroll_DefineDepVar pos False st = Inr ((), st\<lparr>z_self := (z_self st)
      \<lparr>k_pred := [], k_next := [], dep_vars := vs, k_curr_z3 := [], k_next_z3 := [], cstr := [], k_prev_z3 := prev\<rparr>\<rparr>)
    \<and> set vs = seq_states w ks \<and> distinct (map eid vs)
    \<and> append_all (\<lambda>v. z_gen api v (SuffCurr (z_self st) pos)) vs [] st = Inr (prev, st)"
proof -
  let ?u = "z_self st" and ?c = "SuffCurr (z_self st) pos"
  let ?st0 = "st\<lparr>z_self := ?u\<lparr>dep_vars := [], k_pred := [], k_next := []\<rparr>\<rparr>"
  obtain vs where vs: "PathUnroll_DefineDepVar ?st0 = Inr ((), ?st0\<lparr>z_self := (z_self ?st0)\<lparr>dep_vars := vs\<rparr>\<rparr>)"
      "set vs = seq_states w ks" "distinct (map eid vs)"
    using DefineDepVar_run [of ?st0 ks] st r by auto
  have sub: "set vs \<subseteq> S" "vs \<noteq> []" using r vs(2) by (auto simp: seq_ready_def)
  let ?st1 = "st\<lparr>z_self := ?u\<lparr>k_pred := [], k_next := [], dep_vars := vs, k_prev_z3 := [], k_curr_z3 := [],
    k_next_z3 := [], cstr := []\<rparr>\<rparr>"
  have same: "append_all (\<lambda>v. z_gen api v ?c) vs dst st' = (case append_all (\<lambda>v. z_gen api v ?c) vs dst st of
      Inl x \<Rightarrow> Inl x | Inr (ts, _) \<Rightarrow> Inr (ts, st'))" if "z_world st' = w" for dst st'
    by (induction vs arbitrary: dst)
      (auto simp: append_all_def bindM_def z_gen_def that st(1) liftR_def split: sum.splits)
  obtain prev where prev: "append_all (\<lambda>v. z_gen api v ?c) vs [] st = Inr (prev, st)"
    using vec_run [OF gen_translates sub(1) st(1), of ?c "[]"] by auto
  then have "append_all (\<lambda>v. z_gen api v ?c) vs [] ?st1 = Inr (prev, ?st1)"
    using same [of ?st1 "[]"] st(1) by simp
  then have "prepare_prev api pos ?st1 = Inr ((), ?st1\<lparr>z_self := (z_self ?st1)\<lparr>k_prev_z3 := prev\<rparr>\<rparr>)"
    by (simp add: prepare_prev_def IExprToZExpr_append SuffCurr_def)
  then show ?thesis
    using vs sub(2) prev by (intro exI [of _ vs] exI [of _ prev]) (simp add: BootStrap_def)
qed

subsection \<open>Asserting the transitions\<close>

definition zat :: "'t zunroller \<Rightarrow> expr list \<Rightarrow> nat list \<Rightarrow> (interp \<Rightarrow> bool) \<Rightarrow> 't zstate \<Rightarrow> bool" where
  "zat u vs ks C st \<longleftrightarrow> z_world st = w \<and> z_steady u vs ks (z_self st) \<and> says (cstr (z_self st)) C"

lemma zatD:
  assumes "zat u vs ks C st"
  shows "z_world st = w" "z_steady u vs ks (z_self st)" "says (cstr (z_self st)) C"
    "g_pred (z_self st) = g_pred u" "i_pred (z_self st) = i_pred u" "s_pred (z_self st) = s_pred u"
    "dep_vars (z_self st) = vs" "SuffCurr (z_self st) = SuffCurr u"
  using assms SuffCurr_steady by (auto simp: zat_def z_steady_def)

lemma zat_keep:
  "zat u vs ks C st \<Longrightarrow> zat u vs ks C (st\<lparr>z_self := (z_self st)\<lparr>k_next_z3 := a\<rparr>\<rparr>)"
  "zat u vs ks C st \<Longrightarrow> zat u vs ks C (st\<lparr>z_self := (z_self st)\<lparr>k_next_z3 := a, k_prev_z3 := b\<rparr>\<rparr>)"
  "zat u vs ks C st \<Longrightarrow> zat u vs ks C (st\<lparr>z_self := (z_self st)\<lparr>k_curr_z3 := a\<rparr>\<rparr>)"
  "zat u vs ks C st \<Longrightarrow> zat u vs ks C (st\<lparr>z_self := (z_self st)\<lparr>k_next := nx, k_pred := c\<rparr>\<rparr>)"
  by (simp_all add: zat_def z_steady_def)

lemma zat_cong: "zat u vs ks C st \<Longrightarrow> (\<And>I. C I \<longleftrightarrow> D I) \<Longrightarrow> zat u vs ks D st"
  by (auto simp: zat_def elim!: says_cong)

abbreviation bool_preds :: "expr list \<Rightarrow> bool" where
  "bool_preds ps \<equiv> \<forall>p\<in>set ps. p \<in> S \<and> esort p = SortBool"

lemma pred_at:
  assumes "zat u vs ks C (with_cstr st a)" "translates M E F" "bool_preds ps" "f (z_self (with_cstr st a)) = ps"
  obtains b where "bindM (z_get f) (\<lambda>ps. add_cstr (append_all M ps)) (with_cstr st a) = Inr ((), with_cstr st b)"
    "zat u vs ks (\<lambda>I. C I \<and> all_hold (E I) (F I) ps) (with_cstr st b)"
proof -
  let ?st = "with_cstr st a"
  from preds_run [OF assms(2,3), of ?st C] assms(1) obtain cs where
    "add_cstr (append_all M ps) ?st = Inr ((), ?st\<lparr>z_self := (z_self ?st)\<lparr>cstr := cs\<rparr>\<rparr>)"
    "says cs (\<lambda>I. C I \<and> all_hold (E I) (F I) ps)" by (auto simp: zat_def)
  then show thesis using that [of cs] assms(1,4) by (simp add: zat_def z_steady_def bindM_def with_cstr_def)
qed

lemma init_at:
  assumes "zat u vs ks C (with_cstr st a)" "translates M E F" "bool_preds (i_pred u)"
  obtains b where "(if i = 0 then bindM (z_get i_pred) (\<lambda>ps. add_cstr (append_all M ps)) else ret ()) (with_cstr st a)
      = Inr ((), with_cstr st b)"
    "zat u vs ks (\<lambda>I. C I \<and> (i = (0::nat) \<longrightarrow> all_hold (E I) (F I) (i_pred u))) (with_cstr st b)"
proof (cases "i = 0")
  case True
  then show thesis using that pred_at [where f = i_pred, OF assms zatD(5) [OF assms(1)]] by auto
next
  case False
  then show thesis using that [of a] assms(1) by simp
qed

lemma preds_ok_of:
  assumes "z_unroller_ok S u"
  shows "bool_preds (g_pred u)" "bool_preds (i_pred u)" "bool_preds (s_pred u k)"
  using assms by (auto simp: z_unroller_ok_def)

lemma end_run:
  assumes st: "zat u vs ks C st" and u: "z_unroller_ok S u" and n: "n < 2 ^ 31"
  shows "\<exists>cs. unroll_end_z3 api n st = Inr ((), with_cstr st cs)
    \<and> says cs (\<lambda>I. C I \<and> end_holds (as_unroller u) n (\<lambda>s. z3_env w s I) (\<lambda>s. z3_finterp w s I))"
proof -
  let ?c = "SuffCurr u (to_int32 (int n))"
  have st0: "zat u vs ks C (with_cstr st (cstr (z_self st)))" using st by simp
  note ok = preds_ok_of [OF u] and M = gen_translates [of ?c]
  obtain g where 1: "bindM (z_get g_pred) (\<lambda>ps. add_cstr (append_all (\<lambda>e. z_gen api e ?c) ps)) (with_cstr st (cstr (z_self st)))
        = Inr ((), with_cstr st g)"
      "zat u vs ks (\<lambda>I. C I \<and> all_hold (z3_env w ?c I) (z3_finterp w ?c I) (g_pred u)) (with_cstr st g)"
    by (rule pred_at [where f = g_pred, OF st0 M ok(1) zatD(4) [OF st0]])
  have s: "s_pred (z_self (with_cstr st g)) (to_int32 (int n)) = s_pred u (to_int32 (int n))" by (simp only: zatD(6) [OF 1(2)])
  obtain e where 2: "bindM (z_get (\<lambda>u. s_pred u (to_int32 (int n)))) (\<lambda>ps. add_cstr (append_all (\<lambda>e. z_gen api e ?c) ps))
        (with_cstr st g) = Inr ((), with_cstr st e)"
      "zat u vs ks (\<lambda>I. (C I \<and> all_hold (z3_env w ?c I) (z3_finterp w ?c I) (g_pred u))
          \<and> all_hold (z3_env w ?c I) (z3_finterp w ?c I) (s_pred u (to_int32 (int n)))) (with_cstr st e)"
    by (rule pred_at [where f = "\<lambda>u. s_pred u (to_int32 (int n))", OF 1(2) M ok(3) s])
  have "unroll_end_z3 api n st = Inr ((), with_cstr st e)"
    unfolding unroll_end_z3_def IExprToZExpr_append using 1(1) 2(1) zatD(8) [OF st] by simp
  moreover have "says e (\<lambda>I. C I \<and> end_holds (as_unroller u) n (\<lambda>s. z3_env w s I) (\<lambda>s. z3_finterp w s I))"
  proof (rule says_cong)
    show "says e (\<lambda>I. (C I \<and> all_hold (z3_env w ?c I) (z3_finterp w ?c I) (g_pred u))
          \<and> all_hold (z3_env w ?c I) (z3_finterp w ?c I) (s_pred u (to_int32 (int n))))"
      using zatD(3) [OF 2(2)] by simp
  qed (simp only: end_holds_def Let_def SuffCurr_as [OF n] s_pred_as [OF n] preds_as conj_assoc)
  ultimately show ?thesis by blast
qed

text \<open>The facts about one step.\<close>

lemma step_transition:
  assumes st: "zat u vs ks C st" and ks: "seq_ready S w ks" and i: "i < length ks" "length ks < 2 ^ 31"
  obtains x d where "instr_heap w (ks ! i) = Some x" "decode x = Some d" "bool_preds [d]"
    "PathUnroll_Transition (to_int32 (int i)) st = Inr ((), st\<lparr>z_self := (z_self st)
      \<lparr>k_next := map (next_state w (ks ! i)) vs, k_pred := [d]\<rparr>\<rparr>)"
proof -
  have "ks ! i \<in> set ks" using i by simp
  then obtain x d where x: "instr_heap w (ks ! i) = Some x" "decode x = Some d" "d \<in> S" "esort d = SortBool"
    using ks unfolding seq_ready_def by blast
  with that Transition_run [OF _ _ i x(1,2), of st u vs] st show ?thesis by (simp add: zat_def)
qed

lemma states_vars: "s \<in> seq_states w ks \<Longrightarrow> is_var s"
  using ila_local_of [OF heap] kv_find_ex_of_vec
  by (fastforce simp: seq_states_def ila_local_def vars_ok_def)

lemma step_sets:
  assumes ks: "seq_ready S w ks" and vs: "set vs = seq_states w ks" and i: "i < length ks"
  shows "set vs \<subseteq> S" "\<forall>v\<in>set vs. is_var v" "set (map (next_state w (ks ! i)) vs) \<subseteq> S"
    "\<forall>v\<in>set vs. esort (next_state w (ks ! i) v) = esort v"
  using ks vs states_vars nth_mem [OF i] unfolding seq_ready_def by auto

lemma assn_step_run:
  assumes st: "zat u vs ks C st" and u: "z_unroller_ok S u" and ks: "seq_ready S w ks"
    and vs: "set vs = seq_states w ks" and i: "i < length ks" "p + length ks < 2 ^ 31"
  shows "\<exists>st'. assn_step api PathUnroll_Transition (int p) i st = Inr ((), st')
    \<and> zat u vs ks (\<lambda>I. C I \<and> step_holds w (as_unroller u) ks (of_nat p) (\<lambda>s. z3_env w s I) (\<lambda>s. z3_finterp w s I) i) st'"
proof -
  let ?c = "step_suffix (int p) i u" and ?n = "step_suffix (int p + 1) i u" and ?k = "to_int32 (int i)"
  let ?E = "z3_env w ?c" and ?F = "z3_finterp w ?c" and ?M = "\<lambda>e. z_gen api e (step_suffix (int p) i u)"
  note ok = preds_ok_of [OF u] and M = gen_translates [of ?c]
  have "length ks < 2 ^ 31" using i(2) by simp
  from step_transition [OF st ks i(1) this] obtain x d where
    x: "instr_heap w (ks ! i) = Some x" "decode x = Some d" "bool_preds [d]" and
    tr: "PathUnroll_Transition ?k st = Inr ((), st\<lparr>z_self := (z_self st)
      \<lparr>k_next := map (next_state w (ks ! i)) vs, k_pred := [d]\<rparr>\<rparr>)" .
  define st1 where "st1 = st\<lparr>z_self := (z_self st)\<lparr>k_next := map (next_state w (ks ! i)) vs, k_pred := [d]\<rparr>\<rparr>"
  have k1: "k_next (z_self (with_cstr st1 cs)) = map (next_state w (ks ! i)) vs" "k_pred (z_self (with_cstr st1 cs)) = [d]" for cs
    by (simp_all add: st1_def with_cstr_def)
  have st1: "zat u vs ks C (with_cstr st1 (cstr (z_self st1)))"
    unfolding with_cstr_simps(1) st1_def by (rule zat_keep(4) [OF st])
  obtain a where a: "(if i = 0 then bindM (z_get i_pred) (\<lambda>ps. add_cstr (append_all ?M ps)) else ret ())
        (with_cstr st1 (cstr (z_self st1))) = Inr ((), with_cstr st1 a)"
      "zat u vs ks (\<lambda>I. C I \<and> (i = 0 \<longrightarrow> all_hold (?E I) (?F I) (i_pred u))) (with_cstr st1 a)"
    by (rule init_at [OF st1 M ok(2)])
  obtain g where g: "bindM (z_get g_pred) (\<lambda>ps. add_cstr (append_all ?M ps)) (with_cstr st1 a) = Inr ((), with_cstr st1 g)"
      "zat u vs ks (\<lambda>I. (C I \<and> (i = 0 \<longrightarrow> all_hold (?E I) (?F I) (i_pred u))) \<and> all_hold (?E I) (?F I) (g_pred u)) (with_cstr st1 g)"
    by (rule pred_at [where f = g_pred, OF a(2) M ok(1) zatD(4) [OF a(2)]])
  have sp: "s_pred (z_self (with_cstr st1 g)) ?k = s_pred u ?k" by (simp only: zatD(6) [OF g(2)])
  obtain s where s: "bindM (z_get (\<lambda>u. s_pred u ?k)) (\<lambda>ps. add_cstr (append_all ?M ps)) (with_cstr st1 g) = Inr ((), with_cstr st1 s)"
      "zat u vs ks (\<lambda>I. ((C I \<and> (i = 0 \<longrightarrow> all_hold (?E I) (?F I) (i_pred u))) \<and> all_hold (?E I) (?F I) (g_pred u))
          \<and> all_hold (?E I) (?F I) (s_pred u ?k)) (with_cstr st1 s)"
    by (rule pred_at [where f = "\<lambda>u. s_pred u ?k", OF g(2) M ok(3) sp])
  obtain k where k: "bindM (z_get k_pred) (\<lambda>ps. add_cstr (append_all ?M ps)) (with_cstr st1 s) = Inr ((), with_cstr st1 k)"
      "zat u vs ks (\<lambda>I. (((C I \<and> (i = 0 \<longrightarrow> all_hold (?E I) (?F I) (i_pred u))) \<and> all_hold (?E I) (?F I) (g_pred u))
          \<and> all_hold (?E I) (?F I) (s_pred u ?k)) \<and> all_hold (?E I) (?F I) [d]) (with_cstr st1 k)"
    by (rule pred_at [where f = k_pred, OF s(2) M x(3) k1(2)])
  note sets = step_sets [OF ks vs i(1)]
  obtain nz where nz: "append_all ?M (map (next_state w (ks ! i)) vs) [] (with_cstr st1 k) = Inr (nz, with_cstr st1 k)"
      "list_all2 (term_rel tsort den ?E ?F) nz (map (next_state w (ks ! i)) vs)"
    using vec_run [OF M sets(3) zatD(1) [OF k(2)], of "[]"] by auto
  define st3 where "st3 = with_cstr st1 k\<lparr>z_self := (z_self (with_cstr st1 k))\<lparr>k_next_z3 := nz\<rparr>\<rparr>"
  have st3: "zat u vs ks (\<lambda>I. (((C I \<and> (i = 0 \<longrightarrow> all_hold (?E I) (?F I) (i_pred u))) \<and> all_hold (?E I) (?F I) (g_pred u))
          \<and> all_hold (?E I) (?F I) (s_pred u ?k)) \<and> all_hold (?E I) (?F I) [d]) st3"
    unfolding st3_def by (rule zat_keep(1) [OF k(2)])
  let ?V = "\<lambda>I v. eval (?E I) (?F I) (next_state w (ks ! i) v)"
  have "list_all2 (valued ?V) nz vs"
    using nz(2) sets(4) by (auto simp: list_all2_conv_all_nth valued_def term_rel_def)
  from AssertEqual_run [OF this sets(1,2) zatD(1) [OF st3] zatD(3) [OF st3], of ?n] obtain e where
    e: "AssertEqual api nz vs ?n st3 = Inr ((), with_cstr st3 e)"
      "says e (\<lambda>I. ((((C I \<and> (i = 0 \<longrightarrow> all_hold (?E I) (?F I) (i_pred u))) \<and> all_hold (?E I) (?F I) (g_pred u))
          \<and> all_hold (?E I) (?F I) (s_pred u ?k)) \<and> all_hold (?E I) (?F I) [d])
          \<and> (\<forall>v\<in>set vs. ?V I v = z3_env w ?n I v))"
    by (auto simp: with_cstr_def)
  have sfx: "step_suffix q i (z_self st) = step_suffix q i u" "step_suffix q i (z_self st3) = step_suffix q i u" for q
    using zatD(8) [OF st] zatD(8) [OF st3] by (simp_all add: step_suffix_def)
  have "assn_step api PathUnroll_Transition (int p) i st = Inr ((), with_cstr st3 e)"
    unfolding assn_step_def IExprToZExpr_append Let_def
    using tr a(1) g(1) s(1) k(1) nz(1) e(1) sfx
    by (simp add: st1_def [symmetric] k1 st3_def [symmetric] zatD(7) [OF st3])
  moreover have "zat u vs ks (\<lambda>I. C I \<and> step_holds w (as_unroller u) ks (of_nat p) (\<lambda>s. z3_env w s I) (\<lambda>s. z3_finterp w s I) i)
      (with_cstr st3 e)"
  proof (rule zat_cong)
    show "zat u vs ks (\<lambda>I. ((((C I \<and> (i = 0 \<longrightarrow> all_hold (?E I) (?F I) (i_pred u))) \<and> all_hold (?E I) (?F I) (g_pred u))
          \<and> all_hold (?E I) (?F I) (s_pred u ?k)) \<and> all_hold (?E I) (?F I) [d])
          \<and> (\<forall>v\<in>set vs. ?V I v = z3_env w ?n I v)) (with_cstr st3 e)"
      using e(2) st3 by (simp add: zat_def z_steady_def with_cstr_def)
    have c: "SuffixCurrent (as_unroller u) (of_nat p + of_nat i) = ?c"
      "SuffixCurrent (as_unroller u) (of_nat p + of_nat i + 1) = ?n"
      using SuffCurr_as [of "p + i" u] SuffCurr_as [of "p + i + 1" u] i by (simp_all add: step_suffix_def algebra_simps)
    have "step_pred (as_unroller u) (of_nat i) = s_pred u ?k" by (rule s_pred_as) (use i in simp)
    then show "((((C I \<and> (i = 0 \<longrightarrow> all_hold (?E I) (?F I) (i_pred u))) \<and> all_hold (?E I) (?F I) (g_pred u))
          \<and> all_hold (?E I) (?F I) (s_pred u ?k)) \<and> all_hold (?E I) (?F I) [d])
          \<and> (\<forall>v\<in>set vs. ?V I v = z3_env w ?n I v)
        \<longleftrightarrow> C I \<and> step_holds w (as_unroller u) ks (of_nat p) (\<lambda>s. z3_env w s I) (\<lambda>s. z3_finterp w s I) i" for I
      unfolding step_holds_def Let_def c preds_as instr_step_def vs [symmetric] using x(1,2) by (auto simp: all_hold_def)
  qed
  ultimately show ?thesis by blast
qed

lemma steps_loop:
  assumes step: "\<And>i C st. i \<in> set is \<Longrightarrow> Q i C st \<Longrightarrow> \<exists>st'. f i st = Inr ((), st') \<and> Q (Suc i) (\<lambda>I. C I \<and> D i I) st'"
    and "is = [a..<b]" "Q a C st" "a \<le> b"
  shows "\<exists>st'. forM is f st = Inr ((), st') \<and> Q b (\<lambda>I. C I \<and> (\<forall>i\<in>set is. D i I)) st'"
  using assms
proof (induction "is" arbitrary: a C st)
  case Nil
  have "a = b" using Nil.prems(2,4) by (auto simp: eq_commute [of "[]"])
  then show ?case using Nil.prems(3) by simp
next
  case (Cons i "is")
  have a: "i = a" "is = [Suc a..<b]" "Suc a \<le> b"
    using upt_eq_Cons_conv [THEN iffD1, OF Cons.prems(2) [symmetric]] by auto
  obtain st1 where 1: "f i st = Inr ((), st1)" "Q (Suc a) (\<lambda>I. C I \<and> D i I) st1"
    using Cons.prems(1) [of i C st] Cons.prems(3) a(1) by auto
  from Cons.IH [OF _ a(2) 1(2) a(3)] Cons.prems(1) obtain st2 where
    "forM is f st1 = Inr ((), st2)" "Q b (\<lambda>I. (C I \<and> D i I) \<and> (\<forall>j\<in>set is. D j I)) st2" by auto
  moreover have "(\<lambda>I. (C I \<and> D i I) \<and> (\<forall>j\<in>set is. D j I)) = (\<lambda>I. C I \<and> (\<forall>j\<in>set (i # is). D j I))" by auto
  ultimately show ?case using 1(1) by (auto simp only: forM.simps thenM_run [where m = "f i", OF 1(1)])
qed

lemma PathAssn_run:
  assumes st: "z_world st = w" and u: "z_unroller_ok S (z_self st)" and ks: "seq_ready S w ks"
    and p: "p + length ks < 2 ^ 31"
  shows "\<exists>t st'. PathAssn api ks (int p) st = Inr (t, st') \<and> tsort t = SortBool
    \<and> (\<forall>I. interp_ok I \<longrightarrow> den I t =
         VBool (path_holds w (as_unroller (z_self st)) ks (of_nat p) (\<lambda>s. z3_env w s I) (\<lambda>s. z3_finterp w s I)))"
proof -
  let ?u = "z_self st" and ?n = "length ks"
  let ?st0 = "st\<lparr>z_self := ?u\<lparr>z_seq := ks\<rparr>\<rparr>"
  obtain vs prev where b: "BootStrap api PathUnroll_DefineDepVar (int p) False ?st0 = Inr ((), ?st0\<lparr>z_self := (z_self ?st0)
      \<lparr>k_pred := [], k_next := [], dep_vars := vs, k_curr_z3 := [], k_next_z3 := [], cstr := [], k_prev_z3 := prev\<rparr>\<rparr>)"
    and vs: "set vs = seq_states w ks"
    using BootStrap_run [of ?st0 ks "int p"] st ks by auto
  let ?st1 = "?st0\<lparr>z_self := (z_self ?st0)
      \<lparr>k_pred := [], k_next := [], dep_vars := vs, k_curr_z3 := [], k_next_z3 := [], cstr := [], k_prev_z3 := prev\<rparr>\<rparr>"
  let ?D = "\<lambda>i I. step_holds w (as_unroller ?u) ks (of_nat p) (\<lambda>s. z3_env w s I) (\<lambda>s. z3_finterp w s I) i"
  have st1: "zat ?u vs ks (\<lambda>_. True) ?st1" using st says_Nil by (simp add: zat_def z_steady_def)
  from steps_loop [where Q = "\<lambda>_. zat ?u vs ks" and D = ?D and f = "assn_step api PathUnroll_Transition (int p)",
      OF _ refl st1, of 0 ?n] assn_step_run [OF _ u ks vs _ p]
  obtain st2 where 2: "forM [0..<?n] (assn_step api PathUnroll_Transition (int p)) ?st1 = Inr ((), st2)"
    "zat ?u vs ks (\<lambda>I. True \<and> (\<forall>i\<in>set [0..<?n]. ?D i I)) st2" by auto
  have "?n < 2 ^ 31" using p by simp
  from end_run [OF 2(2) u this] obtain cs where
    3: "unroll_end_z3 api ?n st2 = Inr ((), with_cstr st2 cs)"
      "says cs (\<lambda>I. (True \<and> (\<forall>i\<in>set [0..<?n]. ?D i I))
        \<and> end_holds (as_unroller ?u) ?n (\<lambda>s. z3_env w s I) (\<lambda>s. z3_finterp w s I))" by blast
  have "says cs (\<lambda>I. path_holds w (as_unroller ?u) ks (of_nat p) (\<lambda>s. z3_env w s I) (\<lambda>s. z3_finterp w s I))"
    by (rule says_cong [OF 3(2)]) (auto simp: path_holds_def)
  from ConjPred_run [OF this, of "with_cstr st2 cs"] obtain t where
    4: "ConjPred api cs (with_cstr st2 cs) = Inr (t, with_cstr st2 cs)" "tsort t = SortBool"
    "\<forall>I. interp_ok I \<longrightarrow> den I t = VBool (path_holds w (as_unroller ?u) ks (of_nat p) (\<lambda>s. z3_env w s I) (\<lambda>s. z3_finterp w s I))"
    by blast
  have "PathAssn api ks (int p) st = Inr (t, with_cstr st2 cs)"
    unfolding PathAssn_def UnrollAssn_def using b 2(1) 3(1) 4(1) by simp
  then show ?thesis using 4(2,3) by blast
qed

end

subsection \<open>Inlining the states\<close>

definition override :: "interp \<Rightarrow> (string \<times> sort \<rightharpoonup> val) \<Rightarrow> interp" where
  "override I m = I\<lparr>ivar := \<lambda>n s. case m (n, s) of Some v \<Rightarrow> v | None \<Rightarrow> ivar I n s\<rparr>"

text \<open>The documented meaning of \<^verbatim>\<open>substitute\<close> for constants: all of them are replaced at once.\<close>

locale z3_subst_laws = z3_laws api tsort den
  for api :: "'t z3_api" and tsort :: "'t \<Rightarrow> sort" and den :: "interp \<Rightarrow> 't \<Rightarrow> val" +
  fixes sb :: "'t z3_subst"
  assumes simplify_const: "z_const api n ms = Inr c \<Longrightarrow> z_simplify api c = Inr c"
    and subst_ok: "list_all2 (\<lambda>c (n, s). \<exists>ms. of_msort ms = Some s \<and> z_const api n ms = Inr c) cs ns \<Longrightarrow>
      distinct ns \<Longrightarrow> map tsort ds = map snd ns \<Longrightarrow>
      \<exists>r. sb t cs ds = Inr r \<and> tsort r = tsort t
        \<and> (\<forall>I. den I r = den (override I (map_of (zip ns (map (den I) ds)))) t)"

text \<open>The valuation of a step when the states are computed from the first one.\<close>

primrec inline_env :: "world \<Rightarrow> nat list \<Rightarrow> (nat \<Rightarrow> string) \<Rightarrow> nat \<Rightarrow> interp \<Rightarrow> env" where
  "inline_env w ks c 0 I = z3_env w (c 0) I"
| "inline_env w ks c (Suc i) I = (\<lambda>x. if x \<in> seq_states w ks
     then eval (inline_env w ks c i I) (z3_finterp w (c i) I) (next_state w (ks ! i) x)
     else z3_env w (c (Suc i)) I x)"

lemma inline_other: "x \<notin> seq_states w ks \<Longrightarrow> inline_env w ks c i I x = z3_env w (c i) I x"
  by (cases i) simp_all

lemma inline_ok:
  assumes ks: "seq_ready S w ks" and smt: "\<forall>x\<in>S. smt_expr x" and I: "interp_ok I"
  shows "i \<le> length ks \<Longrightarrow> env_ok (inline_env w ks c i I)"
proof (induction i)
  case 0
  then show ?case using z3_env_ok [OF I] by simp
next
  case (Suc i)
  have "has_sort (inline_env w ks c (Suc i) I (ExprVar y s h)) s" if s: "pos_sort s" for y s h
  proof (cases "ExprVar y s h \<in> seq_states w ks")
    case True
    then have n: "next_state w (ks ! i) (ExprVar y s h) \<in> S" "esort (next_state w (ks ! i) (ExprVar y s h)) = s"
      using ks nth_mem [of i ks] Suc.prems by (auto simp: seq_ready_def)
    then show ?thesis using True eval_sort [OF Suc.IH] z3_env_ok [OF I] smt Suc.prems by fastforce
  next
    case False
    then show ?thesis using z3_env_ok [OF I] s by (simp add: inline_other env_ok_def)
  qed
  then show ?case by (simp add: env_ok_def)
qed

locale z3_subs = z3_unroll api tsort den w S + z3_subst_laws api tsort den sb
  for api :: "'t z3_api" and tsort :: "'t \<Rightarrow> sort" and den :: "interp \<Rightarrow> 't \<Rightarrow> val"
    and w :: world and S :: "expr set" and sb :: "'t z3_subst" +
  assumes apart: "inj_on (var_name w []) (vars_of S)" and calls: "\<forall>x\<in>S. efunc x \<noteq> None \<longrightarrow> args x \<noteq> []"
begin

text \<open>A variable is translated to a constant.\<close>

lemma var_const:
  assumes v: "v \<in> S" "is_var v" and st: "z_world st = w"
  shows "\<exists>c. z_gen api v sfx st = Inr (c, st) \<and> z_const api (var_name w sfx v) (GetZ3Sort (esort v)) = Inr c
    \<and> of_msort (GetZ3Sort (esort v)) = Some (esort v)"
proof -
  obtain y s h where vy: "v = ExprVar y s h" using v(2) by (cases v) auto
  have r: "z3_ready w v" using nodes(2) v(1) by blast
  then have s: "int_sort s" "pos_sort s" and h: "host_ok w h" by (auto simp: z3_ready_def int_node_def vy)
  obtain p where p: "root_prefix w h = Inr p" using root_prefix_ok [OF heap h] ..
  have name: "var_name w sfx v = format_str y p sfx" by (simp add: var_name_def vy p prefix_of_def)
  obtain c where c: "z_const api (format_str y p sfx) (GetZ3Sort s) = Inr c"
    using const_ok [OF of_GetZ3Sort [OF s], of "format_str y p sfx"] by auto
  have "GetZ3Expr api w v [] sfx = Inr c"
    using p c by (simp add: vy ExprVar_GetZ3Expr_def sort_GetZ3Expr_const)
  then have "GetExpr api w v sfx = Inr c"
    using simplify_const [OF c]
    by (simp add: GetExpr_def vy DepthFirstVisit.simps z3_visit_def PopulateExprMap_def thenM_def bindM_def)
  then show ?thesis using st name c of_GetZ3Sort [OF s] by (simp add: z_gen_def vy)
qed

lemma var_consts:
  assumes vs: "set vs \<subseteq> S" "\<forall>v\<in>set vs. is_var v" and st: "z_world st = w"
  shows "\<exists>cs. append_all (\<lambda>v. z_gen api v sfx) vs [] st = Inr (cs, st)
    \<and> list_all2 (\<lambda>c (n, s). \<exists>ms. of_msort ms = Some s \<and> z_const api n ms = Inr c) cs
        (map (\<lambda>v. (var_name w sfx v, esort v)) vs)"
proof -
  have "\<exists>cs. append_all (\<lambda>v. z_gen api v sfx) vs [] st = Inr ([] @ cs, st)
    \<and> list_all2 (\<lambda>c v. \<exists>ms. of_msort ms = Some (esort v) \<and> z_const api (var_name w sfx v) ms = Inr c) cs vs"
    by (rule append_all_run) (use var_const vs st in blast)
  then show ?thesis by (simp add: list_all2_map2)
qed

lemma names_distinct:
  assumes "set vs \<subseteq> S" "\<forall>v\<in>set vs. is_var v" "distinct vs"
  shows "distinct (map (\<lambda>v. (var_name w sfx v, esort v)) vs)"
proof -
  have "inj_on (\<lambda>v. (var_name w sfx v, esort v)) (set vs)"
    using apart assms(1,2) unfolding var_name_suffix [of w sfx]
    by (auto simp: inj_on_def vars_of_def)
  then show ?thesis using assms(3) by (simp add: distinct_map)
qed

lemma override_ok:
  assumes "interp_ok I" "\<And>n s v. m (n, s) = Some v \<Longrightarrow> has_sort v s"
  shows "interp_ok (override I m)"
  using assms by (auto simp: interp_ok_def override_def split: option.splits)

lemma zip_override:
  assumes vs: "set vs \<subseteq> S" "\<forall>v\<in>set vs. is_var v" "distinct vs" and d: "list_all2 (valued V) ds vs"
    and x: "x \<in> vars_of S" and I: "interp_ok I"
  shows "map_of (zip (map (\<lambda>v. (var_name w sfx v, esort v)) vs) (map (den I) ds)) (var_name w sfx x, esort x)
    = (if x \<in> set vs then Some (V I x) else None)" (is "map_of (zip ?ns ?ds) _ = _")
proof (cases "x \<in> set vs")
  case True
  then obtain j where j: "j < length vs" "x = vs ! j" by (auto simp: in_set_conv_nth)
  have len: "length ?ns = length ?ds" using list_all2_lengthD [OF d] by simp
  have "map_of (zip ?ns ?ds) (?ns ! j) = Some (?ds ! j)"
    by (rule map_of_zip_nth [OF len names_distinct [OF vs]]) (use j len in simp_all)
  moreover have "den I (ds ! j) = V I x"
    using list_all2_nthD2 [OF d j(1)] I by (simp add: valued_def j(2))
  moreover have "j < length ds" using j(1) list_all2_lengthD [OF d] by simp
  ultimately show ?thesis using True j by simp
next
  case False
  have "(var_name w sfx x, esort x) \<notin> set ?ns"
  proof
    assume "(var_name w sfx x, esort x) \<in> set ?ns"
    then obtain v where v: "v \<in> set vs" "var_name w sfx v = var_name w sfx x" by auto
    then have "var_name w [] v = var_name w [] x" unfolding var_name_suffix [of w sfx] by simp
    moreover have "v \<in> vars_of S" using v(1) vs by (auto simp: vars_of_def)
    ultimately show False using inj_onD [OF apart] x v(1) False by blast
  qed
  then have "map_of (zip ?ns ?ds) (var_name w sfx x, esort x) = None"
    by (auto simp: map_of_eq_None_iff dest: set_zip_leftD)
  then show ?thesis using False by simp
qed

text \<open>Replacing the states by their values is evaluating with these values.\<close>

lemma subs_translates:
  assumes ks: "seq_ready S w ks" and vs: "set vs = seq_states w ks" "distinct vs" and i: "i \<le> length ks"
    and src: "append_all (\<lambda>v. z_gen api v (c i)) vs [] st0 = Inr (src, st0)" "z_world st0 = w"
    and dst: "list_all2 (valued (inline_env w ks c i)) dst vs"
  shows "translates (\<lambda>e. bindM (z_gen api e (c i)) (\<lambda>z. liftR (sb z src dst))) (inline_env w ks c i) (z3_finterp w (c i))"
proof -
  let ?ns = "map (\<lambda>v. (var_name w (c i) v, esort v)) vs" and ?V = "inline_env w ks c i"
  let ?m = "\<lambda>I. map_of (zip ?ns (map (den I) dst))"
  have V: "set vs \<subseteq> S" "\<forall>v\<in>set vs. is_var v" using ks vs(1) states_vars by (auto simp: seq_ready_def)
  have smt: "\<forall>x\<in>S. smt_expr x" using smt_nodes by blast
  have env: "env_ok (?V I)" if "interp_ok I" for I using inline_ok [OF ks smt that i] .
  have cs: "list_all2 (\<lambda>c (n, s). \<exists>ms. of_msort ms = Some s \<and> z_const api n ms = Inr c) src ?ns"
    using var_consts [OF V src(2), of "c i"] src(1) by auto
  have ds: "map tsort dst = map snd ?ns"
    using dst by (auto simp: list_all2_conv_all_nth valued_def intro!: nth_equalityI)
  have over: "interp_ok (override I (?m I))" if I: "interp_ok I" for I
  proof (rule override_ok [OF I])
    fix n s v assume "?m I (n, s) = Some v"
    then obtain j where j: "j < length vs" "(n, s) = ?ns ! j" "v = den I (dst ! j)"
      using list_all2_lengthD [OF dst] by (auto dest!: map_of_SomeD simp: set_zip)
    then have "v = ?V I (vs ! j)" "s = esort (vs ! j)" using list_all2_nthD2 [OF dst j(1)] I by (auto simp: valued_def)
    moreover have "is_var (vs ! j)" "smt_expr (vs ! j)" using j(1) V smt by (auto simp: subset_iff)
    ultimately show "has_sort v s" using env [OF I] by (cases "vs ! j") (auto simp: env_ok_def)
  qed
  have agree: "eval (z3_env w (c i) (override I (?m I))) (z3_finterp w (c i) (override I (?m I))) e
      = eval (?V I) (z3_finterp w (c i) I) e" if I: "interp_ok I" and e: "e \<in> S" for I e
  proof (rule eval_agree [OF nodes(1) smt env [OF I] _ _ _ calls e])
    show "finterp_ok (z3_finterp w (c i) I)" using z3_env_ok [OF I] by blast
    show "\<forall>x\<in>vars_of S. z3_env w (c i) (override I (?m I)) x = ?V I x"
    proof
      fix x assume x: "x \<in> vars_of S"
      have "z3_env w (c i) (override I (?m I)) x = (case ?m I (var_name w (c i) x, esort x) of
          Some v \<Rightarrow> v | None \<Rightarrow> z3_env w (c i) I x)"
        by (simp add: z3_env_def override_def var_name_def split: option.splits)
      then show "z3_env w (c i) (override I (?m I)) x = ?V I x"
        using zip_override [OF V vs(2) dst x I, of "c i"] vs(1) inline_other [of x w ks c i I] by simp
    qed
  qed (simp add: z3_finterp_def override_def)
  have "\<exists>t. bindM (z_gen api e (c i)) (\<lambda>z. liftR (sb z src dst)) st = Inr (t, st)
      \<and> term_rel tsort den ?V (z3_finterp w (c i)) t e" if e: "e \<in> S" and st: "z_world st = w" for e st
  proof -
    obtain z where z: "z_gen api e (c i) st = Inr (z, st)" "term_rel tsort den (z3_env w (c i)) (z3_finterp w (c i)) z e"
      using gen_translates [of "c i"] e st unfolding translates_def by blast
    obtain r where r: "sb z src dst = Inr r" "tsort r = tsort z" "\<forall>I. den I r = den (override I (?m I)) z"
      using subst_ok [OF cs names_distinct [OF V vs(2)] ds, of z] by blast
    have "term_rel tsort den ?V (z3_finterp w (c i)) r e"
      using z(2) r(2,3) over agree [OF _ e] unfolding term_rel_def by simp
    then show ?thesis using z(1) r(1) by (simp add: bindM_def)
  qed
  then show ?thesis using env z3_env_ok unfolding translates_def by blast
qed

text \<open>A step on a path that is computed from the first state.\<close>

definition inline_step :: "'t zunroller \<Rightarrow> nat list \<Rightarrow> (nat \<Rightarrow> string) \<Rightarrow> interp \<Rightarrow> nat \<Rightarrow> bool" where
  "inline_step u ks c I i \<longleftrightarrow>
     (let E = inline_env w ks c i I; F = z3_finterp w (c i) I in
        (i = 0 \<longrightarrow> all_hold E F (i_pred u)) \<and> all_hold E F (g_pred u)
        \<and> (\<exists>x d. instr_heap w (ks ! i) = Some x \<and> decode x = Some d \<and> all_hold E F [d])
        \<and> all_hold E F (s_pred u (to_int32 (int i))))"

definition zin :: "'t zunroller \<Rightarrow> expr list \<Rightarrow> nat list \<Rightarrow> (nat \<Rightarrow> string) \<Rightarrow> nat \<Rightarrow> (interp \<Rightarrow> bool) \<Rightarrow> 't zstate \<Rightarrow> bool" where
  "zin u vs ks c i C st \<longleftrightarrow> zat u vs ks C st \<and> list_all2 (valued (inline_env w ks c i)) (k_prev_z3 (z_self st)) vs"

lemma subs_step_run:
  fixes u :: "'t zunroller" and p :: nat
  defines "c \<equiv> \<lambda>i. step_suffix (int p) i u"
  assumes st: "zin u vs ks c i C st" and u: "z_unroller_ok S u" and ks: "seq_ready S w ks"
    and vs: "set vs = seq_states w ks" "distinct vs" and i: "i < length ks" "length ks < 2 ^ 31"
  shows "\<exists>st'. subs_step api sb PathUnroll_Transition (int p) i st = Inr ((), st')
    \<and> zin u vs ks c (Suc i) (\<lambda>I. C I \<and> inline_step u ks c I i) st'"
proof -
  let ?k = "to_int32 (int i)"
  let ?E = "inline_env w ks c i" and ?F = "z3_finterp w (c i)"
  note ok = preds_ok_of [OF u]
  have z: "zat u vs ks C st" and dst: "list_all2 (valued ?E) (k_prev_z3 (z_self st)) vs"
    using st by (simp_all add: zin_def)
  note sets = step_sets [OF ks vs(1) i(1)]
  from step_transition [OF z ks i] obtain x d where
    x: "instr_heap w (ks ! i) = Some x" "decode x = Some d" "bool_preds [d]" and
    tr: "PathUnroll_Transition ?k st = Inr ((), st\<lparr>z_self := (z_self st)
      \<lparr>k_next := map (next_state w (ks ! i)) vs, k_pred := [d]\<rparr>\<rparr>)" .
  define st0 where "st0 = st\<lparr>z_self := (z_self st)\<lparr>k_next := map (next_state w (ks ! i)) vs, k_pred := [d]\<rparr>\<rparr>"
  have st0: "zat u vs ks C st0" unfolding st0_def by (rule zat_keep(4) [OF z])
  obtain src where src: "append_all (\<lambda>v. z_gen api v (c i)) vs [] st0 = Inr (src, st0)"
    using var_consts [OF sets(1,2) zatD(1) [OF st0], of "c i"] by blast
  define st1 where "st1 = st0\<lparr>z_self := (z_self st0)\<lparr>k_curr_z3 := src\<rparr>\<rparr>"
  let ?dst = "k_prev_z3 (z_self st)" and ?M = "\<lambda>e. bindM (z_gen api e (c i)) (\<lambda>t. liftR (sb t src (k_prev_z3 (z_self st))))"
  have M: "translates ?M ?E ?F"
    by (rule subs_translates [where ks = ks, OF ks vs _ src zatD(1) [OF st0] dst]) (use i in simp)
  have k1: "k_next (z_self (with_cstr st1 cs)) = map (next_state w (ks ! i)) vs" "k_pred (z_self (with_cstr st1 cs)) = [d]"
    "k_prev_z3 (z_self st1) = ?dst" for cs
    by (simp_all add: st1_def st0_def with_cstr_def)
  have st1: "zat u vs ks C (with_cstr st1 (cstr (z_self st1)))"
    unfolding with_cstr_simps(1) st1_def by (rule zat_keep(3) [OF st0])
  obtain a where a: "(if i = 0 then bindM (z_get i_pred) (\<lambda>ps. add_cstr (append_all ?M ps)) else ret ())
        (with_cstr st1 (cstr (z_self st1))) = Inr ((), with_cstr st1 a)"
      "zat u vs ks (\<lambda>I. C I \<and> (i = 0 \<longrightarrow> all_hold (?E I) (?F I) (i_pred u))) (with_cstr st1 a)"
    by (rule init_at [OF st1 M ok(2)])
  obtain g where g: "bindM (z_get g_pred) (\<lambda>ps. add_cstr (append_all ?M ps)) (with_cstr st1 a) = Inr ((), with_cstr st1 g)"
      "zat u vs ks (\<lambda>I. (C I \<and> (i = 0 \<longrightarrow> all_hold (?E I) (?F I) (i_pred u))) \<and> all_hold (?E I) (?F I) (g_pred u)) (with_cstr st1 g)"
    by (rule pred_at [where f = g_pred, OF a(2) M ok(1) zatD(4) [OF a(2)]])
  obtain k where k: "bindM (z_get k_pred) (\<lambda>ps. add_cstr (append_all ?M ps)) (with_cstr st1 g) = Inr ((), with_cstr st1 k)"
      "zat u vs ks (\<lambda>I. ((C I \<and> (i = 0 \<longrightarrow> all_hold (?E I) (?F I) (i_pred u))) \<and> all_hold (?E I) (?F I) (g_pred u))
          \<and> all_hold (?E I) (?F I) [d]) (with_cstr st1 k)"
    by (rule pred_at [where f = k_pred, OF g(2) M x(3) k1(2)])
  have sp: "s_pred (z_self (with_cstr st1 k)) ?k = s_pred u ?k" by (simp only: zatD(6) [OF k(2)])
  obtain s where s: "bindM (z_get (\<lambda>u. s_pred u ?k)) (\<lambda>ps. add_cstr (append_all ?M ps)) (with_cstr st1 k) = Inr ((), with_cstr st1 s)"
      "zat u vs ks (\<lambda>I. (((C I \<and> (i = 0 \<longrightarrow> all_hold (?E I) (?F I) (i_pred u))) \<and> all_hold (?E I) (?F I) (g_pred u))
          \<and> all_hold (?E I) (?F I) [d]) \<and> all_hold (?E I) (?F I) (s_pred u ?k)) (with_cstr st1 s)"
    by (rule pred_at [where f = "\<lambda>u. s_pred u ?k", OF k(2) M ok(3) sp])
  obtain nz where nz: "append_all ?M (map (next_state w (ks ! i)) vs) [] (with_cstr st1 s) = Inr (nz, with_cstr st1 s)"
      "list_all2 (term_rel tsort den ?E ?F) nz (map (next_state w (ks ! i)) vs)"
    using vec_run [OF M sets(3) zatD(1) [OF s(2)], of "[]"] by auto
  have nv: "list_all2 (valued (inline_env w ks c (Suc i))) nz vs"
    using nz(2) sets(4) vs(1) by (auto simp: list_all2_conv_all_nth valued_def term_rel_def)
  let ?st3 = "with_cstr st1 s\<lparr>z_self := (z_self (with_cstr st1 s))\<lparr>k_next_z3 := nz, k_prev_z3 := nz\<rparr>\<rparr>"
  have sfx: "step_suffix (int p) i (z_self st) = c i"
    using zatD(8) [OF z] by (simp add: step_suffix_def c_def)
  have "subs_step api sb PathUnroll_Transition (int p) i st = Inr ((), ?st3)"
    unfolding subs_step_def IExprToZExpr_append IExprToZExpr_subs_append Let_def
    using tr src a(1) g(1) s(1) k(1) nz(1) sfx
    by (simp add: st0_def [symmetric] k1 st1_def [symmetric] zatD(7) [OF st0])
  moreover have "zat u vs ks (\<lambda>I. C I \<and> inline_step u ks c I i) ?st3"
    by (rule zat_cong [OF zat_keep(2) [OF s(2)]]) (use x(1,2) in \<open>auto simp: inline_step_def Let_def\<close>)
  ultimately show ?thesis using nv by (auto simp: zin_def)
qed

definition inline_holds :: "'t zunroller \<Rightarrow> nat list \<Rightarrow> nat \<Rightarrow> interp \<Rightarrow> bool" where
  "inline_holds u ks p I \<longleftrightarrow>
     (let n = length ks; c = (\<lambda>i. step_suffix (int p) i u); e = SuffixCurrent (as_unroller u) (of_nat n) in
        (\<forall>i<n. inline_step u ks c I i)
        \<and> (\<forall>v\<in>seq_states w ks. inline_env w ks c n I v = z3_env w e I v)
        \<and> end_holds (as_unroller u) n (\<lambda>s. z3_env w s I) (\<lambda>s. z3_finterp w s I))"

lemma PathSubs_run:
  assumes st: "z_world st = w" and u: "z_unroller_ok S (z_self st)" and ks: "seq_ready S w ks"
    and n: "p + length ks < 2 ^ 31"
  shows "\<exists>t st'. PathSubs api sb ks (int p) st = Inr (t, st') \<and> tsort t = SortBool
    \<and> (\<forall>I. interp_ok I \<longrightarrow> den I t = VBool (inline_holds (z_self st) ks p I))"
proof -
  let ?u = "z_self st" and ?n = "length ks"
  let ?st0 = "st\<lparr>z_self := ?u\<lparr>z_seq := ks\<rparr>\<rparr>"
  define c where "c i = step_suffix (int p) i ?u" for i
  obtain vs prev where b: "BootStrap api PathUnroll_DefineDepVar (int p) False ?st0 = Inr ((), ?st0\<lparr>z_self := (z_self ?st0)
      \<lparr>k_pred := [], k_next := [], dep_vars := vs, k_curr_z3 := [], k_next_z3 := [], cstr := [], k_prev_z3 := prev\<rparr>\<rparr>)"
    and vs: "set vs = seq_states w ks" "distinct vs"
    and prev: "append_all (\<lambda>v. z_gen api v (SuffCurr (z_self ?st0) (int p))) vs [] ?st0 = Inr (prev, ?st0)"
    using BootStrap_run [of ?st0 ks "int p"] st ks by (auto simp: distinct_map)
  let ?st1 = "?st0\<lparr>z_self := (z_self ?st0)
      \<lparr>k_pred := [], k_next := [], dep_vars := vs, k_curr_z3 := [], k_next_z3 := [], cstr := [], k_prev_z3 := prev\<rparr>\<rparr>"
  let ?D = "\<lambda>i I. inline_step ?u ks c I i" and ?e = "SuffCurr ?u (to_int32 (int ?n))"
  have V: "set vs \<subseteq> S" "\<forall>v\<in>set vs. is_var v" using ks vs(1) states_vars by (auto simp: seq_ready_def)
  have c0: "c 0 = SuffCurr (z_self ?st0) (int p)" using n by (simp add: c_def step_suffix_def to_int32_id SuffCurr_def)
  have "list_all2 (term_rel tsort den (z3_env w (c 0)) (z3_finterp w (c 0))) prev vs"
    using vec_run [OF gen_translates V(1), of ?st0 "c 0" "[]"] prev st unfolding c0 by auto
  moreover have "eval E F v = E v" if "v \<in> set vs" for v E F using V(2) that by (cases v) auto
  ultimately have "list_all2 (valued (inline_env w ks c 0)) prev vs"
    by (auto simp: list_all2_conv_all_nth valued_def term_rel_def)
  then have st1: "zin ?u vs ks c 0 (\<lambda>_. True) ?st1" using st says_Nil by (simp add: zin_def zat_def z_steady_def)
  have len: "?n < 2 ^ 31" using n by simp
  have "\<exists>st'. subs_step api sb PathUnroll_Transition (int p) i st = Inr ((), st')
      \<and> zin ?u vs ks c (Suc i) (\<lambda>I. C I \<and> ?D i I) st'" if "i \<in> set [0..<?n]" "zin ?u vs ks c i C st" for i C st
    using subs_step_run [of ?u vs ks p i C st, folded c_def, OF that(2) u ks vs _ len] that(1) by simp
  from steps_loop [where Q = "\<lambda>i. zin ?u vs ks c i" and D = ?D and f = "subs_step api sb PathUnroll_Transition (int p)",
      OF this refl st1, of ?n]
  obtain st2 where 2: "forM [0..<?n] (subs_step api sb PathUnroll_Transition (int p)) ?st1 = Inr ((), st2)"
    "zin ?u vs ks c ?n (\<lambda>I. True \<and> (\<forall>i\<in>set [0..<?n]. ?D i I)) st2" by auto
  note z2 = 2(2) [unfolded zin_def, THEN conjunct1]
  from AssertEqual_run [OF 2(2) [unfolded zin_def, THEN conjunct2] V zatD(1) [OF z2] zatD(3) [OF z2], of ?e] obtain a where
    3: "AssertEqual api (k_prev_z3 (z_self st2)) vs ?e st2 = Inr ((), with_cstr st2 a)"
      "says a (\<lambda>I. (True \<and> (\<forall>i\<in>set [0..<?n]. ?D i I)) \<and> (\<forall>v\<in>set vs. inline_env w ks c ?n I v = z3_env w ?e I v))"
    by (auto simp: with_cstr_def)
  have z3: "zat ?u vs ks (\<lambda>I. (True \<and> (\<forall>i\<in>set [0..<?n]. ?D i I)) \<and> (\<forall>v\<in>set vs. inline_env w ks c ?n I v = z3_env w ?e I v))
      (with_cstr st2 a)"
    using 3(2) z2 by (simp add: zat_def z_steady_def with_cstr_def)
  from end_run [OF z3 u len] obtain cs where
    4: "unroll_end_z3 api ?n (with_cstr st2 a) = Inr ((), with_cstr st2 cs)"
      "says cs (\<lambda>I. ((True \<and> (\<forall>i\<in>set [0..<?n]. ?D i I)) \<and> (\<forall>v\<in>set vs. inline_env w ks c ?n I v = z3_env w ?e I v))
        \<and> end_holds (as_unroller ?u) ?n (\<lambda>s. z3_env w s I) (\<lambda>s. z3_finterp w s I))" by auto
  have "says cs (inline_holds ?u ks p)"
    by (rule says_cong [OF 4(2)])
      (auto simp: inline_holds_def Let_def c_def [abs_def] vs(1) SuffCurr_as [OF len])
  from ConjPred_run [OF this, of "with_cstr st2 cs"] obtain t where
    5: "ConjPred api cs (with_cstr st2 cs) = Inr (t, with_cstr st2 cs)" "tsort t = SortBool"
    "\<forall>I. interp_ok I \<longrightarrow> den I t = VBool (inline_holds ?u ks p I)" by blast
  have "PathSubs api sb ks (int p) st = Inr (t, with_cstr st2 cs)"
    unfolding PathSubs_def UnrollSubs_def using b 2(1) 3(1) 4(1) 5(1) zatD(7,8) [OF z2] by simp
  then show ?thesis using 5(2,3) by blast
qed

text \<open>A model of the formula with a name for every state satisfies the inlined one.\<close>

lemma inline_agrees:
  assumes ks: "seq_ready S w ks" and I: "interp_ok I"
    and path: "\<forall>i<length ks. \<forall>v\<in>seq_states w ks.
      z3_env w (c (Suc i)) I v = eval (z3_env w (c i) I) (z3_finterp w (c i) I) (next_state w (ks ! i) v)"
  shows "i \<le> length ks \<Longrightarrow> inline_env w ks c i I x = z3_env w (c i) I x"
proof (induction i arbitrary: x)
  case (Suc i)
  then have "inline_env w ks c i I = z3_env w (c i) I" by auto
  then show ?case using path Suc.prems by simp
qed simp

lemma funs_agree:
  assumes "x \<in> S" "interp_ok I" "env_ok E"
  shows "eval E (z3_finterp w sfx I) x = eval E (z3_finterp w [] I) x"
  by (rule eval_agree [OF nodes(1) _ assms(3) _ _ _ calls assms(1)])
    (use z3_env_ok [OF assms(2)] smt_nodes in \<open>auto simp: z3_finterp_def\<close>)

lemma inline_execution:
  assumes u: "z_unroller_ok S u" and ks: "seq_ready S w ks" and n: "length ks < 2 ^ 31" and I: "interp_ok I"
    and h: "inline_holds u ks 0 I"
  defines "\<rho> \<equiv> \<lambda>i. inline_env w ks (\<lambda>i. step_suffix 0 i u) (min i (length ks)) I"
  shows "(\<forall>i. env_ok (\<rho> i)) \<and> execution w (as_unroller u) ks \<rho> (z3_finterp w [] I)"
proof -
  let ?a = "as_unroller u" and ?n = "length ks" and ?V = "seq_states w ks" and ?F = "z3_finterp w [] I"
  define c where "c i = step_suffix 0 i u" for i
  have c: "c i = SuffixCurrent ?a (of_nat i)" if "i \<le> ?n" for i
    using SuffCurr_as [of i u] that n by (simp add: c_def step_suffix_def)
  have rho: "\<rho> i = inline_env w ks c i I" if "i \<le> ?n" for i using that by (simp add: \<rho>_def c_def [abs_def])
  have smt: "\<forall>x\<in>S. smt_expr x" using smt_nodes by blast
  have env: "env_ok (\<rho> i)" for i unfolding \<rho>_def by (rule inline_ok [OF ks smt I]) simp
  note F = funs_agree [OF _ I env]
  have preds: "all_hold (\<rho> i) (z3_finterp w sfx I) ps \<longleftrightarrow> all_hold (\<rho> i) ?F ps" if "bool_preds ps" for i sfx ps
  proof (rule preds_agree [where S = S])
    show "set ps \<subseteq> S" using that by blast
    show "\<forall>x\<in>S. eval (\<rho> i) (z3_finterp w sfx I) x = eval (\<rho> i) ?F x" by (intro ballI F)
  qed
  note ok = preds_ok_of [OF u]
  have steps: "inline_step u ks c I i" if "i < ?n" for i
    using h that by (simp add: inline_holds_def Let_def c_def [abs_def])
  have i: "all_hold (\<rho> i) ?F (g_pred u)" "all_hold (\<rho> i) ?F (s_pred u (to_int32 (int i)))"
    "i = 0 \<Longrightarrow> all_hold (\<rho> i) ?F (i_pred u)" "instr_step w ?V (ks ! i) (\<rho> i) ?F (\<rho> (Suc i))" if "i < ?n" for i
  proof -
    obtain x d where x: "instr_heap w (ks ! i) = Some x" "decode x = Some d" "bool_preds [d]"
      using ks nth_mem [OF \<open>i < ?n\<close>] unfolding seq_ready_def by (simp only: list.set) blast
    have s: "i = 0 \<longrightarrow> all_hold (\<rho> i) ?F (i_pred u)" "all_hold (\<rho> i) ?F (g_pred u)" "all_hold (\<rho> i) ?F [d]"
      "all_hold (\<rho> i) ?F (s_pred u (to_int32 (int i)))"
    proof -
      have "all_hold (\<rho> i) (z3_finterp w (c i) I) [d]" "i = 0 \<longrightarrow> all_hold (\<rho> i) (z3_finterp w (c i) I) (i_pred u)"
        "all_hold (\<rho> i) (z3_finterp w (c i) I) (g_pred u)" "all_hold (\<rho> i) (z3_finterp w (c i) I) (s_pred u (to_int32 (int i)))"
        using steps [OF that] x(1,2) unfolding inline_step_def Let_def rho [OF less_imp_le [OF that], symmetric] by auto
      then show "i = 0 \<longrightarrow> all_hold (\<rho> i) ?F (i_pred u)" "all_hold (\<rho> i) ?F (g_pred u)" "all_hold (\<rho> i) ?F [d]"
        "all_hold (\<rho> i) ?F (s_pred u (to_int32 (int i)))"
        using preds [OF ok(1)] preds [OF ok(2)] preds [OF ok(3)] preds [OF x(3)] by blast+
    qed
    have "\<rho> (Suc i) v = eval (\<rho> i) ?F (next_state w (ks ! i) v)" if "v \<in> ?V" for v
    proof -
      have "next_state w (ks ! i) v \<in> S" using ks that nth_mem [OF \<open>i < ?n\<close>] by (auto simp: seq_ready_def)
      from F [OF this, of i "c i"] show ?thesis using that \<open>i < ?n\<close> by (simp only: rho inline_env.simps less_imp_le Suc_leI if_True)
    qed
    then show "instr_step w ?V (ks ! i) (\<rho> i) ?F (\<rho> (Suc i))" using x(1,2) s(3) by (auto simp: instr_step_def all_hold_def)
    show "all_hold (\<rho> i) ?F (g_pred u)" "all_hold (\<rho> i) ?F (s_pred u (to_int32 (int i)))"
      "i = 0 \<Longrightarrow> all_hold (\<rho> i) ?F (i_pred u)" using s by auto
  qed
  have hv: "\<forall>v\<in>?V. inline_env w ks c ?n I v = z3_env w (c ?n) I v"
    using h c [OF le_refl] by (simp add: inline_holds_def Let_def c_def [abs_def])
  have last: "\<rho> ?n = z3_env w (c ?n) I"
  proof
    fix x show "\<rho> ?n x = z3_env w (c ?n) I x"
      using hv inline_other [of x w ks c ?n I] unfolding rho [OF le_refl] by (cases "x \<in> ?V") simp_all
  qed
  have "end_holds ?a ?n (\<lambda>s. z3_env w s I) (\<lambda>s. z3_finterp w s I)" using h by (simp add: inline_holds_def Let_def)
  then have "all_hold (\<rho> ?n) ?F (g_pred u)" "all_hold (\<rho> ?n) ?F (s_pred u (to_int32 (int ?n)))"
    unfolding end_holds_def Let_def c [OF le_refl, symmetric] last [symmetric] s_pred_as [OF n] preds_as
    using preds ok by blast+
  with i env show ?thesis
    unfolding execution_def preds_as le_less using s_pred_as [OF less_trans [OF _ n], where u = u] s_pred_as [OF n, where u = u] by (auto 0 3)
qed

lemma realise_inline:
  assumes u: "z_unroller_ok S u" and ks: "seq_ready S w ks" and n: "length ks < 2 ^ 31"
    and "apart": "steps_apart w (as_unroller u) (length ks) S"
    and e: "\<forall>i. env_ok (\<rho> i)" "finterp_ok \<phi>" "execution w (as_unroller u) ks \<rho> \<phi>"
  shows "inline_holds u ks 0 (realise w (as_unroller u) (length ks) S \<rho> \<phi>)" (is "inline_holds u ks 0 ?I")
proof -
  let ?a = "as_unroller u" and ?n = "length ks" and ?V = "seq_states w ks"
  define c where "c i = step_suffix 0 i u" for i
  have c: "c i = SuffixCurrent ?a (of_nat i)" if "i \<le> ?n" for i
    using SuffCurr_as [of i u] that n by (simp add: c_def step_suffix_def)
  have smt: "\<forall>x\<in>S. smt_expr x" using smt_nodes by blast
  have ps: "\<forall>ps\<in>{global_pred ?a, initial_pred ?a} \<union> range (step_pred ?a). set ps \<subseteq> S"
    using u unfolding z_unroller_ok_def as_unroller_def by auto
  have "path_holds w ?a ks 0 (\<lambda>s. z3_env w s ?I) (\<lambda>s. z3_finterp w s ?I)"
    using path_execution [OF ps ks, of "\<lambda>s. z3_env w s ?I" "\<lambda>s. z3_finterp w s ?I" \<rho> \<phi>]
      realise_agree [OF nodes(1) smt e(1,2) apart] e(3) states_vars by blast
  then have h: "\<forall>i<?n. step_holds w ?a ks 0 (\<lambda>s. z3_env w s ?I) (\<lambda>s. z3_finterp w s ?I) i"
    "end_holds ?a ?n (\<lambda>s. z3_env w s ?I) (\<lambda>s. z3_finterp w s ?I)"
    unfolding path_holds_def by blast+
  have suc: "of_nat i + 1 = (of_nat (Suc i) :: u64)" for i by simp
  have p: "all_hold (z3_env w (c i) ?I) (z3_finterp w (c i) ?I) (g_pred u)"
    "all_hold (z3_env w (c i) ?I) (z3_finterp w (c i) ?I) (s_pred u (to_int32 (int i)))"
    "i = 0 \<Longrightarrow> all_hold (z3_env w (c i) ?I) (z3_finterp w (c i) ?I) (i_pred u)"
    "instr_step w ?V (ks ! i) (z3_env w (c i) ?I) (z3_finterp w (c i) ?I) (z3_env w (c (Suc i)) ?I)" if "i < ?n" for i
  proof -
    have cs: "SuffixCurrent ?a (of_nat i) = c i" "SuffixCurrent ?a (of_nat (Suc i)) = c (Suc i)"
      "step_pred ?a (of_nat i) = s_pred u (to_int32 (int i))"
      using c [of i] c [of "Suc i"] that s_pred_as [of i u] n by simp_all
    note s = h(1) [rule_format, OF that, unfolded step_holds_def Let_def add_0 suc preds_as cs]
    show "all_hold (z3_env w (c i) ?I) (z3_finterp w (c i) ?I) (g_pred u)"
      "all_hold (z3_env w (c i) ?I) (z3_finterp w (c i) ?I) (s_pred u (to_int32 (int i)))"
      "i = 0 \<Longrightarrow> all_hold (z3_env w (c i) ?I) (z3_finterp w (c i) ?I) (i_pred u)"
      "instr_step w ?V (ks ! i) (z3_env w (c i) ?I) (z3_finterp w (c i) ?I) (z3_env w (c (Suc i)) ?I)"
      using s by blast+
  qed
  have env: "inline_env w ks c i ?I = z3_env w (c i) ?I" if "i \<le> ?n" for i
    by (rule ext, rule inline_agrees [OF ks realise_ok [OF e(1,2)] _ that]) (use p(4) in \<open>auto simp: instr_step_def\<close>)
  have "inline_step u ks c ?I i" if "i < ?n" for i
    using p [OF that] env [of i] that by (auto simp: inline_step_def Let_def instr_step_def all_hold_def)
  then show ?thesis using env [of ?n] c [of ?n] h(2) by (simp add: inline_holds_def Let_def c_def [abs_def])
qed

lemma PathSubs_executions:
  assumes st: "z_world st = w" and u: "z_unroller_ok S (z_self st)" and ks: "seq_ready S w ks"
    and n: "length ks < 2 ^ 31" and apart': "steps_apart w (as_unroller (z_self st)) (length ks) S"
  shows "\<exists>t st'. PathSubs api sb ks 0 st = Inr (t, st') \<and> tsort t = SortBool
    \<and> ((\<exists>I. interp_ok I \<and> den I t = VBool True) \<longleftrightarrow>
       (\<exists>\<rho> \<phi>. (\<forall>i. env_ok (\<rho> i)) \<and> finterp_ok \<phi> \<and> execution w (as_unroller (z_self st)) ks \<rho> \<phi>))"
proof -
  let ?u = "z_self st" and ?n = "length ks" and ?a = "as_unroller (z_self st)"
  obtain t st' where t: "PathSubs api sb ks 0 st = Inr (t, st')" "tsort t = SortBool"
      "\<And>I. interp_ok I \<Longrightarrow> den I t = VBool (inline_holds ?u ks 0 I)"
    using PathSubs_run [OF st u ks, of 0] n by auto
  have "\<exists>\<rho> \<phi>. (\<forall>i. env_ok (\<rho> i)) \<and> finterp_ok \<phi> \<and> execution w ?a ks \<rho> \<phi>"
    if I: "interp_ok I" "den I t = VBool True" for I
  proof -
    have h: "inline_holds ?u ks 0 I" using t(3) [OF I(1)] I(2) by simp
    show ?thesis
      by (intro exI [of _ "\<lambda>i. inline_env w ks (\<lambda>i. step_suffix 0 i ?u) (min i ?n) I"] exI [of _ "z3_finterp w [] I"])
        (use inline_execution [OF u ks n I(1) h] z3_env_ok [OF I(1), of w "[]"] in simp)
  qed
  moreover have "\<exists>I. interp_ok I \<and> den I t = VBool True"
    if e: "\<forall>i. env_ok (\<rho> i)" "finterp_ok \<phi>" "execution w ?a ks \<rho> \<phi>" for \<rho> \<phi>
  proof -
    let ?I = "realise w ?a ?n S \<rho> \<phi>"
    have "inline_holds ?u ks 0 ?I" by (rule realise_inline [OF u ks n apart' e])
    with t(3) realise_ok [OF e(1,2)] show ?thesis by metis
  qed
  ultimately show ?thesis using t(1,2) by blast
qed

end

subsection \<open>The two unrollings of a path\<close>

lemma z3_unroll_intro:
  assumes "z3_laws api tsort den" "world_ok w" "iter_fair w" "dag S" "\<forall>x\<in>S. z3_ready w x"
  shows "z3_unroll api tsort den w S"
  using assms by (simp add: z3_unroll_def z3_unroll_axioms_def)

lemma steps_apart_names: "steps_apart w u n S \<Longrightarrow> inj_on (var_name w []) (vars_of S)"
proof -
  assume "steps_apart w u n S"
  then have inj: "inj_on (step_name w u) ({0..n} \<times> vars_of S)" by (simp add: steps_apart_def)
  show ?thesis
  proof (rule inj_onI)
    fix x y assume xy: "x \<in> vars_of S" "y \<in> vars_of S" "var_name w [] x = var_name w [] y"
    have "step_name w u (0, x) = step_name w u (0, y)"
      using xy(3) var_name_suffix [of w "SuffixCurrent u (of_nat 0)"] by (simp add: step_name_def)
    from inj_onD [OF inj this] xy(1,2) show "x = y" by simp
  qed
qed

lemma z3_subs_intro:
  assumes sb: "z3_subst_laws api tsort den sb" and w: "world_ok w" "iter_fair w" "dag S" "\<forall>x\<in>S. z3_ready w x"
    and "apart": "steps_apart w u n S"
  shows "z3_subs api tsort den w S sb"
proof -
  have "z3_unroll api tsort den w S"
    by (rule z3_unroll_intro [OF _ w]) (use sb in \<open>simp add: z3_subst_laws_def\<close>)
  moreover have "z3_subs_axioms w S"
    unfolding z3_subs_axioms_def using apart steps_apart_names [OF apart] by (simp add: steps_apart_def)
  ultimately show ?thesis using sb unfolding z3_subs_def by blast
qed

lemma PathAssn_Unroll:
  assumes laws: "z3_laws api tsort den" "world_ok w" "iter_fair w" "dag S" "\<forall>x\<in>S. z3_ready w x"
    and u: "z_unroller_ok S u" "unroller_ok S (as_unroller u)" and ks: "seq_ready S w ks" and p: "p + length ks < 2 ^ 31"
  shows "\<exists>t st t' st'. PathAssn api ks (int p) \<lparr>z_world = w, z_self = u\<rparr> = Inr (t, st)
    \<and> Unroll (z3_shim api) ks (of_nat p) \<lparr>r_world = w, r_gen = (), r_self = as_unroller u\<rparr> = Inr (t', st')
    \<and> tsort t = SortBool \<and> tsort t' = SortBool \<and> (\<forall>I. interp_ok I \<longrightarrow> den I t = den I t')"
proof -
  note z = z3_unroll_intro [OF laws]
  obtain t st where t: "PathAssn api ks (int p) \<lparr>z_world = w, z_self = u\<rparr> = Inr (t, st)" "tsort t = SortBool"
    "\<forall>I. interp_ok I \<longrightarrow> den I t =
       VBool (path_holds w (as_unroller u) ks (of_nat p) (\<lambda>s. z3_env w s I) (\<lambda>s. z3_finterp w s I))"
    using z3_unroll.PathAssn_run [OF z, of "\<lparr>z_world = w, z_self = u\<rparr>" ks p] u(1) ks p by auto
  let ?r = "\<lparr>r_world = w, r_gen = (), r_self = as_unroller u\<rparr>"
  obtain t' st' where "Unroll (z3_shim api) ks (of_nat p) ?r = Inr (t', st')" "tsort t' = SortBool"
    "\<forall>I. interp_ok I \<longrightarrow> den I t' =
       VBool (path_holds w (as_unroller u) ks (of_nat p) (\<lambda>s. z3_env w s I) (\<lambda>s. z3_finterp w s I))"
    using z3_Unroll [of api tsort den ?r S ks "of_nat p"] laws u(2) ks by auto
  with t show ?thesis by (intro exI [of _ t] exI [of _ st] exI [of _ t'] exI [of _ st']) simp
qed

end
