(* ===== verification/Demo_Unroll_Z3.thy ===== *)
theory Demo_Unroll_Z3
  imports Demo_Unroll Unroll_Z3_Sound
begin

text \<open>A library with \<^verbatim>\<open>substitute\<close>, and the demonstration hierarchy under the older unroller.\<close>

text \<open>The constant that a term of the model library is: it tells it from all the others.\<close>

definition probe :: "string \<times> sort \<Rightarrow> interp" where
  "probe k = \<lparr>ivar = \<lambda>n s. VBool ((n, s) = k), ifun = \<lambda>_ _ _ _. VBool False\<rparr>"

definition is_const :: "dterm \<Rightarrow> string \<times> sort \<Rightarrow> bool" where
  "is_const c k \<longleftrightarrow> snd c (probe k) = VBool True"

definition den_subst :: "dterm z3_subst" where
  "den_subst t cs ds = Inr (fst t, \<lambda>I. snd t (override I (\<lambda>k.
     map_option (\<lambda>p. snd (snd p) I) (List.find (\<lambda>p. is_const (fst p) k) (zip cs ds)))))"

lemma den_subst_map:
  assumes "list_all2 (\<lambda>c (n, s). \<exists>ms. of_msort ms = Some s \<and> z_const z3_model n ms = Inr c) cs ns"
  shows "length ds = length cs \<Longrightarrow>
    map_option (\<lambda>p. snd (snd p) I) (List.find (\<lambda>p. is_const (fst p) k) (zip cs ds))
    = map_of (zip ns (map (den_term I) ds)) k"
  using assms
proof (induction arbitrary: ds rule: list_all2_induct)
  case (Cons c cs n ns)
  obtain d es where ds: "ds = d # es" using Cons.prems by (cases ds) auto
  have "is_const c k \<longleftrightarrow> n = k"
    using Cons.hyps(1) by (cases n) (auto simp: is_const_def probe_def z3_model_def den_const_def split: option.splits)
  then show ?case using Cons.IH [of es] Cons.prems by (simp add: ds den_term_def)
qed simp

interpretation z3_den_subst: z3_subst_laws z3_model fst den_term den_subst
proof unfold_locales
  show "z_simplify z3_model c = Inr c" if "z_const z3_model n ms = Inr c" for n ms c
    by (simp add: z3_model_def)
  show "\<exists>r. den_subst t cs ds = Inr r \<and> fst r = fst t
      \<and> (\<forall>I. den_term I r = den_term (override I (map_of (zip ns (map (den_term I) ds)))) t)"
    if "list_all2 (\<lambda>c (n, s). \<exists>ms. of_msort ms = Some s \<and> z_const z3_model n ms = Inr c) cs ns"
      "distinct ns" "map fst ds = map snd ns" for cs ns ds t
  proof -
    have "length cs = length ns" by (rule list_all2_lengthD [OF that(1)])
    moreover have "length ds = length ns" using arg_cong [where f = length, OF that(3)] by simp
    ultimately have len: "length ds = length cs" by simp
    show ?thesis
      unfolding den_subst_def den_subst_map [OF that(1) len] den_term_def by (intro exI conjI, rule refl) simp_all
  qed
qed

definition demo_zunroller :: "dterm zunroller" where
  "demo_zunroller = AddStepPred v_c 1 (AddInitPred v_c (Unroller_New ''u''))"

definition demo_zstart :: "dterm zstate" where
  "demo_zstart = \<lparr>z_world = demo, z_self = demo_zunroller\<rparr>"

lemma demo_zunroller_ok: "z_unroller_ok demo_nodes demo_zunroller" "unroller_ok demo_nodes (as_unroller demo_zunroller)"
proof -
  have c: "v_c \<in> demo_nodes" "esort v_c = SortBool" using demo_members(4) by (simp_all add: v_c_def)
  then show "z_unroller_ok demo_nodes demo_zunroller"
    by (auto simp: z_unroller_ok_def demo_zunroller_def AddStepPred_def AddInitPred_def Unroller_New_def)
  show "unroller_ok demo_nodes (as_unroller demo_zunroller)"
    using c by (auto simp: unroller_ok_def preds_ok_def as_unroller_def demo_zunroller_def AddStepPred_def
        AddInitPred_def Unroller_New_def)
qed

lemma demo_zsteps_apart: "steps_apart demo (as_unroller demo_zunroller) 2 demo_nodes"
proof -
  have "u_suffix (as_unroller demo_zunroller) = u_suffix demo_unroller"
    by (simp add: as_unroller_def demo_zunroller_def demo_unroller_def AddStepPred_def AddInitPred_def
        Unroller_New_def UnrollerSmt_New_def AssertInitial_def)
  then have names: "step_name demo (as_unroller demo_zunroller) = step_name demo demo_unroller"
    by (simp add: step_name_def SuffixCurrent_def fun_eq_iff)
  show ?thesis using demo_steps_apart unfolding steps_apart_def names .
qed

interpretation demo_z3_unroll: z3_unroll z3_model fst den_term demo demo_nodes
  by unfold_locales (rule demo_ok demo_dag demo_z3_ready demo_fair)+

interpretation demo_z3_subs: z3_subs z3_model fst den_term demo demo_nodes den_subst
proof unfold_locales
  have "inj_on (var_name demo ''0'') (vars_of demo_nodes)" using demo_apart by (simp only: names_apart_def)
  then show "inj_on (var_name demo []) (vars_of demo_nodes)"
    unfolding var_name_suffix [of demo "''0''"] by (auto simp: inj_on_def)
  show "\<forall>x\<in>demo_nodes. efunc x \<noteq> None \<longrightarrow> args x \<noteq> []"
    by (intro ballI impI) (simp only: demo_leaf simp_thms)
qed

end
