(* ===== verification/Solver_Passes.thy ===== *)
theory Solver_Passes
  imports Unroll_Z3 Abs_Knob_Inv
begin

text \<open>
  The passes that ask an SMT solver (\<^verbatim>\<open>src/ila-mngr/p_simplify_semantic.cc\<close>,
  \<^verbatim>\<open>p_sanity_check_and_fix.cc\<close>, \<^verbatim>\<open>p_infer_child_prog_cfg.cc\<close>,
  \<^verbatim>\<open>p_map_child_prog_entry.cc\<close>).  The solver is an argument: its answer is a function of
  the time limit and of the asserted formulas.
\<close>

subsection \<open>The solver\<close>

datatype check_result = Unsat | Sat | Unknown

text \<open>\<^verbatim>\<open>operator!=\<close> of z3 terms and \<^verbatim>\<open>z3::solver::check\<close>; the limit is 0 when none is set.\<close>

record 't z3_solver =
  z_neq :: "'t \<Rightarrow> 't \<Rightarrow> 't res"
  z_check :: "int \<Rightarrow> 't list \<Rightarrow> check_result"

subsection \<open>Semantic simplification\<close>

text \<open>\<^verbatim>\<open>FuncObjEqSubtree\<close>\<close>

record eq_subtree =
  eq_rule :: "nat \<rightharpoonup> expr"
  eq_candidate :: "expr option"

definition eq_get :: "eq_subtree \<Rightarrow> expr \<Rightarrow> expr res" where
  "eq_get s e = bindR (checkR (eq_rule s (eid e) \<noteq> None) ''No mapping for '') (\<lambda>_. not_null (eq_rule s (eid e)))"

definition eq_pre :: "expr \<Rightarrow> eq_subtree \<Rightarrow> bool" where
  "eq_pre e s \<longleftrightarrow> eq_rule s (eid e) \<noteq> None"

definition CheckEqModAssump ::
  "'t z3_api \<Rightarrow> 't z3_solver \<Rightarrow> int \<Rightarrow> world \<Rightarrow> expr \<Rightarrow> expr \<Rightarrow> expr \<Rightarrow> bool res" where
  "CheckEqModAssump api slv timeout w target assump x =
     bindR (GetExpr api w assump []) (\<lambda>ass.
     bindR (GetExpr api w target []) (\<lambda>tar.
     bindR (GetExpr api w x []) (\<lambda>can.
     bindR (z_neq slv can tar) (\<lambda>differ.
     bindR (z_apply api z3_and [ass, differ]) (\<lambda>f.
     Inr (z_check slv timeout [f] = Unsat))))))"

definition eq_Rewrite ::
  "'t z3_api \<Rightarrow> 't z3_solver \<Rightarrow> int \<Rightarrow> world \<Rightarrow> expr \<Rightarrow> expr \<Rightarrow> expr \<Rightarrow> (eq_subtree, expr) action" where
  "eq_Rewrite api slv timeout w target assump e =
     bindM (gets eq_candidate) (\<lambda>candidate.
     if same_node e target then ret (case candidate of Some c \<Rightarrow> c | None \<Rightarrow> e)
     else if candidate = None \<and> sort_Equal (esort e) (esort target) then
       bindM (liftR (CheckEqModAssump api slv timeout w target assump e)) (\<lambda>eq.
       thenM (if eq then modify (\<lambda>s. s\<lparr>eq_candidate := Some e\<rparr>) else ret ()) (ret e))
     else ret e)"

definition eq_post ::
  "'t z3_api \<Rightarrow> 't z3_solver \<Rightarrow> int \<Rightarrow> world \<Rightarrow> expr \<Rightarrow> expr \<Rightarrow> expr \<Rightarrow> (eq_subtree, unit) action" where
  "eq_post api slv timeout w target assump e =
     bindM (eq_Rewrite api slv timeout w target assump e) (\<lambda>dst.
     modify (\<lambda>s. if eq_rule s (eid e) = None then s\<lparr>eq_rule := (eq_rule s)(eid e \<mapsto> dst)\<rparr> else s))"

definition SimpEqSubtree :: "'t z3_api \<Rightarrow> 't z3_solver \<Rightarrow> int \<Rightarrow> expr option \<Rightarrow> nat \<Rightarrow> expr W" where
  "SimpEqSubtree api slv timeout u k =
     bindM (the_instr k) (\<lambda>x.
     bindM (ila_not_null (i_host x)) (\<lambda>h.
     bindM (the_ila h) (\<lambda>m.
     bindM (ila_not_null (valid m)) (\<lambda>v.
     bindM (ila_not_null (decode x)) (\<lambda>d.
     bindM (And v d) (\<lambda>assump.
     bindM (ila_not_null u) (\<lambda>e.
     bindM (gets (\<lambda>w. w)) (\<lambda>w.
     liftR (bindR (DepthFirstVisitPrePost eq_pre (eq_post api slv timeout w e assump) e
                    \<lparr>eq_rule = Map.empty, eq_candidate = None\<rparr>) (\<lambda>(_, s). eq_get s e))))))))))"

definition simp_update :: "'t z3_api \<Rightarrow> 't z3_solver \<Rightarrow> int \<Rightarrow> nat \<Rightarrow> string \<Rightarrow> unit W" where
  "simp_update api slv timeout k state =
     bindM (instr_update k state) (\<lambda>u.
     bindM (SimpEqSubtree api slv timeout u k) (\<lambda>e.
     ForceAddUpdate k state (Some e)))"

text \<open>An exception of the library ends the visit of an ILA; the updates written before it stay.  A step
  answers whether it went through, and one that did not has changed nothing.\<close>

definition attempt :: "unit W \<Rightarrow> bool W" where
  "attempt m = (\<lambda>w. case m w of
       Inl x \<Rightarrow> if catchable x then Inr (False, w) else Inl x
     | Inr (_, w') \<Rightarrow> Inr (True, w'))"

primrec until_failed :: "('x \<Rightarrow> bool W) \<Rightarrow> 'x list \<Rightarrow> bool W" where
  "until_failed f [] = ret True"
| "until_failed f (x # xs) = bindM (f x) (\<lambda>b. if b then until_failed f xs else ret False)"

definition simp_instr :: "'t z3_api \<Rightarrow> 't z3_solver \<Rightarrow> int \<Rightarrow> nat \<Rightarrow> bool W" where
  "simp_instr api slv timeout k =
     bindM (updated_states k) (until_failed (\<lambda>s. attempt (simp_update api slv timeout k s)))"

definition simp_visiter :: "'t z3_api \<Rightarrow> 't z3_solver \<Rightarrow> int \<Rightarrow> nat \<Rightarrow> unit W" where
  "simp_visiter api slv timeout i =
     bindM (the_ila i) (\<lambda>m. bindM (until_failed (simp_instr api slv timeout) (vec (instrs m))) (\<lambda>_. ret ()))"

definition SimplifySemantic :: "'t z3_api \<Rightarrow> 't z3_solver \<Rightarrow> nat \<Rightarrow> int \<Rightarrow> bool W" where
  "SimplifySemantic api slv i timeout =
     bindM (the_ila i) (\<lambda>_.
     thenM (DepthFirstVisit_ila id (simp_visiter api slv (if timeout > 0 then timeout else 0)) i)
           (ret True))"

subsection \<open>Determinism and completeness\<close>

definition valid_or_true :: "ila \<Rightarrow> expr W" where
  "valid_or_true m = (case valid m of Some v \<Rightarrow> ret v | None \<Rightarrow> BoolConst True)"

definition instr_decode :: "nat \<Rightarrow> expr W" where
  "instr_decode k = bindM (the_instr k) (\<lambda>x. ila_not_null (decode x))"

text \<open>Whether two instructions overlap.\<close>

definition overlap :: "'t z3_api \<Rightarrow> 't z3_solver \<Rightarrow> expr \<Rightarrow> nat \<Rightarrow> nat \<Rightarrow> bool W" where
  "overlap api slv v a b =
     bindM (instr_decode a) (\<lambda>da. bindM (instr_decode b) (\<lambda>db.
     bindM (And da db) (\<lambda>non_det.
     bindM (gets (\<lambda>w. w)) (\<lambda>w.
     bindM (liftR (GetExpr api w v [])) (\<lambda>tv.
     bindM (liftR (GetExpr api w non_det [])) (\<lambda>tn.
     ret (z_check slv 0 [tv, tn] = Sat)))))))"

text \<open>The pairs \<open>i < j\<close> of a list, in the order of the two loops.\<close>

fun later_pairs :: "'a list \<Rightarrow> ('a \<times> 'a) list" where
  "later_pairs [] = []"
| "later_pairs (x # xs) = map (Pair x) xs @ later_pairs xs"

text \<open>The loops return at the first overlap.\<close>

fun no_overlap :: "'t z3_api \<Rightarrow> 't z3_solver \<Rightarrow> expr \<Rightarrow> (nat \<times> nat) list \<Rightarrow> bool W" where
  "no_overlap api slv v [] = ret True"
| "no_overlap api slv v ((a, b) # ps) =
     bindM (overlap api slv v a b) (\<lambda>found. if found then ret False else no_overlap api slv v ps)"

text \<open>The visitor's flag stands beside the world.\<close>

definition determ_pre :: "nat \<Rightarrow> (bool \<times> world, bool) action" where
  "determ_pre i = gets (\<lambda>(is_determ, w). \<not> is_determ)"

definition determ_post :: "'t z3_api \<Rightarrow> 't z3_solver \<Rightarrow> nat \<Rightarrow> (bool \<times> world, unit) action" where
  "determ_post api slv i = with_acc (\<lambda>is_determ.
     if \<not> is_determ then ret is_determ
     else bindM (the_ila i) (\<lambda>m. bindM (valid_or_true m) (\<lambda>v.
       no_overlap api slv v (later_pairs (vec (instrs m))))))"

definition CheckDeterminism :: "'t z3_api \<Rightarrow> 't z3_solver \<Rightarrow> nat \<Rightarrow> bool W" where
  "CheckDeterminism api slv i =
     run_acc (DepthFirstVisitPrePost_ila snd determ_pre (determ_post api slv) i) True"

text \<open>One instruction in the disjunction of all decode functions.\<close>

definition acc_decode :: "expr \<Rightarrow> nat \<Rightarrow> expr W" where
  "acc_decode acc k =
     bindM (the_instr k) (\<lambda>x.
     bindM (ila_not_null (i_host x)) (\<lambda>h.
     bindM (the_ila h) (\<lambda>m.
     bindM (valid_or_true m) (\<lambda>v.
     bindM (ila_not_null (decode x)) (\<lambda>d.
     bindM (And v d) (\<lambda>vd. Or acc vd))))))"

definition SanityCheckAndFix :: "'t z3_api \<Rightarrow> 't z3_solver \<Rightarrow> nat \<Rightarrow> bool W" where
  "SanityCheckAndFix api slv i =
     bindM (the_ila i) (\<lambda>_.
     bindM (CheckDeterminism api slv i) (\<lambda>is_determ.
     bindM (BoolConst False) (\<lambda>acc.
     bindM (GetInstrTree i) (\<lambda>ks.
     bindM (foldM acc_decode acc ks) (\<lambda>acc.
     bindM (gets (\<lambda>w. w)) (\<lambda>w.
     bindM (liftR (bindR (GetExpr api w acc []) (\<lambda>t. z_apply api z3_not [t]))) (\<lambda>t.
     if z_check slv 0 [t] = Unsat then ret is_determ
     else
       bindM (liftR (GetVar acc)) (\<lambda>vars.
       bindM (the_ila i) (\<lambda>m.
       let clean = (\<forall>v\<in>set vars. find_state m (ename v) \<noteq> None \<or> find_input m (ename v) \<noteq> None) in
       thenM (if clean then
           bindM (NewInstr i ''PASS_ADD_DEFAULT_INSTR'') (\<lambda>k.
           bindM (LogicNot acc) (\<lambda>d. set_decode k (Some d)))
         else ret ())
       (ret False))))))))))"

subsection \<open>Control flow among child instructions\<close>

text \<open>A local \<^verbatim>\<open>PathUnroll\<close>.\<close>

definition local_unroller :: "('t, 'a) Z \<Rightarrow> 'a W" where
  "local_unroller m = (\<lambda>w. case m \<lparr>z_world = w, z_self = Unroller_New []\<rparr> of
       Inl x \<Rightarrow> Inl x | Inr (a, st) \<Rightarrow> Inr (a, z_world st))"

definition z_decode :: "'t z3_api \<Rightarrow> nat \<Rightarrow> int \<Rightarrow> ('t, 't) Z" where
  "z_decode api k pos = bindM (z_on_world (instr_decode k)) (\<lambda>d. Unroller_GetZ3Expr api d pos)"

definition infer_CheckCausality :: "'t z3_api \<Rightarrow> 't z3_solver \<Rightarrow> nat \<Rightarrow> nat \<times> nat \<Rightarrow> unit W" where
  "infer_CheckCausality api slv child = (\<lambda>(a, b).
     bindM (local_unroller (
       bindM (PathAssn api [a] 0) (\<lambda>path.
       bindM (z_decode api b 1) (\<lambda>dec.
       liftR (z_apply api z3_and [path, dec]))))) (\<lambda>f.
     if z_check slv 0 [f] = Sat then bindM (BoolConst True) (\<lambda>c. AddSeqTran child a b c) else ret ()))"

text \<open>The combinations in the order of the loops: each instruction with itself, then with every
  later one in both directions.\<close>

fun both_ways :: "'a list \<Rightarrow> ('a \<times> 'a) list" where
  "both_ways [] = []"
| "both_ways (x # xs) = (x, x) # concat (map (\<lambda>y. [(x, y), (y, x)]) xs) @ both_ways xs"

fun InferChildProgCFG_fuel :: "nat \<Rightarrow> 't z3_api \<Rightarrow> 't z3_solver \<Rightarrow> nat \<Rightarrow> bool W" where
  "InferChildProgCFG_fuel 0 api slv i = fail OutOfFuel"
| "InferChildProgCFG_fuel (Suc n) api slv i =
     bindM (the_ila i) (\<lambda>m.
     thenM (forM (vec (childs m)) (\<lambda>child.
       bindM (the_ila child) (\<lambda>c.
       thenM (if seq c = None then forM (both_ways (vec (instrs c))) (infer_CheckCausality api slv child)
              else ret ())
             (bindM (InferChildProgCFG_fuel n api slv child) (\<lambda>_. ret ())))))
     (ret True))"

text \<open>The fuel is that of the visitors of the hierarchy.\<close>

definition InferChildProgCFG :: "'t z3_api \<Rightarrow> 't z3_solver \<Rightarrow> nat \<Rightarrow> bool W" where
  "InferChildProgCFG api slv i = (\<lambda>w. InferChildProgCFG_fuel (Suc (counter w)) api slv i w)"

subsection \<open>Child programs of instructions\<close>

text \<open>The first query only warns.\<close>

definition entry_CheckCausality :: "'t z3_api \<Rightarrow> 't z3_solver \<Rightarrow> nat \<Rightarrow> nat \<Rightarrow> bool W" where
  "entry_CheckCausality api slv a b =
     bindM (local_unroller (
       bindM (PathAssn api [a] 0) (\<lambda>path.
       bindM (z_decode api b 1) (\<lambda>dec.
       bindM (z_on_world (bindM (the_instr b) (\<lambda>x. ila_not_null (i_host x)))) (\<lambda>h.
       bindM (z_on_world (bindM (the_ila h) (\<lambda>m. ila_not_null (valid m)))) (\<lambda>v.
       bindM (Unroller_GetZ3Expr api v 0) (\<lambda>valid_prev.
       bindM (Unroller_GetZ3Expr api v 1) (\<lambda>valid_next.
       bindM (liftR (z_apply api z3_not [valid_prev])) (\<lambda>idle.
       bindM (liftR (z_apply api z3_and [idle, path])) (\<lambda>f.
       bindM (liftR (z_apply api z3_and [f, dec])) (\<lambda>f.
       liftR (z_apply api z3_and [f, valid_next])))))))))))) (\<lambda>f.
     ret (z_check slv 0 [f] = Sat))"

definition set_program_once :: "nat \<Rightarrow> nat \<Rightarrow> unit W" where
  "set_program_once k child =
     bindM (the_instr k) (\<lambda>x. if prog x = None then set_program k (Some child) else ret ())"

definition seq_root :: "nat \<Rightarrow> nat option W" where
  "seq_root child = bindM (the_ila child) (\<lambda>c. bindM (ila_not_null (seq c)) (\<lambda>q. ret (s_root q)))"

text \<open>One instruction and one child.\<close>

definition map_entry :: "'t z3_api \<Rightarrow> 't z3_solver \<Rightarrow> nat \<Rightarrow> nat \<Rightarrow> unit W" where
  "map_entry api slv k child =
     bindM (the_ila child) (\<lambda>c.
     case seq c of
       None \<Rightarrow> ret ()
     | Some q \<Rightarrow> (case s_root q of
         Some entry \<Rightarrow>
           bindM (entry_CheckCausality api slv k entry) (\<lambda>res.
           if res then set_program_once k child else ret ())
       | None \<Rightarrow> forM (vec (instrs c)) (\<lambda>ci.
           bindM (entry_CheckCausality api slv k ci) (\<lambda>res.
           bindM (seq_root child) (\<lambda>root.
           if res \<and> root = None then thenM (set_seq_root child ci) (set_program_once k child)
           else ret ())))))"

definition MapChildProgEntryPoint :: "'t z3_api \<Rightarrow> 't z3_solver \<Rightarrow> nat \<Rightarrow> bool W" where
  "MapChildProgEntryPoint api slv i =
     bindM (the_ila i) (\<lambda>m.
     thenM (forM (vec (instrs m)) (\<lambda>k. forM (vec (childs m)) (map_entry api slv k)))
           (ret True))"

end
