(* ===== verification/Legacy_Bmc.thy ===== *)
theory Legacy_Bmc
  imports Solver_Passes
begin

text \<open>
  Bounded model checking of two ILAs (\<^verbatim>\<open>src/ila-mngr/v_eq_check_bmc.cc\<close>).  Both are unrolled
  with the names of their variables at every step; the ILAs are taken to have no children, and
  their instructions to exclude each other.
\<close>

record bmc =
  b_invs :: "expr list"
  b_inits :: "expr list"

definition LegacyBmc_New :: bmc where
  "LegacyBmc_New = \<lparr>b_invs = [], b_inits = []\<rparr>"

definition bmc_AddInit :: "expr \<Rightarrow> bmc \<Rightarrow> bmc" where
  "bmc_AddInit e b = b\<lparr>b_inits := b_inits b @ [e]\<rparr>"

definition bmc_AddInvariant :: "expr \<Rightarrow> bmc \<Rightarrow> bmc" where
  "bmc_AddInvariant e b = b\<lparr>b_invs := b_invs b @ [e]\<rparr>"

text \<open>\<^verbatim>\<open>gen_.GetExpr\<close>\<close>

definition w_gen :: "'t z3_api \<Rightarrow> expr \<Rightarrow> string \<Rightarrow> 't W" where
  "w_gen api e suffix = (\<lambda>w. liftR (GetExpr api w e suffix) w)"

definition w_equal :: "'t z3_api \<Rightarrow> expr \<Rightarrow> string \<Rightarrow> expr \<Rightarrow> string \<Rightarrow> 't W" where
  "w_equal api a sa b sb =
     bindM (w_gen api a sa) (\<lambda>ta. bindM (w_gen api b sb) (\<lambda>tb. liftR (z_apply api z3_eq [ta, tb])))"

text \<open>One state in \<^verbatim>\<open>Instr\<close>: the next value is generated first.\<close>

definition bmc_state :: "'t z3_api \<Rightarrow> nat \<Rightarrow> string \<Rightarrow> string \<Rightarrow> bool \<Rightarrow> 't \<Rightarrow> expr \<Rightarrow> 't W" where
  "bmc_state api k suffix_prev suffix_next complete cnst s =
     bindM (instr_update_var k s) (\<lambda>update.
     if update = None \<and> \<not> complete then ret cnst
     else
       bindM (w_gen api (case update of Some u \<Rightarrow> u | None \<Rightarrow> s) suffix_prev) (\<lambda>next_val.
       bindM (w_gen api s suffix_next) (\<lambda>next_var.
       bindM (liftR (z_apply api z3_eq [next_var, next_val])) (\<lambda>eq_cnst.
       liftR (z_apply api z3_and [cnst, eq_cnst])))))"

definition bmc_Instr :: "'t z3_api \<Rightarrow> nat \<Rightarrow> string \<Rightarrow> string \<Rightarrow> bool \<Rightarrow> 't W" where
  "bmc_Instr api k suffix_prev suffix_next complete =
     bindM (the_instr k) (\<lambda>x.
     bindM (ila_not_null (i_host x)) (\<lambda>h.
     bindM (the_ila h) (\<lambda>ila.
     bindM (foldM (bmc_state api k suffix_prev suffix_next complete) (z_bool_val api True) (vec (states ila))) (\<lambda>cnst.
     bindM (ila_not_null (decode x)) (\<lambda>d.
     bindM (w_gen api d suffix_prev) (\<lambda>decode_e.
     liftR (Z3Implies api decode_e cnst)))))))"

definition IlaOneHotFlat :: "'t z3_api \<Rightarrow> nat \<Rightarrow> string \<Rightarrow> string \<Rightarrow> 't W" where
  "IlaOneHotFlat api i suffix_prev suffix_next =
     bindM (the_ila i) (\<lambda>ila.
     bindM (ila_not_null (valid ila)) (\<lambda>v.
     bindM (w_gen api v suffix_prev) (\<lambda>valid_e.
     bindM (foldM (\<lambda>cnst k. bindM (bmc_Instr api k suffix_prev suffix_next True) (\<lambda>instr_cnst.
         liftR (z_apply api z3_and [cnst, instr_cnst]))) (z_bool_val api True) (vec (instrs ila))) (\<lambda>cnst.
     liftR (Z3Implies api valid_e cnst)))))"

definition UnrollCmplIla :: "'t z3_api \<Rightarrow> nat \<Rightarrow> int \<Rightarrow> int \<Rightarrow> 't W" where
  "UnrollCmplIla api i k pos =
     bindM (the_ila i) (\<lambda>_.
     thenM (ila_assert (k > 0) ''Invalid unroll steps.'')
    (thenM (ila_assert (pos \<ge> 0) ''Negative starting frame number.'')
    (foldM (\<lambda>cnst j. bindM (IlaOneHotFlat api i (int_to_string (pos + int j)) (int_to_string (pos + int j + 1))) (\<lambda>cnst_i.
       liftR (z_apply api z3_and [cnst_i, cnst]))) (z_bool_val api True) [0..<nat k])))"

text \<open>The assertions about one state: equal at the start, different at the end.\<close>

definition bmc_state_pair :: "'t z3_api \<Rightarrow> ila \<Rightarrow> int \<Rightarrow> int \<Rightarrow> expr \<Rightarrow> 't list W" where
  "bmc_state_pair api m1 k0 k1 state_m0 =
     bindM (ila_not_null (find_state m1 (ename state_m0))) (\<lambda>state_m1.
     bindM (w_equal api state_m0 ''0'' state_m1 ''0'') (\<lambda>init_cnst.
     bindM (w_equal api state_m0 (int_to_string k0) state_m1 (int_to_string k1)) (\<lambda>final.
     bindM (liftR (z_apply api z3_not [final])) (\<lambda>differ.
     ret [init_cnst, differ]))))"

definition bmc_input_pair :: "'t z3_api \<Rightarrow> ila \<Rightarrow> expr \<Rightarrow> 't W" where
  "bmc_input_pair api m1 input_m0 =
     bindM (ila_not_null (find_input m1 (ename input_m0))) (\<lambda>input_m1.
     w_equal api input_m0 ''0'' input_m1 ''0'')"

definition bmc_Check :: "'t z3_api \<Rightarrow> 't z3_solver \<Rightarrow> bmc \<Rightarrow> nat \<Rightarrow> int \<Rightarrow> nat \<Rightarrow> int \<Rightarrow> check_result W" where
  "bmc_Check api slv b i0 k0 i1 k1 =
     bindM (the_ila i0) (\<lambda>m0. bindM (the_ila i1) (\<lambda>m1.
     bindM (UnrollCmplIla api i0 k0 0) (\<lambda>cnst_m0.
     bindM (UnrollCmplIla api i1 k1 0) (\<lambda>cnst_m1.
     bindM (mapM (bmc_state_pair api m1 k0 k1) (vec (states m0))) (\<lambda>ss.
     bindM (mapM (bmc_input_pair api m1) (vec (inputs m0))) (\<lambda>ins.
     bindM (mapM (\<lambda>e. w_gen api e ''0'') (b_inits b)) (\<lambda>inits.
     bindM (mapM (\<lambda>e. w_gen api e ''0'') (b_invs b)) (\<lambda>invs.
     ret (z_check slv 0 ([cnst_m0, cnst_m1] @ concat ss @ ins @ inits @ invs))))))))))"

end
