(* ===== verification/Simplify_Sound.thy ===== *)
theory Simplify_Sound
  imports Solver_Passes Realise Pass_Values
begin

text \<open>
  What the semantic simplification preserves.  \<open>z3_solver\<close> states the laws of a solver: an
  answer unsat or sat is right, and no answer is needed.  The pass gives an instruction a new
  update only if it has the old one's value in every state in which its ILA is valid and it is
  decoded.
\<close>

subsection \<open>The laws of a solver\<close>

locale z3_solver = z3_laws api tsort den
  for api :: "'t z3_api" and tsort :: "'t \<Rightarrow> sort" and den :: "interp \<Rightarrow> 't \<Rightarrow> val" +
  fixes slv :: "'t z3_solver"
  assumes neq_ok: "tsort a = tsort b \<Longrightarrow> \<exists>t. z_neq slv a b = Inr t \<and> tsort t = SortBool
      \<and> (\<forall>I. den I t = VBool (den I a \<noteq> den I b))"
    and unsat_ok: "z_check slv n ts = Unsat \<Longrightarrow> \<forall>t\<in>set ts. tsort t = SortBool \<Longrightarrow> interp_ok I \<Longrightarrow>
      \<exists>t\<in>set ts. den I t \<noteq> VBool True"
    and sat_ok: "z_check slv n ts = Sat \<Longrightarrow> \<forall>t\<in>set ts. tsort t = SortBool \<Longrightarrow>
      \<exists>I. interp_ok I \<and> (\<forall>t\<in>set ts. den I t = VBool True)"

text \<open>Nodes that can be translated, and whose variables have names of their own.\<close>

definition solver_nodes :: "world \<Rightarrow> expr set \<Rightarrow> bool" where
  "solver_nodes w S \<longleftrightarrow> node_heap S w \<and> (\<forall>x\<in>S. z3_ready w x) \<and> apart_at w (\<lambda>_. []) 0 S"

text \<open>Values under an assumption.\<close>

definition agrees :: "expr set \<Rightarrow> expr \<Rightarrow> expr \<Rightarrow> bool" where
  "agrees A e e' \<longleftrightarrow> esort e' = esort e \<and> (\<forall>\<rho> \<phi>. env_ok \<rho> \<longrightarrow> finterp_ok \<phi> \<longrightarrow>
     (\<forall>a\<in>A. eval \<rho> \<phi> a = VBool True) \<longrightarrow> eval \<rho> \<phi> e' = eval \<rho> \<phi> e)"

lemma agrees_refl [simp]: "agrees A e e"
  by (simp add: agrees_def)

lemma agrees_trans: "agrees A a b \<Longrightarrow> agrees A b c \<Longrightarrow> agrees A a c"
  by (simp add: agrees_def)

subsection \<open>One query\<close>

context z3_solver
begin

lemma CheckEq_ok:
  assumes w: "world_ok w" and T: "solver_nodes w T" and e: "target \<in> T" "assump \<in> T" "x \<in> T"
    and s: "esort assump = SortBool" "esort x = esort target"
  shows "\<exists>b. CheckEqModAssump api slv n w target assump x = Inr b \<and> (b \<longrightarrow> agrees {assump} target x)"
proof -
  have dag: "dag T" "\<forall>x\<in>T. z3_ready w x" "apart_at w (\<lambda>_. []) 0 T" and smt: "\<forall>x\<in>T. smt_expr x"
    using T by (auto simp: solver_nodes_def node_heap_def z3_ready_def)
  obtain ta where ta: "GetExpr api w assump [] = Inr ta" "term_rel tsort den (z3_env w []) (z3_finterp w []) ta assump"
    using z3_GetExpr [OF z3_laws_axioms w dag(1,2) e(2)] by blast
  obtain tt where tt: "GetExpr api w target [] = Inr tt" "term_rel tsort den (z3_env w []) (z3_finterp w []) tt target"
    using z3_GetExpr [OF z3_laws_axioms w dag(1,2) e(1)] by blast
  obtain tx where tx: "GetExpr api w x [] = Inr tx" "term_rel tsort den (z3_env w []) (z3_finterp w []) tx x"
    using z3_GetExpr [OF z3_laws_axioms w dag(1,2) e(3)] by blast
  note rel = ta(2) [unfolded term_rel_def] tt(2) [unfolded term_rel_def] tx(2) [unfolded term_rel_def]
  obtain d where d: "z_neq slv tx tt = Inr d" "tsort d = SortBool" "\<forall>I. den I d = VBool (den I tx \<noteq> den I tt)"
    using neq_ok [of tx tt] rel s by auto
  obtain f where f: "z_apply api z3_and [ta, d] = Inr f" "tsort f = SortBool"
      "\<forall>I. den I f = bool2 (\<and>) [den I ta, den I d]"
    using app_ok [of Land "[ta, d]" SortBool] rel s d by (auto simp: bool2_sort_def)
  have "agrees {assump} target x" if u: "z_check slv n [f] = Unsat"
    unfolding agrees_def
  proof (intro conjI allI impI)
    fix \<rho> \<phi> assume ok: "env_ok \<rho>" "finterp_ok \<phi>" and a: "\<forall>a\<in>{assump}. eval \<rho> \<phi> a = VBool True"
    let ?I = "realise_at w (\<lambda>_. []) 0 T (\<lambda>_. \<rho>) \<phi>"
    have I: "interp_ok ?I" by (rule realise_at_ok) (use ok in auto)
    have ev: "eval (z3_env w [] ?I) (z3_finterp w [] ?I) y = eval \<rho> \<phi> y" if "y \<in> T" for y
      using realise_at_agree [OF dag(1) smt _ ok(2) dag(3) _ that, of "\<lambda>_. \<rho>" 0] ok by simp
    have "den ?I f \<noteq> VBool True" using unsat_ok [OF u _ I] f(2) by simp
    moreover have "den ?I ta = VBool True" using rel(1) I ev [OF e(2)] a by simp
    ultimately have "den ?I tx = den ?I tt" using f(3) d(3) by (cases "den ?I tx = den ?I tt") (auto simp: bool2_def)
    then show "eval \<rho> \<phi> x = eval \<rho> \<phi> target" using rel(2,3) I ev [OF e(1)] ev [OF e(3)] by simp
  qed (use s in simp)
  then show ?thesis by (auto simp: CheckEqModAssump_def ta tt tx d f)
qed

end

subsection \<open>The search for an equal subexpression\<close>

locale simp_run = z3_solver api tsort den slv
  for api :: "'t z3_api" and tsort :: "'t \<Rightarrow> sort" and den :: "interp \<Rightarrow> 't \<Rightarrow> val" and slv :: "'t z3_solver" +
  fixes w :: world and S T :: "expr set" and target assump :: expr and n :: int
  assumes heap: "world_ok w" and T: "solver_nodes w T" and S: "dag S" "S \<subseteq> T"
    and target: "target \<in> S" and assump: "assump \<in> T" "esort assump = SortBool"
begin

definition search_ok :: "eq_subtree \<Rightarrow> bool" where
  "search_ok s \<longleftrightarrow> pred_option (\<lambda>c. c \<in> S \<and> agrees {assump} target c) (eq_candidate s)
     \<and> pred_option (\<lambda>c. c \<in> S \<and> agrees {assump} target c) (eq_rule s (eid target))"

lemma post_ok:
  assumes e: "e \<in> S" and s: "search_ok s" "eq_rule s (eid e) = None"
  shows "\<exists>s'. eq_post api slv n w target assump e s = Inr ((), s') \<and> search_ok s' \<and> eq_rule s \<subseteq>\<^sub>m eq_rule s'
    \<and> eq_rule s' (eid e) \<noteq> None \<and> dom (eq_rule s') \<subseteq> insert (eid e) (dom (eq_rule s))"
proof -
  have inj: "eid e = eid target \<longleftrightarrow> e = target" using S(1) e target by (auto simp: dag_def dest: inj_onD)
  have le: "eq_rule s \<subseteq>\<^sub>m (eq_rule s)(eid e \<mapsto> r)" for r using s(2) by (auto simp: map_le_def)
  consider (target) "e = target" | (ask) "e \<noteq> target" "eq_candidate s = None" "esort e = esort target"
    | (skip) "e \<noteq> target" "\<not> (eq_candidate s = None \<and> esort e = esort target)" by argo
  then show ?thesis
  proof cases
    case target
    then show ?thesis
      using s e le by (cases "eq_candidate s") (auto simp: eq_post_def eq_Rewrite_def same_node_def search_ok_def)
  next
    case ask
    obtain b where b: "CheckEqModAssump api slv n w target assump e = Inr b" "b \<longrightarrow> agrees {assump} target e"
      using CheckEq_ok [OF heap T _ assump(1) _ assump(2) ask(3)] target e S(2) by blast
    then show ?thesis
      using s e le ask inj
      by (cases b) (auto simp: eq_post_def eq_Rewrite_def same_node_def search_ok_def sort_Equal_iff)
  next
    case skip
    then show ?thesis
      using s e le inj by (auto simp: eq_post_def eq_Rewrite_def same_node_def search_ok_def sort_Equal_iff)
  qed
qed

end

sublocale simp_run \<subseteq> translator "eq_post api slv n w target assump" eq_rule search_ok S
  by unfold_locales (use S(1) post_ok in auto)

context simp_run
begin

lemma search_run:
  "\<exists>s r. DepthFirstVisitPrePost eq_pre (eq_post api slv n w target assump) target
      \<lparr>eq_rule = Map.empty, eq_candidate = None\<rparr> = Inr ((), s)
    \<and> eq_get s target = Inr r \<and> r \<in> S \<and> agrees {assump} target r"
proof -
  let ?s = "\<lparr>eq_rule = Map.empty, eq_candidate = None\<rparr> :: eq_subtree"
  have "search_ok ?s" by (simp add: search_ok_def)
  from PrePost_fills [where pre = eq_pre, OF _ target this] obtain s where
    s: "DepthFirstVisitPrePost eq_pre (eq_post api slv n w target assump) target ?s = Inr ((), s)"
      "search_ok s" "eq_rule s (eid target) \<noteq> None"
    by (auto simp: fills_single eq_pre_def)
  then show ?thesis by (auto simp: eq_get_def checkR_def search_ok_def)
qed

end

subsection \<open>One instruction\<close>

text \<open>The conjunction the pass builds is one new node.\<close>

lemma And_run:
  assumes "esort a = SortBool" "esort b = SortBool"
  obtains w1 where "same_heaps w w1" "And a b w = Inr (mk_node w1 kAnd SortBool [a, b] [] None, tick w1)"
  using hub_contractD [OF hub_logic(1), of a b SortBool w] assms by auto

lemma GetHost_in: "GetHost w as = Some h \<Longrightarrow> \<exists>a\<in>set as. host a = Some h"
proof -
  have "first_leaf w hosts hs = Some h \<Longrightarrow> h \<in> set hs" for hosts hs
    by (induction hs) (auto split: if_splits)
  then have "GetHost w as = Some h \<Longrightarrow> h \<in> set (List.map_filter host as)"
    by (fastforce simp: GetHost_def Let_def)
  then show "GetHost w as = Some h \<Longrightarrow> \<exists>a\<in>set as. host a = Some h"
    by (auto simp: List.map_filter_def)
qed

lemma z3_ready_heap: "ila_heap w' = ila_heap w \<Longrightarrow> z3_ready w' x = z3_ready w x"
  by (simp add: z3_ready_def host_ok_def)

lemma apart_heap: "ila_heap w' = ila_heap w \<Longrightarrow> apart_at w' c n S = apart_at w c n S"
  using heap_names [of w' w] by (simp add: apart_at_def name_at_def)

lemma solver_nodes_heap:
  "solver_nodes w S \<Longrightarrow> ila_heap w' = ila_heap w \<Longrightarrow> counter w \<le> counter w' \<Longrightarrow> solver_nodes w' S"
  by (auto simp: solver_nodes_def node_heap_def z3_ready_heap [of w' w] apart_heap [of w' w])

text \<open>A new node over known ones, without a name of its own.\<close>

lemma new_node_ready:
  assumes S: "solver_nodes w S" and w1: "same_heaps w w1"
    and n: "eid n = counter w1 + 1" "set (args n) \<subseteq> S" "z3_ready (tick w1) n" "\<not> is_var n" "efunc n = None"
  shows "solver_nodes (tick w1) (insert n S)"
proof -
  have s: "ila_heap (tick w1) = ila_heap w" and le: "counter w \<le> counter w1" using w1 by (simp_all add: same_heaps_def)
  have nodes: "node_heap S w" "\<forall>x\<in>S. z3_ready w x" "apart_at w (\<lambda>_. []) 0 S" using S by (auto simp: solver_nodes_def)
  have "node_heap (insert n S) (tick w1)"
    using nodes(1) n(1,2) le by (fastforce simp: node_heap_def dag_def inj_on_def)
  moreover have "vars_of (insert n S) = vars_of S" "funcs_of (insert n S) = funcs_of S"
    using n(4,5) by (auto simp: vars_of_def funcs_of_def)
  then have "apart_at (tick w1) (\<lambda>_. []) 0 (insert n S)"
    unfolding apart_heap [OF s] using nodes(3) n(5) by (auto simp: apart_at_def)
  ultimately show ?thesis
    using nodes(2) n(3) z3_ready_heap [OF s] by (auto simp: solver_nodes_def)
qed

lemma bool_node_ready:
  assumes S: "solver_nodes w S" and w1: "same_heaps w w1"
    and u: "u \<in> {kAnd, kOr, kNot}" and as: "set as \<subseteq> S" "\<forall>a\<in>set as. esort a = SortBool" "length as = op_arity u"
  shows "solver_nodes (tick w1) (insert (mk_node w1 u SortBool as [] None) S)"
proof (rule new_node_ready [OF S w1])
  let ?n = "mk_node w1 u SortBool as [] None"
  have s: "ila_heap (tick w1) = ila_heap w" using w1 by (simp add: same_heaps_def)
  have ready: "\<forall>x\<in>S. z3_ready w x" using S by (simp add: solver_nodes_def)
  have "host_ok (tick w1) (host ?n)"
    unfolding host_ok_def
  proof (intro allI impI)
    fix h assume "host ?n = Some h"
    then have "\<exists>a\<in>set as. host a = Some h" by (intro GetHost_in) (simp add: mk_node_def)
    then show "h \<in> dom (ila_heap (tick w1))"
      using ready as(1) s by (auto simp: z3_ready_def host_ok_def)
  qed
  moreover have "smt_expr ?n"
    using u as ready
    by (auto simp: mk_node_def op_arity_def z3_ready_def op_shape_def smt_op.simps length_Suc_conv numeral_2_eq_2)
  ultimately show "z3_ready (tick w1) ?n" by (simp add: z3_ready_def int_node_def mk_node_def del: smt_expr.simps)
qed (use as in \<open>simp_all add: mk_node_def\<close>)

context z3_solver
begin

lemma SimpEqSubtree_run:
  assumes w: "world_ok w" and S: "solver_nodes w S"
    and k: "instr_heap w k = Some x" "i_host x = Some h" "ila_heap w h = Some m" "valid m = Some v" "decode x = Some d"
    and e: "v \<in> S" "d \<in> S" "e \<in> S"
  shows "\<exists>r w'. SimpEqSubtree api slv n (Some e) k w = Inr (r, w') \<and> same_heaps w w' \<and> r \<in> S \<and> agrees {v, d} e r"
proof -
  have sorts: "esort v = SortBool" "esort d = SortBool"
    using ila_local_of [OF w k(3)] instr_local_of [OF w k(1)] k(4,5) by (simp_all add: ila_local_def instr_local_def)
  obtain w1 where w1: "same_heaps w w1" "And v d w = Inr (mk_node w1 kAnd SortBool [v, d] [] None, tick w1)"
    by (rule And_run [OF sorts])
  let ?a = "mk_node w1 kAnd SortBool [v, d] [] None" and ?w = "tick w1"
  have T: "solver_nodes ?w (insert ?a S)" by (rule bool_node_ready [OF S w1(1)]) (use e sorts in \<open>simp_all add: op_arity_def\<close>)
  have s: "same_heaps w ?w" using w1(1) by (simp add: same_heaps_def)
  have ok: "world_ok ?w" by (rule world_ok_same_heaps [OF s w])
  have "simp_run_axioms ?w S (insert ?a S) e ?a"
    using ok T S e by (auto simp: simp_run_axioms_def solver_nodes_def node_heap_def)
  then have "simp_run api tsort den slv ?w S (insert ?a S) e ?a"
    by (intro simp_run.intro z3_solver_axioms)
  from simp_run.search_run [OF this, of n] obtain st r where
    r: "DepthFirstVisitPrePost eq_pre (eq_post api slv n ?w e ?a) e \<lparr>eq_rule = Map.empty, eq_candidate = None\<rparr> = Inr ((), st)"
      "eq_get st e = Inr r" "r \<in> S" "agrees {?a} e r" by blast
  have "agrees {v, d} e r"
    using r(4) by (auto simp: agrees_def mk_node_def bool_bv2_def)
  moreover have "SimpEqSubtree api slv n (Some e) k w = Inr (r, ?w)"
    using k w1(2) r(1,2) by (simp add: SimpEqSubtree_def the_instr_def the_ila_def not_null_def bindM_def)
  ultimately show ?thesis using s r(3) by blast
qed

end

subsection \<open>The hierarchy\<close>

text \<open>An update is replaced by one that agrees with it when the ILA is valid and the instruction
  is decoded.\<close>

definition upd_rel :: "world \<Rightarrow> instr \<Rightarrow> expr option \<Rightarrow> expr option \<Rightarrow> bool" where
  "upd_rel w x u u' \<longleftrightarrow> u' = u \<or> (\<exists>h m v d e e'. i_host x = Some h \<and> ila_heap w h = Some m \<and> valid m = Some v
     \<and> decode x = Some d \<and> u = Some e \<and> u' = Some e' \<and> agrees {v, d} e e')"

definition instr_simpl :: "world \<Rightarrow> instr \<Rightarrow> instr \<Rightarrow> bool" where
  "instr_simpl w x x' \<longleftrightarrow> x' = x\<lparr>updates := updates x'\<rparr>
     \<and> (\<forall>n. rel_option (upd_rel w x) (map_of (updates x) n) (map_of (updates x') n))"

definition simplified :: "world \<Rightarrow> world \<Rightarrow> bool" where
  "simplified w w' \<longleftrightarrow> ila_heap w' = ila_heap w \<and> (\<forall>k. rel_option (instr_simpl w) (instr_heap w k) (instr_heap w' k))"

lemma upd_rel_trans: "upd_rel w x a b \<Longrightarrow> upd_rel w x b c \<Longrightarrow> upd_rel w x a c"
  using agrees_trans by (auto simp: upd_rel_def)

lemma upd_rel_same: "i_host x = i_host y \<Longrightarrow> decode x = decode y \<Longrightarrow> ila_heap w = ila_heap w' \<Longrightarrow>
    upd_rel w x = upd_rel w' y"
  by (simp add: upd_rel_def fun_eq_iff)

lemma simplified_refl: "simplified w w"
  by (auto simp: simplified_def instr_simpl_def upd_rel_def intro!: option.rel_refl)

lemma rel_option_trans:
  "rel_option R a b \<Longrightarrow> rel_option Q b c \<Longrightarrow> (\<And>x y z. R x y \<Longrightarrow> Q y z \<Longrightarrow> P x z) \<Longrightarrow> rel_option P a c"
  by (cases a; cases b; cases c) auto

lemma instr_simpl_trans:
  assumes "instr_simpl w x y" "instr_simpl w' y z" "ila_heap w' = ila_heap w"
  shows "instr_simpl w x z"
proof -
  have y: "y = x\<lparr>updates := updates y\<rparr>" and z: "z = y\<lparr>updates := updates z\<rparr>"
    using assms(1,2) by (simp_all add: instr_simpl_def)
  have f: "i_host y = i_host x" "decode y = decode x" by (subst y, simp)+
  have same: "upd_rel w' y = upd_rel w x" by (rule upd_rel_same) (use f assms(3) in auto)
  have "rel_option (upd_rel w x) (map_of (updates x) n) (map_of (updates z) n)" for n
  proof (rule rel_option_trans)
    show "rel_option (upd_rel w x) (map_of (updates x) n) (map_of (updates y) n)"
      using assms(1) by (simp add: instr_simpl_def)
    show "rel_option (upd_rel w x) (map_of (updates y) n) (map_of (updates z) n)"
      using assms(2) same by (simp add: instr_simpl_def)
  qed (rule upd_rel_trans)
  moreover have "z = x\<lparr>updates := updates z\<rparr>" by (subst z, subst y) simp
  ultimately show ?thesis by (simp add: instr_simpl_def)
qed

lemma simplified_trans: "simplified w w1 \<Longrightarrow> simplified w1 w2 \<Longrightarrow> simplified w w2"
  unfolding simplified_def by (auto intro: rel_option_trans instr_simpl_trans)

text \<open>The expressions of the instructions of the ILAs \<open>J\<close> are in \<open>S\<close>.\<close>

definition updates_in :: "expr set \<Rightarrow> nat set \<Rightarrow> world \<Rightarrow> bool" where
  "updates_in S J w \<longleftrightarrow> (\<forall>j\<in>J. \<exists>m. ila_heap w j = Some m \<and> (\<forall>k\<in>set (vec (instrs m)). \<exists>x v d.
     instr_heap w k = Some x \<and> i_host x = Some j \<and> valid m = Some v \<and> v \<in> S \<and> decode x = Some d \<and> d \<in> S
     \<and> (\<forall>n u. map_of (updates x) n = Some u \<longrightarrow> (\<exists>e\<in>S. u = Some e))))"

definition simp_inv :: "expr set \<Rightarrow> nat set \<Rightarrow> world \<Rightarrow> world \<Rightarrow> bool" where
  "simp_inv S J w w' \<longleftrightarrow> world_ok w' \<and> simplified w w' \<and> counter w \<le> counter w' \<and> solver_nodes w' S \<and> updates_in S J w'"

lemma simp_inv_trans: "simp_inv S J w w1 \<Longrightarrow> simp_inv S J w1 w2 \<Longrightarrow> simp_inv S J w w2"
  unfolding simp_inv_def using simplified_trans by fastforce

text \<open>A block none of whose steps throws.\<close>

lemma until_failed_total:
  assumes "P s" "\<And>x s. x \<in> set xs \<Longrightarrow> P s \<Longrightarrow> \<exists>t. f x s = Inr (True, t) \<and> P t"
  shows "\<exists>t. until_failed f xs s = Inr (True, t) \<and> P t"
  using assms
proof (induction xs arbitrary: s)
  case (Cons x xs)
  obtain t where t: "f x s = Inr (True, t)" "P t" using Cons.prems by (meson list.set_intros(1))
  then show ?case using Cons.IH [OF t(2)] Cons.prems(2) by (simp add: bindM_def)
qed simp

context z3_solver
begin

lemma simp_update_run:
  assumes I: "simp_inv S J w w" and k: "j \<in> J" "ila_heap w j = Some m" "k \<in> set (vec (instrs m))"
    and x: "instr_heap w k = Some x" "map_of (updates x) n = Some u"
  shows "\<exists>w'. simp_update api slv t k n w = Inr ((), w') \<and> simp_inv S J w w'"
proof -
  have w: "world_ok w" "solver_nodes w S" "updates_in S J w" using I by (auto simp: simp_inv_def)
  obtain v d e where e: "i_host x = Some j" "valid m = Some v" "v \<in> S" "decode x = Some d" "d \<in> S" "u = Some e" "e \<in> S"
    using w(3) k x unfolding updates_in_def by (metis option.inject)
  obtain r w1 where r: "SimpEqSubtree api slv t (Some e) k w = Inr (r, w1)" "same_heaps w w1" "r \<in> S" "agrees {v, d} e r"
    using SimpEqSubtree_run [OF w(1,2) x(1) e(1) k(2) e(2,4,3,5,7)] by blast
  have h: "ila_heap w1 = ila_heap w" "instr_heap w1 = instr_heap w" "counter w \<le> counter w1"
    using r(2) by (simp_all add: same_heaps_def)
  let ?x = "x\<lparr>updates := omap_put str_less n (Some r) (updates x)\<rparr>"
  let ?w = "w1\<lparr>instr_heap := (instr_heap w1)(k \<mapsto> ?x)\<rparr>"
  have run: "simp_update api slv t k n w = Inr ((), ?w)"
    using r(1) x e(6) h by (simp add: simp_update_def instr_update_def the_instr_def ForceAddUpdate_def upd_instr_def bindM_def)
  have fa: "ForceAddUpdate k n (Some r) w1 = Inr ((), ?w)"
    using x h by (simp add: ForceAddUpdate_def upd_instr_def)
  have ok: "world_ok ?w"
  proof -
    have "keeps (ForceAddUpdate k n (Some r))" by (intro keeps_api)
    from keepsD [OF this world_ok_same_heaps [OF r(2) w(1)] fa] show ?thesis by simp
  qed
  have put: "map_of (updates ?x) = (map_of (updates x))(n \<mapsto> Some r)"
    using instr_local_of [OF w(1) x(1)] by (auto simp: instr_local_def omap_put_lookup)
  have "upd_rel w x u (Some r)" using e r(4) k(2) by (auto simp: upd_rel_def)
  then have "rel_option (upd_rel w x) (map_of (updates x) n') (map_of (updates ?x) n')" for n'
    unfolding put using x(2) by (auto simp: upd_rel_def intro!: option.rel_refl)
  then have "instr_simpl w x ?x" by (auto simp: instr_simpl_def)
  then have "simplified w ?w"
    using simplified_refl [of w] x(1) h by (auto simp: simplified_def)
  moreover have "solver_nodes ?w S" by (rule solver_nodes_heap [OF w(2)]) (use h in auto)
  moreover have "updates_in S J ?w"
    unfolding updates_in_def
  proof
    fix i assume "i \<in> J"
    then obtain c where c: "ila_heap w i = Some c" and all: "\<forall>k\<in>set (vec (instrs c)). \<exists>x v d.
       instr_heap w k = Some x \<and> i_host x = Some i \<and> valid c = Some v \<and> v \<in> S \<and> decode x = Some d \<and> d \<in> S
       \<and> (\<forall>n u. map_of (updates x) n = Some u \<longrightarrow> (\<exists>e\<in>S. u = Some e))"
      using w(3) unfolding updates_in_def by blast
    have "\<exists>y v d. instr_heap ?w q = Some y \<and> i_host y = Some i \<and> valid c = Some v \<and> v \<in> S \<and> decode y = Some d \<and> d \<in> S
       \<and> (\<forall>n u. map_of (updates y) n = Some u \<longrightarrow> (\<exists>e\<in>S. u = Some e))" if q: "q \<in> set (vec (instrs c))" for q
      using bspec [OF all q] put x(1) h r(3) by (cases "q = k") (auto split: if_splits)
    then show "\<exists>m. ila_heap ?w i = Some m \<and> (\<forall>q\<in>set (vec (instrs m)). \<exists>x v d.
       instr_heap ?w q = Some x \<and> i_host x = Some i \<and> valid m = Some v \<and> v \<in> S \<and> decode x = Some d \<and> d \<in> S
       \<and> (\<forall>n u. map_of (updates x) n = Some u \<longrightarrow> (\<exists>e\<in>S. u = Some e)))"
      using c h by (intro exI [of _ c]) simp
  qed
  ultimately have "simp_inv S J w ?w" using ok h by (simp add: simp_inv_def)
  then show ?thesis using run by blast
qed

lemma simp_instr_run:
  assumes I: "simp_inv S J w w" and k: "j \<in> J" "ila_heap w j = Some m" "k \<in> set (vec (instrs m))"
  shows "\<exists>w'. simp_instr api slv t k w = Inr (True, w') \<and> simp_inv S J w w'"
proof -
  obtain x where x: "instr_heap w k = Some x"
    using I k unfolding simp_inv_def updates_in_def by fastforce
  have "\<exists>w'. until_failed (\<lambda>n. attempt (simp_update api slv t k n)) (map fst (updates x)) w = Inr (True, w')
      \<and> simp_inv S J w w'"
  proof (rule until_failed_total [of "simp_inv S J w", OF I])
    fix n w1 assume n: "n \<in> set (map fst (updates x))" and w1: "simp_inv S J w w1"
    have s: "ila_heap w1 = ila_heap w" "rel_option (instr_simpl w) (instr_heap w k) (instr_heap w1 k)"
      using w1 by (simp_all add: simp_inv_def simplified_def)
    then obtain x1 where x1: "instr_heap w1 k = Some x1" "instr_simpl w x x1"
      using x by (auto simp: option_rel_Some1)
    obtain u0 where "map_of (updates x) n = Some u0" using n by (cases "map_of (updates x) n") (auto simp: map_of_eq_None_iff)
    then obtain u where u: "map_of (updates x1) n = Some u"
      using x1(2) unfolding instr_simpl_def by (metis option_rel_Some1)
    have "simp_inv S J w1 w1" using w1 simplified_refl by (simp add: simp_inv_def)
    from simp_update_run [OF this k(1) _ k(3) x1(1) u, of t] k(2) s(1)
    obtain w2 where "simp_update api slv t k n w1 = Inr ((), w2)" "simp_inv S J w1 w2" by auto
    then show "\<exists>w2. attempt (simp_update api slv t k n) w1 = Inr (True, w2) \<and> simp_inv S J w w2"
      using simp_inv_trans [OF w1] by (auto simp: attempt_def)
  qed
  then show ?thesis
    using x by (simp add: simp_instr_def updated_states_def the_instr_def bindM_def)
qed

lemma simp_visiter_run:
  assumes I: "simp_inv S J w w" and j: "j \<in> J"
  shows "\<exists>w'. simp_visiter api slv t j w = Inr ((), w') \<and> simp_inv S J w w'"
proof -
  obtain m where m: "ila_heap w j = Some m" using I j unfolding simp_inv_def updates_in_def by blast
  have "\<exists>w'. until_failed (simp_instr api slv t) (vec (instrs m)) w = Inr (True, w') \<and> simp_inv S J w w'"
  proof (rule until_failed_total [of "simp_inv S J w", OF I])
    fix k w1 assume k: "k \<in> set (vec (instrs m))" and w1: "simp_inv S J w w1"
    have "simp_inv S J w1 w1" "ila_heap w1 j = Some m"
      using w1 m simplified_refl by (simp_all add: simp_inv_def simplified_def)
    from simp_instr_run [OF this(1) j this(2) k, of t]
    show "\<exists>w2. simp_instr api slv t k w1 = Inr (True, w2) \<and> simp_inv S J w w2"
      using simp_inv_trans [OF w1] by blast
  qed
  then show ?thesis using m by (auto simp: simp_visiter_def the_ila_def bindM_def)
qed

end

text \<open>The pass leaves the ILAs alone.\<close>

definition same_ilas :: "'a W \<Rightarrow> bool" where
  "same_ilas m \<longleftrightarrow> (\<forall>w a w'. m w = Inr (a, w') \<longrightarrow> ila_heap w' = ila_heap w)"

lemma same_ilas_bind: "same_ilas m \<Longrightarrow> (\<And>a. same_ilas (f a)) \<Longrightarrow> same_ilas (bindM m f)"
  unfolding same_ilas_def by (fastforce simp: bindM_Inr_iff)

lemma same_ilas_until: "(\<And>x. same_ilas (g x)) \<Longrightarrow> same_ilas (until_failed g xs)"
proof (induction xs)
  case (Cons x xs)
  then show ?case by (auto simp: same_ilas_def [of "ret _"] intro!: same_ilas_bind)
qed (simp add: same_ilas_def)

lemma same_ilas_attempt: "same_ilas m \<Longrightarrow> same_ilas (attempt m)"
  unfolding same_ilas_def by (auto simp: attempt_def split: sum.splits if_splits)

lemma same_ilas_draws: "draws m \<Longrightarrow> same_ilas m"
  unfolding same_ilas_def by (auto simp: same_heaps_def dest!: drawsD)

lemma same_ilas_simple:
  "same_ilas (ret c)" "same_ilas (liftR r)" "same_ilas (gets q)" "same_ilas (the_ila i)" "same_ilas (the_instr k)"
  "same_ilas (ForceAddUpdate k n u)"
  by (auto simp: same_ilas_def the_ila_def the_instr_def ForceAddUpdate_def upd_instr_def split: option.splits)

lemmas same_ilas_rules = same_ilas_bind same_ilas_until same_ilas_attempt same_ilas_simple same_ilas_draws

lemma same_ilas_visiter: "same_ilas (simp_visiter api slv t i)"
  unfolding simp_visiter_def simp_instr_def simp_update_def updated_states_def instr_update_def SimpEqSubtree_def
  by (intro same_ilas_rules draws_hub)

context z3_solver
begin

lemma SimplifySemantic_run:
  assumes w: "world_ok w" "solver_nodes w S" and i: "i \<in> dom (ila_heap w)"
    and J: "updates_in S (set (ila_tree w i)) w"
  shows "\<exists>w'. SimplifySemantic api slv i t w = Inr (True, w') \<and> world_ok w' \<and> simplified w w'"
proof -
  let ?J = "set (ila_tree w i)" and ?f = "simp_visiter api slv (if t > 0 then t else 0)"
  have I: "simp_inv S ?J w w" using w J simplified_refl by (simp add: simp_inv_def)
  have "DepthFirstVisit_ila id ?f i w = forM (ila_tree w i) ?f w"
  proof -
    have "DepthFirstVisit_ila id ?f i w = forM (ila_tree (id w) i) ?f w"
    proof (rule DepthFirstVisit_ila_tree)
      fix i s u t assume "?f i s = Inr (u, t)"
      then have "ila_heap t = ila_heap s" using same_ilas_visiter unfolding same_ilas_def by blast
      then show "child_ids (id t) = child_ids (id s)" by (simp add: child_ids_def fun_eq_iff)
    qed (use w in simp)
    then show ?thesis by simp
  qed
  moreover have "\<exists>w'. forM (ila_tree w i) ?f w = Inr ((), w') \<and> simp_inv S ?J w w'"
  proof (rule forM_total [of "simp_inv S ?J w", OF I])
    fix j w1 assume j: "j \<in> ?J" and w1: "simp_inv S ?J w w1"
    have "simp_inv S ?J w1 w1" using w1 simplified_refl by (simp add: simp_inv_def)
    from simp_visiter_run [OF this j] show "\<exists>w2. ?f j w1 = Inr ((), w2) \<and> simp_inv S ?J w w2"
      using simp_inv_trans [OF w1] by blast
  qed
  moreover obtain m where "ila_heap w i = Some m" using i by blast
  ultimately show ?thesis
    by (auto simp: SimplifySemantic_def the_ila_def bindM_def simp_inv_def)
qed

end

text \<open>What an instruction does, before and after the pass.\<close>

lemma simplified_next:
  assumes s: "simplified w w'" and x: "instr_heap w k = Some x" "i_host x = Some h" "ila_heap w h = Some m"
    "valid m = Some v" "decode x = Some d"
    and ok: "env_ok \<rho>" "finterp_ok \<phi>" "eval \<rho> \<phi> v = VBool True" "eval \<rho> \<phi> d = VBool True"
  shows "eval \<rho> \<phi> (next_state w' k s') = eval \<rho> \<phi> (next_state w k s')"
proof -
  obtain x' where x': "instr_heap w' k = Some x'" "instr_simpl w x x'"
    using s x(1) unfolding simplified_def by (metis option_rel_Some1)
  have r: "rel_option (upd_rel w x) (map_of (updates x) (ename s')) (map_of (updates x') (ename s'))"
    using x'(2) by (simp add: instr_simpl_def)
  have "eval \<rho> \<phi> e' = eval \<rho> \<phi> e" if "agrees {v, d} e e'" for e e' using that ok by (auto simp: agrees_def)
  with r show ?thesis
    using x x'(1) by (auto simp: next_state_def upd_rel_def option_rel_Some1 split: option.splits)
qed

text \<open>Only the values of updates change.\<close>

lemma simplified_rest:
  assumes "simplified w w'"
  shows "map_option (\<lambda>x. x\<lparr>updates := []\<rparr>) (instr_heap w' k) = map_option (\<lambda>x. x\<lparr>updates := []\<rparr>) (instr_heap w k)"
proof (cases "instr_heap w k")
  case (Some x)
  then obtain x' where x': "instr_heap w' k = Some x'" "instr_simpl w x x'"
    using assms unfolding simplified_def by (metis option_rel_Some1)
  have "x' = x\<lparr>updates := updates x'\<rparr>" using x'(2) by (simp add: instr_simpl_def)
  from arg_cong [OF this, of "\<lambda>x. x\<lparr>updates := []\<rparr>"] have "x'\<lparr>updates := []\<rparr> = x\<lparr>updates := []\<rparr>" by simp
  then show ?thesis using Some x'(1) by simp
next
  case None
  have "rel_option (instr_simpl w) (instr_heap w k) (instr_heap w' k)" using assms by (simp add: simplified_def)
  then have "instr_heap w' k = None" using None by (cases "instr_heap w' k") auto
  then show ?thesis using None by simp
qed

subsection \<open>A solver that satisfies the laws\<close>

definition den_solver :: "dterm z3_solver" where
  "den_solver = \<lparr>z_neq = \<lambda>a b. if fst a = fst b then Inr (SortBool, \<lambda>I. VBool (snd a I \<noteq> snd b I))
       else Inl (Thrown ''sort''),
     z_check = \<lambda>_ ts. if \<exists>I. interp_ok I \<and> (\<forall>t\<in>set ts. snd t I = VBool True) then Sat else Unsat\<rparr>"

interpretation z3_den_solver: z3_solver z3_model fst den_term den_solver
  by unfold_locales (auto simp: den_solver_def den_term_def split: if_splits)

end
