(* ===== verification/Sanity_Sound.thy ===== *)
theory Sanity_Sound
  imports Simplify_Sound
begin

text \<open>
  What the sanity check decides.  With a solver that always answers, the pass returns true
  exactly for hierarchies whose instructions exclude each other within every ILA and in which
  every state decodes some instruction of a valid ILA.
\<close>

subsection \<open>Determinism and completeness\<close>

definition valid_holds :: "env \<Rightarrow> finterp \<Rightarrow> ila \<Rightarrow> bool" where
  "valid_holds \<rho> \<phi> m \<longleftrightarrow> (\<forall>v. valid m = Some v \<longrightarrow> eval \<rho> \<phi> v = VBool True)"

definition decoded :: "world \<Rightarrow> env \<Rightarrow> finterp \<Rightarrow> nat \<Rightarrow> bool" where
  "decoded w \<rho> \<phi> k \<longleftrightarrow> (\<exists>x d. instr_heap w k = Some x \<and> decode x = Some d \<and> eval \<rho> \<phi> d = VBool True)"

text \<open>No two instructions of the ILA are decoded in a state in which it is valid.\<close>

definition exclusive :: "world \<Rightarrow> ila \<Rightarrow> (nat \<times> nat) list \<Rightarrow> bool" where
  "exclusive w m ps \<longleftrightarrow> (\<forall>(a, b)\<in>set ps. \<not> (\<exists>\<rho> \<phi>. env_ok \<rho> \<and> finterp_ok \<phi>
     \<and> valid_holds \<rho> \<phi> m \<and> decoded w \<rho> \<phi> a \<and> decoded w \<rho> \<phi> b))"

definition deterministic :: "world \<Rightarrow> nat \<Rightarrow> bool" where
  "deterministic w j \<longleftrightarrow> (\<forall>m. ila_heap w j = Some m \<longrightarrow> exclusive w m (later_pairs (vec (instrs m))))"

definition enabled :: "world \<Rightarrow> env \<Rightarrow> finterp \<Rightarrow> nat \<Rightarrow> bool" where
  "enabled w \<rho> \<phi> k \<longleftrightarrow> decoded w \<rho> \<phi> k
     \<and> (\<exists>x h m. instr_heap w k = Some x \<and> i_host x = Some h \<and> ila_heap w h = Some m \<and> valid_holds \<rho> \<phi> m)"

definition complete :: "world \<Rightarrow> nat list \<Rightarrow> bool" where
  "complete w ks \<longleftrightarrow> (\<forall>\<rho> \<phi>. env_ok \<rho> \<longrightarrow> finterp_ok \<phi> \<longrightarrow> (\<exists>k\<in>set ks. enabled w \<rho> \<phi> k))"

lemma later_pairs_set: "(a, b) \<in> set (later_pairs xs) \<longleftrightarrow> (\<exists>i j. i < j \<and> j < length xs \<and> xs ! i = a \<and> xs ! j = b)"
proof (induction xs)
  case (Cons x xs)
  have "(\<exists>i j. i < j \<and> j < length (x # xs) \<and> (x # xs) ! i = a \<and> (x # xs) ! j = b) \<longleftrightarrow>
      (x = a \<and> b \<in> set xs) \<or> (\<exists>i j. i < j \<and> j < length xs \<and> xs ! i = a \<and> xs ! j = b)" (is "?L \<longleftrightarrow> ?R")
  proof
    assume ?L
    then obtain i j where ij: "i < j" "j < length (x # xs)" "(x # xs) ! i = a" "(x # xs) ! j = b" by blast
    then obtain j' where j: "j = Suc j'" by (cases j) auto
    with ij show ?R by (cases i) auto
  next
    assume ?R
    then show ?L
    proof
      assume "x = a \<and> b \<in> set xs"
      then obtain j where "x = a" "j < length xs" "xs ! j = b" by (auto simp: in_set_conv_nth)
      then show ?L by (intro exI [of _ 0] exI [of _ "Suc j"]) simp
    next
      assume "\<exists>i j. i < j \<and> j < length xs \<and> xs ! i = a \<and> xs ! j = b"
      then obtain i j where "i < j" "j < length xs" "xs ! i = a" "xs ! j = b" by blast
      then show ?L by (intro exI [of _ "Suc i"] exI [of _ "Suc j"]) simp
    qed
  qed
  with Cons show ?case by auto
qed simp

text \<open>The two notions over positions and over the members of the hierarchy.\<close>

lemma deterministic_iff: "deterministic w j \<longleftrightarrow> (\<forall>m. ila_heap w j = Some m \<longrightarrow>
    (\<forall>p q. p < q \<and> q < length (vec (instrs m)) \<longrightarrow> \<not> (\<exists>\<rho> \<phi>. env_ok \<rho> \<and> finterp_ok \<phi> \<and> valid_holds \<rho> \<phi> m
       \<and> decoded w \<rho> \<phi> (vec (instrs m) ! p) \<and> decoded w \<rho> \<phi> (vec (instrs m) ! q))))"
proof -
  have pairs: "(\<forall>(a, b)\<in>set (later_pairs xs). P a b) \<longleftrightarrow> (\<forall>p q. p < q \<and> q < length xs \<longrightarrow> P (xs ! p) (xs ! q))"
    for xs :: "nat list" and P
    using later_pairs_set by fastforce
  show ?thesis unfolding deterministic_def exclusive_def pairs ..
qed

lemma instr_of_member:
  assumes "\<forall>j\<in>set js. ila_heap w j \<noteq> None" "j \<in> set js"
  shows "(\<exists>k\<in>set (vec (instrs (the (ila_heap w j)))). P k) \<longleftrightarrow>
      (\<exists>m. ila_heap w j = Some m \<and> (\<exists>k\<in>set (vec (instrs m)). P k))"
proof -
  obtain m where "ila_heap w j = Some m" using assms by blast
  then show ?thesis by simp
qed

lemma instr_of_tree:
  assumes "\<forall>j\<in>set js. ila_heap w j \<noteq> None"
  shows "(\<exists>k\<in>set (concat (map (\<lambda>j. vec (instrs (the (ila_heap w j)))) js)). P k) \<longleftrightarrow>
      (\<exists>j\<in>set js. \<exists>m. ila_heap w j = Some m \<and> (\<exists>k\<in>set (vec (instrs m)). P k))"
proof -
  have "(\<exists>k\<in>set (concat (map (\<lambda>j. vec (instrs (the (ila_heap w j)))) js)). P k) \<longleftrightarrow>
     (\<exists>j\<in>set js. \<exists>k\<in>set (vec (instrs (the (ila_heap w j)))). P k)" by (simp only: set_concat set_map UN_iff bex_UN image_image bex_simps)
  also have "\<dots> \<longleftrightarrow> (\<exists>j\<in>set js. \<exists>m. ila_heap w j = Some m \<and> (\<exists>k\<in>set (vec (instrs m)). P k))"
    by (rule bex_cong [OF refl]) (rule instr_of_member [OF assms])
  finally show ?thesis .
qed

lemma complete_tree:
  assumes "\<forall>j\<in>set js. ila_heap w j \<noteq> None"
  shows "complete w (concat (map (\<lambda>j. vec (instrs (the (ila_heap w j)))) js)) \<longleftrightarrow>
    (\<forall>\<rho> \<phi>. env_ok \<rho> \<and> finterp_ok \<phi> \<longrightarrow> (\<exists>j\<in>set js. \<exists>m. ila_heap w j = Some m
       \<and> (\<exists>k\<in>set (vec (instrs m)). enabled w \<rho> \<phi> k)))"
  unfolding complete_def instr_of_tree [OF assms] imp_conjL ..

subsection \<open>Worlds that grow by nodes\<close>

text \<open>The pass only builds expressions before it decides.\<close>

definition grown :: "world \<Rightarrow> expr set \<Rightarrow> world \<Rightarrow> expr set \<Rightarrow> bool" where
  "grown w S w' T \<longleftrightarrow> world_ok w' \<and> same_heaps w w' \<and> S \<subseteq> T \<and> solver_nodes w' T"

lemma grown_trans: "grown w S w1 T1 \<Longrightarrow> grown w1 T1 w2 T2 \<Longrightarrow> grown w S w2 T2"
  by (auto simp: grown_def intro: same_heaps_trans)

lemma grown_refl: "world_ok w \<Longrightarrow> solver_nodes w S \<Longrightarrow> grown w S w S"
  by (simp add: grown_def)

text \<open>A run that returns a Boolean node with the meaning \<open>P\<close>.\<close>

definition makes_bool :: "expr W \<Rightarrow> world \<Rightarrow> expr set \<Rightarrow> (env \<Rightarrow> finterp \<Rightarrow> bool) \<Rightarrow> bool" where
  "makes_bool m w S P \<longleftrightarrow> (\<exists>e w' T. m w = Inr (e, w') \<and> grown w S w' T \<and> e \<in> T \<and> esort e = SortBool
     \<and> (\<forall>\<rho> \<phi>. env_ok \<rho> \<longrightarrow> finterp_ok \<phi> \<longrightarrow> eval \<rho> \<phi> e = VBool (P \<rho> \<phi>)))"

lemma makes_boolE:
  assumes "makes_bool m w S P"
  obtains e w' T where "m w = Inr (e, w')" "grown w S w' T" "e \<in> T" "esort e = SortBool"
    "\<forall>\<rho> \<phi>. env_ok \<rho> \<longrightarrow> finterp_ok \<phi> \<longrightarrow> eval \<rho> \<phi> e = VBool (P \<rho> \<phi>)"
  using assms unfolding makes_bool_def by (elim exE conjE) (rule that)

lemma ready_bool_value:
  assumes "z3_ready w e" "esort e = SortBool" "env_ok \<rho>" "finterp_ok \<phi>"
  shows "eval \<rho> \<phi> e = VBool (eval \<rho> \<phi> e = VBool True)"
  using eval_sort [OF assms(3,4), of e] assms(1,2) by (auto simp: z3_ready_def has_sort_Bool)

lemma node_makes_bool:
  assumes w: "world_ok w" "solver_nodes w S" and m: "hub_contract m u as [] None"
    and u: "u \<in> {kAnd, kOr, kNot}" and as: "set as \<subseteq> S" "\<forall>a\<in>set as. esort a = SortBool" "length as = op_arity u"
    and P: "\<And>\<rho> \<phi>. env_ok \<rho> \<Longrightarrow> finterp_ok \<phi> \<Longrightarrow> op_sem u [] (map (eval \<rho> \<phi>) as) = VBool (P \<rho> \<phi>)"
  shows "makes_bool m w S P"
proof -
  have "op_sort u (map esort as) [] None = Some SortBool"
    using u as(2,3) by (auto simp: op_arity_def length_Suc_conv numeral_2_eq_2)
  from hub_contractD [OF m this] obtain w1 where
    w1: "same_heaps w w1" "m w = Inr (mk_node w1 u SortBool as [] None, tick w1)" by metis
  let ?n = "mk_node w1 u SortBool as [] None"
  have "solver_nodes (tick w1) (insert ?n S)" by (rule bool_node_ready [OF w(2) w1(1) u as])
  moreover have "same_heaps w (tick w1)" using w1(1) by (simp add: same_heaps_def)
  moreover have "world_ok (tick w1)" using world_ok_same_heaps [OF w1(1) w(1)] by simp
  ultimately have "grown w S (tick w1) (insert ?n S)" by (auto simp: grown_def)
  moreover have "eval \<rho> \<phi> ?n = VBool (P \<rho> \<phi>)" if "env_ok \<rho>" "finterp_ok \<phi>" for \<rho> \<phi>
    using P [OF that] by (simp add: mk_node_def)
  ultimately show ?thesis unfolding makes_bool_def using w1(2) by force
qed

lemma And_makes_bool:
  assumes w: "world_ok w" "solver_nodes w S" and ab: "a \<in> S" "b \<in> S" "esort a = SortBool" "esort b = SortBool"
  shows "makes_bool (And a b) w S (\<lambda>\<rho> \<phi>. eval \<rho> \<phi> a = VBool True \<and> eval \<rho> \<phi> b = VBool True)"
proof (rule node_makes_bool [OF w hub_logic(1)])
  fix \<rho> \<phi> assume ok: "env_ok \<rho>" "finterp_ok \<phi>"
  have "\<And>x. x \<in> S \<Longrightarrow> z3_ready w x" using w(2) by (simp add: solver_nodes_def)
  with ready_bool_value ab ok have "eval \<rho> \<phi> a = VBool (eval \<rho> \<phi> a = VBool True)" "eval \<rho> \<phi> b = VBool (eval \<rho> \<phi> b = VBool True)"
    by blast+
  then show "op_sem kAnd [] (map (eval \<rho> \<phi>) [a, b]) = VBool (eval \<rho> \<phi> a = VBool True \<and> eval \<rho> \<phi> b = VBool True)"
    by (cases "eval \<rho> \<phi> a"; cases "eval \<rho> \<phi> b") (auto simp: bool_bv2_def)
qed (use ab in \<open>auto simp: op_arity_def\<close>)

lemma Or_makes_bool:
  assumes w: "world_ok w" "solver_nodes w S" and ab: "a \<in> S" "b \<in> S" "esort a = SortBool" "esort b = SortBool"
  shows "makes_bool (Or a b) w S (\<lambda>\<rho> \<phi>. eval \<rho> \<phi> a = VBool True \<or> eval \<rho> \<phi> b = VBool True)"
proof (rule node_makes_bool [OF w hub_logic(2)])
  fix \<rho> \<phi> assume ok: "env_ok \<rho>" "finterp_ok \<phi>"
  have "\<And>x. x \<in> S \<Longrightarrow> z3_ready w x" using w(2) by (simp add: solver_nodes_def)
  with ready_bool_value ab ok have "eval \<rho> \<phi> a = VBool (eval \<rho> \<phi> a = VBool True)" "eval \<rho> \<phi> b = VBool (eval \<rho> \<phi> b = VBool True)"
    by blast+
  then show "op_sem kOr [] (map (eval \<rho> \<phi>) [a, b]) = VBool (eval \<rho> \<phi> a = VBool True \<or> eval \<rho> \<phi> b = VBool True)"
    by (cases "eval \<rho> \<phi> a"; cases "eval \<rho> \<phi> b") (auto simp: bool_bv2_def)
qed (use ab in \<open>auto simp: op_arity_def\<close>)

lemma BoolConst_makes_bool:
  assumes w: "world_ok w" "solver_nodes w S"
  shows "makes_bool (BoolConst b) w S (\<lambda>_ _. b)"
proof -
  let ?n = "ExprConst (fresh_symbol w) SortBool (BoolVal b)"
  have "solver_nodes (tick w) (insert ?n S)"
    by (rule new_node_ready [OF w(2)]) (auto simp: z3_ready_def int_node_def host_ok_def)
  then have "grown w S (tick w) (insert ?n S)" using w(1) by (auto simp: grown_def)
  then show ?thesis unfolding makes_bool_def using BoolConst_run [of b w] by force
qed

subsection \<open>Queries\<close>

definition satisfiable :: "expr list \<Rightarrow> bool" where
  "satisfiable es \<longleftrightarrow> (\<exists>\<rho> \<phi>. env_ok \<rho> \<and> finterp_ok \<phi> \<and> (\<forall>e\<in>set es. eval \<rho> \<phi> e = VBool True))"

context z3_solver
begin

lemma query:
  assumes w: "world_ok w" "solver_nodes w S" and es: "set es \<subseteq> S" "\<forall>e\<in>set es. esort e = SortBool"
    and ts: "list_all2 (term_rel tsort den (z3_env w []) (z3_finterp w [])) ts es"
    and decides: "z_check slv n ts \<noteq> Unknown"
  shows "z_check slv n ts = Sat \<longleftrightarrow> satisfiable es"
proof -
  have dag: "dag S" "apart_at w (\<lambda>_. []) 0 S" and smt: "\<forall>x\<in>S. smt_expr x"
    using w(2) by (auto simp: solver_nodes_def node_heap_def z3_ready_def)
  have sorts: "\<forall>t\<in>set ts. tsort t = SortBool"
    using ts es(2) by (induction rule: list_all2_induct) (auto simp: term_rel_def)
  have vals: "(\<forall>t\<in>set ts. den I t = VBool True) \<longleftrightarrow> (\<forall>e\<in>set es. eval (z3_env w [] I) (z3_finterp w [] I) e = VBool True)"
    if "interp_ok I" for I
    using ts that by (induction rule: list_all2_induct) (auto simp: term_rel_def)
  have "satisfiable es" if sat: "z_check slv n ts = Sat"
  proof -
    obtain I where I: "interp_ok I" "\<forall>t\<in>set ts. den I t = VBool True" using sat_ok [OF sat sorts] by blast
    then show ?thesis using vals [OF I(1)] z3_env_ok [OF I(1)] unfolding satisfiable_def by blast
  qed
  moreover have "\<not> satisfiable es" if u: "z_check slv n ts = Unsat"
  proof
    assume "satisfiable es"
    then obtain \<rho> \<phi> where ok: "env_ok \<rho>" "finterp_ok \<phi>" "\<forall>e\<in>set es. eval \<rho> \<phi> e = VBool True"
      unfolding satisfiable_def by blast
    let ?I = "realise_at w (\<lambda>_. []) 0 S (\<lambda>_. \<rho>) \<phi>"
    have I: "interp_ok ?I" by (rule realise_at_ok) (use ok in auto)
    have "eval (z3_env w [] ?I) (z3_finterp w [] ?I) y = eval \<rho> \<phi> y" if "y \<in> S" for y
      using realise_at_agree [OF dag(1) smt _ ok(2) dag(2) _ that, of "\<lambda>_. \<rho>" 0] ok by simp
    then have "\<forall>t\<in>set ts. den ?I t = VBool True" using vals [OF I] ok(3) es(1) by (simp add: subset_iff)
    then show False using unsat_ok [OF u sorts I] by blast
  qed
  ultimately show ?thesis using decides by (cases "z_check slv n ts") auto
qed

lemma GetExpr_run:
  assumes "world_ok w" "solver_nodes w S" "e \<in> S"
  obtains t where "GetExpr api w e [] = Inr t" "term_rel tsort den (z3_env w []) (z3_finterp w []) t e"
proof -
  have "dag S" "\<forall>x\<in>S. z3_ready w x" using assms(2) by (auto simp: solver_nodes_def node_heap_def)
  from z3_GetExpr [OF z3_laws_axioms assms(1) this assms(3), of "[]"] that show thesis by blast
qed

end

subsection \<open>Determinism\<close>

definition decodes_in :: "expr set \<Rightarrow> world \<Rightarrow> nat set \<Rightarrow> bool" where
  "decodes_in S w K \<longleftrightarrow> (\<forall>k\<in>K. \<exists>x d. instr_heap w k = Some x \<and> decode x = Some d \<and> d \<in> S)"

text \<open>Both instructions are decoded in a state in which \<open>v\<close> holds.\<close>

definition clash :: "world \<Rightarrow> expr \<Rightarrow> nat \<Rightarrow> nat \<Rightarrow> bool" where
  "clash w v a b \<longleftrightarrow> (\<exists>\<rho> \<phi>. env_ok \<rho> \<and> finterp_ok \<phi> \<and> eval \<rho> \<phi> v = VBool True \<and> decoded w \<rho> \<phi> a \<and> decoded w \<rho> \<phi> b)"

lemma decoded_by: "instr_heap w k = Some x \<Longrightarrow> decode x = Some d \<Longrightarrow> decoded w \<rho> \<phi> k \<longleftrightarrow> eval \<rho> \<phi> d = VBool True"
  by (simp add: decoded_def)

lemma decode_sort: "world_ok w \<Longrightarrow> instr_heap w k = Some x \<Longrightarrow> decode x = Some d \<Longrightarrow> esort d = SortBool"
  using instr_local_of [of w k x] by (simp add: instr_local_def)

lemma grown_heaps: "grown w S w' T \<Longrightarrow> ila_heap w' = ila_heap w \<and> instr_heap w' = instr_heap w"
  by (simp add: grown_def same_heaps_def)

lemma decodes_in_mono: "decodes_in S w K \<Longrightarrow> grown w S w' T \<Longrightarrow> decodes_in T w' K"
  using grown_heaps [of w S w' T] unfolding decodes_in_def grown_def by fastforce

lemma clash_grown: "grown w S w' T \<Longrightarrow> clash w' = clash w"
  using grown_heaps [of w S w' T] by (simp add: clash_def decoded_def fun_eq_iff)

context z3_solver
begin

lemma overlap_run:
  assumes w: "world_ok w" "solver_nodes w S" and v: "v \<in> S" "esort v = SortBool" and ab: "decodes_in S w {a, b}"
    and decides: "\<And>n ts. z_check slv n ts \<noteq> Unknown"
  shows "\<exists>found w' T. overlap api slv v a b w = Inr (found, w') \<and> grown w S w' T
    \<and> (found \<longleftrightarrow> clash w v a b)"
proof -
  obtain x da y db where xy: "instr_heap w a = Some x" "decode x = Some da" "da \<in> S"
      "instr_heap w b = Some y" "decode y = Some db" "db \<in> S"
    using ab by (auto simp: decodes_in_def)
  have sorts: "esort da = SortBool" "esort db = SortBool" using decode_sort [OF w(1)] xy by blast+
  obtain e w' T where e: "And da db w = Inr (e, w')" "grown w S w' T" "e \<in> T" "esort e = SortBool"
      "\<forall>\<rho> \<phi>. env_ok \<rho> \<longrightarrow> finterp_ok \<phi> \<longrightarrow> eval \<rho> \<phi> e = VBool (eval \<rho> \<phi> da = VBool True \<and> eval \<rho> \<phi> db = VBool True)"
    by (rule makes_boolE [OF And_makes_bool [OF w xy(3,6) sorts]])
  have w': "world_ok w'" "solver_nodes w' T" "v \<in> T" using e(2) v by (auto simp: grown_def)
  obtain tv where tv: "GetExpr api w' v [] = Inr tv" "term_rel tsort den (z3_env w' []) (z3_finterp w' []) tv v"
    by (rule GetExpr_run [OF w'])
  obtain tn where tn: "GetExpr api w' e [] = Inr tn" "term_rel tsort den (z3_env w' []) (z3_finterp w' []) tn e"
    by (rule GetExpr_run [OF w'(1,2) e(3)])
  have "z_check slv 0 [tv, tn] = Sat \<longleftrightarrow> satisfiable [v, e]"
    by (rule query [OF w'(1,2)]) (use w' e v tv tn decides in auto)
  also have "\<dots> \<longleftrightarrow> clash w v a b"
    unfolding satisfiable_def clash_def decoded_by [OF xy(1,2)] decoded_by [OF xy(4,5)]
    using e(5) by (intro ex_cong1 conj_cong refl) auto
  finally have "z_check slv 0 [tv, tn] = Sat \<longleftrightarrow> \<dots>" .
  moreover have "overlap api slv v a b w = Inr (z_check slv 0 [tv, tn] = Sat, w')"
    using xy e(1) tv(1) tn(1) by (simp add: overlap_def instr_decode_def the_instr_def not_null_def bindM_def)
  ultimately show ?thesis using e(2) by blast
qed

lemma no_overlap_run:
  assumes decides: "\<And>n ts. z_check slv n ts \<noteq> Unknown"
  shows "world_ok w \<Longrightarrow> solver_nodes w S \<Longrightarrow> v \<in> S \<Longrightarrow> esort v = SortBool \<Longrightarrow>
    decodes_in S w (fst ` set ps \<union> snd ` set ps) \<Longrightarrow>
    \<exists>w' T. no_overlap api slv v ps w = Inr (\<forall>(a, b)\<in>set ps. \<not> clash w v a b, w') \<and> grown w S w' T"
proof (induction ps arbitrary: w S)
  case Nil
  then show ?case using grown_refl by auto
next
  case (Cons p ps)
  obtain a b where p: "p = (a, b)" by (cases p)
  have "decodes_in S w {a, b}" using Cons.prems(5) by (auto simp: decodes_in_def p)
  from overlap_run [OF Cons.prems(1-4) this decides] obtain found w1 T1 where
    1: "overlap api slv v a b w = Inr (found, w1)" "grown w S w1 T1" "found \<longleftrightarrow> clash w v a b"
    by blast
  show ?case
  proof (cases found)
    case True
    then show ?thesis using 1 by (auto simp: p)
  next
    case False
    have T1: "world_ok w1" "solver_nodes w1 T1" "v \<in> T1" "S \<subseteq> T1"
      using 1(2) Cons.prems(3) by (auto simp: grown_def)
    have "decodes_in S w (fst ` set ps \<union> snd ` set ps)" using Cons.prems(5) by (simp add: decodes_in_def)
    from Cons.IH [OF T1(1-3) Cons.prems(4) decodes_in_mono [OF this 1(2)]] obtain w2 T2 where
      2: "no_overlap api slv v ps w1 = Inr (\<forall>(a, b)\<in>set ps. \<not> clash w1 v a b, w2)" "grown w1 T1 w2 T2"
      by blast
    have "no_overlap api slv v (p # ps) w = no_overlap api slv v ps w1"
      using 1(1) False by (simp add: p)
    then show ?thesis
      using 2(1) 1(3) False grown_trans [OF 1(2) 2(2)] clash_grown [OF 1(2)] by (auto simp: p)
  qed
qed

end

lemma valid_or_true_run:
  assumes w: "world_ok w" "solver_nodes w S" and m: "ila_heap w j = Some m" "set_option (valid m) \<subseteq> S"
  shows "makes_bool (valid_or_true m) w S (\<lambda>\<rho> \<phi>. valid_holds \<rho> \<phi> m)"
proof (cases "valid m")
  case None
  then show ?thesis using BoolConst_makes_bool [OF w, of True] by (simp add: valid_or_true_def valid_holds_def)
next
  case (Some v)
  have v: "v \<in> S" "esort v = SortBool" using Some m(2) ila_local_of [OF w(1) m(1)] by (auto simp: ila_local_def)
  have "z3_ready w v" using w(2) v(1) by (simp add: solver_nodes_def)
  note val_eq = ready_bool_value [OF this v(2)]
  show ?thesis
    unfolding makes_bool_def
    by (intro exI [of _ v] exI [of _ w] exI [of _ S] conjI grown_refl w allI impI)
      (use Some v val_eq in \<open>simp_all add: valid_or_true_def valid_holds_def\<close>)
qed

text \<open>The ILAs of \<open>J\<close> have their expressions in \<open>S\<close>.\<close>

definition checkable :: "expr set \<Rightarrow> world \<Rightarrow> nat set \<Rightarrow> bool" where
  "checkable S w J \<longleftrightarrow> (\<forall>j\<in>J. \<exists>m. ila_heap w j = Some m \<and> set_option (valid m) \<subseteq> S
     \<and> decodes_in S w (set (vec (instrs m))) \<and> (\<forall>k\<in>set (vec (instrs m)). \<forall>x. instr_heap w k = Some x \<longrightarrow> i_host x = Some j))"

lemma checkable_mono: "checkable S w J \<Longrightarrow> grown w S w' T \<Longrightarrow> checkable T w' J"
  using grown_heaps [of w S w' T] decodes_in_mono [of S w _ w' T] unfolding checkable_def grown_def by fastforce

lemma later_pairs_sub: "(a, b) \<in> set (later_pairs xs) \<Longrightarrow> a \<in> set xs \<and> b \<in> set xs"
  by (induction xs) auto

context z3_solver
begin

lemma determ_post_run:
  assumes decides: "\<And>n ts. z_check slv n ts \<noteq> Unknown"
    and w: "world_ok w" "solver_nodes w S" and J: "checkable S w J" "j \<in> J"
  shows "\<exists>w' T. determ_post api slv j (b, w) = Inr ((), (b \<and> deterministic w j, w')) \<and> grown w S w' T"
proof (cases b)
  case False
  then show ?thesis using grown_refl [OF w] by (auto simp: determ_post_def with_acc_def)
next
  case True
  obtain m where m: "ila_heap w j = Some m" "set_option (valid m) \<subseteq> S" "decodes_in S w (set (vec (instrs m)))"
    using J by (auto simp: checkable_def)
  obtain v w1 T1 where v: "valid_or_true m w = Inr (v, w1)" "grown w S w1 T1" "v \<in> T1" "esort v = SortBool"
      "\<forall>\<rho> \<phi>. env_ok \<rho> \<longrightarrow> finterp_ok \<phi> \<longrightarrow> eval \<rho> \<phi> v = VBool (valid_holds \<rho> \<phi> m)"
    by (rule makes_boolE [OF valid_or_true_run [OF w m(1,2)]])
  let ?ps = "later_pairs (vec (instrs m))"
  have w1: "world_ok w1" "solver_nodes w1 T1" using v(2) by (simp_all add: grown_def)
  have "decodes_in S w (fst ` set ?ps \<union> snd ` set ?ps)"
    using m(3) later_pairs_sub [of _ _ "vec (instrs m)"] by (auto simp: decodes_in_def)
  from no_overlap_run [OF decides w1 v(3,4) decodes_in_mono [OF this v(2)]] obtain w2 T2 where
    2: "no_overlap api slv v ?ps w1 = Inr (\<forall>(a, b)\<in>set ?ps. \<not> clash w1 v a b, w2)" "grown w1 T1 w2 T2" by blast
  have "clash w v a b \<longleftrightarrow> (\<exists>\<rho> \<phi>. env_ok \<rho> \<and> finterp_ok \<phi> \<and> valid_holds \<rho> \<phi> m \<and> decoded w \<rho> \<phi> a \<and> decoded w \<rho> \<phi> b)" for a b
    unfolding clash_def using v(5) by (intro ex_cong1 conj_cong refl) simp
  then have "(\<forall>(a, b)\<in>set ?ps. \<not> clash w1 v a b) \<longleftrightarrow> deterministic w j"
    unfolding clash_grown [OF v(2)] deterministic_def exclusive_def using m(1) by simp
  then have "determ_post api slv j (b, w) = Inr ((), (b \<and> deterministic w j, w2))"
    using True m(1) v(1) 2(1) by (simp add: determ_post_def with_acc_def the_ila_def bindM_def)
  then show ?thesis using grown_trans [OF v(2) 2(2)] by blast
qed

end

text \<open>A loop over a flag and a world that grows.\<close>

lemma flag_loop:
  assumes body: "\<And>c b w1 S. c \<in> set xs \<Longrightarrow> grown w S0 w1 S \<Longrightarrow> checkable S w1 J \<Longrightarrow>
      \<exists>w2 T. f c (b, w1) = Inr ((), (b \<and> D c, w2)) \<and> grown w1 S w2 T"
  shows "grown w S0 w1 S \<Longrightarrow> checkable S w1 J \<Longrightarrow>
      \<exists>w2 T. forM xs f (b, w1) = Inr ((), (b \<and> (\<forall>c\<in>set xs. D c), w2)) \<and> grown w1 S w2 T"
  using body
proof (induction xs arbitrary: b w1 S)
  case Nil
  then show ?case using grown_refl by (auto simp: grown_def)
next
  case (Cons c xs)
  obtain w2 T where 1: "f c (b, w1) = Inr ((), (b \<and> D c, w2))" "grown w1 S w2 T"
    using Cons.prems(3) [OF _ Cons.prems(1,2), of c b] by auto
  obtain w3 U where 2: "forM xs f (b \<and> D c, w2) = Inr ((), ((b \<and> D c) \<and> (\<forall>c\<in>set xs. D c), w3))" "grown w2 T w3 U"
    using Cons.IH [OF grown_trans [OF Cons.prems(1) 1(2)] checkable_mono [OF Cons.prems(2) 1(2)], of "b \<and> D c"]
      Cons.prems(3) by auto
  have "forM (c # xs) f (b, w1) = Inr ((), (b \<and> (\<forall>c\<in>set (c # xs). D c), w3))"
    using 1(1) 2(1) by (simp add: conj_assoc)
  then show ?case using grown_trans [OF 1(2) 2(2)] by blast
qed

lemma deterministic_same:
  "ila_heap w' = ila_heap w \<Longrightarrow> instr_heap w' = instr_heap w \<Longrightarrow> deterministic w' = deterministic w"
  by (simp add: deterministic_def exclusive_def decoded_def fun_eq_iff)

context z3_solver
begin

lemma determ_visit:
  assumes decides: "\<And>n ts. z_check slv n ts \<noteq> Unknown" and ok: "world_ok w"
    and J: "\<And>j c. j \<in> J \<Longrightarrow> c \<in> set (child_ids w j) \<Longrightarrow> c \<in> J"
  shows "i \<in> J \<Longrightarrow> counter w < i + n \<Longrightarrow> grown w S0 w1 S \<Longrightarrow> checkable S w1 J \<Longrightarrow>
    \<exists>w2 T. ila_visit_pre_post snd n determ_pre (determ_post api slv) i (b, w1)
      = Inr ((), (b \<and> (\<forall>j\<in>set (ila_order n w i). deterministic w j), w2)) \<and> grown w1 S w2 T"
proof (induction n arbitrary: i b w1 S)
  case 0
  obtain m where "ila_heap w i = Some m"
    using "0.prems"(1,4) grown_heaps [OF "0.prems"(3)] by (fastforce simp: checkable_def)
  from world_okD(1) [OF ok this] show ?case using "0.prems"(2) by (simp add: ila_at_def)
next
  case (Suc n)
  let ?f = "ila_visit_pre_post snd n determ_pre (determ_post api slv)"
  define D where "D c \<longleftrightarrow> (\<forall>j\<in>set (ila_order n w c). deterministic w j)" for c
  have w1: "world_ok w1" "solver_nodes w1 S" using Suc.prems(3) by (simp_all add: grown_def)
  have order: "(\<forall>j\<in>set (ila_order (Suc n) w i). deterministic w j) \<longleftrightarrow> (\<forall>c\<in>set (child_ids w i). D c) \<and> deterministic w i"
    by (auto simp: D_def)
  show ?case
  proof (cases b)
    case False
    then show ?thesis using grown_refl [OF w1] by (auto simp: determ_pre_def)
  next
    case True
    have cs: "child_ids w1 i = child_ids w i" using grown_heaps [OF Suc.prems(3)] by (simp add: child_ids_def)
    have "\<exists>w2 T. forM (child_ids w i) ?f (True, w1) = Inr ((), (True \<and> (\<forall>c\<in>set (child_ids w i). D c), w2)) \<and> grown w1 S w2 T"
    proof (rule flag_loop [OF _ Suc.prems(3,4)])
      fix c b w1 S assume c: "c \<in> set (child_ids w i)" and g: "grown w S0 w1 S" "checkable S w1 J"
      have "i < c" by (rule child_of [OF ok c])
      then have "counter w < c + n" using Suc.prems(2) by simp
      from Suc.IH [OF J [OF Suc.prems(1) c] this g, of b]
      show "\<exists>w2 T. ?f c (b, w1) = Inr ((), (b \<and> D c, w2)) \<and> grown w1 S w2 T" by (simp only: D_def)
    qed
    then obtain w2 T where 1: "forM (child_ids w i) ?f (True, w1) = Inr ((), ((\<forall>c\<in>set (child_ids w i). D c), w2))" "grown w1 S w2 T"
      by auto
    let ?B = "\<forall>c\<in>set (child_ids w i). D c"
    have w2: "world_ok w2" "solver_nodes w2 T" using 1(2) by (simp_all add: grown_def)
    from determ_post_run [OF decides w2 checkable_mono [OF Suc.prems(4) 1(2)] Suc.prems(1), of ?B] obtain w3 U where
      2: "determ_post api slv i (?B, w2) = Inr ((), (?B \<and> deterministic w2 i, w3))" "grown w2 T w3 U" by blast
    have det: "deterministic w2 = deterministic w"
      using grown_heaps [OF 1(2)] grown_heaps [OF Suc.prems(3)] by (intro deterministic_same) simp_all
    have "ila_visit_pre_post snd (Suc n) determ_pre (determ_post api slv) i (b, w1) =
        thenM (forM (child_ids w i) ?f) (determ_post api slv i) (True, w1)"
      using True cs by (simp add: determ_pre_def bindM_def)
    also have "\<dots> = Inr ((), (?B \<and> deterministic w i, w3))"
      using 1(1) 2(1) det unfolding thenM_run [where m = "forM (child_ids w i) ?f", OF 1(1)] by simp
    finally show ?thesis using grown_trans [OF 1(2) 2(2)] True order by auto
  qed
qed

lemma CheckDeterminism_run:
  assumes decides: "\<And>n ts. z_check slv n ts \<noteq> Unknown" and w: "world_ok w" "solver_nodes w S"
    and i: "checkable S w (set (ila_tree w i))"
  shows "\<exists>w' T. CheckDeterminism api slv i w = Inr (\<forall>j\<in>set (ila_tree w i). deterministic w j, w') \<and> grown w S w' T"
proof -
  have "\<exists>w2 T. ila_visit_pre_post snd (Suc (counter w)) determ_pre (determ_post api slv) i (True, w)
      = Inr ((), (True \<and> (\<forall>j\<in>set (ila_tree w i). deterministic w j), w2)) \<and> grown w S w2 T"
  proof (rule determ_visit [where J = "set (ila_tree w i)", OF decides w(1) _ _ _ grown_refl [OF w] i])
    show "c \<in> set (ila_tree w i)" if "j \<in> set (ila_tree w i)" "c \<in> set (child_ids w j)" for j c
      by (rule ila_order_closed [OF w(1) _ that]) simp
  qed simp_all
  then show ?thesis
    by (auto simp: CheckDeterminism_def DepthFirstVisitPrePost_ila_def run_acc_def simp del: ila_visit_pre_post.simps ila_order.simps)
qed

end

subsection \<open>Completeness\<close>

definition decodable :: "expr set \<Rightarrow> world \<Rightarrow> nat \<Rightarrow> bool" where
  "decodable S w k \<longleftrightarrow> (\<exists>x d h m. instr_heap w k = Some x \<and> decode x = Some d \<and> d \<in> S \<and> i_host x = Some h
     \<and> ila_heap w h = Some m \<and> set_option (valid m) \<subseteq> S)"

lemma decodable_mono: "decodable S w k \<Longrightarrow> grown w S w' T \<Longrightarrow> decodable T w' k"
  using grown_heaps [of w S w' T] unfolding decodable_def grown_def by fastforce

lemma enabled_grown: "grown w S w' T \<Longrightarrow> enabled w' = enabled w"
  using grown_heaps [of w S w' T] by (simp add: enabled_def decoded_def fun_eq_iff)

lemma acc_decode_makes:
  assumes w: "world_ok w" "solver_nodes w S" and acc: "acc \<in> S" "esort acc = SortBool" and k: "decodable S w k"
  shows "makes_bool (acc_decode acc k) w S (\<lambda>\<rho> \<phi>. eval \<rho> \<phi> acc = VBool True \<or> enabled w \<rho> \<phi> k)"
proof -
  obtain x d h m where x: "instr_heap w k = Some x" "decode x = Some d" "d \<in> S" "i_host x = Some h"
      "ila_heap w h = Some m" "set_option (valid m) \<subseteq> S" using k by (auto simp: decodable_def)
  obtain v w1 T1 where v: "valid_or_true m w = Inr (v, w1)" "grown w S w1 T1" "v \<in> T1" "esort v = SortBool"
      "\<forall>\<rho> \<phi>. env_ok \<rho> \<longrightarrow> finterp_ok \<phi> \<longrightarrow> eval \<rho> \<phi> v = VBool (valid_holds \<rho> \<phi> m)"
    by (rule makes_boolE [OF valid_or_true_run [OF w x(5,6)]])
  have 1: "world_ok w1" "solver_nodes w1 T1" "d \<in> T1" "acc \<in> T1" using v(2) x(3) acc(1) by (auto simp: grown_def)
  obtain a w2 T2 where a: "And v d w1 = Inr (a, w2)" "grown w1 T1 w2 T2" "a \<in> T2" "esort a = SortBool"
      "\<forall>\<rho> \<phi>. env_ok \<rho> \<longrightarrow> finterp_ok \<phi> \<longrightarrow> eval \<rho> \<phi> a = VBool (eval \<rho> \<phi> v = VBool True \<and> eval \<rho> \<phi> d = VBool True)"
    by (rule makes_boolE [OF And_makes_bool [OF 1(1,2) v(3) 1(3) v(4) decode_sort [OF w(1) x(1,2)]]])
  have 2: "world_ok w2" "solver_nodes w2 T2" "acc \<in> T2" using a(2) 1(4) by (auto simp: grown_def)
  obtain e w3 T3 where e: "Or acc a w2 = Inr (e, w3)" "grown w2 T2 w3 T3" "e \<in> T3" "esort e = SortBool"
      "\<forall>\<rho> \<phi>. env_ok \<rho> \<longrightarrow> finterp_ok \<phi> \<longrightarrow> eval \<rho> \<phi> e = VBool (eval \<rho> \<phi> acc = VBool True \<or> eval \<rho> \<phi> a = VBool True)"
    by (rule makes_boolE [OF Or_makes_bool [OF 2 a(3) acc(2) a(4)]])
  have "acc_decode acc k w = Inr (e, w3)"
    using x v(1) a(1) e(1) by (simp add: acc_decode_def the_instr_def the_ila_def not_null_def bindM_def)
  moreover have "grown w S w3 T3" using grown_trans [OF grown_trans [OF v(2) a(2)] e(2)] .
  moreover have "enabled w \<rho> \<phi> k \<longleftrightarrow> eval \<rho> \<phi> d = VBool True \<and> valid_holds \<rho> \<phi> m" for \<rho> \<phi>
    using x by (simp add: enabled_def decoded_def)
  ultimately show ?thesis
    unfolding makes_bool_def using e(3-5) a(5) v(5) by (intro exI conjI) (assumption | fastforce)+
qed

lemma acc_fold_makes:
  "world_ok w \<Longrightarrow> solver_nodes w S \<Longrightarrow> acc \<in> S \<Longrightarrow> esort acc = SortBool \<Longrightarrow>
   \<forall>\<rho> \<phi>. env_ok \<rho> \<longrightarrow> finterp_ok \<phi> \<longrightarrow> eval \<rho> \<phi> acc = VBool (P \<rho> \<phi>) \<Longrightarrow> \<forall>k\<in>set ks. decodable S w k \<Longrightarrow>
   makes_bool (foldM acc_decode acc ks) w S (\<lambda>\<rho> \<phi>. P \<rho> \<phi> \<or> (\<exists>k\<in>set ks. enabled w \<rho> \<phi> k))"
proof (induction ks arbitrary: acc w S P)
  case Nil
  then show ?case unfolding makes_bool_def using grown_refl [of w S] by auto
next
  case (Cons k ks)
  have k: "decodable S w k" using Cons.prems(6) by simp
  obtain e w1 T where e: "acc_decode acc k w = Inr (e, w1)" "grown w S w1 T" "e \<in> T" "esort e = SortBool"
      "\<forall>\<rho> \<phi>. env_ok \<rho> \<longrightarrow> finterp_ok \<phi> \<longrightarrow> eval \<rho> \<phi> e = VBool (eval \<rho> \<phi> acc = VBool True \<or> enabled w \<rho> \<phi> k)"
    by (rule makes_boolE [OF acc_decode_makes [OF Cons.prems(1-4) k]])
  have w1: "world_ok w1" "solver_nodes w1 T" using e(2) by (simp_all add: grown_def)
  have val: "\<forall>\<rho> \<phi>. env_ok \<rho> \<longrightarrow> finterp_ok \<phi> \<longrightarrow> eval \<rho> \<phi> e = VBool (P \<rho> \<phi> \<or> enabled w \<rho> \<phi> k)"
    using e(5) Cons.prems(5) by simp
  have "\<forall>k\<in>set ks. decodable T w1 k" using Cons.prems(6) decodable_mono [OF _ e(2)] by simp
  from Cons.IH [OF w1 e(3,4) val this] obtain r w2 U where
    r: "foldM acc_decode e ks w1 = Inr (r, w2)" "grown w1 T w2 U" "r \<in> U" "esort r = SortBool"
      "\<forall>\<rho> \<phi>. env_ok \<rho> \<longrightarrow> finterp_ok \<phi> \<longrightarrow>
        eval \<rho> \<phi> r = VBool ((P \<rho> \<phi> \<or> enabled w \<rho> \<phi> k) \<or> (\<exists>k\<in>set ks. enabled w1 \<rho> \<phi> k))"
    by (rule makes_boolE)
  have "foldM acc_decode acc (k # ks) w = Inr (r, w2)" using e(1) r(1) by simp
  moreover have "\<forall>\<rho> \<phi>. env_ok \<rho> \<longrightarrow> finterp_ok \<phi> \<longrightarrow>
      eval \<rho> \<phi> r = VBool (P \<rho> \<phi> \<or> (\<exists>k\<in>set (k # ks). enabled w \<rho> \<phi> k))"
    using r(5) unfolding enabled_grown [OF e(2)] by (simp add: disj_assoc)
  ultimately show ?case
    unfolding makes_bool_def using grown_trans [OF e(2) r(2)] r(3,4) by blast
qed

text \<open>The repair does not fail.\<close>

lemma NewInstr_run:
  assumes "ila_heap w i = Some m" "n \<noteq> []"
  shows "\<exists>k x w'. NewInstr i n w = Inr (k, w') \<and> instr_heap w' k = Some x \<and> decode x = None"
  using assms by (auto simp: NewInstr_def Let_def the_ila_def Instr_New_run AddInstr_def the_instr_def upd_ila_def
      with_instr_def empty_instr_def not_null_def bindM_def thenM_def ret_def)

lemma repair_run:
  assumes "ila_heap w i = Some m" "n \<noteq> []" "esort acc = SortBool"
  shows "\<exists>w'. bindM (NewInstr i n) (\<lambda>k. bindM (LogicNot acc) (\<lambda>d. set_decode k (Some d))) w = Inr ((), w')"
proof -
  obtain k x w1 where 1: "NewInstr i n w = Inr (k, w1)" "instr_heap w1 k = Some x" "decode x = None"
    using NewInstr_run [OF assms(1,2)] by blast
  have "op_sort kNot (map esort [acc]) [] None = Some SortBool" using assms(3) by simp
  from hub_contractD [OF hub_direct(2) this] obtain w2 where
    2: "same_heaps w1 w2" "LogicNot acc w1 = Inr (mk_node w2 kNot SortBool [acc] [] None, tick w2)" by metis
  have "instr_heap (tick w2) k = Some x" using 1(2) 2(1) by (simp add: same_heaps_def)
  then show ?thesis
    using 1(1,3) 2(2) by (simp add: set_decode_def ForceSetDecode_def Unify_def the_instr_def upd_instr_def
        not_null_def checkR_def bindM_def thenM_def)
qed

context z3_solver
begin

lemma SanityCheck_run:
  assumes decides: "\<And>n ts. z_check slv n ts \<noteq> Unknown" and w: "world_ok w" "solver_nodes w S"
    and i: "i \<in> dom (ila_heap w)" "checkable S w (set (ila_tree w i))"
  shows "\<exists>w'. SanityCheckAndFix api slv i w =
    Inr ((\<forall>j\<in>set (ila_tree w i). deterministic w j)
      \<and> complete w (concat (map (\<lambda>j. vec (instrs (the (ila_heap w j)))) (ila_tree w i))), w')"
proof -
  let ?ks = "\<lambda>w. concat (map (\<lambda>j. vec (instrs (the (ila_heap w j)))) (ila_tree w i))"
  let ?B = "\<forall>j\<in>set (ila_tree w i). deterministic w j"
  obtain m where m: "ila_heap w i = Some m" using i(1) by blast
  obtain w1 T1 where 1: "CheckDeterminism api slv i w = Inr (?B, w1)" "grown w S w1 T1"
    using CheckDeterminism_run [OF decides w i(2)] by blast
  have w1: "world_ok w1" "solver_nodes w1 T1" using 1(2) by (simp_all add: grown_def)
  obtain acc w2 T2 where 2: "BoolConst False w1 = Inr (acc, w2)" "grown w1 T1 w2 T2" "acc \<in> T2" "esort acc = SortBool"
      "\<forall>\<rho> \<phi>. env_ok \<rho> \<longrightarrow> finterp_ok \<phi> \<longrightarrow> eval \<rho> \<phi> acc = VBool False"
    by (rule makes_boolE [OF BoolConst_makes_bool [OF w1]])
  have g2: "grown w S w2 T2" by (rule grown_trans [OF 1(2) 2(2)])
  have w2: "world_ok w2" "solver_nodes w2 T2" using 2(2) by (simp_all add: grown_def)
  have heap2: "ila_heap w2 = ila_heap w" using grown_heaps [OF g2] by simp
  have tree: "set (ila_tree w2 i) = set (ila_tree w i)" and tree': "ila_tree w2 i = ila_tree w i"
  proof -
    have cs: "child_ids w2 = child_ids w" using heap2 by (simp add: child_ids_def fun_eq_iff)
    have same: "ila_order n w2 = ila_order n w" for n
      by (induction n) (rule ext, simp add: cs)+
    have "counter w \<le> counter w2" using g2 by (simp add: grown_def same_heaps_def)
    then show "ila_tree w2 i = ila_tree w i"
      unfolding same by (intro ila_order_fuel [OF w(1)]) auto
    then show "set (ila_tree w2 i) = set (ila_tree w i)" by simp
  qed
  have ks: "GetInstrTree i w2 = Inr (?ks w, w2)"
    using GetInstrTree_run [OF w2(1), of i] i(1) heap2 tree' by simp
  have "\<forall>k\<in>set (?ks w). decodable T2 w2 k"
  proof
    fix k assume "k \<in> set (?ks w)"
    then obtain j where j: "j \<in> set (ila_tree w i)" "k \<in> set (vec (instrs (the (ila_heap w j))))" by auto
    obtain n where n: "ila_heap w j = Some n" "set_option (valid n) \<subseteq> S" "decodes_in S w (set (vec (instrs n)))"
        "\<forall>k\<in>set (vec (instrs n)). \<forall>x. instr_heap w k = Some x \<longrightarrow> i_host x = Some j"
      using i(2) j(1) unfolding checkable_def by blast
    have "k \<in> set (vec (instrs n))" using j(2) n(1) by simp
    then have "decodable S w k" using n unfolding decodes_in_def decodable_def by blast
    then show "decodable T2 w2 k" by (rule decodable_mono [OF _ g2])
  qed
  from acc_fold_makes [OF w2 2(3,4,5) this] obtain e w3 T3 where
    3: "foldM acc_decode acc (?ks w) w2 = Inr (e, w3)" "grown w2 T2 w3 T3" "e \<in> T3" "esort e = SortBool"
      "\<forall>\<rho> \<phi>. env_ok \<rho> \<longrightarrow> finterp_ok \<phi> \<longrightarrow> eval \<rho> \<phi> e = VBool (False \<or> (\<exists>k\<in>set (?ks w). enabled w2 \<rho> \<phi> k))"
    by (rule makes_boolE)
  have w3: "world_ok w3" "solver_nodes w3 T3" using 3(2) by (simp_all add: grown_def)
  obtain t where t: "GetExpr api w3 e [] = Inr t" "term_rel tsort den (z3_env w3 []) (z3_finterp w3 []) t e"
    by (rule GetExpr_run [OF w3 3(3)])
  let ?n = "mk_node w3 kNot SortBool [e] [] None"
  have heap3: "ila_heap (tick w3) = ila_heap w3" by simp
  have nodes: "solver_nodes (tick w3) (insert ?n T3)"
    by (rule bool_node_ready [OF w3(2)]) (use 3(3,4) in \<open>simp_all add: op_arity_def\<close>)
  have e_bool: "eval \<rho> \<phi> e = VBool (eval \<rho> \<phi> e = VBool True)" if "env_ok \<rho>" "finterp_ok \<phi>" for \<rho> \<phi>
    using 3(5) that by simp
  have n_val: "eval \<rho> \<phi> ?n = VBool (eval \<rho> \<phi> e \<noteq> VBool True)" if "env_ok \<rho>" "finterp_ok \<phi>" for \<rho> \<phi>
    using 3(5) that by (simp add: mk_node_def)
  have te: "tsort t = SortBool" "\<And>I. interp_ok I \<Longrightarrow> den I t = eval (z3_env w3 [] I) (z3_finterp w3 [] I) e"
    using t(2) 3(4) by (simp_all add: term_rel_def)
  obtain t' where t': "z_apply api z3_not [t] = Inr t'" "tsort t' = SortBool" "\<forall>I. den I t' = smt_sem Lnot [den I t]"
    using app_ok [of Lnot "[t]" SortBool] te(1) by auto
  have "term_rel tsort den (z3_env (tick w3) []) (z3_finterp (tick w3) []) t' ?n"
    unfolding heap_names [OF heap3] term_rel_def
  proof (intro conjI allI impI)
    fix I assume I: "interp_ok I"
    let ?\<rho> = "z3_env w3 [] I" and ?\<phi> = "z3_finterp w3 [] I"
    have ok: "env_ok ?\<rho>" "finterp_ok ?\<phi>" using z3_env_ok [OF I] by blast+
    obtain b where "eval ?\<rho> ?\<phi> e = VBool b" using e_bool [OF ok] by blast
    then show "den I t' = eval ?\<rho> ?\<phi> ?n" using n_val [OF ok] te(2) [OF I] t'(3) by simp
  qed (use t'(2) in simp)
  then have "z_check slv 0 [t'] = Sat \<longleftrightarrow> satisfiable [?n]"
    using w3(1) nodes by (intro query [of "tick w3" "insert ?n T3"] decides) auto
  moreover have "satisfiable [?n] \<longleftrightarrow> \<not> complete w (?ks w)"
  proof -
    have "eval \<rho> \<phi> ?n = VBool True \<longleftrightarrow> \<not> (\<exists>k\<in>set (?ks w). enabled w \<rho> \<phi> k)" if "env_ok \<rho>" "finterp_ok \<phi>" for \<rho> \<phi>
      using n_val [OF that] 3(5) that by (simp add: enabled_grown [OF g2])
    then show ?thesis unfolding satisfiable_def complete_def by (simp cong: conj_cong)
  qed
  ultimately have answer: "z_check slv 0 [t'] = Unsat \<longleftrightarrow> complete w (?ks w)"
    using decides [of 0 "[t']"] by (cases "z_check slv 0 [t']") auto
  have run: "SanityCheckAndFix api slv i w =
      (if z_check slv 0 [t'] = Unsat then Inr (?B, w3) else
        bindM (liftR (GetVar e)) (\<lambda>vars. bindM (the_ila i) (\<lambda>m.
        let clean = (\<forall>v\<in>set vars. find_state m (ename v) \<noteq> None \<or> find_input m (ename v) \<noteq> None) in
        thenM (if clean then bindM (NewInstr i ''PASS_ADD_DEFAULT_INSTR'') (\<lambda>k.
             bindM (LogicNot e) (\<lambda>d. set_decode k (Some d))) else ret ()) (ret False))) w3)"
    using m 1(1) 2(1) ks 3(1) t(1) t'(1)
    by (simp add: SanityCheckAndFix_def the_ila_def bindM_def)
  obtain m3 where m3: "ila_heap w3 i = Some m3" using grown_heaps [OF 3(2)] heap2 m by simp
  show ?thesis
  proof (cases "z_check slv 0 [t'] = Unsat")
    case True
    then show ?thesis using run answer by simp
  next
    case False
    obtain w4 where "bindM (NewInstr i ''PASS_ADD_DEFAULT_INSTR'') (\<lambda>k. bindM (LogicNot e) (\<lambda>d. set_decode k (Some d))) w3 = Inr ((), w4)"
      using repair_run [OF m3 _ 3(4)] by blast
    then show ?thesis
      using False answer m3 unfolding run GetVar_run Let_def by (simp add: the_ila_def bindM_def thenM_def)
  qed
qed

end

end
