(* ===== verification/Bmc_Sound.thy ===== *)
theory Bmc_Sound
  imports Legacy_Bmc Sanity_Sound
begin

text \<open>
  What the bounded check answers.  The reference is a pair of runs over one sequence of
  valuations, the same one for both ILAs: the names tell their variables apart.
\<close>

subsection \<open>The reference\<close>

text \<open>One step of an ILA: when it is valid, every decoded instruction gives the states their next
  values.  Nothing is said when no instruction is decoded.\<close>

definition flat_step :: "world \<Rightarrow> ila \<Rightarrow> finterp \<Rightarrow> env \<Rightarrow> env \<Rightarrow> bool" where
  "flat_step w m \<phi> \<rho> \<rho>' \<longleftrightarrow> (valid_holds \<rho> \<phi> m \<longrightarrow> (\<forall>k\<in>set (vec (instrs m)). decoded w \<rho> \<phi> k \<longrightarrow>
     (\<forall>s\<in>set (vec (states m)). eval \<rho>' \<phi> s = eval \<rho> \<phi> (next_state w k s))))"

definition flat_run :: "world \<Rightarrow> ila \<Rightarrow> nat \<Rightarrow> finterp \<Rightarrow> (nat \<Rightarrow> env) \<Rightarrow> bool" where
  "flat_run w m k \<phi> \<rho> \<longleftrightarrow> (\<forall>j<k. flat_step w m \<phi> (\<rho> j) (\<rho> (Suc j)))"

text \<open>The runs the solver is asked for: every state starts equal and ends different.\<close>

definition start_equal :: "ila \<Rightarrow> ila \<Rightarrow> finterp \<Rightarrow> env \<Rightarrow> bool" where
  "start_equal m0 m1 \<phi> \<rho> \<longleftrightarrow>
     (\<forall>s\<in>set (vec (states m0)). eval \<rho> \<phi> s = eval \<rho> \<phi> (the (find_state m1 (ename s))))
     \<and> (\<forall>v\<in>set (vec (inputs m0)). eval \<rho> \<phi> v = eval \<rho> \<phi> (the (find_input m1 (ename v))))"

definition end_different :: "ila \<Rightarrow> ila \<Rightarrow> finterp \<Rightarrow> env \<Rightarrow> env \<Rightarrow> bool" where
  "end_different m0 m1 \<phi> \<rho> \<rho>' \<longleftrightarrow>
     (\<forall>s\<in>set (vec (states m0)). eval \<rho> \<phi> s \<noteq> eval \<rho>' \<phi> (the (find_state m1 (ename s))))"

definition bmc_runs :: "world \<Rightarrow> bmc \<Rightarrow> ila \<Rightarrow> nat \<Rightarrow> ila \<Rightarrow> nat \<Rightarrow> finterp \<Rightarrow> (nat \<Rightarrow> env) \<Rightarrow> bool" where
  "bmc_runs w b m0 k0 m1 k1 \<phi> \<rho> \<longleftrightarrow> flat_run w m0 k0 \<phi> \<rho> \<and> flat_run w m1 k1 \<phi> \<rho>
     \<and> start_equal m0 m1 \<phi> (\<rho> 0) \<and> end_different m0 m1 \<phi> (\<rho> k0) (\<rho> k1)
     \<and> (\<forall>e\<in>set (b_inits b) \<union> set (b_invs b). eval (\<rho> 0) \<phi> e = VBool True)"

subsection \<open>What the check needs\<close>

definition flat_ready :: "expr set \<Rightarrow> world \<Rightarrow> nat \<Rightarrow> ila \<Rightarrow> bool" where
  "flat_ready S w i m \<longleftrightarrow> ila_heap w i = Some m \<and> (\<exists>v\<in>S. valid m = Some v) \<and> set (vec (states m)) \<subseteq> S
     \<and> (\<forall>k\<in>set (vec (instrs m)). \<exists>x d. instr_heap w k = Some x \<and> i_host x = Some i \<and> decode x = Some d \<and> d \<in> S
          \<and> (\<forall>s\<in>set (vec (states m)). next_state w k s \<in> S \<and> esort (next_state w k s) = esort s))"

definition paired :: "expr set \<Rightarrow> (string \<Rightarrow> expr option) \<Rightarrow> expr list \<Rightarrow> bool" where
  "paired S f es \<longleftrightarrow> (\<forall>e\<in>set es. e \<in> S \<and> (\<exists>e'\<in>S. f (ename e) = Some e' \<and> esort e' = esort e))"

definition bmc_ready :: "expr set \<Rightarrow> world \<Rightarrow> bmc \<Rightarrow> nat \<Rightarrow> ila \<Rightarrow> nat \<Rightarrow> ila \<Rightarrow> bool" where
  "bmc_ready S w b i0 m0 i1 m1 \<longleftrightarrow> flat_ready S w i0 m0 \<and> flat_ready S w i1 m1
     \<and> paired S (find_state m1) (vec (states m0)) \<and> paired S (find_input m1) (vec (inputs m0))
     \<and> (\<forall>e\<in>set (b_inits b) \<union> set (b_invs b). e \<in> S \<and> esort e = SortBool)"

lemma flat_readyD:
  assumes "flat_ready S w i m" "k \<in> set (vec (instrs m))"
  obtains x d where "instr_heap w k = Some x" "i_host x = Some i" "decode x = Some d" "d \<in> S"
    "\<forall>s\<in>set (vec (states m)). next_state w k s \<in> S" "\<forall>s\<in>set (vec (states m)). esort (next_state w k s) = esort s"
  using assms unfolding flat_ready_def by blast

lemma pairedD:
  assumes "paired S f es" "e \<in> set es"
  obtains e' where "e \<in> S" "f (ename e) = Some e'" "e' \<in> S" "esort e' = esort e"
  using assms unfolding paired_def by blast

text \<open>The runs depend on the values of the nodes only.\<close>

lemma flat_step_cong:
  assumes m: "flat_ready S w i m" and v: "\<forall>x\<in>S. eval \<rho> \<phi> x = eval \<sigma> \<psi> x" "\<forall>x\<in>S. eval \<rho>' \<phi> x = eval \<sigma>' \<psi> x"
  shows "flat_step w m \<phi> \<rho> \<rho>' = flat_step w m \<psi> \<sigma> \<sigma>'"
proof -
  obtain v where "valid m = Some v" "v \<in> S" using m by (auto simp: flat_ready_def)
  then have "valid_holds \<rho> \<phi> m = valid_holds \<sigma> \<psi> m" using v(1) by (simp add: valid_holds_def)
  moreover have "decoded w \<rho> \<phi> k = decoded w \<sigma> \<psi> k"
    "\<forall>s\<in>set (vec (states m)). (eval \<rho>' \<phi> s = eval \<rho> \<phi> (next_state w k s)) = (eval \<sigma>' \<psi> s = eval \<sigma> \<psi> (next_state w k s))"
    if k: "k \<in> set (vec (instrs m))" for k
  proof -
    obtain x d where x: "instr_heap w k = Some x" "decode x = Some d" "d \<in> S"
        "\<forall>s\<in>set (vec (states m)). next_state w k s \<in> S" using flat_readyD [OF m k] by metis
    then show "decoded w \<rho> \<phi> k = decoded w \<sigma> \<psi> k" using v(1) by (simp add: decoded_by)
    show "\<forall>s\<in>set (vec (states m)). (eval \<rho>' \<phi> s = eval \<rho> \<phi> (next_state w k s)) = (eval \<sigma>' \<psi> s = eval \<sigma> \<psi> (next_state w k s))"
      using x(4) v m by (simp add: flat_ready_def subset_iff)
  qed
  ultimately show ?thesis unfolding flat_step_def by simp
qed

lemma flat_run_cong:
  assumes m: "flat_ready S w i m" and v: "\<forall>j\<le>k. \<forall>x\<in>S. eval (\<rho> j) \<phi> x = eval (\<sigma> j) \<psi> x"
  shows "flat_run w m k \<phi> \<rho> = flat_run w m k \<psi> \<sigma>"
proof -
  have "flat_step w m \<phi> (\<rho> j) (\<rho> (Suc j)) = flat_step w m \<psi> (\<sigma> j) (\<sigma> (Suc j))" if "j < k" for j
    using v that by (intro flat_step_cong [OF m]) simp_all
  then show ?thesis by (simp add: flat_run_def)
qed

lemma bmc_runs_cong:
  assumes r: "bmc_ready S w b i0 m0 i1 m1" and v: "\<forall>j\<le>max k0 k1. \<forall>x\<in>S. eval (\<rho> j) \<phi> x = eval (\<sigma> j) \<psi> x"
  shows "bmc_runs w b m0 k0 m1 k1 \<phi> \<rho> = bmc_runs w b m0 k0 m1 k1 \<psi> \<sigma>"
proof -
  have m: "flat_ready S w i0 m0" "flat_ready S w i1 m1" using r by (simp_all add: bmc_ready_def)
  have "flat_run w m0 k0 \<phi> \<rho> = flat_run w m0 k0 \<psi> \<sigma>" "flat_run w m1 k1 \<phi> \<rho> = flat_run w m1 k1 \<psi> \<sigma>"
    using v by (intro flat_run_cong [OF m(1)] flat_run_cong [OF m(2)]; simp)+
  moreover
  have p: "paired S (find_state m1) (vec (states m0))" "paired S (find_input m1) (vec (inputs m0))"
    using r by (simp_all add: bmc_ready_def)
  have pair: "(eval (\<rho> i) \<phi> e = eval (\<rho> j) \<phi> (the (f (ename e)))) = (eval (\<sigma> i) \<psi> e = eval (\<sigma> j) \<psi> (the (f (ename e))))"
    if "paired S f es" "e \<in> set es" "i \<le> max k0 k1" "j \<le> max k0 k1" for f es e i j
    using v that(3,4) by - (rule pairedD [OF that(1,2)], simp)
  have "start_equal m0 m1 \<phi> (\<rho> 0) = start_equal m0 m1 \<psi> (\<sigma> 0)"
    unfolding start_equal_def using pair [OF p(1), of _ 0 0] pair [OF p(2), of _ 0 0] by simp
  moreover have "end_different m0 m1 \<phi> (\<rho> k0) (\<rho> k1) = end_different m0 m1 \<psi> (\<sigma> k0) (\<sigma> k1)"
    unfolding end_different_def using pair [OF p(1), of _ k0 k1] by simp
  moreover have "(\<forall>e\<in>set (b_inits b) \<union> set (b_invs b). eval (\<rho> 0) \<phi> e = VBool True) =
      (\<forall>e\<in>set (b_inits b) \<union> set (b_invs b). eval (\<sigma> 0) \<psi> e = VBool True)"
    using r v by (intro ball_cong refl) (simp add: bmc_ready_def)
  ultimately show ?thesis unfolding bmc_runs_def by argo
qed

subsection \<open>Terms with a meaning\<close>

definition means :: "('t \<Rightarrow> sort) \<Rightarrow> (interp \<Rightarrow> 't \<Rightarrow> val) \<Rightarrow> 't \<Rightarrow> (interp \<Rightarrow> bool) \<Rightarrow> bool" where
  "means tsort den t C \<longleftrightarrow> tsort t = SortBool \<and> (\<forall>I. interp_ok I \<longrightarrow> den I t = VBool (C I))"

definition all_mean :: "('t \<Rightarrow> sort) \<Rightarrow> (interp \<Rightarrow> 't \<Rightarrow> val) \<Rightarrow> 't list \<Rightarrow> (interp \<Rightarrow> bool) \<Rightarrow> bool" where
  "all_mean tsort den ts C \<longleftrightarrow> (\<forall>t\<in>set ts. tsort t = SortBool)
     \<and> (\<forall>I. interp_ok I \<longrightarrow> ((\<forall>t\<in>set ts. den I t = VBool True) \<longleftrightarrow> C I))"

lemma all_mean_Cons: "means tsort den t C \<Longrightarrow> all_mean tsort den ts D \<Longrightarrow> all_mean tsort den (t # ts) (\<lambda>I. C I \<and> D I)"
  by (auto simp: means_def all_mean_def)

lemma all_mean_append: "all_mean tsort den ts C \<Longrightarrow> all_mean tsort den us D \<Longrightarrow> all_mean tsort den (ts @ us) (\<lambda>I. C I \<and> D I)"
  by (auto simp: all_mean_def)

lemma all_mean_Nil: "all_mean tsort den [] (\<lambda>_. True)"
  by (simp add: all_mean_def)

text \<open>A fold that adds a conjunct for every element, and maps that collect assertions.\<close>

lemma fold_means:
  assumes "\<And>x c C. x \<in> set xs \<Longrightarrow> means tsort den c C \<Longrightarrow>
      \<exists>c'. f c x w = Inr (c', w) \<and> means tsort den c' (\<lambda>I. C I \<and> D x I)"
  shows "means tsort den c C \<Longrightarrow> \<exists>c'. foldM f c xs w = Inr (c', w) \<and> means tsort den c' (\<lambda>I. C I \<and> (\<forall>x\<in>set xs. D x I))"
  using assms
proof (induction xs arbitrary: c C)
  case Nil
  then show ?case by simp
next
  case (Cons x xs)
  obtain c' where c': "f c x w = Inr (c', w)" "means tsort den c' (\<lambda>I. C I \<and> D x I)"
    using Cons.prems(2) [OF _ Cons.prems(1), of x] by auto
  obtain r where r: "foldM f c' xs w = Inr (r, w)" "means tsort den r (\<lambda>I. (C I \<and> D x I) \<and> (\<forall>x\<in>set xs. D x I))"
    using Cons.IH [OF c'(2)] Cons.prems(2) by auto
  show ?case
    by (intro exI [of _ r]) (use c'(1) r in \<open>simp add: conj_assoc\<close>)
qed

lemma concat_means:
  assumes "\<And>x. x \<in> set xs \<Longrightarrow> \<exists>ts. f x w = Inr (ts, w) \<and> all_mean tsort den ts (D x)"
  shows "\<exists>tss. mapM f xs w = Inr (tss, w) \<and> all_mean tsort den (concat tss) (\<lambda>I. \<forall>x\<in>set xs. D x I)"
  using assms
proof (induction xs)
  case (Cons x xs)
  obtain ts where ts: "f x w = Inr (ts, w)" "all_mean tsort den ts (D x)" using Cons.prems by auto
  obtain tss where "mapM f xs w = Inr (tss, w)" "all_mean tsort den (concat tss) (\<lambda>I. \<forall>x\<in>set xs. D x I)"
    using Cons by auto
  with ts all_mean_append [OF ts(2)] show ?case by auto
qed (simp add: all_mean_Nil)

lemma map_means:
  assumes "\<And>x. x \<in> set xs \<Longrightarrow> \<exists>t. f x w = Inr (t, w) \<and> means tsort den t (D x)"
  shows "\<exists>ts. mapM f xs w = Inr (ts, w) \<and> all_mean tsort den ts (\<lambda>I. \<forall>x\<in>set xs. D x I)"
  using assms
proof (induction xs)
  case (Cons x xs)
  obtain t where t: "f x w = Inr (t, w)" "means tsort den t (D x)" using Cons.prems by auto
  obtain ts where "mapM f xs w = Inr (ts, w)" "all_mean tsort den ts (\<lambda>I. \<forall>x\<in>set xs. D x I)"
    using Cons by auto
  with t all_mean_Cons [OF t(2)] show ?case by auto
qed (simp add: all_mean_Nil)

text \<open>The connectives.\<close>

context z3_solver
begin

lemma true_means: "means tsort den (z_bool_val api True) (\<lambda>_. True)"
  using bool_ok by (simp add: means_def)

lemma and_means: "means tsort den a C \<Longrightarrow> means tsort den b D \<Longrightarrow> \<exists>t. z_apply api z3_and [a, b] = Inr t \<and> means tsort den t (\<lambda>I. C I \<and> D I)"
  using app_ok [of Land "[a, b]" SortBool] by (auto simp: means_def bool2_sort_def bool2_def)

lemma implies_means: "means tsort den a C \<Longrightarrow> means tsort den b D \<Longrightarrow> \<exists>t. Z3Implies api a b = Inr t \<and> means tsort den t (\<lambda>I. C I \<longrightarrow> D I)"
  using app_ok [of Limplies "[a, b]" SortBool] by (auto simp: means_def bool2_sort_def bool2_def Z3Implies_def)

lemma not_means: "means tsort den a C \<Longrightarrow> \<exists>t. z_apply api z3_not [a] = Inr t \<and> means tsort den t (\<lambda>I. \<not> C I)"
  using app_ok [of Lnot "[a]" SortBool] by (auto simp: means_def)

lemma or_means: "means tsort den a C \<Longrightarrow> means tsort den b D \<Longrightarrow> \<exists>t. z_apply api z3_or [a, b] = Inr t \<and> means tsort den t (\<lambda>I. C I \<or> D I)"
  using app_ok [of Lor "[a, b]" SortBool] by (auto simp: means_def bool2_sort_def bool2_def)

end

subsection \<open>The check\<close>

locale bmc_run = z3_solver api tsort den slv
  for api :: "'t z3_api" and tsort :: "'t \<Rightarrow> sort" and den :: "interp \<Rightarrow> 't \<Rightarrow> val" and slv :: "'t z3_solver" +
  fixes w :: world and S :: "expr set"
  assumes heap: "world_ok w" and nodes: "dag S" "\<forall>x\<in>S. z3_ready w x"
    and calls: "\<forall>x\<in>S. efunc x \<noteq> None \<longrightarrow> args x \<noteq> []"
begin

text \<open>The valuation at a step; functions do not depend on it.\<close>

abbreviation frame :: "interp \<Rightarrow> string \<Rightarrow> env" where "frame I sfx \<equiv> z3_env w sfx I"
abbreviation funcs :: "interp \<Rightarrow> finterp" where "funcs I \<equiv> z3_finterp w [] I"

lemma same_funcs:
  assumes "interp_ok I" "e \<in> S"
  shows "eval (frame I sfx) (z3_finterp w sfx' I) e = eval (frame I sfx) (funcs I) e"
  using nodes calls assms z3_env_ok [OF assms(1)]
  by (intro eval_agree [of S]) (auto simp: z3_ready_def z3_finterp_def)

lemma gen_run:
  assumes "e \<in> S"
  shows "\<exists>t. w_gen api e sfx w = Inr (t, w) \<and> tsort t = esort e \<and> (\<forall>I. interp_ok I \<longrightarrow> den I t = eval (frame I sfx) (funcs I) e)"
  using z3_GetExpr [OF z3_laws_axioms heap nodes assms, of sfx] same_funcs [OF _ assms, of _ sfx sfx]
  by (auto simp: w_gen_def term_rel_def)

lemma gen_means:
  assumes "e \<in> S" "esort e = SortBool"
  shows "\<exists>t. w_gen api e sfx w = Inr (t, w) \<and> means tsort den t (\<lambda>I. eval (frame I sfx) (funcs I) e = VBool True)"
proof -
  have "eval (frame I sfx) (funcs I) e = VBool (eval (frame I sfx) (funcs I) e = VBool True)" if "interp_ok I" for I
    using ready_bool_value [of w e] nodes(2) assms z3_env_ok [OF that] by blast
  then show ?thesis using gen_run [OF assms(1), of sfx] assms(2) by (auto simp: means_def)
qed

lemma equal_means:
  assumes "a \<in> S" "b \<in> S" "esort a = esort b"
  shows "\<exists>ta tb t. w_gen api a sa w = Inr (ta, w) \<and> w_gen api b sb w = Inr (tb, w) \<and> z_apply api z3_eq [ta, tb] = Inr t
    \<and> means tsort den t (\<lambda>I. eval (frame I sa) (funcs I) a = eval (frame I sb) (funcs I) b)"
proof -
  obtain ta where ta: "w_gen api a sa w = Inr (ta, w)" "tsort ta = esort a" "\<forall>I. interp_ok I \<longrightarrow> den I ta = eval (frame I sa) (funcs I) a"
    using gen_run [OF assms(1)] by blast
  obtain tb where tb: "w_gen api b sb w = Inr (tb, w)" "tsort tb = esort b" "\<forall>I. interp_ok I \<longrightarrow> den I tb = eval (frame I sb) (funcs I) b"
    using gen_run [OF assms(2)] by blast
  show ?thesis using app_ok [of Leq "[ta, tb]" SortBool] ta tb assms(3) by (auto simp: means_def same2_def)
qed

lemma w_equal_means:
  assumes "a \<in> S" "b \<in> S" "esort a = esort b"
  shows "\<exists>t. w_equal api a sa b sb w = Inr (t, w)
    \<and> means tsort den t (\<lambda>I. eval (frame I sa) (funcs I) a = eval (frame I sb) (funcs I) b)"
  using equal_means [OF assms, of sa sb] by (auto simp: w_equal_def)

lemma update_run:
  assumes "instr_heap w k = Some x"
  shows "\<exists>u. instr_update_var k s w = Inr (u, w) \<and> (case u of Some e \<Rightarrow> e | None \<Rightarrow> s) = next_state w k s"
  using assms by (auto simp: instr_update_var_def instr_update_def the_instr_def next_state_def bindM_def split: option.splits)

text \<open>One state, one instruction, one step.\<close>

lemma bmc_state_means:
  assumes m: "flat_ready S w i m" "k \<in> set (vec (instrs m))" "s \<in> set (vec (states m))"
    and c: "means tsort den c C"
  shows "\<exists>c'. bmc_state api k p q True c s w = Inr (c', w)
    \<and> means tsort den c' (\<lambda>I. C I \<and> eval (frame I q) (funcs I) s = eval (frame I p) (funcs I) (next_state w k s))"
proof -
  obtain x where x: "instr_heap w k = Some x" "next_state w k s \<in> S" "esort (next_state w k s) = esort s"
    using flat_readyD [OF m(1,2)] m(3) by metis
  obtain u where u: "instr_update_var k s w = Inr (u, w)" "(case u of Some e \<Rightarrow> e | None \<Rightarrow> s) = next_state w k s"
    using update_run [OF x(1), of s] by blast
  have "s \<in> S" using m(1,3) by (auto simp: flat_ready_def)
  from equal_means [OF this x(2) x(3) [symmetric], of q p] obtain ts tn t where
    t: "w_gen api s q w = Inr (ts, w)" "w_gen api (next_state w k s) p w = Inr (tn, w)" "z_apply api z3_eq [ts, tn] = Inr t"
      "means tsort den t (\<lambda>I. eval (frame I q) (funcs I) s = eval (frame I p) (funcs I) (next_state w k s))" by blast
  show ?thesis using and_means [OF c t(4)] u t(1-3) by (auto simp: bmc_state_def)
qed

lemma bmc_Instr_means:
  assumes m: "flat_ready S w i m" "k \<in> set (vec (instrs m))"
  shows "\<exists>t. bmc_Instr api k p q True w = Inr (t, w)
    \<and> means tsort den t (\<lambda>I. decoded w (frame I p) (funcs I) k \<longrightarrow>
        (\<forall>s\<in>set (vec (states m)). eval (frame I q) (funcs I) s = eval (frame I p) (funcs I) (next_state w k s)))"
proof -
  obtain x d where x: "instr_heap w k = Some x" "i_host x = Some i" "decode x = Some d" "d \<in> S"
    using flat_readyD [OF m] by metis
  have heap_i: "ila_heap w i = Some m" using m(1) by (simp add: flat_ready_def)
  let ?D = "\<lambda>s I. eval (frame I q) (funcs I) s = eval (frame I p) (funcs I) (next_state w k s)"
  have "\<exists>c. foldM (bmc_state api k p q True) (z_bool_val api True) (vec (states m)) w = Inr (c, w)
      \<and> means tsort den c (\<lambda>I. True \<and> (\<forall>s\<in>set (vec (states m)). ?D s I))"
    by (rule fold_means [OF _ true_means]) (rule bmc_state_means [OF m])
  then obtain c where c: "foldM (bmc_state api k p q True) (z_bool_val api True) (vec (states m)) w = Inr (c, w)"
      "means tsort den c (\<lambda>I. True \<and> (\<forall>s\<in>set (vec (states m)). ?D s I))" by blast
  obtain td where td: "w_gen api d p w = Inr (td, w)" "means tsort den td (\<lambda>I. eval (frame I p) (funcs I) d = VBool True)"
    using gen_means [OF x(4) decode_sort [OF heap x(1,3)]] by blast
  show ?thesis
    using implies_means [OF td(2) c(2)] x heap_i c(1) td(1)
    by (auto simp: bmc_Instr_def the_instr_def the_ila_def not_null_def decoded_by [OF x(1,3)])
qed

lemma IlaOneHotFlat_means:
  assumes m: "flat_ready S w i m"
  shows "\<exists>t. IlaOneHotFlat api i p q w = Inr (t, w) \<and> means tsort den t (\<lambda>I. flat_step w m (funcs I) (frame I p) (frame I q))"
proof -
  obtain v where v: "valid m = Some v" "v \<in> S" and heap_i: "ila_heap w i = Some m" using m by (auto simp: flat_ready_def)
  have "esort v = SortBool" using ila_local_of [OF heap heap_i] v(1) by (simp add: ila_local_def)
  from gen_means [OF v(2) this] obtain tv where
    tv: "w_gen api v p w = Inr (tv, w)" "means tsort den tv (\<lambda>I. eval (frame I p) (funcs I) v = VBool True)" by blast
  let ?f = "\<lambda>cnst k. bindM (bmc_Instr api k p q True) (\<lambda>instr_cnst. liftR (z_apply api z3_and [cnst, instr_cnst]))"
  let ?D = "\<lambda>k I. decoded w (frame I p) (funcs I) k \<longrightarrow>
        (\<forall>s\<in>set (vec (states m)). eval (frame I q) (funcs I) s = eval (frame I p) (funcs I) (next_state w k s))"
  have "\<exists>c. foldM ?f (z_bool_val api True) (vec (instrs m)) w = Inr (c, w)
      \<and> means tsort den c (\<lambda>I. True \<and> (\<forall>k\<in>set (vec (instrs m)). ?D k I))"
  proof (rule fold_means [OF _ true_means])
    fix k c C assume k: "k \<in> set (vec (instrs m))" and c: "means tsort den c C"
    obtain t where t: "bmc_Instr api k p q True w = Inr (t, w)" "means tsort den t (?D k)"
      using bmc_Instr_means [OF m k] by blast
    show "\<exists>c'. ?f c k w = Inr (c', w) \<and> means tsort den c' (\<lambda>I. C I \<and> ?D k I)"
      using and_means [OF c t(2)] t(1) by auto
  qed
  then obtain c where c: "foldM ?f (z_bool_val api True) (vec (instrs m)) w = Inr (c, w)"
      "means tsort den c (\<lambda>I. True \<and> (\<forall>k\<in>set (vec (instrs m)). ?D k I))" by blast
  show ?thesis
    using implies_means [OF tv(2) c(2)] c(1) tv(1) heap_i v(1)
    by (auto simp: IlaOneHotFlat_def the_ila_def not_null_def flat_step_def valid_holds_def)
qed

text \<open>The frames of a run are named with its steps.\<close>

abbreviation at_step :: "interp \<Rightarrow> nat \<Rightarrow> env" where "at_step I j \<equiv> frame I (int_to_string (int j))"

lemma UnrollCmplIla_means:
  assumes m: "flat_ready S w i m" and k: "0 < k"
  shows "\<exists>t. UnrollCmplIla api i (int k) 0 w = Inr (t, w) \<and> means tsort den t (\<lambda>I. flat_run w m k (funcs I) (at_step I))"
proof -
  let ?f = "\<lambda>cnst j. bindM (IlaOneHotFlat api i (int_to_string (0 + int j)) (int_to_string (0 + int j + 1)))
      (\<lambda>cnst_i. liftR (z_apply api z3_and [cnst_i, cnst]))"
  let ?D = "\<lambda>j I. flat_step w m (funcs I) (at_step I j) (at_step I (Suc j))"
  have "\<exists>c. foldM ?f (z_bool_val api True) [0..<k] w = Inr (c, w)
      \<and> means tsort den c (\<lambda>I. True \<and> (\<forall>j\<in>set [0..<k]. ?D j I))"
  proof (rule fold_means [OF _ true_means])
    fix j c C assume c: "means tsort den c C"
    obtain t where t: "IlaOneHotFlat api i (int_to_string (0 + int j)) (int_to_string (0 + int j + 1)) w = Inr (t, w)"
        "means tsort den t (?D j)"
      using IlaOneHotFlat_means [OF m, of "int_to_string (int j)" "int_to_string (int (Suc j))"] by (auto simp: add.commute)
    from and_means [OF t(2) c] show "\<exists>c'. ?f c j w = Inr (c', w) \<and> means tsort den c' (\<lambda>I. C I \<and> ?D j I)"
      unfolding conj_commute [of "C _"] using t(1) by auto
  qed
  moreover have "ila_heap w i = Some m" using m by (simp add: flat_ready_def)
  ultimately show ?thesis using k by (simp add: UnrollCmplIla_def the_ila_def flat_run_def Ball_def)
qed

text \<open>The assertions about the states, the inputs and the conditions of the user.\<close>

lemma zero_suffix: "''0'' = int_to_string (int 0)"
  by code_simp

lemma state_pair_means:
  assumes "paired S (find_state m1) (vec (states m0))" "s \<in> set (vec (states m0))"
  shows "\<exists>ts. bmc_state_pair api m1 (int k0) (int k1) s w = Inr (ts, w)
    \<and> all_mean tsort den ts (\<lambda>I. eval (at_step I 0) (funcs I) s = eval (at_step I 0) (funcs I) (the (find_state m1 (ename s)))
      \<and> eval (at_step I k0) (funcs I) s \<noteq> eval (at_step I k1) (funcs I) (the (find_state m1 (ename s))))"
proof -
  obtain s' where s: "s \<in> S" "find_state m1 (ename s) = Some s'" "s' \<in> S" "esort s' = esort s"
    by (rule pairedD [OF assms])
  note eqs = w_equal_means [OF s(1,3) s(4) [symmetric]]
  obtain t where t: "w_equal api s ''0'' s' ''0'' w = Inr (t, w)"
      "means tsort den t (\<lambda>I. eval (at_step I 0) (funcs I) s = eval (at_step I 0) (funcs I) s')"
    using eqs [of "''0''" "''0''"] unfolding zero_suffix by blast
  obtain u where u: "w_equal api s (int_to_string (int k0)) s' (int_to_string (int k1)) w = Inr (u, w)"
      "means tsort den u (\<lambda>I. eval (at_step I k0) (funcs I) s = eval (at_step I k1) (funcs I) s')"
    using eqs by blast
  obtain n where n: "z_apply api z3_not [u] = Inr n"
      "means tsort den n (\<lambda>I. eval (at_step I k0) (funcs I) s \<noteq> eval (at_step I k1) (funcs I) s')"
    using not_means [OF u(2)] by blast
  show ?thesis
    using all_mean_Cons [OF t(2) all_mean_Cons [OF n(2) all_mean_Nil]] s(2) t(1) u(1) n(1)
    by (simp add: bmc_state_pair_def not_null_def)
qed

lemma input_pair_means:
  assumes "paired S (find_input m1) (vec (inputs m0))" "v \<in> set (vec (inputs m0))"
  shows "\<exists>t. bmc_input_pair api m1 v w = Inr (t, w)
    \<and> means tsort den t (\<lambda>I. eval (at_step I 0) (funcs I) v = eval (at_step I 0) (funcs I) (the (find_input m1 (ename v))))"
proof -
  obtain v' where v: "v \<in> S" "find_input m1 (ename v) = Some v'" "v' \<in> S" "esort v' = esort v"
    by (rule pairedD [OF assms])
  show ?thesis
    using w_equal_means [OF v(1,3) v(4) [symmetric], of "''0''" "''0''"] v(2)
    by (auto simp: bmc_input_pair_def not_null_def zero_suffix)
qed

lemma conditions_mean:
  assumes "\<forall>e\<in>set es. e \<in> S \<and> esort e = SortBool"
  shows "\<exists>ts. mapM (\<lambda>e. w_gen api e ''0'') es w = Inr (ts, w)
    \<and> all_mean tsort den ts (\<lambda>I. \<forall>e\<in>set es. eval (at_step I 0) (funcs I) e = VBool True)"
  unfolding zero_suffix by (rule map_means) (use assms gen_means in blast)

text \<open>The query: a term for every part of the reference.\<close>

lemma bmc_query:
  assumes r: "bmc_ready S w b i0 m0 i1 m1" and k: "0 < k0" "0 < k1"
  shows "\<exists>ts. bmc_Check api slv b i0 (int k0) i1 (int k1) w = Inr (z_check slv 0 ts, w)
    \<and> all_mean tsort den ts (\<lambda>I. bmc_runs w b m0 k0 m1 k1 (funcs I) (at_step I))"
proof -
  have m: "flat_ready S w i0 m0" "flat_ready S w i1 m1" and p: "paired S (find_state m1) (vec (states m0))"
      "paired S (find_input m1) (vec (inputs m0))" and es: "\<forall>e\<in>set (b_inits b). e \<in> S \<and> esort e = SortBool"
      "\<forall>e\<in>set (b_invs b). e \<in> S \<and> esort e = SortBool"
    using r by (simp_all add: bmc_ready_def)
  have heap_ok: "ila_heap w i0 = Some m0" "ila_heap w i1 = Some m1" using m by (simp_all add: flat_ready_def)
  obtain c0 where c0: "UnrollCmplIla api i0 (int k0) 0 w = Inr (c0, w)"
      "means tsort den c0 (\<lambda>I. flat_run w m0 k0 (funcs I) (at_step I))" using UnrollCmplIla_means [OF m(1) k(1)] by blast
  obtain c1 where c1: "UnrollCmplIla api i1 (int k1) 0 w = Inr (c1, w)"
      "means tsort den c1 (\<lambda>I. flat_run w m1 k1 (funcs I) (at_step I))" using UnrollCmplIla_means [OF m(2) k(2)] by blast
  let ?D = "\<lambda>s I. eval (at_step I 0) (funcs I) s = eval (at_step I 0) (funcs I) (the (find_state m1 (ename s)))
        \<and> eval (at_step I k0) (funcs I) s \<noteq> eval (at_step I k1) (funcs I) (the (find_state m1 (ename s)))"
  have "\<exists>ss. mapM (bmc_state_pair api m1 (int k0) (int k1)) (vec (states m0)) w = Inr (ss, w)
      \<and> all_mean tsort den (concat ss) (\<lambda>I. \<forall>s\<in>set (vec (states m0)). ?D s I)"
    by (rule concat_means) (rule state_pair_means [OF p(1)])
  then obtain ss where ss: "mapM (bmc_state_pair api m1 (int k0) (int k1)) (vec (states m0)) w = Inr (ss, w)"
      "all_mean tsort den (concat ss) (\<lambda>I. \<forall>s\<in>set (vec (states m0)). ?D s I)" by blast
  let ?V = "\<lambda>v I. eval (at_step I 0) (funcs I) v = eval (at_step I 0) (funcs I) (the (find_input m1 (ename v)))"
  have "\<exists>vs. mapM (bmc_input_pair api m1) (vec (inputs m0)) w = Inr (vs, w)
      \<and> all_mean tsort den vs (\<lambda>I. \<forall>v\<in>set (vec (inputs m0)). ?V v I)"
    by (rule map_means) (rule input_pair_means [OF p(2)])
  then obtain vs where vs: "mapM (bmc_input_pair api m1) (vec (inputs m0)) w = Inr (vs, w)"
      "all_mean tsort den vs (\<lambda>I. \<forall>v\<in>set (vec (inputs m0)). ?V v I)" by blast
  obtain ts us where ts: "mapM (\<lambda>e. w_gen api e ''0'') (b_inits b) w = Inr (ts, w)"
      "all_mean tsort den ts (\<lambda>I. \<forall>e\<in>set (b_inits b). eval (at_step I 0) (funcs I) e = VBool True)"
      "mapM (\<lambda>e. w_gen api e ''0'') (b_invs b) w = Inr (us, w)"
      "all_mean tsort den us (\<lambda>I. \<forall>e\<in>set (b_invs b). eval (at_step I 0) (funcs I) e = VBool True)"
    using conditions_mean [OF es(1)] conditions_mean [OF es(2)] by blast
  let ?ts = "[c0, c1] @ concat ss @ vs @ ts @ us"
  have "bmc_Check api slv b i0 (int k0) i1 (int k1) w = Inr (z_check slv 0 ?ts, w)"
    using c0(1) c1(1) ss(1) vs(1) ts(1,3) heap_ok by (simp add: bmc_Check_def the_ila_def)
  moreover
  have same: "(\<lambda>I. bmc_runs w b m0 k0 m1 k1 (funcs I) (at_step I)) =
      (\<lambda>I. flat_run w m0 k0 (funcs I) (at_step I) \<and> flat_run w m1 k1 (funcs I) (at_step I)
        \<and> (\<forall>s\<in>set (vec (states m0)). ?D s I) \<and> (\<forall>v\<in>set (vec (inputs m0)). ?V v I)
        \<and> (\<forall>e\<in>set (b_inits b). eval (at_step I 0) (funcs I) e = VBool True)
        \<and> (\<forall>e\<in>set (b_invs b). eval (at_step I 0) (funcs I) e = VBool True))"
    by (rule ext) (unfold bmc_runs_def start_equal_def end_different_def ball_Un ball_conj_distrib, argo)
  have "all_mean tsort den ?ts (\<lambda>I. bmc_runs w b m0 k0 m1 k1 (funcs I) (at_step I))"
    unfolding same append_Cons append_Nil
    by (intro all_mean_Cons all_mean_append c0(2) c1(2) ss(2) vs(2) ts(2,4))
  ultimately show ?thesis by (intro exI [of _ ?ts] conjI)
qed

lemma bmc_Check_run:
  assumes r: "bmc_ready S w b i0 m0 i1 m1" and k: "0 < k0" "0 < k1"
    and apart: "apart_at w (\<lambda>j. int_to_string (int j)) (max k0 k1) S"
    and decides: "\<And>n ts. z_check slv n ts \<noteq> Unknown"
  shows "\<exists>r. bmc_Check api slv b i0 (int k0) i1 (int k1) w = Inr (r, w)
    \<and> (r = Sat \<longleftrightarrow> (\<exists>\<rho> \<phi>. (\<forall>j. env_ok (\<rho> j)) \<and> finterp_ok \<phi> \<and> bmc_runs w b m0 k0 m1 k1 \<phi> \<rho>))"
    (is "\<exists>r. _ \<and> (_ \<longleftrightarrow> ?R)")
proof -
  obtain ts where run: "bmc_Check api slv b i0 (int k0) i1 (int k1) w = Inr (z_check slv 0 ts, w)"
      and query: "all_mean tsort den ts (\<lambda>I. bmc_runs w b m0 k0 m1 k1 (funcs I) (at_step I))"
    using bmc_query [OF r k] by blast
  have sorts: "\<forall>t\<in>set ts. tsort t = SortBool" and vals: "\<And>I. interp_ok I \<Longrightarrow>
      (\<forall>t\<in>set ts. den I t = VBool True) = bmc_runs w b m0 k0 m1 k1 (funcs I) (at_step I)"
    using query unfolding all_mean_def by (blast, metis)
  have yes: "?R" if sat: "z_check slv 0 ts = Sat"
  proof -
    obtain I where "interp_ok I" "\<forall>t\<in>set ts. den I t = VBool True"
      using sat_ok [OF sat sorts] by blast
    then have "bmc_runs w b m0 k0 m1 k1 (funcs I) (at_step I)" "\<forall>j. env_ok (at_step I j)" "finterp_ok (funcs I)"
      using vals z3_env_ok by blast+
    then show ?thesis by (intro exI [of _ "at_step I"] exI [of _ "funcs I"] conjI)
  qed
  have no: "\<not> ?R" if u: "z_check slv 0 ts = Unsat"
  proof
    assume ?R
    then obtain \<rho> \<phi> where ok: "\<forall>j. env_ok (\<rho> j)" "finterp_ok \<phi>" and hold: "bmc_runs w b m0 k0 m1 k1 \<phi> \<rho>"
      by (elim exE conjE)
    let ?I = "realise_at w (\<lambda>j. int_to_string (int j)) (max k0 k1) S \<rho> \<phi>"
    have I: "interp_ok ?I" by (rule realise_at_ok [OF ok])
    have smt: "\<forall>x\<in>S. smt_expr x" using nodes(2) by (simp add: z3_ready_def)
    have "eval (at_step ?I j) (funcs ?I) x = eval (\<rho> j) \<phi> x" if "j \<le> max k0 k1" "x \<in> S" for j x
      by (rule trans [OF same_funcs [OF I that(2), symmetric] realise_at_agree [OF nodes(1) smt ok apart that]])
    then have agree: "\<forall>j\<le>max k0 k1. \<forall>x\<in>S. eval (at_step ?I j) (funcs ?I) x = eval (\<rho> j) \<phi> x"
      by (intro allI impI ballI)
    from hold have "bmc_runs w b m0 k0 m1 k1 (funcs ?I) (at_step ?I)"
      unfolding bmc_runs_cong [OF r agree] .
    with vals [OF I] unsat_ok [OF u sorts I] show False by metis
  qed
  have "z_check slv 0 ts = Sat \<longleftrightarrow> ?R"
  proof (cases "z_check slv 0 ts")
    case Sat
    show ?thesis by (rule iffI [OF yes Sat])
  next
    case Unsat
    then show ?thesis by (simp only: no check_result.distinct simp_thms)
  qed (use decides in simp)
  with run show ?thesis by (intro exI [of _ "z_check slv 0 ts"] conjI)
qed

end

end
