(* ===== verification/Json.thy ===== *)
theory Json
  imports Containers Str_Util
begin

text \<open>
  The values of the JSON library under \<^verbatim>\<open>extern/json\<close>, as far as the portable format of
  ILAs uses them.  An object is a \<^verbatim>\<open>std::map\<close>, kept in the order of its keys; a number is an
  integer (a floating point number is never written, and none is read here).
\<close>

subsection \<open>Values\<close>

datatype json =
    JNull
  | JBool bool
  | JNum int
  | JStr string
  | JArr "json list"
  | JObj "(string \<times> json) list"

definition type_error :: fault where
  "type_error = Thrown ''type_error''"

definition out_of_range :: fault where
  "out_of_range = Thrown ''out_of_range''"

text \<open>\<^verbatim>\<open>at\<close> of an object and of an array.\<close>

fun j_at :: "string \<Rightarrow> json \<Rightarrow> json res" where
  "j_at k (JObj m) = (case map_of m k of Some v \<Rightarrow> Inr v | None \<Rightarrow> Inl out_of_range)"
| "j_at k j = Inl type_error"

fun j_index :: "nat \<Rightarrow> json \<Rightarrow> json res" where
  "j_index i (JArr xs) = (if i < length xs then Inr (xs ! i) else Inl out_of_range)"
| "j_index i j = Inl type_error"

text \<open>\<^verbatim>\<open>find\<close> of a key: the end iterator when there is none, and for every other type.\<close>

fun j_find :: "string \<Rightarrow> json \<Rightarrow> json option" where
  "j_find k (JObj m) = map_of m k"
| "j_find k j = None"

text \<open>\<^verbatim>\<open>emplace\<close> and \<^verbatim>\<open>push_back\<close> turn a null value into an object or an array.\<close>

fun j_emplace :: "string \<Rightarrow> json \<Rightarrow> json \<Rightarrow> json res" where
  "j_emplace k v JNull = Inr (JObj [(k, v)])"
| "j_emplace k v (JObj m) = Inr (JObj (omap_emplace str_less k v m))"
| "j_emplace k v j = Inl type_error"

fun j_push_back :: "json \<Rightarrow> json \<Rightarrow> json res" where
  "j_push_back v JNull = Inr (JArr [v])"
| "j_push_back v (JArr xs) = Inr (JArr (xs @ [v]))"
| "j_push_back v j = Inl type_error"

fun j_size :: "json \<Rightarrow> nat" where
  "j_size JNull = 0"
| "j_size (JArr xs) = length xs"
| "j_size (JObj m) = length m"
| "j_size j = 1"

text \<open>The values a range-based loop visits: a primitive value is its own only element.\<close>

fun j_elems :: "json \<Rightarrow> json list" where
  "j_elems JNull = []"
| "j_elems (JArr xs) = xs"
| "j_elems (JObj m) = map snd m"
| "j_elems j = [j]"

text \<open>\<^verbatim>\<open>items()\<close>: keys and values; the key of an array element is its index.\<close>

fun j_items :: "json \<Rightarrow> (string \<times> json) list" where
  "j_items JNull = []"
| "j_items (JArr xs) = zip (map to_string [0..<length xs]) xs"
| "j_items (JObj m) = m"
| "j_items j = [([], j)]"

text \<open>\<^verbatim>\<open>get<T>\<close> for the types that are asked for.\<close>

fun get_uint64 :: "json \<Rightarrow> u64 res" where
  "get_uint64 (JNum i) = Inr (word_of_int i)"
| "get_uint64 j = Inl type_error"

fun get_int :: "json \<Rightarrow> int res" where
  "get_int (JNum i) = Inr (to_int32 i)"
| "get_int (JBool b) = Inr (if b then 1 else 0)"
| "get_int j = Inl type_error"

fun get_bool :: "json \<Rightarrow> bool res" where
  "get_bool (JBool b) = Inr b"
| "get_bool j = Inl type_error"

fun get_string :: "json \<Rightarrow> string res" where
  "get_string (JStr s) = Inr s"
| "get_string j = Inl type_error"

text \<open>An identifier, which is a \<^verbatim>\<open>size_t\<close>.\<close>

definition get_id :: "json \<Rightarrow> nat res" where
  "get_id j = bindR (get_uint64 j) (\<lambda>v. Inr (unat v))"

subsection \<open>Objects\<close>

text \<open>\<^verbatim>\<open>json::object()\<close> followed by calls of \<^verbatim>\<open>emplace\<close>.\<close>

definition obj_of :: "(string \<times> json) list \<Rightarrow> json" where
  "obj_of kvs = JObj (fold (\<lambda>(k, v) m. omap_emplace str_less k v m) kvs [])"

lemma obj_fold:
  "omap_ok str_less m \<Longrightarrow>
   omap_ok str_less (fold (\<lambda>(k, v) m. omap_emplace str_less k v m) kvs m)
   \<and> map_of (fold (\<lambda>(k, v) m. omap_emplace str_less k v m) kvs m) = map_of kvs ++ map_of m"
proof (induction kvs arbitrary: m)
  case (Cons p kvs)
  obtain k v where p: "p = (k, v)" by (cases p)
  have "omap_ok str_less (omap_emplace str_less k v m)" by (rule omap_ok_emplace) (use Cons.prems in auto)
  moreover have "map_of (omap_emplace str_less k v m) = (if map_of m k = None then (map_of m)(k \<mapsto> v) else map_of m)"
    by (rule omap_emplace_lookup) (use Cons.prems in auto)
  ultimately show ?case
    using Cons.IH [of "omap_emplace str_less k v m"]
    by (auto simp: p fun_eq_iff map_add_def split: option.splits)
qed simp

lemma j_at_obj: "j_at k (obj_of kvs) = (case map_of kvs k of Some v \<Rightarrow> Inr v | None \<Rightarrow> Inl out_of_range)"
  using obj_fold [of "[]" kvs] by (simp add: obj_of_def)

lemma j_find_obj: "j_find k (obj_of kvs) = map_of kvs k"
  using obj_fold [of "[]" kvs] by (simp add: obj_of_def)

lemma get_id_num [simp]: "n < 2 ^ 64 \<Longrightarrow> get_id (JNum (int n)) = Inr n"
  by (simp add: get_id_def unat_of_nat)

lemma get_uint64_num [simp]: "get_uint64 (JNum (uint v)) = Inr v"
  by simp

lemma get_int_num: "- (2 ^ 31) \<le> i \<Longrightarrow> i < 2 ^ 31 \<Longrightarrow> get_int (JNum i) = Inr i"
  by (simp add: to_int32_id)

text \<open>The parts of a value are smaller than the value.\<close>

lemma fields_size: "(k, v) \<in> set m \<Longrightarrow> size v \<le> size_list (size_prod (\<lambda>x. 0) size) m"
  by (induction m) auto

lemma j_elems_size: "x \<in> set (j_elems j) \<Longrightarrow> size x \<le> size j"
proof (cases j)
  case (JArr xs)
  then show "x \<in> set (j_elems j) \<Longrightarrow> size x \<le> size j"
    by (auto dest: size_list_estimation' [of _ _ _ size])
next
  case (JObj m)
  then show "x \<in> set (j_elems j) \<Longrightarrow> size x \<le> size j"
    using fields_size [of _ x m] by fastforce
qed auto

lemma j_at_size: "j_at k j = Inr v \<Longrightarrow> size v < size j"
proof (cases j)
  case (JObj m)
  then show "j_at k j = Inr v \<Longrightarrow> size v < size j"
    using fields_size [of k v m] by (auto split: option.splits dest: map_of_SomeD)
qed auto

end
