(* ===== verification/Ila_Json.thy ===== *)
theory Ila_Json
  imports Json Ila
begin

text \<open>
  The portable format: \<^verbatim>\<open>I2JSer\<close> writes a hierarchy of ILAs as a JSON value
  (\<^verbatim>\<open>src/target-json/ila_to_json_serializer.cc\<close>) and \<^verbatim>\<open>J2IDes\<close> builds a hierarchy from one
  (\<^verbatim>\<open>json_to_ila_deserializer.cc\<close>).  The serializer reads the objects of a world and changes
  nothing but its own tables; the deserializer runs in a world in which it creates objects.
\<close>

subsection \<open>The serializer\<close>

record ser =
  id_idx :: "nat \<rightharpoonup> nat"
  func_idx :: "nat \<rightharpoonup> nat"
  j_expr_arr :: json
  j_func_arr :: json

type_synonym 'a S = "(ser, 'a) action"

definition I2JSer_New :: ser where
  "I2JSer_New = \<lparr>id_idx = Map.empty, func_idx = Map.empty, j_expr_arr = JNull, j_func_arr = JNull\<rparr>"

text \<open>\<^verbatim>\<open>ExprTypeId\<close>\<close>

definition kVar :: nat where "kVar = 1"
definition kConst :: nat where "kConst = 2"
definition kOp :: nat where "kOp = 3"

definition GetUidExpr :: "expr \<Rightarrow> nat" where
  "GetUidExpr e = (if is_var e then kVar else if is_op e then kOp else kConst)"

fun SerSort :: "sort \<Rightarrow> json" where
  "SerSort (SortBv w) = obj_of [(''u'', JNum (int (sort_uid (SortBv w)))), (''w'', JNum w)]"
| "SerSort (SortMem a d) =
     obj_of [(''u'', JNum (int (sort_uid (SortMem a d)))), (''a'', JNum a), (''d'', JNum d)]"
| "SerSort SortBool = obj_of [(''u'', JNum (int (sort_uid SortBool)))]"

definition func_json :: "func \<Rightarrow> json" where
  "func_json g = obj_of [(''i'', JNum (int (sym_id (f_sym g)))), (''n'', JStr (sym_name (f_sym g))),
     (''o'', SerSort (f_out g)), (''a'', JArr (map SerSort (f_args g)))]"

text \<open>No entry is ever added to the table of functions.\<close>

definition SerFunc :: "func \<Rightarrow> json S" where
  "SerFunc g =
     bindM (gets func_idx) (\<lambda>tbl. bindM (gets j_func_arr) (\<lambda>arr.
     case tbl (sym_id (f_sym g)) of
       Some i \<Rightarrow> liftR (j_index i arr)
     | None \<Rightarrow>
         bindM (liftR (j_push_back (func_json g) arr)) (\<lambda>arr'.
         thenM (modify (\<lambda>s. s\<lparr>j_func_arr := arr'\<rparr>)) (ret (func_json g)))))"

definition SerConstVal :: "expr \<Rightarrow> json res" where
  "SerConstVal e =
     (if is_bool (esort e) then bindR (val_bool e) (\<lambda>b. Inr (obj_of [(''v'', JBool b)]))
      else if is_bv (esort e) 0 then bindR (val_bv e) (\<lambda>v. Inr (obj_of [(''v'', JNum (uint v))]))
      else bindR (val_mem e) (\<lambda>(def, m). Inr (obj_of [(''d'', JNum (uint def)),
        (''m'', obj_of (map (\<lambda>(a, d). (to_string (unat a), JNum (uint d))) m))])))"

text \<open>The fields after the identifier and the kind of a node.\<close>

fun expr_fields :: "expr \<Rightarrow> (string \<times> json) list S" where
  "expr_fields (ExprVar y s h) = ret [(''s'', SerSort s), (''n'', JStr (sym_name y))]"
| "expr_fields (ExprConst y s v) =
     bindM (liftR (SerConstVal (ExprConst y s v))) (\<lambda>j. ret [(''s'', SerSort s), (''v'', j)])"
| "expr_fields (ExprOp y u s as ps f h) =
     (let fields = [(''o'', JNum (int (uid_num u))), (''a'', JArr (map (\<lambda>a. JNum (int (eid a))) as)),
        (''p'', JArr (map JNum ps))]
      in if u = kApplyFunc then
           bindM (ila_not_null f) (\<lambda>g.
           bindM (SerFunc g) (\<lambda>j_func.
           bindM (liftR (bindR (j_at ''i'' j_func) get_id)) (\<lambda>i. ret (fields @ [(''f'', JNum (int i))]))))
         else ret fields)"

definition SerExprUnit :: "expr \<Rightarrow> json S" where
  "SerExprUnit e =
     bindM (gets id_idx) (\<lambda>tbl.
     case tbl (eid e) of
       Some i \<Rightarrow> bindM (gets j_expr_arr) (\<lambda>arr. liftR (j_index i arr))
     | None \<Rightarrow>
         bindM (expr_fields e) (\<lambda>fields.
         let j_expr = obj_of ([(''i'', JNum (int (eid e))), (''u'', JNum (int (GetUidExpr e)))] @ fields) in
         bindM (gets j_expr_arr) (\<lambda>arr.
         bindM (liftR (j_push_back j_expr arr)) (\<lambda>arr'.
         thenM (modify (\<lambda>s. s\<lparr>id_idx := (id_idx s)(eid e \<mapsto> j_size arr), j_expr_arr := arr'\<rparr>))
               (ret j_expr)))))"

definition SerExpr :: "expr option \<Rightarrow> json S" where
  "SerExpr p =
     bindM (ila_not_null p) (\<lambda>e.
     thenM (DepthFirstVisit (\<lambda>x. bindM (SerExprUnit x) (\<lambda>_. ret ())) e)
    (bindM (gets id_idx) (\<lambda>tbl.
     thenM (ila_assert (tbl (eid e) \<noteq> None) ''Fail Ser'')
    (bindM (ila_not_null (tbl (eid e))) (\<lambda>i.
     bindM (gets j_expr_arr) (\<lambda>arr. liftR (j_index i arr)))))))"

text \<open>The identifier of a serialized expression.\<close>

definition SerExpr_id :: "expr option \<Rightarrow> json S" where
  "SerExpr_id p = bindM (SerExpr p) (\<lambda>j. bindM (liftR (bindR (j_at ''i'' j) get_id)) (\<lambda>i. ret (JNum (int i))))"

text \<open>Reading the objects of the world.\<close>

definition look :: "world \<Rightarrow> 'a W \<Rightarrow> 'a S" where
  "look w m = (\<lambda>s. case m w of Inl x \<Rightarrow> Inl x | Inr (a, _) \<Rightarrow> Inr (a, s))"

definition SerInstr :: "world \<Rightarrow> nat \<Rightarrow> json S" where
  "SerInstr w k =
     bindM (look w (the_instr k)) (\<lambda>x.
     bindM (SerExpr_id (decode x)) (\<lambda>j_decode.
     bindM (ila_not_null (i_host x)) (\<lambda>h.
     bindM (look w (the_ila h)) (\<lambda>m.
     bindM (mapM (\<lambda>i_state.
       bindM (look w (instr_update_var k i_state)) (\<lambda>i_next.
       bindM (SerExpr_id (Some (case i_next of Some e \<Rightarrow> e | None \<Rightarrow> i_state))) (\<lambda>j_next.
       ret (ename i_state, j_next)))) (vec (states m))) (\<lambda>upd.
     ret (obj_of [(''n'', JStr (sym_name (i_sym x))), (''d'', j_decode), (''u'', obj_of upd)]))))))"

text \<open>The recursion over the children; the fuel is its depth.\<close>

fun SerInstrLvlAbsNoAst :: "world \<Rightarrow> nat \<Rightarrow> nat \<Rightarrow> json S" where
  "SerInstrLvlAbsNoAst w 0 i = fail OutOfFuel"
| "SerInstrLvlAbsNoAst w (Suc n) i =
     bindM (look w (the_ila i)) (\<lambda>m.
     bindM (mapM (\<lambda>v. SerExpr_id (Some v)) (vec (inputs m))) (\<lambda>j_inp_arr.
     bindM (mapM (\<lambda>v. SerExpr_id (Some v)) (vec (states m))) (\<lambda>j_state_arr.
     bindM (case fetch m of None \<Rightarrow> ret [] | Some f \<Rightarrow> bindM (SerExpr_id (Some f)) (\<lambda>j. ret [(''f'', j)])) (\<lambda>j_fetch.
     bindM (SerExpr_id (valid m)) (\<lambda>j_valid.
     bindM (mapM (SerInstr w) (vec (instrs m))) (\<lambda>j_instr_arr.
     bindM (mapM (\<lambda>c. SerExpr_id (Some c)) (inits m)) (\<lambda>j_init_arr.
     bindM (mapM (SerInstrLvlAbsNoAst w n) (vec (childs m))) (\<lambda>j_child_arr.
     ret (obj_of ([(''n'', JStr (sym_name (m_sym m))), (''i'', JArr j_inp_arr), (''s'', JArr j_state_arr)] @ j_fetch
       @ [(''v'', j_valid), (''instr'', JArr j_instr_arr), (''init'', JArr j_init_arr), (''c'', JArr j_child_arr)]))))))))))"

definition SerInstrLvlAbs :: "world \<Rightarrow> nat \<Rightarrow> json S" where
  "SerInstrLvlAbs w i =
     bindM (SerInstrLvlAbsNoAst w (Suc (counter w)) i) (\<lambda>j_top.
     bindM (gets j_expr_arr) (\<lambda>es. bindM (gets j_func_arr) (\<lambda>fs.
     ret (obj_of [(''t'', j_top), (''a'', es), (''f'', fs)]))))"

definition Serialize :: "world \<Rightarrow> nat \<Rightarrow> json res" where
  "Serialize w i = bindR (SerInstrLvlAbs w i I2JSer_New) (\<lambda>(j, _). Inr j)"

subsection \<open>The deserializer\<close>

record des =
  d_world :: world
  id_expr :: "nat \<rightharpoonup> expr"
  id_func :: "nat \<rightharpoonup> func"
  ila_name_ptr :: "string \<rightharpoonup> nat"

type_synonym 'a D = "(des, 'a) action"

definition J2IDes_New :: "world \<Rightarrow> des" where
  "J2IDes_New w = \<lparr>d_world = w, id_expr = Map.empty, id_func = Map.empty, ila_name_ptr = Map.empty\<rparr>"

definition build :: "'a W \<Rightarrow> 'a D" where
  "build m = (\<lambda>d. case m (d_world d) of Inl x \<Rightarrow> Inl x | Inr (a, w) \<Rightarrow> Inr (a, d\<lparr>d_world := w\<rparr>))"

abbreviation field :: "string \<Rightarrow> json \<Rightarrow> json D" where
  "field k j \<equiv> liftR (j_at k j)"

abbreviation id_field :: "string \<Rightarrow> json \<Rightarrow> nat D" where
  "id_field k j \<equiv> liftR (bindR (j_at k j) get_id)"

abbreviation int_field :: "string \<Rightarrow> json \<Rightarrow> int D" where
  "int_field k j \<equiv> liftR (bindR (j_at k j) get_int)"

abbreviation name_field :: "string \<Rightarrow> json \<Rightarrow> string D" where
  "name_field k j \<equiv> liftR (bindR (j_at k j) get_string)"

text \<open>The switch over the kind of a sort; an unknown kind gives a null pointer.\<close>

definition sort_switch :: "json \<Rightarrow> 'a D \<Rightarrow> (int \<Rightarrow> 'a D) \<Rightarrow> (int \<Rightarrow> int \<Rightarrow> 'a D) \<Rightarrow> 'a option D" where
  "sort_switch j_sort on_bool on_bv on_mem =
     bindM (id_field ''u'' j_sort) (\<lambda>u.
     if u = sort_uid SortBool then bindM on_bool (\<lambda>a. ret (Some a))
     else if u = sort_uid (SortBv 0) then
       bindM (int_field ''w'' j_sort) (\<lambda>w. bindM (on_bv w) (\<lambda>a. ret (Some a)))
     else if u = sort_uid (SortMem 0 0) then
       bindM (int_field ''a'' j_sort) (\<lambda>aw. bindM (int_field ''d'' j_sort) (\<lambda>dw.
       bindM (on_mem aw dw) (\<lambda>a. ret (Some a))))
     else ret None)"

definition DesSort :: "json \<Rightarrow> sort option D" where
  "DesSort j_sort = sort_switch j_sort (ret SortBool) (\<lambda>w. ret (SortBv w)) (\<lambda>a d. ret (SortMem a d))"

text \<open>A function with a sort of an unknown kind is a fault here; the code keeps the null pointer
  and fails where the sort is looked at.\<close>

definition DesFunc :: "json \<Rightarrow> func D" where
  "DesFunc j_func =
     bindM (id_field ''i'' j_func) (\<lambda>i.
     bindM (gets id_func) (\<lambda>tbl.
     case tbl i of
       Some g \<Rightarrow> ret g
     | None \<Rightarrow>
         bindM (name_field ''n'' j_func) (\<lambda>name.
         bindM (field ''o'' j_func) (\<lambda>j_out.
         bindM (DesSort j_out) (\<lambda>out.
         bindM (field ''a'' j_func) (\<lambda>j_args.
         bindM (mapM DesSort (j_elems j_args)) (\<lambda>as.
         bindM (ila_not_null out) (\<lambda>out.
         bindM (mapM ila_not_null as) (\<lambda>as.
         bindM (build (Func_New name out as)) (\<lambda>g.
         thenM (modify (\<lambda>d. d\<lparr>id_func := (id_func d)(i \<mapsto> g)\<rparr>)) (ret g)))))))))))"

definition DesExprState :: "json \<Rightarrow> string \<Rightarrow> nat \<Rightarrow> expr option D" where
  "DesExprState j_sort name h = sort_switch j_sort (build (NewBoolState h name))
     (\<lambda>w. build (NewBvState h name w)) (\<lambda>a d. build (NewMemState h name a d))"

definition DesExprInput :: "json \<Rightarrow> string \<Rightarrow> nat \<Rightarrow> expr option D" where
  "DesExprInput j_sort name h = sort_switch j_sort (build (NewBoolInput h name))
     (\<lambda>w. build (NewBvInput h name w)) (\<lambda>a d. build (NewMemInput h name a d))"

definition DesExprConst :: "json \<Rightarrow> json \<Rightarrow> expr option D" where
  "DesExprConst j_sort j_val = sort_switch j_sort
     (bindM (liftR (bindR (j_at ''v'' j_val) get_bool)) (\<lambda>b. build (BoolConst b)))
     (\<lambda>w. bindM (liftR (bindR (j_at ''v'' j_val) get_uint64)) (\<lambda>v. build (BvConst v w)))
     (\<lambda>a d. bindM (liftR (bindR (j_at ''d'' j_val) get_uint64)) (\<lambda>def.
        bindM (field ''m'' j_val) (\<lambda>j_map.
        bindM (foldM (\<lambda>m (addr_str, j). bindM (liftR (get_uint64 j)) (\<lambda>data.
          ret (omap_put (<) (StrToULongLong addr_str 10) data m))) [] (j_items j_map)) (\<lambda>m.
        build (MemConst def m a d)))))"

text \<open>The arguments by their identifiers.\<close>

definition des_args :: "json \<Rightarrow> expr list D" where
  "des_args j_arg_arr = mapM (\<lambda>j.
     bindM (liftR (get_id j)) (\<lambda>i. bindM (gets id_expr) (\<lambda>tbl.
     thenM (ila_assert (tbl i \<noteq> None) ''Missing arg'') (ila_not_null (tbl i))))) (j_elems j_arg_arr)"

definition op1 :: "(expr \<Rightarrow> expr W) \<Rightarrow> expr list \<Rightarrow> expr option D" where
  "op1 mk as = bindM (liftR (at as 0)) (\<lambda>a. bindM (build (mk a)) (\<lambda>e. ret (Some e)))"

definition op2 :: "(expr \<Rightarrow> expr \<Rightarrow> expr W) \<Rightarrow> expr list \<Rightarrow> expr option D" where
  "op2 mk as = bindM (liftR (at as 0)) (\<lambda>a. bindM (liftR (at as 1)) (\<lambda>b.
     bindM (build (mk a b)) (\<lambda>e. ret (Some e))))"

definition op3 :: "(expr \<Rightarrow> expr \<Rightarrow> expr \<Rightarrow> expr W) \<Rightarrow> expr list \<Rightarrow> expr option D" where
  "op3 mk as = bindM (liftR (at as 0)) (\<lambda>a. bindM (liftR (at as 1)) (\<lambda>b. bindM (liftR (at as 2)) (\<lambda>c.
     bindM (build (mk a b c)) (\<lambda>e. ret (Some e)))))"

definition op1p :: "(expr \<Rightarrow> int \<Rightarrow> expr W) \<Rightarrow> expr list \<Rightarrow> int list \<Rightarrow> expr option D" where
  "op1p mk as ps = bindM (liftR (at as 0)) (\<lambda>a. bindM (liftR (at ps 0)) (\<lambda>p.
     bindM (build (mk a p)) (\<lambda>e. ret (Some e))))"

definition op1pp :: "(expr \<Rightarrow> int \<Rightarrow> int \<Rightarrow> expr W) \<Rightarrow> expr list \<Rightarrow> int list \<Rightarrow> expr option D" where
  "op1pp mk as ps = bindM (liftR (at as 0)) (\<lambda>a. bindM (liftR (at ps 0)) (\<lambda>p. bindM (liftR (at ps 1)) (\<lambda>q.
     bindM (build (mk a p q)) (\<lambda>e. ret (Some e)))))"

primrec des_uid :: "AstUidExprOp \<Rightarrow> expr list \<Rightarrow> int list \<Rightarrow> expr option D" where
  "des_uid kNegate as ps = op1 Negate as"
| "des_uid kNot as ps = op1 LogicNot as"
| "des_uid kComplement as ps = op1 Complement as"
| "des_uid kAnd as ps = op2 And as"
| "des_uid kOr as ps = op2 Or as"
| "des_uid kXor as ps = op2 Xor as"
| "des_uid kShiftLeft as ps = op2 Shl as"
| "des_uid kArithShiftRight as ps = op2 Ashr as"
| "des_uid kLogicShiftRight as ps = op2 Lshr as"
| "des_uid kAdd as ps = op2 Add as"
| "des_uid kSubtract as ps = op2 Sub as"
| "des_uid kDivide as ps = op2 Div as"
| "des_uid kSignedRemainder as ps = op2 SRem as"
| "des_uid kUnsignedRemainder as ps = op2 URem as"
| "des_uid kSignedModular as ps = op2 SMod as"
| "des_uid kMultiply as ps = op2 Mul as"
| "des_uid kEqual as ps = op2 Eq as"
| "des_uid kLessThan as ps = op2 Lt as"
| "des_uid kGreaterThan as ps = op2 Gt as"
| "des_uid kUnsignedLessThan as ps = op2 Ult as"
| "des_uid kUnsignedGreaterThan as ps = op2 Ugt as"
| "des_uid kLoad as ps = op2 Load as"
| "des_uid kStore as ps = op3 Store as"
| "des_uid kConcatenate as ps = op2 Concat as"
| "des_uid kExtract as ps = op1pp Extract as ps"
| "des_uid kZeroExtend as ps = op1p ZExt as ps"
| "des_uid kSignedExtend as ps = op1p SExt as ps"
| "des_uid kRotateLeft as ps = op1p LRotate as ps"
| "des_uid kRotateRight as ps = op1p RRotate as ps"
| "des_uid kImply as ps = op2 Imply as"
| "des_uid kIfThenElse as ps = op3 Ite as"
| "des_uid kApplyFunc as ps = ret None"
| "des_uid kInvalid as ps = ret None"

text \<open>The number of the operator is passed as an \<^verbatim>\<open>unsigned\<close>.\<close>

definition DesExprOp :: "32 word \<Rightarrow> json \<Rightarrow> json \<Rightarrow> expr option D" where
  "DesExprOp ast_expr_op_uid j_arg_arr j_param_arr =
     bindM (des_args j_arg_arr) (\<lambda>as.
     bindM (mapM (\<lambda>j. liftR (get_int j)) (j_elems j_param_arr)) (\<lambda>ps.
     case uid_of_num (unat ast_expr_op_uid) of Some u \<Rightarrow> des_uid u as ps | None \<Rightarrow> ret None))"

definition DesExprOpAppFunc :: "json \<Rightarrow> json \<Rightarrow> expr option D" where
  "DesExprOpAppFunc j_func j_arg_arr =
     bindM (liftR (get_id j_func)) (\<lambda>i.
     bindM (gets id_func) (\<lambda>tbl.
     thenM (ila_assert (tbl i \<noteq> None) [])
    (bindM (ila_not_null (tbl i)) (\<lambda>g.
     bindM (des_args j_arg_arr) (\<lambda>as.
     bindM (build (AppFunc g as)) (\<lambda>e. ret (Some e)))))))"

text \<open>A variable that no ILA declares is only reported, and then found to be null.\<close>

definition DesExpr :: "json \<Rightarrow> expr D" where
  "DesExpr j_expr =
     bindM (id_field ''i'' j_expr) (\<lambda>i.
     bindM (gets id_expr) (\<lambda>tbl.
     case tbl i of
       Some e \<Rightarrow> ret e
     | None \<Rightarrow>
         bindM (id_field ''u'' j_expr) (\<lambda>u.
         bindM (if u = kVar then thenM (field ''n'' j_expr) (ret None)
           else if u = kConst then
             bindM (field ''s'' j_expr) (\<lambda>j_sort. bindM (field ''v'' j_expr) (\<lambda>j_val. DesExprConst j_sort j_val))
           else if u = kOp then
             bindM (id_field ''o'' j_expr) (\<lambda>expr_op_uid.
             if expr_op_uid = uid_num kApplyFunc then
               bindM (field ''f'' j_expr) (\<lambda>j_func. bindM (field ''a'' j_expr) (\<lambda>j_args. DesExprOpAppFunc j_func j_args))
             else
               bindM (field ''a'' j_expr) (\<lambda>j_args. bindM (field ''p'' j_expr) (\<lambda>j_params.
               DesExprOp (of_nat expr_op_uid) j_args j_params)))
           else ret None) (\<lambda>r.
         bindM (ila_not_null r) (\<lambda>e.
         thenM (modify (\<lambda>d. d\<lparr>id_expr := (id_expr d)(i \<mapsto> e)\<rparr>)) (ret e))))))"

text \<open>One entry of the list of nodes, as a variable of an ILA.\<close>

definition des_var :: "nat list \<Rightarrow> nat list \<Rightarrow> nat \<Rightarrow> json \<Rightarrow> unit D" where
  "des_var state_ids input_ids i_ila j_expr =
     bindM (id_field ''i'' j_expr) (\<lambda>i.
     bindM (gets id_expr) (\<lambda>tbl.
     if tbl i \<noteq> None then ret ()
     else
       bindM (id_field ''u'' j_expr) (\<lambda>u.
       if u = kVar then
         bindM (name_field ''n'' j_expr) (\<lambda>name.
         bindM (field ''s'' j_expr) (\<lambda>j_sort.
         let found = (\<lambda>m. bindM m (\<lambda>r. bindM (ila_not_null r) (\<lambda>e.
               modify (\<lambda>d. d\<lparr>id_expr := (id_expr d)(i \<mapsto> e)\<rparr>)))) in
         if i \<in> set state_ids then found (DesExprState j_sort name i_ila)
         else if i \<in> set input_ids then found (DesExprInput j_sort name i_ila)
         else ret ()))
       else ret ())))"

definition DesVarUnit :: "json \<Rightarrow> json \<Rightarrow> nat option \<Rightarrow> unit D" where
  "DesVarUnit j_ila j_ast_list i_parent =
     bindM (name_field ''n'' j_ila) (\<lambda>name.
     bindM (gets ila_name_ptr) (\<lambda>tbl.
     thenM (ila_check (tbl name = None) name)
    (bindM (build (case i_parent of Some p \<Rightarrow> NewChild p name | None \<Rightarrow> InstrLvlAbs_New name None)) (\<lambda>i_ila.
     thenM (modify (\<lambda>d. d\<lparr>ila_name_ptr := (ila_name_ptr d)(name \<mapsto> i_ila)\<rparr>))
    (bindM (field ''i'' j_ila) (\<lambda>j_input_arr.
     bindM (mapM (\<lambda>j. liftR (get_id j)) (j_elems j_input_arr)) (\<lambda>input_ids.
     bindM (field ''s'' j_ila) (\<lambda>j_state_arr.
     bindM (mapM (\<lambda>j. liftR (get_id j)) (j_elems j_state_arr)) (\<lambda>state_ids.
     forM (j_elems j_ast_list) (des_var state_ids input_ids i_ila))))))))))"

text \<open>\<^verbatim>\<open>ila_name_ptr_map_\<close> at the name of a JSON value.\<close>

definition ila_of :: "json \<Rightarrow> nat D" where
  "ila_of j_ila =
     bindM (name_field ''n'' j_ila) (\<lambda>name.
     bindM (gets ila_name_ptr) (\<lambda>tbl.
     thenM (ila_assert (tbl name \<noteq> None) name) (ila_not_null (tbl name))))"

function DesVarHier :: "json \<Rightarrow> json \<Rightarrow> nat option \<Rightarrow> unit D" where
  "DesVarHier j_ila j_ast_list i_parent =
     thenM (DesVarUnit j_ila j_ast_list i_parent)
    (bindM (ila_of j_ila) (\<lambda>i_ila.
     case j_at ''c'' j_ila of
       Inl x \<Rightarrow> fail x
     | Inr j_child_arr \<Rightarrow> forM (j_elems j_child_arr) (\<lambda>j_child. DesVarHier j_child j_ast_list (Some i_ila))))"
  by pat_completeness auto
termination
  by (relation "measure (\<lambda>(j, _). size j)") (auto dest!: j_elems_size j_at_size)

text \<open>The expression an identifier stands for.\<close>

definition des_id :: "nat \<Rightarrow> string \<Rightarrow> expr D" where
  "des_id i msg = bindM (gets id_expr) (\<lambda>tbl. thenM (ila_assert (tbl i \<noteq> None) msg) (ila_not_null (tbl i)))"

definition DesInstr :: "json \<Rightarrow> nat \<Rightarrow> nat D" where
  "DesInstr j_instr h =
     bindM (name_field ''n'' j_instr) (\<lambda>name.
     bindM (build (NewInstr h name)) (\<lambda>k.
     bindM (id_field ''d'' j_instr) (\<lambda>decode_id.
     bindM (des_id decode_id ''No decode'') (\<lambda>e.
     thenM (build (set_decode k (Some e)))
    (bindM (field ''u'' j_instr) (\<lambda>j_update.
     bindM (build (the_ila h)) (\<lambda>m.
     thenM (forM (vec (states m)) (\<lambda>state.
       thenM (ila_assert (j_find (ename state) j_update \<noteq> None) ''No ID'')
      (bindM (ila_not_null (j_find (ename state) j_update)) (\<lambda>j.
       bindM (liftR (get_id j)) (\<lambda>i.
       bindM (des_id i ''No next'') (\<lambda>e. build (set_update k state (Some e))))))))
    (ret k))))))))"

text \<open>Reading through the end iterator of the table is undefined, a fault that the handler
  does not catch; an exception leaves the block before anything is changed.\<close>

definition DesIlaUnit :: "json \<Rightarrow> unit D" where
  "DesIlaUnit j_ila =
     bindM (ila_of j_ila) (\<lambda>m.
     thenM (catchM (bindM (id_field ''f'' j_ila) (\<lambda>i. bindM (gets id_expr) (\<lambda>tbl.
         bindM (ila_not_null (tbl i)) (\<lambda>e. build (SetFetch m (Some e))))))
       (build (bindM (BvConst 1 1) (\<lambda>e. SetFetch m (Some e)))))
    (thenM (catchM (bindM (id_field ''v'' j_ila) (\<lambda>i. bindM (gets id_expr) (\<lambda>tbl.
         bindM (ila_not_null (tbl i)) (\<lambda>e. build (SetValid m (Some e))))))
       (build (bindM (BoolConst True) (\<lambda>e. SetValid m (Some e)))))
    (bindM (field ''instr'' j_ila) (\<lambda>j_instr_arr.
     thenM (forM (j_elems j_instr_arr) (\<lambda>j. bindM (DesInstr j m) (\<lambda>_. ret ())))
    (bindM (field ''init'' j_ila) (\<lambda>j_init_arr.
     forM (j_elems j_init_arr) (\<lambda>j.
       bindM (liftR (get_id j)) (\<lambda>i.
       bindM (des_id i ''Init not found'') (\<lambda>e. build (AddInit m (Some e)))))))))))"

function DesIlaHier :: "json \<Rightarrow> unit D" where
  "DesIlaHier j_ila =
     thenM (DesIlaUnit j_ila)
    (\<lambda>d. case j_at ''c'' j_ila of
       Inl x \<Rightarrow> Inl x
     | Inr j_child_arr \<Rightarrow> forM (j_elems j_child_arr) (\<lambda>j_child. DesIlaHier j_child) d)"
  by pat_completeness auto
termination
  by (relation "measure size") (auto dest!: j_elems_size j_at_size)

definition DesInstrLvlAbs :: "json \<Rightarrow> nat D" where
  "DesInstrLvlAbs j_global =
     bindM (field ''a'' j_global) (\<lambda>j_expr_arr.
     bindM (field ''f'' j_global) (\<lambda>j_func_arr.
     bindM (field ''t'' j_global) (\<lambda>j_top.
     thenM (DesVarHier j_top j_expr_arr None)
    (thenM (forM (j_elems j_func_arr) (\<lambda>j. bindM (DesFunc j) (\<lambda>_. ret ())))
    (thenM (forM (j_elems j_expr_arr) (\<lambda>j. bindM (DesExpr j) (\<lambda>_. ret ())))
    (thenM (DesIlaHier j_top)
    (ila_of j_top)))))))"

definition Deserialize :: "json \<Rightarrow> nat W" where
  "Deserialize j = (\<lambda>w. case DesInstrLvlAbs j (J2IDes_New w) of
       Inl x \<Rightarrow> Inl x | Inr (i, d) \<Rightarrow> Inr (i, d_world d))"

declare DesVarHier.simps [simp del] DesIlaHier.simps [simp del]

end
