(* ===== verification/Ila_Facts.thy ===== *)
theory Ila_Facts
  imports Ila_Inv
begin

text \<open>
  What the constructors of the ILA layer deliver: a child starts with the variables of its
  parent and is registered under its name; a name that is taken leaves the new instruction
  unregistered; the mixed-sort logic operators need no more than two calls.
\<close>

subsection \<open>The variables of a well-formed collection\<close>

lemma vars_ok_nth:
  assumes "vars_ok kv" "i < length (vec kv)"
  shows "idx kv (ename (vec kv ! i)) = Some i"
proof -
  have inv: "kv_inv kv" using assms(1) by (simp add: vars_ok_def)
  obtain k where k: "idx kv k = Some i" using kv_inv_key_ex [OF inv assms(2)] by blast
  then have "kv_find kv k = Some (vec kv ! i)" using assms(2) by (simp add: kv_find_def)
  then have "ename (vec kv ! i) = k" using assms(1) by (simp add: vars_ok_def)
  with k show ?thesis by simp
qed

lemma vars_ok_distinct: "vars_ok kv \<Longrightarrow> distinct (map ename (vec kv))"
  unfolding distinct_conv_nth using vars_ok_nth [of kv] by (metis length_map nth_map option.inject)

lemma vars_ok_find:
  assumes "vars_ok kv"
  shows "map_of (map (\<lambda>s. (ename s, s)) (vec kv)) n = kv_find kv n"
proof (cases "kv_find kv n")
  case None
  have "ename s \<noteq> n" if s: "s \<in> set (vec kv)" for s
  proof -
    obtain k where "kv_find kv k = Some s" using kv_find_ex_of_vec [of kv s] assms s by (auto simp: vars_ok_def)
    then show ?thesis using assms None by (auto simp: vars_ok_def)
  qed
  then have "\<forall>x\<in>set (map (\<lambda>s. (ename s, s)) (vec kv)). fst x \<noteq> n" by simp
  then have "n \<notin> fst ` set (map (\<lambda>s. (ename s, s)) (vec kv))" by blast
  then show ?thesis using None map_of_eq_None_iff [of "map (\<lambda>s. (ename s, s)) (vec kv)" n] by simp
next
  case (Some s)
  then have "s \<in> set (vec kv)" "ename s = n"
    using kv_find_Some_in assms by (force simp: vars_ok_def)+
  moreover have "distinct (map fst (map (\<lambda>s. (ename s, s)) (vec kv)))"
    using vars_ok_distinct [OF assms] by (simp add: comp_def)
  ultimately show ?thesis
    using Some by (auto intro!: map_of_is_SomeI)
qed

lemma vars_ok_is_var: "vars_ok kv \<Longrightarrow> s \<in> set (vec kv) \<Longrightarrow> is_var s"
  using kv_find_ex_of_vec [of kv s] by (auto simp: vars_ok_def)

abbreviation named :: "expr list \<Rightarrow> (string \<times> expr) list" where
  "named ss \<equiv> map (\<lambda>s. (ename s, s)) ss"

lemma add_state_loop:
  assumes "ila_heap w c = Some x" "kv_inv (states x)" "\<forall>s\<in>set ss. is_var s" "distinct (map ename ss)"
    "\<forall>s\<in>set ss. find_state x (ename s) = None \<and> find_input x (ename s) = None"
  shows "forM ss (\<lambda>s. AddState c (Some s)) w =
    Inr ((), upd_heap c (x\<lparr>states := kv.add_all (named ss) (states x)\<rparr>) w)"
  using assms
proof (induction ss arbitrary: w x)
  case Nil
  then have "upd_heap c x w = w" by (simp add: upd_heap_def fun_upd_idem)
  then show ?case by simp
next
  case (Cons s ss)
  let ?x = "add_state s x"
  have step: "AddState c (Some s) w = Inr ((), upd_heap c ?x w)"
    using Cons.prems by (simp add: AddState_run)
  have rest: "forM ss (\<lambda>s. AddState c (Some s)) (upd_heap c ?x w) =
      Inr ((), upd_heap c (?x\<lparr>states := kv.add_all (named ss) (states ?x)\<rparr>) (upd_heap c ?x w))"
  proof (rule Cons.IH)
    show "\<forall>t\<in>set ss. find_state ?x (ename t) = None \<and> find_input ?x (ename t) = None"
    proof
      fix t assume t: "t \<in> set ss"
      then have "ename t \<in> ename ` set ss" by (rule imageI)
      then have "ename t \<noteq> ename s" using Cons.prems(4) by (auto simp del: image_iff)
      then show "find_state ?x (ename t) = None \<and> find_input ?x (ename t) = None"
        using Cons.prems t by (simp add: find_state_def find_input_def add_state_def kv.lookup_add)
    qed
  qed (use Cons.prems in \<open>auto simp: upd_heap_def add_state_def kv.inv_add\<close>)
  then show ?case
    unfolding forM.simps thenM_run [where m = "AddState c (Some s)", OF step]
    by (simp add: upd_heap_def add_state_def)
qed

lemma add_input_loop:
  assumes "ila_heap w c = Some x" "kv_inv (inputs x)" "\<forall>s\<in>set ss. is_var s" "distinct (map ename ss)"
    "\<forall>s\<in>set ss. find_state x (ename s) = None \<and> find_input x (ename s) = None"
  shows "forM ss (\<lambda>s. AddInput c (Some s)) w =
    Inr ((), upd_heap c (x\<lparr>inputs := kv.add_all (named ss) (inputs x)\<rparr>) w)"
  using assms
proof (induction ss arbitrary: w x)
  case Nil
  then have "upd_heap c x w = w" by (simp add: upd_heap_def fun_upd_idem)
  then show ?case by simp
next
  case (Cons s ss)
  let ?x = "add_input s x"
  have step: "AddInput c (Some s) w = Inr ((), upd_heap c ?x w)"
    using Cons.prems by (simp add: AddInput_run)
  have rest: "forM ss (\<lambda>s. AddInput c (Some s)) (upd_heap c ?x w) =
      Inr ((), upd_heap c (?x\<lparr>inputs := kv.add_all (named ss) (inputs ?x)\<rparr>) (upd_heap c ?x w))"
  proof (rule Cons.IH)
    show "\<forall>t\<in>set ss. find_state ?x (ename t) = None \<and> find_input ?x (ename t) = None"
    proof
      fix t assume t: "t \<in> set ss"
      then have "ename t \<in> ename ` set ss" by (rule imageI)
      then have "ename t \<noteq> ename s" using Cons.prems(4) by (auto simp del: image_iff)
      then show "find_state ?x (ename t) = None \<and> find_input ?x (ename t) = None"
        using Cons.prems t by (simp add: find_state_def find_input_def add_input_def kv.lookup_add)
    qed
  qed (use Cons.prems in \<open>auto simp: upd_heap_def add_input_def kv.inv_add\<close>)
  then show ?case
    unfolding forM.simps thenM_run [where m = "AddInput c (Some s)", OF step]
    by (simp add: upd_heap_def add_input_def)
qed

text \<open>A copy of a collection of variables.\<close>

lemma copy_vars:
  assumes "vars_ok kv"
  shows "vec (kv.add_all (named (vec kv)) kv_empty) = vec kv"
    "kv_find (kv.add_all (named (vec kv)) kv_empty) n = kv_find kv n"
proof -
  have "distinct (map fst (named (vec kv)))"
    using vars_ok_distinct [OF assms] by (simp add: comp_def)
  then show "vec (kv.add_all (named (vec kv)) kv_empty) = vec kv"
    using kv.elems_add_all_fresh [of kv_empty "named (vec kv)"]
    by (simp add: kv_empty_def comp_def) (simp add: kv_empty_def [symmetric])
  show "kv_find (kv.add_all (named (vec kv)) kv_empty) n = kv_find kv n"
    using vars_ok_find [OF assms] by (simp add: kv.lookup_add_all)
qed

subsection \<open>Children and instructions\<close>

lemma NewChild_inherits:
  assumes ok: "world_ok w" and m: "ila_heap w i = Some m" and fresh: "find_child m name = None"
  shows "\<exists>w' x m'. NewChild i name w = Inr (counter w + 1, w')
    \<and> ila_heap w' (counter w + 1) = Some x \<and> parent x = Some i \<and> vec (instrs x) = []
    \<and> vec (states x) = vec (states m) \<and> vec (inputs x) = vec (inputs m)
    \<and> (\<forall>n. find_state x n = find_state m n \<and> find_input x n = find_input m n)
    \<and> ila_heap w' i = Some m' \<and> find_child m' name = Some (counter w + 1)
    \<and> (\<forall>n. n \<noteq> name \<longrightarrow> find_child m' n = find_child m n)"
proof -
  define c where "c = counter w + 1"
  let ?w = "with_ila name (Some i) w" and ?e = "empty_ila (named_symbol name w) (Some i)"
  let ?s = "kv.add_all (named (vec (states m))) kv_empty" and ?i = "kv.add_all (named (vec (inputs m))) kv_empty"
  let ?x1 = "?e\<lparr>states := ?s\<rparr>" and ?x2 = "?e\<lparr>states := ?s, inputs := ?i\<rparr>"
  have loc: "vars_ok (states m)" "vars_ok (inputs m)" "kv_inv (childs m)"
    and apart: "find_input m n = None \<or> find_state m n = None" for n
    using ila_local_of [OF ok m] by (auto simp: ila_local_def)
  have ne: "c \<noteq> i" using fresh_ids(1) [OF ok, of c] m by (auto simp: c_def)
  have c: "ila_heap ?w c = Some ?e" by (simp add: with_ila_def c_def)
  have s: "forM (vec (states m)) (\<lambda>s. AddState c (Some s)) ?w = Inr ((), upd_heap c ?x1 ?w)"
    using add_state_loop [OF c, of "vec (states m)"] vars_ok_distinct [OF loc(1)] vars_ok_is_var [OF loc(1)]
    by (simp add: empty_ila_def find_state_def find_input_def)
  have "find_state ?x1 (ename v) = None" if v: "v \<in> set (vec (inputs m))" for v
  proof -
    have "kv_inv (inputs m)" using loc(2) by (simp add: vars_ok_def)
    then obtain k where k: "kv_find (inputs m) k = Some v" using kv_find_ex_of_vec [OF _ v] by blast
    then have "ename v = k" using loc(2) by (simp add: vars_ok_def)
    then have "find_state m (ename v) = None" using apart [of k] k by (simp add: find_input_def)
    then show ?thesis using copy_vars(2) [OF loc(1)] by (simp add: find_state_def)
  qed
  then have i: "forM (vec (inputs m)) (\<lambda>s. AddInput c (Some s)) (upd_heap c ?x1 ?w) =
      Inr ((), upd_heap c ?x2 (upd_heap c ?x1 ?w))"
    using add_input_loop [of "upd_heap c ?x1 ?w" c ?x1 "vec (inputs m)"]
      vars_ok_distinct [OF loc(2)] vars_ok_is_var [OF loc(2)]
    by (simp add: upd_heap_def) (simp add: empty_ila_def find_input_def)
  let ?w2 = "upd_heap c ?x2 (upd_heap c ?x1 ?w)"
  let ?w' = "upd_heap i (add_child name c m) ?w2"
  have ch: "AddChild i (Some c) ?w2 = Inr ((), ?w')"
    using m ne by (simp add: AddChild_run upd_heap_def empty_ila_def with_ila_def c_def)
  have run: "NewChild i name w = Inr (c, ?w')"
    using m s i ch by (simp add: NewChild_def bindM_def thenM_def the_ila_def InstrLvlAbs_New_run c_def)
  have x: "ila_heap ?w' c = Some ?x2" using ne by (simp add: upd_heap_def)
  have m': "find_child (add_child name c m) n = (if n = name then Some c else find_child m n)" for n
    using loc(3) fresh by (simp add: find_child_def add_child_def kv.lookup_add)
  show ?thesis
    unfolding c_def [symmetric]
    using run x m' copy_vars [OF loc(1)] copy_vars [OF loc(2)]
    by (intro exI [of _ ?w'] exI [of _ ?x2] exI [of _ "add_child name c m"])
       (simp add: empty_ila_def find_state_def find_input_def upd_heap_def, simp add: kv_empty_def)
qed

text \<open>A taken name: an instruction is created and returned, but the ILA does not have it.\<close>

lemma NewInstr_taken:
  assumes ok: "world_ok w" and m: "ila_heap w i = Some m" and k: "find_instr m name = Some k"
    and ne: "name \<noteq> []"
  shows "\<exists>w'. NewInstr i name w = Inr (counter w + 1, w') \<and> ila_heap w' = ila_heap w
    \<and> (\<exists>x. instr_heap w' (counter w + 1) = Some x \<and> sym_name (i_sym x) = name)
    \<and> counter w + 1 \<notin> set (vec (instrs m))"
proof -
  define c where "c = counter w + 1"
  let ?w = "with_instr name (Some i) w"
  have kv: "kv_inv (instrs m)" using ila_local_of [OF ok m] by (simp add: ila_local_def)
  have "idx (instrs m) name \<noteq> None" using k kv_find_None_iff [OF kv, of name] by (simp add: find_instr_def)
  then have same: "add_instr name c m = m" by (simp add: add_instr_def kv_push_back_old)
  have "ila_heap ?w i = Some m" using m by (simp add: with_instr_def)
  then have add: "AddInstr i (Some c) ?w = Inr ((), ?w)"
    using same by (auto simp: AddInstr_run with_instr_def empty_instr_def upd_heap_def c_def fun_upd_idem)
  then have "NewInstr i name w = Inr (c, ?w)"
    using m ne by (simp add: NewInstr_def bindM_def thenM_def the_ila_def Instr_New_run c_def)
  moreover have "c \<notin> set (vec (instrs m))"
  proof
    assume "c \<in> set (vec (instrs m))"
    then obtain n where "find_instr m n = Some c"
      using kv_find_ex_of_vec [OF kv] by (auto simp: find_instr_def)
    then have "instr_heap w c \<noteq> None" using world_okD(1) [OF ok m] unfolding ila_at_def by blast
    then show False using fresh_ids(2) [OF ok, of c] by (simp add: c_def)
  qed
  ultimately show ?thesis by (simp add: c_def [symmetric]) (simp add: with_instr_def empty_instr_def c_def)
qed

text \<open>The recursion of the mixed-sort operators ends: the comparison is Boolean.\<close>

lemma new_ExprOp_ends: "so \<noteq> Inl OutOfFuel \<Longrightarrow> new_ExprOp u so as ps f w \<noteq> Inl OutOfFuel"
  by (cases so) (simp_all add: new_ExprOp_def bindM_def on_counter_def gets_def liftR_def ret_def Symbol_default_def split: sum.splits)

lemma binary_ends:
  "GetSortBinaryOperation a b \<noteq> Inl OutOfFuel" "GetSortBinaryComparison a b \<noteq> Inl OutOfFuel"
  by (simp_all add: GetSortBinaryOperation_def GetSortBinaryComparison_def assertR_def)

lemma logic_ends:
  "ExprOpAnd a b w \<noteq> Inl OutOfFuel" "ExprOpOr a b w \<noteq> Inl OutOfFuel"
  "ExprOpXor a b w \<noteq> Inl OutOfFuel" "ExprOpEq a b w \<noteq> Inl OutOfFuel"
  unfolding ExprOpAnd_def ExprOpOr_def ExprOpXor_def ExprOpEq_def
  by (rule new_ExprOp_ends, rule binary_ends)+

lemma promote_ends:
  assumes mk: "\<And>a b w. mk a b w \<noteq> Inl OutOfFuel"
  shows "promote 2 mk msg l r w \<noteq> Inl OutOfFuel"
proof -
  have eq: "esort e = SortBool" if "ExprOpEq a b w = Inr (e, w')" for a b w e w'
    using op_contractD [OF contract_compare(1) that] by (simp add: same2_Some split: if_splits)
  have no: "ExprOpEq a b w = Inl e \<Longrightarrow> e \<noteq> OutOfFuel" for a b w e
    using logic_ends(4) [of a b w] by auto
  show ?thesis
    using mk
    by (auto simp: numeral_2_eq_2 bindM_def thenM_def liftR_def assertR_def Eq_val_def const_like_def
        Eq_def BvConst_def ExprConst_bv_def split: sum.splits if_splits dest!: eq dest: no)
qed

end
