(* ===== verification/Json_Ser.thy ===== *)
theory Json_Ser
  imports Ila_Json Hash_Ast Ila_Facts
begin

text \<open>
  What the serializer writes.  A hierarchy is described by a value, \<open>hier\<close>, that is free of
  the heap; the JSON value is a function of it.  The list of nodes has every expression once,
  each after its arguments.
\<close>

subsection \<open>Hierarchies as values\<close>

text \<open>An instruction: its name, its decode function, and the next value of every state.\<close>

datatype hier = Hier
  (h_name: string) (h_inputs: "expr list") (h_states: "expr list") (h_fetch: "expr option") (h_valid: expr)
  (h_instrs: "(string \<times> expr \<times> expr list) list") (h_inits: "expr list") (h_childs: "hier list")

definition instr_is :: "world \<Rightarrow> nat \<Rightarrow> expr list \<Rightarrow> nat \<Rightarrow> string \<times> expr \<times> expr list \<Rightarrow> bool" where
  "instr_is w i ss k = (\<lambda>(n, d, us). \<exists>x. instr_heap w k = Some x \<and> sym_name (i_sym x) = n \<and> i_host x = Some i
     \<and> decode x = Some d \<and> us = map (next_state w k) ss)"

fun describes :: "world \<Rightarrow> nat \<Rightarrow> hier \<Rightarrow> bool" where
  "describes w i (Hier n is ss f v ks cs hs) \<longleftrightarrow>
     (\<exists>m. ila_heap w i = Some m \<and> sym_name (m_sym m) = n \<and> vec (inputs m) = is \<and> vec (states m) = ss
        \<and> fetch m = f \<and> valid m = Some v \<and> list_all2 (instr_is w i ss) (vec (instrs m)) ks
        \<and> inits m = cs \<and> list_all2 (describes w) (vec (childs m)) hs)"

text \<open>The expressions of a hierarchy, in the order in which the serializer meets them.\<close>

definition instr_roots :: "string \<times> expr \<times> expr list \<Rightarrow> expr list" where
  "instr_roots = (\<lambda>(n, d, us). d # us)"

fun hroots :: "hier \<Rightarrow> expr list" where
  "hroots (Hier n is ss f v ks cs hs) = is @ ss @ (case f of None \<Rightarrow> [] | Some e \<Rightarrow> [e]) @ [v]
     @ concat (map instr_roots ks) @ cs @ concat (map hroots hs)"

subsection \<open>The JSON value\<close>

definition jarr :: "json list \<Rightarrow> json" where
  "jarr xs = (if xs = [] then JNull else JArr xs)"

lemma jarr_ops [simp]:
  "j_push_back v (jarr xs) = Inr (jarr (xs @ [v]))" "j_size (jarr xs) = length xs" "j_elems (jarr xs) = xs"
  "i < length xs \<Longrightarrow> j_index i (jarr xs) = Inr (xs ! i)"
  by (auto simp: jarr_def)

abbreviation id_json :: "expr \<Rightarrow> json" where
  "id_json e \<equiv> JNum (int (eid e))"

fun const_json :: "cval \<Rightarrow> json" where
  "const_json (BoolVal b) = obj_of [(''v'', JBool b)]"
| "const_json (BvVal v) = obj_of [(''v'', JNum (uint v))]"
| "const_json (MemVal def m) = obj_of [(''d'', JNum (uint def)),
     (''m'', obj_of (map (\<lambda>(a, d). (to_string (unat a), JNum (uint d))) m))]"

fun node_fields :: "expr \<Rightarrow> (string \<times> json) list" where
  "node_fields (ExprVar y s h) = [(''s'', SerSort s), (''n'', JStr (sym_name y))]"
| "node_fields (ExprConst y s v) = [(''s'', SerSort s), (''v'', const_json v)]"
| "node_fields (ExprOp y u s as ps f h) =
     [(''o'', JNum (int (uid_num u))), (''a'', JArr (map id_json as)), (''p'', JArr (map JNum ps))]
     @ (case f of None \<Rightarrow> [] | Some g \<Rightarrow> [(''f'', JNum (int (sym_id (f_sym g))))])"

definition node_json :: "expr \<Rightarrow> json" where
  "node_json e = obj_of ([(''i'', id_json e), (''u'', JNum (int (GetUidExpr e)))] @ node_fields e)"

definition instr_json :: "expr list \<Rightarrow> string \<times> expr \<times> expr list \<Rightarrow> json" where
  "instr_json ss = (\<lambda>(n, d, us). obj_of [(''n'', JStr n), (''d'', id_json d),
     (''u'', obj_of (map (\<lambda>(s, u). (ename s, id_json u)) (zip ss us)))])"

fun hier_json :: "hier \<Rightarrow> json" where
  "hier_json (Hier n is ss f v ks cs hs) =
     obj_of ([(''n'', JStr n), (''i'', JArr (map id_json is)), (''s'', JArr (map id_json ss))]
       @ (case f of None \<Rightarrow> [] | Some e \<Rightarrow> [(''f'', id_json e)])
       @ [(''v'', id_json v), (''instr'', JArr (map (instr_json ss) ks)), (''init'', JArr (map id_json cs)),
          (''c'', JArr (map hier_json hs))])"

text \<open>The nodes that are written, and the functions they apply.\<close>

definition add_node :: "expr \<Rightarrow> expr list \<Rightarrow> expr list" where
  "add_node e L = (if eid e \<in> eid ` set L then L else L @ [e])"

definition add_roots :: "expr list \<Rightarrow> expr list \<Rightarrow> expr list" where
  "add_roots es L = fold add_node (concat (map post_order es)) L"

definition applied :: "expr list \<Rightarrow> func list" where
  "applied L = List.map_filter efunc L"

definition ast_json :: "hier \<Rightarrow> json" where
  "ast_json t = (let L = add_roots (hroots t) [] in
     obj_of [(''t'', hier_json t), (''a'', jarr (map node_json L)), (''f'', jarr (map func_json (applied L)))])"

lemma applied_append: "applied (L @ M) = applied L @ applied M"
  by (simp add: applied_def List.map_filter_def)

lemma add_roots_simps [simp]:
  "add_roots [] L = L" "add_roots (es @ fs) L = add_roots fs (add_roots es L)"
  by (simp_all add: add_roots_def)

lemma add_roots_Cons: "add_roots (e # es) L = add_roots es (add_roots [e] L)"
  by (simp add: add_roots_def)

subsection \<open>One node\<close>

text \<open>The tables of the serializer are a function of the nodes written so far.\<close>

definition ser_of :: "expr list \<Rightarrow> ser" where
  "ser_of L = \<lparr>id_idx = map_of (zip (map eid L) [0..<length L]), func_idx = Map.empty,
     j_expr_arr = jarr (map node_json L), j_func_arr = jarr (map func_json (applied L))\<rparr>"

text \<open>What a node needs: its number and that of its function are 64-bit numbers, a constant has
  a value of its sort, and exactly the applications have a function.\<close>

fun writable :: "expr \<Rightarrow> bool" where
  "writable (ExprVar y s h) \<longleftrightarrow> sym_id y < 2 ^ 64"
| "writable (ExprConst y s v) \<longleftrightarrow> sym_id y < 2 ^ 64 \<and> wf_const s v"
| "writable (ExprOp y u s as ps f h) \<longleftrightarrow> sym_id y < 2 ^ 64 \<and> (f \<noteq> None \<longleftrightarrow> u = kApplyFunc)
     \<and> (\<forall>g. f = Some g \<longrightarrow> sym_id (f_sym g) < 2 ^ 64)"

lemma writable_id: "writable e \<Longrightarrow> eid e < 2 ^ 64"
  by (cases e) auto

lemma ser_of_New: "I2JSer_New = ser_of []"
  by (simp add: I2JSer_New_def ser_of_def jarr_def applied_def map_filter_simps)

lemma ser_of_sel: "j_expr_arr (ser_of L) = jarr (map node_json L)" "j_func_arr (ser_of L) = jarr (map func_json (applied L))"
  by (simp_all add: ser_of_def)

lemma id_idx_Some: "id_idx (ser_of L) i = Some k \<Longrightarrow> k < length L \<and> eid (L ! k) = i"
  by (auto simp: ser_of_def dest!: map_of_SomeD simp: set_zip)

lemma id_idx_None: "id_idx (ser_of L) i = None \<longleftrightarrow> i \<notin> eid ` set L"
  by (simp add: ser_of_def map_of_zip_is_None)

lemma SerConstVal_run: "wf_const s v \<Longrightarrow> SerConstVal (ExprConst y s v) = Inr (const_json v)"
  by (cases "(s, v)" rule: wf_const.cases) (auto simp: SerConstVal_def)

lemma func_id_run: "sym_id (f_sym g) < 2 ^ 64 \<Longrightarrow> bindR (j_at ''i'' (func_json g)) get_id = Inr (sym_id (f_sym g))"
  by (simp add: func_json_def j_at_obj)

lemma node_id_run: "writable e \<Longrightarrow> bindR (j_at ''i'' (node_json e)) get_id = Inr (eid e)"
  using writable_id by (simp add: node_json_def j_at_obj)

lemma expr_fields_run:
  assumes "writable e" "func_idx st = Map.empty" "j_func_arr st = jarr (map func_json F)"
  shows "expr_fields e st = Inr (node_fields e, st\<lparr>j_func_arr := jarr (map func_json (F @ applied [e]))\<rparr>)"
proof (cases e)
  case (ExprOp y u s as ps f h)
  show ?thesis
  proof (cases f)
    case (Some g)
    then show ?thesis
      using assms func_id_run [of g] by (simp add: ExprOp SerFunc_def applied_def map_filter_simps)
  qed (use assms in \<open>auto simp: ExprOp applied_def map_filter_simps\<close>)
qed (use assms in \<open>auto simp: SerConstVal_run applied_def map_filter_simps\<close>)

lemma singleton_map_add: "a \<notin> dom m \<Longrightarrow> [a \<mapsto> v] ++ m = m(a \<mapsto> v)"
  by (auto simp: map_add_def fun_eq_iff domIff split: option.splits)

lemma SerExprUnit_run:
  assumes S: "inj_on eid S" "set L \<subseteq> S" "e \<in> S" "writable e"
  shows "SerExprUnit e (ser_of L) = Inr (node_json e, ser_of (add_node e L))"
proof (cases "id_idx (ser_of L) (eid e)")
  case (Some k)
  then have k: "k < length L" "eid (L ! k) = eid e" using id_idx_Some by blast+
  then have "L ! k = e" using inj_onD [OF S(1) k(2)] S(2,3) nth_mem [OF k(1)] by blast
  moreover have "eid e \<in> eid ` set L" using k nth_mem [OF k(1)] by (metis imageI)
  ultimately show ?thesis using Some k by (simp add: SerExprUnit_def add_node_def) (simp add: ser_of_def)
next
  case None
  then have new: "eid e \<notin> eid ` set L" by (simp add: id_idx_None)
  have F: "expr_fields e (ser_of L) =
      Inr (node_fields e, (ser_of L)\<lparr>j_func_arr := jarr (map func_json (applied L @ applied [e]))\<rparr>)"
    by (rule expr_fields_run [OF S(4)]) (simp_all add: ser_of_def)
  have idx: "map_of (zip (map eid (L @ [e])) [0..<length (L @ [e])]) = (id_idx (ser_of L))(eid e \<mapsto> length L)"
  proof -
    have "eid e \<notin> dom (map_of (zip (map eid L) [0..<length L]))" using None by (simp add: ser_of_def domIff)
    from singleton_map_add [OF this, of "length L"] show ?thesis by (simp add: ser_of_def)
  qed
  have "SerExprUnit e (ser_of L) = Inr (node_json e, (ser_of L)\<lparr>j_func_arr := jarr (map func_json (applied L @ applied [e])),
      id_idx := (id_idx (ser_of L))(eid e \<mapsto> length L), j_expr_arr := jarr (map node_json L @ [node_json e])\<rparr>)"
    using None F by (simp add: SerExprUnit_def Let_def node_json_def ser_of_sel)
  also have "\<dots> = Inr (node_json e, ser_of (L @ [e]))"
    unfolding ser_of_def idx applied_append by (simp add: ser_of_def)
  finally show ?thesis using new by (simp add: add_node_def)
qed

subsection \<open>Expressions\<close>

text \<open>The expressions of a hierarchy lie in a set of nodes that is closed under arguments and in
  which every node has its own number.\<close>

definition ser_dom :: "expr set \<Rightarrow> bool" where
  "ser_dom S \<longleftrightarrow> dag S \<and> (\<forall>x\<in>S. writable x)"

lemma ser_domD:
  assumes "ser_dom S"
  shows "inj_on eid S" "e \<in> S \<Longrightarrow> writable e" "e \<in> S \<Longrightarrow> subexprs e \<subseteq> S"
  using assms dag_subexprs by (auto simp: ser_dom_def dag_def)

lemma fold_add_node_subset: "set L \<subseteq> S \<Longrightarrow> set es \<subseteq> S \<Longrightarrow> set (fold add_node es L) \<subseteq> S"
  by (induction es arbitrary: L) (auto simp: add_node_def)

lemma add_roots_subset: "ser_dom S \<Longrightarrow> set L \<subseteq> S \<Longrightarrow> set es \<subseteq> S \<Longrightarrow> set (add_roots es L) \<subseteq> S"
  unfolding add_roots_def using ser_domD(3) [unfolded subexprs_def]
  by (intro fold_add_node_subset) (auto, blast)

lemma fold_add_node_mono: "eid ` set L \<union> eid ` set es = eid ` set (fold add_node es L)"
proof (induction es arbitrary: L)
  case (Cons e es)
  show ?case using Cons.IH [of "add_node e L"] by (auto simp: add_node_def split: if_splits)
qed simp

lemma forM_units_run:
  assumes "inj_on eid S"
  shows "set L \<subseteq> S \<Longrightarrow> set es \<subseteq> S \<Longrightarrow> \<forall>x\<in>set es. writable x \<Longrightarrow>
    forM es (\<lambda>x. bindM (SerExprUnit x) (\<lambda>_. ret ())) (ser_of L) = Inr ((), ser_of (fold add_node es L))"
proof (induction es arbitrary: L)
  case (Cons e es)
  then have "SerExprUnit e (ser_of L) = Inr (node_json e, ser_of (add_node e L))"
    by (intro SerExprUnit_run [OF assms]) auto
  moreover have "set (add_node e L) \<subseteq> S" using Cons.prems by (auto simp: add_node_def)
  ultimately show ?case using Cons by simp
qed simp

lemma SerExpr_run:
  assumes S: "ser_dom S" "set L \<subseteq> S" "e \<in> S"
  shows "SerExpr_id (Some e) (ser_of L) = Inr (id_json e, ser_of (add_roots [e] L))"
proof -
  let ?L = "add_roots [e] L"
  have e: "set (post_order e) \<subseteq> S" using ser_domD(3) [OF S(1,3)] by (simp add: subexprs_def)
  have visit: "DepthFirstVisit (\<lambda>x. bindM (SerExprUnit x) (\<lambda>_. ret ())) e (ser_of L) = Inr ((), ser_of ?L)"
    using forM_units_run [OF ser_domD(1) [OF S(1)] S(2) e] ser_domD(2) [OF S(1)] e
    by (auto simp: DepthFirstVisit_post_order add_roots_def)
  have "e \<in> set (post_order e)" using subexprs_refl [of e] by (simp add: subexprs_def)
  then have "eid e \<in> eid ` set ?L"
    using fold_add_node_mono [of L "post_order e"] by (auto simp: add_roots_def)
  then obtain k where some: "id_idx (ser_of ?L) (eid e) = Some k"
    using id_idx_None [of ?L "eid e"] by (cases "id_idx (ser_of ?L) (eid e)") auto
  then have k: "k < length ?L" "eid (?L ! k) = eid e" using id_idx_Some by blast+
  have "?L ! k \<in> S" using add_roots_subset [OF S(1,2), of "[e]"] S(3) nth_mem [OF k(1)] by auto
  then have "?L ! k = e" using inj_onD [OF ser_domD(1) [OF S(1)] k(2)] S(3) by simp
  moreover have "bindR (j_at ''i'' (node_json e)) get_id = Inr (eid e)"
    by (rule node_id_run) (rule ser_domD(2) [OF S(1,3)])
  ultimately show ?thesis
    using some k by (simp add: SerExpr_id_def SerExpr_def visit ser_of_sel)
qed

lemma mapM_SerExpr_run:
  assumes S: "ser_dom S"
  shows "set L \<subseteq> S \<Longrightarrow> set es \<subseteq> S \<Longrightarrow>
    mapM (\<lambda>v. SerExpr_id (Some v)) es (ser_of L) = Inr (map id_json es, ser_of (add_roots es L))"
proof (induction es arbitrary: L)
  case (Cons e es)
  then have "SerExpr_id (Some e) (ser_of L) = Inr (id_json e, ser_of (add_roots [e] L))"
    by (intro SerExpr_run [OF S]) auto
  moreover have "set (add_roots [e] L) \<subseteq> S" using Cons.prems by (intro add_roots_subset [OF S]) auto
  ultimately show ?case using Cons add_roots_Cons [of e es L] by simp
qed simp

subsection \<open>Hierarchies\<close>

lemma mapM_ser_run:
  assumes "ser_dom S" "list_all2 R xs ys"
    and "\<And>x y L. x \<in> set xs \<Longrightarrow> y \<in> set ys \<Longrightarrow> R x y \<Longrightarrow> set L \<subseteq> S \<Longrightarrow>
      f x (ser_of L) = Inr (h y, ser_of (add_roots (g y) L))"
    and "\<And>y. y \<in> set ys \<Longrightarrow> set (g y) \<subseteq> S" "set L \<subseteq> S"
  shows "mapM f xs (ser_of L) = Inr (map h ys, ser_of (add_roots (concat (map g ys)) L))"
  using assms(2-)
proof (induction xs ys arbitrary: L rule: list_all2_induct)
  case (Cons x xs y ys)
  have 1: "f x (ser_of L) = Inr (h y, ser_of (add_roots (g y) L))" using Cons by auto
  have "set (add_roots (g y) L) \<subseteq> S" using Cons.prems by (intro add_roots_subset [OF assms(1)]) auto
  with Cons.prems have 2: "mapM f xs (ser_of (add_roots (g y) L)) =
      Inr (map h ys, ser_of (add_roots (concat (map g ys)) (add_roots (g y) L)))"
    by (intro Cons.IH) auto
  from 1 2 show ?case by simp
qed simp

lemma look_Inr: "m w = Inr (a, w') \<Longrightarrow> look w m s = Inr (a, s)"
  by (simp add: look_def)

lemma look_next_state:
  assumes "instr_heap w k = Some x"
  shows "\<exists>u. look w (instr_update_var k s) st = Inr (u, st) \<and> (case u of Some e \<Rightarrow> e | None \<Rightarrow> s) = next_state w k s"
  using assms by (auto simp: look_def instr_update_var_def instr_update_def the_instr_def next_state_def
      bindM_def split: option.splits)

lemma SerInstr_run:
  assumes S: "ser_dom S" "set L \<subseteq> S" and m: "ila_heap w i = Some m" "vec (states m) = ss"
    and k: "instr_is w i ss k (n, d, us)" and roots: "set (instr_roots (n, d, us)) \<subseteq> S"
  shows "SerInstr w k (ser_of L) = Inr (instr_json ss (n, d, us), ser_of (add_roots (instr_roots (n, d, us)) L))"
proof -
  obtain x where x: "instr_heap w k = Some x" "sym_name (i_sym x) = n" "i_host x = Some i" "decode x = Some d"
    and us: "us = map (next_state w k) ss" using k by (auto simp: instr_is_def)
  note roots = roots [unfolded instr_roots_def prod.case]
  let ?step = "\<lambda>s. bindM (look w (instr_update_var k s)) (\<lambda>i_next.
       bindM (SerExpr_id (Some (case i_next of Some e \<Rightarrow> e | None \<Rightarrow> s))) (\<lambda>j_next. ret (ename s, j_next)))"
  have step: "?step s (ser_of L) = Inr ((ename s, id_json (next_state w k s)), ser_of (add_roots [next_state w k s] L))"
    if "next_state w k s \<in> S" "set L \<subseteq> S" for s L
  proof -
    obtain u where "look w (instr_update_var k s) (ser_of L) = Inr (u, ser_of L)"
      "(case u of Some e \<Rightarrow> e | None \<Rightarrow> s) = next_state w k s"
      using look_next_state [OF x(1)] by blast
    then show ?thesis using SerExpr_run [OF S(1) that(2,1)] by simp
  qed
  have loop: "mapM ?step ss (ser_of L) = Inr (map (\<lambda>s. (ename s, id_json (next_state w k s))) ss,
      ser_of (add_roots (concat (map (\<lambda>s. [next_state w k s]) ss)) L))" if "set L \<subseteq> S" for L
  proof (rule mapM_ser_run [where R = "(=)", OF S(1)])
    show "list_all2 (=) ss ss" by (simp add: list.rel_eq)
    show "?step s (ser_of L) = Inr ((ename s', id_json (next_state w k s')), ser_of (add_roots [next_state w k s'] L))"
      if "s' \<in> set ss" "s = s'" "set L \<subseteq> S" for s s' L
      unfolding that(2) by (rule step) (use that roots us in auto)
  qed (use roots us that in auto)
  have 1: "SerExpr_id (Some d) (ser_of L) = Inr (id_json d, ser_of (add_roots [d] L))"
    by (rule SerExpr_run [OF S]) (use roots in auto)
  have 2: "set (add_roots [d] L) \<subseteq> S" by (rule add_roots_subset [OF S]) (use roots in auto)
  have "look w (the_instr k) (ser_of L) = Inr (x, ser_of L)" "\<And>s. look w (the_ila i) s = Inr (m, s)"
    using x(1) m(1) by (auto simp: look_def the_instr_def the_ila_def)
  then show ?thesis
    using 1 loop [OF 2]
    by (simp add: SerInstr_def instr_roots_def x(2-4) m(2) instr_json_def us zip_map2 add_roots_Cons [of d "map (next_state w k) ss"] zip_same_conv_map o_def)
qed

lemma hier_run:
  assumes S: "ser_dom S" and ok: "world_ok w"
  shows "describes w i t \<Longrightarrow> set (hroots t) \<subseteq> S \<Longrightarrow> set L \<subseteq> S \<Longrightarrow> counter w < i + k \<Longrightarrow>
    SerInstrLvlAbsNoAst w k i (ser_of L) = Inr (hier_json t, ser_of (add_roots (hroots t) L))"
proof (induction t arbitrary: i L k)
  case (Hier n "is" ss f v ks cs hs)
  then obtain m where m: "ila_heap w i = Some m" "sym_name (m_sym m) = n" "vec (inputs m) = is"
    "vec (states m) = ss" "fetch m = f" "valid m = Some v" "list_all2 (instr_is w i ss) (vec (instrs m)) ks"
    "inits m = cs" "list_all2 (describes w) (vec (childs m)) hs" by auto
  have fuel: "c \<le> counter w \<and> i < c" if "c \<in> set (vec (childs m))" for c
  proof -
    have "c \<in> set (child_ids w i)" using that by (simp add: child_ids_def m(1))
    from child_of [OF ok this] show ?thesis using world_okD(1) [OF ok] unfolding ila_at_def by metis
  qed
  have "i \<le> counter w" using world_okD(1) [OF ok m(1)] by (simp add: ila_at_def)
  then obtain k' where k': "k = Suc k'" using Hier.prems(4) by (cases k) auto
  let ?f = "case f of None \<Rightarrow> [] | Some e \<Rightarrow> [e]"
  define L1 L2 L3 L4 L5 L6 where "L1 = add_roots is L" and "L2 = add_roots ss L1" and "L3 = add_roots ?f L2"
    and "L4 = add_roots [v] L3" and "L5 = add_roots (concat (map instr_roots ks)) L4"
    and "L6 = add_roots cs L5"
  note Ls = L1_def L2_def L3_def L4_def L5_def L6_def
  have parts: "set is \<subseteq> S" "set ss \<subseteq> S" "set ?f \<subseteq> S" "set [v] \<subseteq> S" "set (concat (map instr_roots ks)) \<subseteq> S"
    "set cs \<subseteq> S" "set (concat (map hroots hs)) \<subseteq> S"
    using Hier.prems(2) by (simp_all del: set_concat set_map)
  have sub: "set L1 \<subseteq> S" "set L2 \<subseteq> S" "set L3 \<subseteq> S" "set L4 \<subseteq> S" "set L5 \<subseteq> S" "set L6 \<subseteq> S"
    unfolding Ls by (intro add_roots_subset [OF S] parts Hier.prems(3))+
  have 1: "mapM (\<lambda>v. SerExpr_id (Some v)) is (ser_of L) = Inr (map id_json is, ser_of L1)"
    unfolding L1_def by (rule mapM_SerExpr_run [OF S Hier.prems(3) parts(1)])
  have 2: "mapM (\<lambda>v. SerExpr_id (Some v)) ss (ser_of L1) = Inr (map id_json ss, ser_of L2)"
    unfolding L2_def by (rule mapM_SerExpr_run [OF S sub(1) parts(2)])
  have 3: "(case f of None \<Rightarrow> ret [] | Some e \<Rightarrow> bindM (SerExpr_id (Some e)) (\<lambda>j. ret [(''f'', j)])) (ser_of L2) =
      Inr (case f of None \<Rightarrow> [] | Some e \<Rightarrow> [(''f'', id_json e)], ser_of L3)"
    using SerExpr_run [OF S sub(2)] parts(3) by (cases f) (simp_all add: L3_def)
  have 4: "SerExpr_id (Some v) (ser_of L3) = Inr (id_json v, ser_of L4)"
    unfolding L4_def using parts(4) by (intro SerExpr_run [OF S sub(3)]) simp
  have 5: "mapM (SerInstr w) (vec (instrs m)) (ser_of L4) = Inr (map (instr_json ss) ks, ser_of L5)"
    unfolding L5_def
  proof (rule mapM_ser_run [OF S m(7)])
    fix x y L assume a: "y \<in> set ks" "instr_is w i ss x y" "set L \<subseteq> S"
    obtain n d us where y: "y = (n, d, us)" by (cases y)
    have "set (instr_roots y) \<subseteq> S" using a(1) parts(5) by auto
    then show "SerInstr w x (ser_of L) = Inr (instr_json ss y, ser_of (add_roots (instr_roots y) L))"
      using a(2) unfolding y by (intro SerInstr_run [OF S a(3) m(1,4)])
  qed (use parts(5) sub in auto)
  have 6: "mapM (\<lambda>v. SerExpr_id (Some v)) cs (ser_of L5) = Inr (map id_json cs, ser_of L6)"
    unfolding L6_def by (rule mapM_SerExpr_run [OF S sub(5) parts(6)])
  have 7: "mapM (SerInstrLvlAbsNoAst w k') (vec (childs m)) (ser_of L6) =
      Inr (map hier_json hs, ser_of (add_roots (concat (map hroots hs)) L6))"
  proof (rule mapM_ser_run [OF S m(9)])
    fix c t L assume a: "c \<in> set (vec (childs m))" "t \<in> set hs" "describes w c t" "set L \<subseteq> S"
    show "SerInstrLvlAbsNoAst w k' c (ser_of L) = Inr (hier_json t, ser_of (add_roots (hroots t) L))"
      using fuel [OF a(1)] Hier.prems(4) k' parts(7) a by (intro Hier.IH [OF a(2)]) auto
  qed (use parts(7) sub in auto)
  have "look w (the_ila i) (ser_of L) = Inr (m, ser_of L)" using m(1) by (simp add: look_def the_ila_def)
  moreover have "add_roots (hroots (Hier n is ss f v ks cs hs)) L = add_roots (concat (map hroots hs)) L6"
    by (simp only: hroots.simps add_roots_simps Ls)
  ultimately show ?case
    using 1 2 3 4 5 6 7 by (simp add: k' m(2-6,8) del: hroots.simps)
qed

text \<open>The JSON value of a hierarchy.\<close>

theorem Serialize_run:
  assumes "ser_dom S" "world_ok w" "describes w i t" "set (hroots t) \<subseteq> S"
  shows "Serialize w i = Inr (ast_json t)"
proof -
  have "SerInstrLvlAbsNoAst w (Suc (counter w)) i (ser_of []) = Inr (hier_json t, ser_of (add_roots (hroots t) []))"
    by (rule hier_run [OF assms(1-4)]) auto
  then show ?thesis
    by (simp add: Serialize_def SerInstrLvlAbs_def ser_of_New ser_of_sel ast_json_def Let_def)
qed

subsection \<open>The list of nodes\<close>

definition nodes_of :: "hier \<Rightarrow> expr list" where
  "nodes_of t = add_roots (hroots t) []"

definition args_first :: "expr list \<Rightarrow> bool" where
  "args_first L \<longleftrightarrow> (\<forall>k<length L. set (args (L ! k)) \<subseteq> set (take k L))"

lemma args_first_snoc: "args_first (L @ [x]) \<longleftrightarrow> args_first L \<and> set (args x) \<subseteq> set L"
  by (auto simp: args_first_def nth_append less_Suc_eq)

lemma add_node_in:
  assumes "inj_on eid S" "set L \<subseteq> S" "e \<in> S"
  shows "add_node e L = (if e \<in> set L then L else L @ [e])"
  using assms by (auto simp: add_node_def dest: inj_onD)

lemma post_order_nodes:
  assumes S: "dag S"
  shows "e \<in> S \<Longrightarrow> set L \<subseteq> S \<Longrightarrow> args_first L \<Longrightarrow>
    args_first (fold add_node (post_order e) L) \<and> set (fold add_node (post_order e) L) = set L \<union> subexprs e"
proof (induction e arbitrary: L rule: measure_induct_rule [of size])
  case (less e)
  have inj: "inj_on eid S" and args: "set (args e) \<subseteq> S" using S less.prems(1) by (auto simp: dag_def)
  have loop: "args_first (fold add_node (concat (map post_order as)) L)
      \<and> set (fold add_node (concat (map post_order as)) L) = set L \<union> (\<Union>a\<in>set as. subexprs a)"
    if "set as \<subseteq> set (args e)" "set L \<subseteq> S" "args_first L" for as L
    using that
  proof (induction as arbitrary: L)
    case (Cons a as)
    have a: "a \<in> set (args e)" "a \<in> S" using Cons.prems(1) args by auto
    have 1: "args_first (fold add_node (post_order a) L) \<and> set (fold add_node (post_order a) L) = set L \<union> subexprs a"
      by (rule less.IH [OF size_args [OF a(1)] a(2) Cons.prems(2,3)])
    have "set (fold add_node (post_order a) L) \<subseteq> S"
      using 1 Cons.prems(2) dag_subexprs [OF S a(2)] by auto
    with 1 Cons.prems(1) show ?case using Cons.IH [of "fold add_node (post_order a) L"] by auto
  qed simp
  define M where "M = fold add_node (concat (map post_order (args e))) L"
  have M: "args_first M" "set M = set L \<union> (\<Union>a\<in>set (args e). subexprs a)"
    using loop [OF order.refl less.prems(2,3)] by (simp_all add: M_def)
  have "set M \<subseteq> S" using M(2) less.prems(2) args dag_subexprs [OF S] by blast
  then have step: "fold add_node (post_order e) L = (if e \<in> set M then M else M @ [e])"
    using add_node_in [OF inj _ less.prems(1)] by (simp add: post_order.simps [of e] M_def)
  have "set (args e) \<subseteq> set M" using M(2) by auto
  then show ?case
    unfolding step using M subexprs_unfold [of e] by (auto simp: args_first_snoc)
qed

lemma add_roots_nodes:
  assumes S: "dag S"
  shows "set es \<subseteq> S \<Longrightarrow> set L \<subseteq> S \<Longrightarrow> args_first L \<Longrightarrow>
    args_first (add_roots es L) \<and> set (add_roots es L) = set L \<union> (\<Union>e\<in>set es. subexprs e)"
proof (induction es arbitrary: L)
  case (Cons e es)
  have e: "e \<in> S" "subexprs e \<subseteq> S" using Cons.prems(1) dag_subexprs [OF S] by auto
  have "args_first (add_roots [e] L) \<and> set (add_roots [e] L) = set L \<union> subexprs e"
    using post_order_nodes [OF S e(1) Cons.prems(2,3)] by (simp add: add_roots_def)
  with Cons e show ?case using Cons.IH [of "add_roots [e] L"] by (auto simp: add_roots_Cons [of e es])
qed simp

lemma add_roots_distinct: "distinct (map eid L) \<Longrightarrow> distinct (map eid (add_roots es L))"
proof -
  have "distinct (map eid L) \<Longrightarrow> distinct (map eid (fold add_node xs L))" for xs L
    by (induction xs arbitrary: L) (auto simp: add_node_def)
  then show "distinct (map eid L) \<Longrightarrow> distinct (map eid (add_roots es L))" by (simp add: add_roots_def)
qed

lemma nodes_of_props:
  assumes "dag S" "set (hroots t) \<subseteq> S"
  shows "args_first (nodes_of t)" "distinct (map eid (nodes_of t))" "set (nodes_of t) = (\<Union>e\<in>set (hroots t). subexprs e)"
  using add_roots_nodes [OF assms, of "[]"] add_roots_distinct [of "[]"]
  by (simp_all add: nodes_of_def args_first_def)

subsection \<open>What a written hierarchy has\<close>

lemma mapM_Inr_in: "mapM f xs s = Inr (ys, t) \<Longrightarrow> x \<in> set xs \<Longrightarrow> \<exists>y s' t'. f x s' = Inr (y, t')"
proof (induction xs arbitrary: s ys)
  case (Cons a xs)
  then obtain y t' ys' where a: "f a s = Inr (y, t')" "mapM f xs t' = Inr (ys', t)"
    by (auto simp: bindM_Inr_iff)
  show ?case
  proof (cases "x = a")
    case False
    with Cons.IH [OF a(2)] Cons.prems(2) show ?thesis by simp
  qed (use a(1) in blast)
qed simp

lemma SerExpr_id_Some: "SerExpr_id p s = Inr r \<Longrightarrow> p \<noteq> None"
  by (cases r) (auto simp: SerExpr_id_def SerExpr_def bindM_Inr_iff not_null_def split: option.splits)

lemma look_heap:
  "look w (the_ila i) s = Inr (m, t) \<longleftrightarrow> ila_heap w i = Some m \<and> t = s"
  "look w (the_instr k) s = Inr (x, t) \<longleftrightarrow> instr_heap w k = Some x \<and> t = s"
  by (auto simp: look_def the_ila_def the_instr_def split: option.splits)

lemma SerInstr_decode: "SerInstr w k s = Inr r \<Longrightarrow> \<exists>x. instr_heap w k = Some x \<and> decode x \<noteq> None"
  using SerExpr_id_Some by (cases r) (fastforce simp: SerInstr_def bindM_Inr_iff look_heap)

lemma written_hier:
  "SerInstrLvlAbsNoAst w n i s = Inr (j, t) \<Longrightarrow> c \<in> set (ila_order n w i) \<Longrightarrow>
   \<exists>m. ila_heap w c = Some m \<and> valid m \<noteq> None
     \<and> (\<forall>k\<in>set (vec (instrs m)). \<exists>x. instr_heap w k = Some x \<and> decode x \<noteq> None)"
proof (induction n arbitrary: i s j t)
  case (Suc n)
  obtain m ys zs s1 t1 s2 t2 s3 t3 v where m: "ila_heap w i = Some m" "SerExpr_id (valid m) s1 = Inr (v, t1)"
      "mapM (SerInstr w) (vec (instrs m)) s2 = Inr (ys, t2)"
      "mapM (SerInstrLvlAbsNoAst w n) (vec (childs m)) s3 = Inr (zs, t3)"
    using Suc.prems(1) by (auto simp: bindM_Inr_iff look_heap)
  have top: "valid m \<noteq> None" "\<forall>k\<in>set (vec (instrs m)). \<exists>x. instr_heap w k = Some x \<and> decode x \<noteq> None"
    using SerExpr_id_Some [OF m(2)] mapM_Inr_in [OF m(3)] SerInstr_decode by blast+
  consider "c = i" | a where "a \<in> set (vec (childs m))" "c \<in> set (ila_order n w a)"
    using Suc.prems(2) by (auto simp: child_ids_def m(1))
  then show ?case
  proof cases
    case 1
    then show ?thesis using m(1) top by simp
  next
    case 2
    obtain y s' t' where "SerInstrLvlAbsNoAst w n a s' = Inr (y, t')" using mapM_Inr_in [OF m(4) 2(1)] by blast
    then show ?thesis using 2(2) by (rule Suc.IH)
  qed
qed simp

lemma Serialize_written:
  assumes "Serialize w i = Inr j" "c \<in> set (ila_tree w i)"
  shows "\<exists>m. ila_heap w c = Some m \<and> valid m \<noteq> None
    \<and> (\<forall>k\<in>set (vec (instrs m)). \<exists>x. instr_heap w k = Some x \<and> decode x \<noteq> None)"
proof -
  obtain r t where "SerInstrLvlAbsNoAst w (Suc (counter w)) i I2JSer_New = Inr (r, t)"
    using assms(1) by (auto simp: Serialize_def SerInstrLvlAbs_def bindR_Inr_iff bindM_Inr_iff)
  then show ?thesis using assms(2) by (rule written_hier)
qed

text \<open>The JSON value with its list of nodes.\<close>

lemma Serialize_nodes:
  assumes "ser_dom S" "world_ok w" "describes w i t" "set (hroots t) \<subseteq> S"
  shows "Serialize w i = Inr (obj_of [(''t'', hier_json t), (''a'', jarr (map node_json (nodes_of t))),
      (''f'', jarr (map func_json (applied (nodes_of t))))])
    \<and> distinct (map eid (nodes_of t)) \<and> set (nodes_of t) = (\<Union>e\<in>set (hroots t). subexprs e)
    \<and> args_first (nodes_of t)"
  using Serialize_run [OF assms] nodes_of_props [OF _ assms(4)] assms(1)
  by (simp add: ast_json_def nodes_of_def Let_def ser_dom_def)

end
