(* ===== verification/Demo_Json.thy ===== *)
theory Demo_Json
  imports Json_Ser Demo
begin

text \<open>
  The demonstration hierarchy, with a valid function for the child, which the portable format
  asks for.
\<close>

definition demo_ser :: world where
  "demo_ser = (case SetValid 9 (Some v_c) demo of Inr (_, w) \<Rightarrow> w | Inl _ \<Rightarrow> demo)"

definition demo_hier :: hier where
  "demo_hier = Hier ''m'' [v_addr, v_data, v_c] [v_mem] None v_c [(''ST'', v_c, [e_ite])] []
     [Hier ''ch'' [v_addr, v_data, v_c, v_x] [v_mem] None v_c [(''CI'', v_c, [e_store2])] [] []]"

lemma demo_ser_built: "SetValid 9 (Some v_c) demo = Inr ((), demo_ser)"
proof -
  have "isl (SetValid 9 (Some v_c) demo) = False" by code_simp
  then show ?thesis by (cases "SetValid 9 (Some v_c) demo") (auto simp: demo_ser_def)
qed

lemma demo_ser_ok: "world_ok demo_ser"
proof -
  have "keeps (SetValid 9 (Some v_c))" by (intro keeps_api)
  from keepsD [OF this demo_ok demo_ser_built] show ?thesis by simp
qed

abbreviation shape :: "ila \<Rightarrow> _" where
  "shape m \<equiv> (sym_name (m_sym m), vec (inputs m), vec (states m), fetch m, valid m, vec (instrs m), inits m, vec (childs m))"

lemma demo_ser_shapes:
  "map_option shape (ila_heap demo_ser 1) = Some (''m'', [v_addr, v_data, v_c], [v_mem], None, Some v_c, [6], [], [9])"
  "map_option shape (ila_heap demo_ser 9) = Some (''ch'', [v_addr, v_data, v_c, v_x], [v_mem], None, Some v_c, [11], [], [])"
  by code_simp+

lemma demo_ser_instrs:
  "instr_heap demo_ser 6 = Some \<lparr>i_sym = \<lparr>sym_name = ''ST'', sym_id = 6\<rparr>,
     decode = Some v_c, updates = [(''mem'', Some e_ite)], i_host = Some 1, prog = None\<rparr>"
  "instr_heap demo_ser 11 = Some \<lparr>i_sym = \<lparr>sym_name = ''CI'', sym_id = 11\<rparr>,
     decode = Some v_c, updates = [(''mem'', Some e_store2)], i_host = Some 9, prog = None\<rparr>"
  by code_simp+

lemma demo_describes: "describes demo_ser 1 demo_hier"
proof -
  obtain m c where "ila_heap demo_ser 1 = Some m" "ila_heap demo_ser 9 = Some c"
    using demo_ser_shapes by fastforce
  then show ?thesis
    using demo_ser_shapes demo_ser_instrs
    by (simp add: demo_hier_def instr_is_def next_state_def v_mem_def)
qed

lemma demo_ser_dom: "ser_dom demo_nodes"
  using demo_dag by (auto simp: ser_dom_def demo_nodes_def demo_exprs)

lemma demo_hroots: "set (hroots demo_hier) \<subseteq> demo_nodes"
  by (auto simp: demo_hier_def demo_nodes_def instr_roots_def)

lemma demo_ser_tree: "ila_tree demo_ser 1 = [9, 1]"
  by code_simp

end
