(* ===== verification/Demo_Solver.thy ===== *)
theory Demo_Solver
  imports Bmc_Sound Demo_Smt Demo_Json
begin

text \<open>
  The demonstration hierarchy under the passes that ask a solver, and the top ILA against its
  child under the bounded check.
\<close>

lemma demo_solver_decides: "z_check den_solver n ts \<noteq> Unknown"
  by (simp add: den_solver_def)

lemma demo_ser_counter: "counter demo_ser = 12"
  by code_simp

lemma demo_ser_heap: "node_heap demo_nodes demo_ser"
  using demo_heap by (simp add: node_heap_def demo_ser_counter demo_counter)

lemma demo_ser_in: "1 \<in> dom (ila_heap demo_ser)" "9 \<in> dom (ila_heap demo_ser)"
  using demo_ser_shapes by auto

lemma demo_ser_ready: "\<forall>x\<in>demo_nodes. z3_ready demo_ser x"
proof
  fix x assume x: "x \<in> demo_nodes"
  then have "host_ok demo_ser (host x)"
    unfolding demo_nodes_def host_ok_def using demo_ser_in by (auto simp: demo_exprs)
  then show "z3_ready demo_ser x" using demo_z3_ready x demo_leaf [OF x] by (auto simp: z3_ready_def)
qed

lemma demo_ser_parents:
  "map_option (\<lambda>m. (parent m, sym_name (m_sym m))) (ila_heap demo_ser 1) = Some (None, ''m'')"
  "map_option (\<lambda>m. (parent m, sym_name (m_sym m))) (ila_heap demo_ser 9) = Some (Some 1, ''ch'')"
  by code_simp+

lemma demo_ser_roots: "GetRootName demo_ser 1 = Some ''m''" "GetRootName demo_ser 9 = Some ''m.ch''"
proof -
  obtain m where m: "ila_heap demo_ser 1 = Some m" "parent m = None" "sym_name (m_sym m) = ''m''"
    using demo_ser_parents(1) by auto
  obtain c where c: "ila_heap demo_ser 9 = Some c" "parent c = Some 1" "sym_name (m_sym c) = ''ch''"
    using demo_ser_parents(2) by auto
  show one: "GetRootName demo_ser 1 = Some ''m''" using m by (subst GetRootName.simps) simp
  show "GetRootName demo_ser 9 = Some ''m.ch''" using c one by (subst GetRootName.simps) simp
qed

text \<open>The names at the steps 0 to 2.\<close>

lemma demo_ser_names: "map (name_at demo_ser (\<lambda>j. int_to_string (int j)))
    (List.product [0, 1, 2] [v_mem, v_addr, v_data, v_c, v_x]) =
   [''m_sEp_mem_sEp_0'', ''m_sEp_addr_sEp_0'', ''m_sEp_data_sEp_0'', ''m_sEp_c_sEp_0'', ''m.ch_sEp_x_sEp_0'',
    ''m_sEp_mem_sEp_1'', ''m_sEp_addr_sEp_1'', ''m_sEp_data_sEp_1'', ''m_sEp_c_sEp_1'', ''m.ch_sEp_x_sEp_1'',
    ''m_sEp_mem_sEp_2'', ''m_sEp_addr_sEp_2'', ''m_sEp_data_sEp_2'', ''m_sEp_c_sEp_2'', ''m.ch_sEp_x_sEp_2'']"
proof -
  have sfx: "int_to_string (int 0) = ''0''" "int_to_string (int 1) = ''1''" "int_to_string (int 2) = ''2''"
    by code_simp+
  show ?thesis
    using demo_ser_roots
    by (simp add: name_at_def sfx [simplified] var_name_def demo_exprs root_prefix_def prefix_of_def format_str_def sep_def)
qed

lemma name_at_step: "inj_on (name_at w c) (I \<times> V) \<Longrightarrow> i \<in> I \<Longrightarrow> inj_on (var_name w (c i)) V"
  by (fastforce simp: inj_on_def name_at_def)

lemma name_at_zero: "inj_on (var_name w s) V \<Longrightarrow> inj_on (name_at w (\<lambda>_. [])) ({0..0} \<times> V)"
  unfolding var_name_suffix [of w s] by (auto simp: inj_on_def name_at_def)

lemma demo_ser_apart:
  "apart_at demo_ser (\<lambda>j. int_to_string (int j)) 2 demo_nodes" "apart_at demo_ser (\<lambda>_. []) 0 demo_nodes"
proof -
  let ?vs = "[v_mem, v_addr, v_data, v_c, v_x]"
  have vars: "vars_of demo_nodes = set ?vs" by (simp only: demo_vars(1) list.set)
  have rest: "\<forall>x\<in>demo_nodes. efunc x \<noteq> None \<longrightarrow> args x \<noteq> []"
    by (intro ballI impI) (simp only: demo_leaf simp_thms)
  have funcs: "inj_on (func_rank demo_ser) (funcs_of demo_nodes)" unfolding demo_vars(2) by (rule inj_on_empty)
  have "distinct (map (name_at demo_ser (\<lambda>j. int_to_string (int j))) (List.product [0, 1, 2] ?vs))"
    unfolding demo_ser_names by code_simp
  then have inj: "inj_on (name_at demo_ser (\<lambda>j. int_to_string (int j))) (set [0, 1, 2] \<times> set ?vs)"
    unfolding distinct_map set_product by (rule conjunct2)
  have steps: "{0..2::nat} = set [0, 1, 2]" by auto
  show "apart_at demo_ser (\<lambda>j. int_to_string (int j)) 2 demo_nodes"
    using inj rest funcs unfolding apart_at_def steps vars by (intro conjI)
  have "0 \<in> set [0::nat, 1, 2]" by simp
  from name_at_zero [OF name_at_step [OF inj this]]
  have "inj_on (name_at demo_ser (\<lambda>_. [])) ({0..0} \<times> vars_of demo_nodes)" unfolding vars .
  then show "apart_at demo_ser (\<lambda>_. []) 0 demo_nodes"
    using rest funcs unfolding apart_at_def by (intro conjI)
qed

lemma demo_solver_nodes: "solver_nodes demo_ser demo_nodes"
  unfolding solver_nodes_def by (intro conjI demo_ser_heap demo_ser_ready demo_ser_apart)

lemma demo_ser_at:
  "ila_heap demo_ser 1 = Some m \<Longrightarrow> valid m = Some v_c \<and> vec (instrs m) = [6] \<and> vec (states m) = [v_mem] \<and> vec (inputs m) = [v_addr, v_data, v_c]"
  "ila_heap demo_ser 9 = Some m \<Longrightarrow> valid m = Some v_c \<and> vec (instrs m) = [11] \<and> vec (states m) = [v_mem]"
  using demo_ser_shapes by simp_all

lemma demo_updates_in: "updates_in demo_nodes (set (ila_tree demo_ser 1)) demo_ser"
proof -
  obtain m c where m: "ila_heap demo_ser 1 = Some m" "ila_heap demo_ser 9 = Some c" using demo_ser_in by blast
  show ?thesis
    unfolding updates_in_def demo_ser_tree
    using m demo_ser_at(1) [OF m(1)] demo_ser_at(2) [OF m(2)] demo_members
    by (auto simp: demo_ser_instrs split: if_splits)
qed

lemma demo_checkable: "checkable demo_nodes demo_ser (set (ila_tree demo_ser 1))"
proof -
  obtain m c where m: "ila_heap demo_ser 1 = Some m" "ila_heap demo_ser 9 = Some c" using demo_ser_in by blast
  show ?thesis
    unfolding checkable_def demo_ser_tree
    using m demo_ser_at(1) [OF m(1)] demo_ser_at(2) [OF m(2)] demo_members
    by (auto simp: demo_ser_instrs decodes_in_def)
qed

lemma demo_next: "next_state demo_ser 6 v_mem = e_ite" "next_state demo_ser 11 v_mem = e_store2"
  by (simp_all add: next_state_def demo_ser_instrs) (simp_all add: v_mem_def)

definition demo_bmc :: bmc where
  "demo_bmc = bmc_AddInvariant v_c (bmc_AddInit v_c LegacyBmc_New)"

lemma demo_bmc_ready:
  assumes m: "ila_heap demo_ser 1 = Some m" "ila_heap demo_ser 9 = Some c"
  shows "bmc_ready demo_nodes demo_ser demo_bmc 1 m 9 c"
proof -
  have find: "map_option (\<lambda>m. (find_state m ''mem'', find_input m ''addr'', find_input m ''data'', find_input m ''c''))
      (ila_heap demo_ser 9) = Some (Some v_mem, Some v_addr, Some v_data, Some v_c)" by code_simp
  have names: "ename v_mem = ''mem''" "ename v_addr = ''addr''" "ename v_data = ''data''" "ename v_c = ''c''"
    by (simp_all add: demo_exprs)
  have sorts: "esort e_ite = esort v_mem" "esort e_store2 = esort v_mem" "esort v_c = SortBool"
    by (simp_all add: demo_exprs)
  have "flat_ready demo_nodes demo_ser 1 m" "flat_ready demo_nodes demo_ser 9 c"
    unfolding flat_ready_def using m demo_ser_at(1) [OF m(1)] demo_ser_at(2) [OF m(2)] demo_members sorts
    by (auto simp: demo_ser_instrs demo_next)
  moreover have "paired demo_nodes (find_state c) (vec (states m))" "paired demo_nodes (find_input c) (vec (inputs m))"
    unfolding paired_def using m(2) demo_ser_at(1) [OF m(1)] find demo_members by (auto simp: names)
  moreover have "b_inits demo_bmc = [v_c]" "b_invs demo_bmc = [v_c]"
    by (simp_all add: demo_bmc_def bmc_AddInvariant_def bmc_AddInit_def LegacyBmc_New_def)
  ultimately show ?thesis using demo_members(4) sorts(3) by (simp add: bmc_ready_def)
qed

interpretation demo_search: simp_run z3_model fst den_term den_solver demo_ser demo_nodes demo_nodes e_ite v_c 0
  by unfold_locales (use demo_ser_ok demo_solver_nodes demo_dag demo_members in \<open>simp_all add: v_c_def\<close>)

interpretation demo_bmc: bmc_run z3_model fst den_term den_solver demo_ser demo_nodes
proof unfold_locales
  show "\<forall>x\<in>demo_nodes. efunc x \<noteq> None \<longrightarrow> args x \<noteq> []"
    by (intro ballI impI) (simp only: demo_leaf simp_thms)
qed (rule demo_ser_ok demo_dag demo_ser_ready)+

end
