(* ===== verification/Comm_Diag.thy ===== *)
theory Comm_Diag
  imports Legacy_Bmc
begin

text \<open>
  Refinement relations between two ILAs (\<^verbatim>\<open>src/ila-mngr/v_refinement.cc\<close>) and the check that a
  pair of ILAs commutes with one (\<^verbatim>\<open>v_eq_check_crr.cc\<close>), in the three forms of the code.  The
  messages about a counterexample are left out.
\<close>

subsection \<open>Refinement relations\<close>

record refinement =
  r_coi :: "nat option"
  r_appl :: "expr option"
  r_flush :: "expr option"
  r_cmpl :: "expr option"
  r_step_appl :: int
  r_step_orig :: int
  r_invs :: "expr list"

definition RefinementMap_New :: "refinement W" where
  "RefinementMap_New = bindM (BoolConst True) (\<lambda>c. ret \<lparr>r_coi = None, r_appl = None, r_flush = None,
     r_cmpl = Some c, r_step_appl = - 1, r_step_orig = - 1, r_invs = []\<rparr>)"

definition set_tgt :: "nat option \<Rightarrow> refinement \<Rightarrow> refinement res" where
  "set_tgt tgt r = bindR (assertR (tgt \<noteq> None) []) (\<lambda>_. Inr (r\<lparr>r_coi := tgt\<rparr>))"

definition set_tgt_instr :: "nat option \<Rightarrow> refinement \<Rightarrow> refinement W" where
  "set_tgt_instr tgt r =
     thenM (ila_assert (tgt \<noteq> None) [])
    (bindM (ila_not_null tgt) (\<lambda>k.
     bindM (the_instr k) (\<lambda>x.
     thenM (ila_assert (i_host x \<noteq> None) [])
    (bindM (ila_not_null (i_host x)) (\<lambda>h.
     bindM (the_ila h) (\<lambda>m.
     bindM (ExtrDeptModl k (sym_name (m_sym m))) (\<lambda>c. ret (r\<lparr>r_coi := Some c\<rparr>))))))))"

text \<open>The Boolean members.\<close>

definition bool_member :: "string \<Rightarrow> expr option \<Rightarrow> (expr \<Rightarrow> 'a) \<Rightarrow> 'a res" where
  "bool_member msg p f =
     bindR (assertR (\<exists>e\<in>set_option p. is_bool (esort e)) msg) (\<lambda>_. bindR (not_null p) (\<lambda>e. Inr (f e)))"

definition set_appl :: "expr option \<Rightarrow> refinement \<Rightarrow> refinement res" where
  "set_appl appl r = bool_member ''Apply function should be represented as Boolean constraint.'' appl
     (\<lambda>e. r\<lparr>r_appl := Some e\<rparr>)"

definition set_flush :: "expr option \<Rightarrow> refinement \<Rightarrow> refinement res" where
  "set_flush flush r = bool_member ''Flushing function should be represented as Boolean constraint.'' flush
     (\<lambda>e. r\<lparr>r_flush := Some e\<rparr>)"

definition set_cmpl :: "expr option \<Rightarrow> refinement \<Rightarrow> refinement res" where
  "set_cmpl cmpl r = bool_member ''Completion should be indicated as Boolean constraint.'' cmpl
     (\<lambda>e. r\<lparr>r_cmpl := Some e\<rparr>)"

definition set_step_appl :: "int \<Rightarrow> refinement \<Rightarrow> refinement res" where
  "set_step_appl step r = bindR (assertR (step \<ge> 0) ''Can only be flushed positive times.'')
     (\<lambda>_. Inr (r\<lparr>r_step_appl := step\<rparr>))"

definition set_step_orig :: "int \<Rightarrow> refinement \<Rightarrow> refinement res" where
  "set_step_orig step r = bindR (assertR (step \<ge> 0) ''Can only be flushed positive times.'')
     (\<lambda>_. Inr (r\<lparr>r_step_orig := step\<rparr>))"

definition add_inv :: "expr option \<Rightarrow> refinement \<Rightarrow> refinement res" where
  "add_inv e r = bool_member ''Invariant should be Boolean.'' e (\<lambda>e. r\<lparr>r_invs := r_invs r @ [e]\<rparr>)"

text \<open>A relation is its conjunction so far.\<close>

definition RelationMap_New :: "expr W" where
  "RelationMap_New = BoolConst True"

definition RelationMap_add :: "expr option \<Rightarrow> expr \<Rightarrow> expr W" where
  "RelationMap_add rel acc =
     bindM (liftR (bool_member ''Relation mapping should be Boolean typed.'' rel (\<lambda>e. e))) (\<lambda>e. And acc e)"

record crr =
  refine_a :: refinement
  refine_b :: refinement
  relation :: expr

definition CompRefRel_New :: "refinement option \<Rightarrow> refinement option \<Rightarrow> expr option \<Rightarrow> crr res" where
  "CompRefRel_New ref_a ref_b rel =
     bindR (assertR (ref_a \<noteq> None \<and> ref_b \<noteq> None \<and> rel \<noteq> None) ''Incomplete refinement relation.'') (\<lambda>_.
     bindR (not_null ref_a) (\<lambda>a. bindR (not_null ref_b) (\<lambda>b. bindR (not_null rel) (\<lambda>e.
     Inr \<lparr>refine_a = a, refine_b = b, relation = e\<rparr>))))"

subsection \<open>The state of a check\<close>

datatype uid = A_OLD | A_NEW | B_OLD | B_NEW

text \<open>The unrollers: nine members and the four variables of \<^verbatim>\<open>IncEqCheck\<close>.\<close>

datatype unrl = unroll_orig | unroll_appl | unrl_old | unrl_new | unrl_apl
  | unrl_a_old | unrl_a_new | unrl_b_old | unrl_b_new | inc_unrl uid

primrec uid_suffix :: "uid \<Rightarrow> string" where
  "uid_suffix A_OLD = ''old''"
| "uid_suffix A_NEW = ''new''"
| "uid_suffix B_OLD = ''old''"
| "uid_suffix B_NEW = ''new''"

primrec unrl_suffix :: "unrl \<Rightarrow> string" where
  "unrl_suffix unroll_orig = ''org''"
| "unrl_suffix unroll_appl = ''apl''"
| "unrl_suffix unrl_old = ''old''"
| "unrl_suffix unrl_new = ''new''"
| "unrl_suffix unrl_apl = ''apl''"
| "unrl_suffix unrl_a_old = ''old''"
| "unrl_suffix unrl_a_new = ''new''"
| "unrl_suffix unrl_b_old = ''old''"
| "unrl_suffix unrl_b_new = ''new''"
| "unrl_suffix (inc_unrl u) = uid_suffix u"

record 't diag =
  g_world :: world
  g_unrl :: "unrl \<Rightarrow> 't zunroller"
  g_lo :: "uid \<Rightarrow> int"
  g_hi :: "uid \<Rightarrow> int"
  g_stts_a :: expr_set
  g_stts_b :: expr_set

type_synonym ('t, 'a) G = "('t diag, 'a) action"

definition diag_start :: "world \<Rightarrow> 't diag" where
  "diag_start w = \<lparr>g_world = w, g_unrl = (\<lambda>u. Unroller_New (unrl_suffix u)), g_lo = (\<lambda>_. 0), g_hi = (\<lambda>_. 0),
     g_stts_a = [], g_stts_b = []\<rparr>"

definition in_world :: "'a W \<Rightarrow> ('t, 'a) G" where
  "in_world m = (\<lambda>g. case m (g_world g) of Inl x \<Rightarrow> Inl x | Inr (a, w) \<Rightarrow> Inr (a, g\<lparr>g_world := w\<rparr>))"

text \<open>A member function of an unroller.\<close>

definition on_unrl :: "unrl \<Rightarrow> ('t, 'a) Z \<Rightarrow> ('t, 'a) G" where
  "on_unrl u m = (\<lambda>g. case m \<lparr>z_world = g_world g, z_self = g_unrl g u\<rparr> of
       Inl x \<Rightarrow> Inl x
     | Inr (a, st) \<Rightarrow> Inr (a, g\<lparr>g_world := z_world st, g_unrl := (g_unrl g)(u := z_self st)\<rparr>))"

abbreviation set_unrl :: "unrl \<Rightarrow> ('t zunroller \<Rightarrow> 't zunroller) \<Rightarrow> ('t, unit) G" where
  "set_unrl u f \<equiv> on_unrl u (z_set f)"

primrec GetUnrl :: "uid \<Rightarrow> unrl" where
  "GetUnrl A_OLD = unrl_old"
| "GetUnrl A_NEW = unrl_new"
| "GetUnrl B_OLD = unrl_old"
| "GetUnrl B_NEW = unrl_new"

primrec GetRefine :: "crr \<Rightarrow> uid \<Rightarrow> refinement" where
  "GetRefine c A_OLD = refine_a c"
| "GetRefine c A_NEW = refine_a c"
| "GetRefine c B_OLD = refine_b c"
| "GetRefine c B_NEW = refine_b c"

primrec GetStts :: "'t diag \<Rightarrow> uid \<Rightarrow> expr_set" where
  "GetStts g A_OLD = g_stts_a g"
| "GetStts g A_NEW = g_stts_a g"
| "GetStts g B_OLD = g_stts_b g"
| "GetStts g B_NEW = g_stts_b g"

definition uids :: "uid list" where
  "uids = [A_OLD, A_NEW, B_OLD, B_NEW]"

text \<open>Terms.\<close>

abbreviation g_and :: "'t z3_api \<Rightarrow> 't \<Rightarrow> 't \<Rightarrow> ('t, 't) G" where
  "g_and api a b \<equiv> liftR (z_apply api z3_and [a, b])"

abbreviation g_or :: "'t z3_api \<Rightarrow> 't \<Rightarrow> 't \<Rightarrow> ('t, 't) G" where
  "g_or api a b \<equiv> liftR (z_apply api z3_or [a, b])"

abbreviation g_not :: "'t z3_api \<Rightarrow> 't \<Rightarrow> ('t, 't) G" where
  "g_not api a \<equiv> liftR (z_apply api z3_not [a])"

abbreviation g_eq :: "'t z3_api \<Rightarrow> 't \<Rightarrow> 't \<Rightarrow> ('t, 't) G" where
  "g_eq api a b \<equiv> liftR (z_apply api z3_eq [a, b])"

text \<open>\<^verbatim>\<open>GetZ3Expr(e, t)\<close> of an unroller, for a pointer.\<close>

definition at_frame :: "'t z3_api \<Rightarrow> unrl \<Rightarrow> expr option \<Rightarrow> int \<Rightarrow> ('t, 't) G" where
  "at_frame api u p t = bindM (ila_not_null p) (\<lambda>e. on_unrl u (Unroller_GetZ3Expr api e t))"

text \<open>The predicates of a refinement.\<close>

definition add_invs :: "unrl \<Rightarrow> refinement \<Rightarrow> ('t, unit) G" where
  "add_invs u r = forM (r_invs r) (\<lambda>e. set_unrl u (AddGlobPred e))"

definition add_flush :: "unrl \<Rightarrow> refinement \<Rightarrow> ('t, unit) G" where
  "add_flush u r = bindM (ila_not_null (r_flush r)) (\<lambda>f. set_unrl u (AddGlobPred f))"

definition add_flush_steps :: "unrl \<Rightarrow> refinement \<Rightarrow> int list \<Rightarrow> ('t, unit) G" where
  "add_flush_steps u r ks = forM ks (\<lambda>i. bindM (ila_not_null (r_flush r)) (\<lambda>f. set_unrl u (AddStepPred f i)))"

text \<open>The conjunction of equations over a set of variables.\<close>

definition all_equal :: "'t z3_api \<Rightarrow> (expr \<Rightarrow> ('t, 't) G) \<Rightarrow> expr_set \<Rightarrow> ('t, 't) G" where
  "all_equal api equation vars =
     bindM (in_world (iterate vars)) (\<lambda>vs.
     foldM (\<lambda>eq v. bindM (equation v) (\<lambda>e. g_and api eq e)) (z_bool_val api True) vs)"

subsection \<open>Conditions on the refinement\<close>

definition GenInit :: "'t z3_api \<Rightarrow> refinement \<Rightarrow> ('t, 't) G" where
  "GenInit api r =
     bindM (ila_not_null (r_coi r)) (\<lambda>m.
     bindM (in_world (GetSttTree m)) (\<lambda>vars.
     bindM (all_equal api (\<lambda>v.
       bindM (on_unrl unroll_orig (CurrState api v 0)) (\<lambda>so.
       bindM (on_unrl unroll_appl (CurrState api v 0)) (\<lambda>sn. g_eq api so sn))) vars) (\<lambda>eq.
     bindM (at_frame api unroll_appl (r_appl r) 0) (\<lambda>an.
     bindM (at_frame api unroll_orig (r_flush r) 0) (\<lambda>fo.
     bindM (g_and api an fo) (\<lambda>t. g_and api t eq))))))"

text \<open>\<^verbatim>\<open>z3::forall\<close> is a further function of the library.\<close>

type_synonym 't z3_forall = "'t list \<Rightarrow> 't \<Rightarrow> 't res"

definition SanityCheckRefinement ::
  "'t z3_api \<Rightarrow> 't z3_forall \<Rightarrow> 't z3_solver \<Rightarrow> refinement \<Rightarrow> ('t, bool) G" where
  "SanityCheckRefinement api fa slv r =
     thenM (ila_check (r_coi r \<noteq> None) ''Refinement target not set.'')
    (thenM (ila_check (r_flush r \<noteq> None) ''Flushing function not set for '')
    (thenM (ila_check (r_appl r \<noteq> None) ''Apply function not set set for '')
    (thenM (ila_check (r_cmpl r \<noteq> None) ''Complete condition not set for '')
    (bindM (ila_not_null (r_flush r)) (\<lambda>f. bindM (ila_not_null (r_appl r)) (\<lambda>a. bindM (ila_not_null (r_cmpl r)) (\<lambda>c.
     bindM (in_world (bindM (And f a) (\<lambda>e. w_gen api e []))) (\<lambda>exc.
     if z_check slv 0 [exc] = Sat then ret False
     else
     bindM (if r_step_orig r \<noteq> 0 \<or> r_step_appl r \<noteq> 0 then
         bindM (in_world (bindM (Imply f c) (\<lambda>e. w_gen api e []))) (\<lambda>cmpl_unique.
         bindM (g_not api cmpl_unique) (\<lambda>t. ret (z_check slv 0 [t] \<noteq> Unsat)))
       else ret True) (\<lambda>go.
     if \<not> go then ret False
     else
     bindM (GenInit api r) (\<lambda>init.
     bindM (on_unrl unroll_appl (Unroller_GetZ3Expr api a 0)) (\<lambda>an.
     bindM (liftR (GetVar a)) (\<lambda>appl_vars.
     bindM (in_world (iterate appl_vars)) (\<lambda>vs.
     bindM (mapM (\<lambda>v. on_unrl unroll_appl (CurrState api v 0)) vs) (\<lambda>appl_z3.
     bindM (g_not api init) (\<lambda>ni.
     bindM (g_and api an ni) (\<lambda>body.
     bindM (liftR (fa appl_z3 body)) (\<lambda>q.
     ret (z_check slv 0 [q] \<noteq> Sat))))))))))))))))))"

definition SanityCheckRelation :: "expr \<Rightarrow> nat \<Rightarrow> nat \<Rightarrow> ('t, bool) G" where
  "SanityCheckRelation rel ma mb =
     bindM (liftR (GetVar rel)) (\<lambda>rel_vars.
     bindM (in_world (bindM (InsertStt ma []) (\<lambda>s. InsertStt mb s))) (\<lambda>ref_vars.
     bindM (in_world (iterate rel_vars)) (\<lambda>vs.
     ret (\<forall>v\<in>set vs. list_ex (same_node v) ref_vars))))"

definition SanityCheck ::
  "'t z3_api \<Rightarrow> 't z3_forall \<Rightarrow> 't z3_solver \<Rightarrow> crr \<Rightarrow> ('t, bool) G" where
  "SanityCheck api fa slv c =
     bindM (SanityCheckRefinement api fa slv (refine_a c)) (\<lambda>res_a.
     bindM (SanityCheckRefinement api fa slv (refine_b c)) (\<lambda>res_b.
     bindM (ila_not_null (r_coi (refine_a c))) (\<lambda>ma. bindM (ila_not_null (r_coi (refine_b c))) (\<lambda>mb.
     bindM (SanityCheckRelation (relation c) ma mb) (\<lambda>res_r.
     ret (res_a \<and> res_b \<and> res_r))))))"

subsection \<open>The number of steps\<close>

definition AtLeastOnce :: "'t z3_api \<Rightarrow> unrl \<Rightarrow> expr option \<Rightarrow> int \<Rightarrow> int \<Rightarrow> ('t, 't) G" where
  "AtLeastOnce api u cmpl start end =
     bindM (in_world (BoolConst False)) (\<lambda>c.
     bindM (on_unrl u (Unroller_GetZ3Expr api c 0)) (\<lambda>cstr.
     foldM (\<lambda>cstr i. bindM (at_frame api u cmpl i) (\<lambda>t. g_or api cstr t)) cstr [start..end]))"

definition AtMostOnce :: "'t z3_api \<Rightarrow> unrl \<Rightarrow> expr option \<Rightarrow> int \<Rightarrow> int \<Rightarrow> ('t, 't) G" where
  "AtMostOnce api u cmpl start end =
     bindM (in_world (BoolConst True)) (\<lambda>c.
     bindM (on_unrl u (Unroller_GetZ3Expr api c 0)) (\<lambda>cstr.
     foldM (\<lambda>cstr i.
       bindM (at_frame api u cmpl i) (\<lambda>cmpl_i.
       foldM (\<lambda>cstr j.
         bindM (at_frame api u cmpl j) (\<lambda>cmpl_j.
         bindM (g_not api cmpl_i) (\<lambda>ni. bindM (g_not api cmpl_j) (\<lambda>nj.
         bindM (g_or api ni nj) (\<lambda>t. g_and api cstr t))))) cstr [i + 1..end])) cstr [start..end]))"

text \<open>The two queries of a step count.  The second is asked with the first still asserted.\<close>

definition step_queries :: "'t z3_api \<Rightarrow> 't z3_solver \<Rightarrow> unrl \<Rightarrow> expr option \<Rightarrow> int \<Rightarrow> int \<Rightarrow> 't \<Rightarrow> 't \<Rightarrow> ('t, bool) G" where
  "step_queries api slv u cmpl start end init tran =
     bindM (AtLeastOnce api u cmpl start end) (\<lambda>at_least_once.
     bindM (g_and api init tran) (\<lambda>it. bindM (g_not api at_least_once) (\<lambda>never. bindM (g_and api it never) (\<lambda>q1.
     if z_check slv 0 [q1] = Sat then ret False
     else
     bindM (AtMostOnce api u cmpl start end) (\<lambda>at_most_once.
     bindM (g_and api init tran) (\<lambda>it. bindM (g_not api at_most_once) (\<lambda>twice. bindM (g_and api it twice) (\<lambda>q2.
     ret (z_check slv 0 [q1, q2] \<noteq> Sat)))))))))"

definition CheckStepOrig :: "'t z3_api \<Rightarrow> 't z3_solver \<Rightarrow> refinement \<Rightarrow> int \<Rightarrow> ('t, bool) G" where
  "CheckStepOrig api slv r k =
     bindM (GenInit api r) (\<lambda>init.
     thenM (set_unrl unroll_orig ClearPred)
    (thenM (add_flush unroll_orig r)
    (thenM (add_invs unroll_orig r)
    (bindM (ila_not_null (r_coi r)) (\<lambda>m.
     bindM (on_unrl unroll_orig (MonoAssn api m k 0)) (\<lambda>tran.
     bindM (g_and api init tran) (\<lambda>it.
     thenM (ila_check (z_check slv 0 [it] \<noteq> Unsat) [])
           (step_queries api slv unroll_orig (r_cmpl r) 0 k init tran))))))))"

definition CheckStepAppl :: "'t z3_api \<Rightarrow> 't z3_solver \<Rightarrow> refinement \<Rightarrow> int \<Rightarrow> ('t, bool) G" where
  "CheckStepAppl api slv r k =
     bindM (GenInit api r) (\<lambda>init.
     thenM (set_unrl unroll_appl ClearPred)
    (thenM (bindM (ila_not_null (r_appl r)) (\<lambda>a. set_unrl unroll_appl (AddInitPred a)))
    (thenM (add_flush_steps unroll_appl r [1..k + 1])
    (thenM (add_invs unroll_appl r)
    (bindM (ila_not_null (r_coi r)) (\<lambda>m.
     bindM (on_unrl unroll_appl (MonoAssn api m (k + 1) 0)) (\<lambda>tran.
     step_queries api slv unroll_appl (r_cmpl r) 1 (k + 1) init tran)))))))"

text \<open>The first number that passes, or -1.\<close>

primrec first_step :: "(int \<Rightarrow> ('t, bool) G) \<Rightarrow> int list \<Rightarrow> ('t, int) G" where
  "first_step check [] = ret (- 1)"
| "first_step check (n # ns) = bindM (check n) (\<lambda>ok. if ok then ret n else first_step check ns)"

definition DetStepOrig :: "'t z3_api \<Rightarrow> 't z3_solver \<Rightarrow> refinement \<Rightarrow> int \<Rightarrow> ('t, int) G" where
  "DetStepOrig api slv r m =
     first_step (CheckStepOrig api slv r) [(if r_step_orig r \<ge> 0 then r_step_orig r else 0)..m]"

definition DetStepAppl :: "'t z3_api \<Rightarrow> 't z3_solver \<Rightarrow> refinement \<Rightarrow> int \<Rightarrow> ('t, int) G" where
  "DetStepAppl api slv r m =
     first_step (CheckStepAppl api slv r) [(if r_step_appl r \<ge> 0 then r_step_appl r else 0)..m]"

subsection \<open>The monolithic check\<close>

definition UnrollFlush :: "'t z3_api \<Rightarrow> unrl \<Rightarrow> refinement \<Rightarrow> int \<Rightarrow> int \<Rightarrow> int \<Rightarrow> ('t, 't) G" where
  "UnrollFlush api u r base len start =
     thenM (ila_assert (base + len \<ge> start) [])
    (thenM (set_unrl u ClearPred)
    (thenM (add_invs u r)
    (thenM (add_flush_steps u r [start..base + len])
    (bindM (ila_not_null (r_coi r)) (\<lambda>m.
     bindM (on_unrl u (MonoAssn api m len base)) (\<lambda>path.
     bindM (in_world (GetStt m)) (\<lambda>vars.
     bindM (foldM (\<lambda>mark i.
       bindM (at_frame api u (r_cmpl r) i) (\<lambda>cmpl_i.
       bindM (all_equal api (\<lambda>v.
         bindM (on_unrl u (CurrState api v i)) (\<lambda>s_i.
         bindM (on_unrl u (Unroller_GetZ3Expr_unique api v)) (\<lambda>s. g_eq api s s_i))) vars) (\<lambda>eq.
       bindM (liftR (Z3Implies api cmpl_i eq)) (\<lambda>t. g_and api mark t))))
       (z_bool_val api True) [start..base + len]) (\<lambda>mark.
     g_and api path mark))))))))"

definition GenTranRel :: "'t z3_api \<Rightarrow> refinement \<Rightarrow> int \<Rightarrow> int \<Rightarrow> ('t, 't) G" where
  "GenTranRel api r k_orig k_appl =
     bindM (GenInit api r) (\<lambda>init.
     bindM (UnrollFlush api unroll_orig r 0 k_orig 0) (\<lambda>orig.
     bindM (UnrollFlush api unroll_appl r 0 (k_appl + 1) 1) (\<lambda>appl.
     bindM (g_and api init orig) (\<lambda>t. g_and api t appl))))"

definition GenAssm :: "'t z3_api \<Rightarrow> crr \<Rightarrow> ('t, 't) G" where
  "GenAssm api c = on_unrl unroll_orig (Unroller_GetZ3Expr_unique api (relation c))"

definition GenProp :: "'t z3_api \<Rightarrow> crr \<Rightarrow> ('t, 't) G" where
  "GenProp api c = on_unrl unroll_appl (Unroller_GetZ3Expr_unique api (relation c))"

definition EqCheck :: "'t z3_api \<Rightarrow> 't z3_forall \<Rightarrow> 't z3_solver \<Rightarrow> crr \<Rightarrow> int \<Rightarrow> ('t, bool) G" where
  "EqCheck api fa slv c m =
     bindM (SanityCheck api fa slv c) (\<lambda>_.
     bindM (DetStepOrig api slv (refine_a c) m) (\<lambda>step_orig_a.
     bindM (DetStepAppl api slv (refine_a c) m) (\<lambda>step_appl_a.
     bindM (DetStepOrig api slv (refine_b c) m) (\<lambda>step_orig_b.
     bindM (DetStepAppl api slv (refine_b c) m) (\<lambda>step_appl_b.
     if step_orig_a < 0 \<or> step_appl_a < 0 \<or> step_orig_b < 0 \<or> step_appl_b < 0 then ret False
     else
     bindM (GenTranRel api (refine_a c) step_orig_a step_appl_a) (\<lambda>cstr_tran_a.
     bindM (GenTranRel api (refine_b c) step_orig_b step_appl_b) (\<lambda>cstr_tran_b.
     if z_check slv 0 [cstr_tran_a] = Unsat \<or> z_check slv 0 [cstr_tran_b] = Unsat then ret False
     else
     bindM (GenAssm api c) (\<lambda>cstr_assm.
     bindM (GenProp api c) (\<lambda>cstr_prop.
     bindM (g_and api cstr_tran_a cstr_tran_b) (\<lambda>t. bindM (g_and api t cstr_assm) (\<lambda>q.
     bindM (g_not api cstr_prop) (\<lambda>np.
     ret (z_check slv 0 [q, np] = Unsat)))))))))))))"

subsection \<open>Incremental checks\<close>

text \<open>A solver with scopes: the innermost first.\<close>

type_synonym 't scopes = "'t list list"

definition s_add :: "'t \<Rightarrow> 't scopes \<Rightarrow> 't scopes" where
  "s_add t s = (case s of [] \<Rightarrow> [[t]] | f # fs \<Rightarrow> (f @ [t]) # fs)"

definition s_push :: "'t scopes \<Rightarrow> 't scopes" where
  "s_push s = [] # s"

definition s_pop :: "'t scopes \<Rightarrow> 't scopes res" where
  "s_pop s = (case s of f # g # fs \<Rightarrow> Inr (g # fs) | _ \<Rightarrow> Inl (Thrown ''pop''))"

definition s_check :: "'t z3_solver \<Rightarrow> 't scopes \<Rightarrow> check_result" where
  "s_check slv s = z_check slv 0 (concat (rev s))"

definition CheckCmpl :: "'t z3_api \<Rightarrow> 't z3_solver \<Rightarrow> 't \<Rightarrow> 't scopes \<Rightarrow> ('t, bool \<times> 't scopes) G" where
  "CheckCmpl api slv cmpl_expr s =
     bindM (g_not api cmpl_expr) (\<lambda>n.
     let s1 = s_add n (s_push s); must_cmpl = (s_check slv s1 = Unsat) in
     bindM (liftR (s_pop s1)) (\<lambda>s2.
     ret (if must_cmpl then (True, s_push (s_add cmpl_expr s2)) else (False, s2))))"

definition GetZ3ApplInstr :: "'t z3_api \<Rightarrow> expr_set \<Rightarrow> refinement \<Rightarrow> ('t, 't) G" where
  "GetZ3ApplInstr api stts r =
     thenM (set_unrl unrl_apl ClearPred)
    (thenM (add_invs unrl_apl r)
    (thenM (bindM (ila_not_null (r_appl r)) (\<lambda>a. set_unrl unrl_apl (AddStepPred a 0)))
    (bindM (ila_not_null (r_coi r)) (\<lambda>m.
     bindM (on_unrl unrl_apl (MonoAssn api m 1 0)) (\<lambda>apply_one_step.
     thenM (set_unrl unrl_apl ClearPred)
    (bindM (g_and api (z_bool_val api True) apply_one_step) (\<lambda>acc.
     bindM (in_world (iterate stts)) (\<lambda>vs.
     bindM (foldM (\<lambda>eq v.
       bindM (on_unrl unrl_apl (CurrState api v 0)) (\<lambda>sa_0.
       bindM (on_unrl unrl_old (CurrState api v 0)) (\<lambda>so_0.
       bindM (g_eq api sa_0 so_0) (\<lambda>e0. bindM (g_and api eq e0) (\<lambda>eq.
       bindM (on_unrl unrl_apl (CurrState api v 1)) (\<lambda>sa_1.
       bindM (on_unrl unrl_new (CurrState api v 0)) (\<lambda>sn_0.
       bindM (g_eq api sa_1 sn_0) (\<lambda>e1. g_and api eq e1)))))))) (z_bool_val api True) vs) (\<lambda>eq.
     bindM (g_and api acc eq) (\<lambda>acc.
     bindM (at_frame api unrl_old (r_flush r) 0) (\<lambda>flush_on_old.
     bindM (at_frame api unrl_new (r_flush r) 0) (\<lambda>flush_on_new.
     bindM (g_and api acc flush_on_old) (\<lambda>t. g_and api t flush_on_new)))))))))))))"

definition GetZ3Assm :: "'t z3_api \<Rightarrow> crr \<Rightarrow> ('t, 't) G" where
  "GetZ3Assm api c = on_unrl unrl_a_old (Unroller_GetZ3Expr_unique api (relation c))"

definition GetZ3Prop :: "'t z3_api \<Rightarrow> crr \<Rightarrow> ('t, 't) G" where
  "GetZ3Prop api c = on_unrl unrl_a_new (Unroller_GetZ3Expr_unique api (relation c))"

text \<open>Completion at one of the steps \<open>lo\<close> to \<open>hi\<close>.\<close>

definition GetZ3Cmpl :: "'t z3_api \<Rightarrow> expr option \<Rightarrow> unrl \<Rightarrow> int \<Rightarrow> int \<Rightarrow> ('t, 't) G" where
  "GetZ3Cmpl api cmpl u lo hi =
     foldM (\<lambda>acc i. bindM (at_frame api u cmpl i) (\<lambda>t. g_or api acc t)) (z_bool_val api False) [lo..hi]"

text \<open>A piece of a flushing path with its marks.\<close>

definition flush_piece :: "'t z3_api \<Rightarrow> unrl \<Rightarrow> refinement \<Rightarrow> expr_set \<Rightarrow> int \<Rightarrow> int \<Rightarrow> ('t, 't) G" where
  "flush_piece api u r stts begin len =
     bindM (ila_not_null (r_coi r)) (\<lambda>m.
     bindM (on_unrl u (MonoIncr api m len begin)) (\<lambda>tran.
     foldM (\<lambda>tran pos.
       bindM (at_frame api u (r_cmpl r) pos) (\<lambda>cmpl.
       bindM (all_equal api (\<lambda>v.
         bindM (on_unrl u (CurrState api v pos)) (\<lambda>s_i.
         bindM (on_unrl u (Unroller_GetZ3Expr_unique api v)) (\<lambda>s. g_eq api s s_i))) stts) (\<lambda>eq.
       bindM (liftR (Z3Implies api cmpl eq)) (\<lambda>mark. g_and api tran mark)))) tran [begin..begin + len]))"

definition GetZ3IncFlsh :: "'t z3_api \<Rightarrow> crr \<Rightarrow> uid \<Rightarrow> ('t, 't) G" where
  "GetZ3IncFlsh api c u =
     bindM (gets (\<lambda>g. g_lo g u)) (\<lambda>lo. bindM (gets (\<lambda>g. g_hi g u)) (\<lambda>hi. bindM (gets (\<lambda>g. GetStts g u)) (\<lambda>stts.
     flush_piece api (GetUnrl u) (GetRefine c u) stts lo (hi - lo))))"

definition GetZ3IncUnrl :: "'t z3_api \<Rightarrow> unrl \<Rightarrow> refinement \<Rightarrow> int \<Rightarrow> int \<Rightarrow> expr_set \<Rightarrow> ('t, 't) G" where
  "GetZ3IncUnrl api u r begin len stts = flush_piece api u r stts begin len"

definition GetZ3IncCmpl :: "'t z3_api \<Rightarrow> crr \<Rightarrow> uid \<Rightarrow> ('t, 't) G" where
  "GetZ3IncCmpl api c u =
     bindM (gets (\<lambda>g. g_hi g u)) (\<lambda>hi. GetZ3Cmpl api (r_cmpl (GetRefine c u)) (GetUnrl u) 0 hi)"

definition CommDiag_Init :: "'t z3_api \<Rightarrow> 't z3_forall \<Rightarrow> 't z3_solver \<Rightarrow> crr \<Rightarrow> ('t, unit) G" where
  "CommDiag_Init api fa slv c =
     bindM (SanityCheck api fa slv c) (\<lambda>_.
     thenM (forM uids (\<lambda>u. thenM (set_unrl (GetUnrl u) ClearPred) (add_flush (GetUnrl u) (GetRefine c u))))
    (bindM (ila_not_null (r_coi (refine_a c))) (\<lambda>ma. bindM (in_world (GetSttTree ma)) (\<lambda>sa.
     bindM (ila_not_null (r_coi (refine_b c))) (\<lambda>mb. bindM (in_world (GetSttTree mb)) (\<lambda>sb.
     modify (\<lambda>g. g\<lparr>g_stts_a := sa, g_stts_b := sb\<rparr>)))))))"

text \<open>What both incremental checks do before the loop: the solver with the apply step, and the
  flag with the guarded assumption and property.\<close>

definition inc_start :: "'t z3_api \<Rightarrow> crr \<Rightarrow> expr_set \<Rightarrow> expr_set \<Rightarrow> ('t, 't scopes \<times> 't \<times> 't \<times> 't) G" where
  "inc_start api c stts_a stts_b =
     bindM (GetZ3ApplInstr api stts_a (refine_a c)) (\<lambda>ia.
     bindM (GetZ3ApplInstr api stts_b (refine_b c)) (\<lambda>ib.
     bindM (liftR (z_const api ''cmpl_flag'' MBool)) (\<lambda>cf.
     bindM (GetZ3Assm api c) (\<lambda>assm. bindM (GetZ3Prop api c) (\<lambda>prop.
     bindM (liftR (Z3Implies api cf assm)) (\<lambda>assm. bindM (liftR (Z3Implies api cf prop)) (\<lambda>prop.
     ret (s_push (s_add ib (s_add ia [[]])), cf, assm, prop))))))))"

text \<open>The query of one round; without a counterexample, the property is kept as a lemma.\<close>

definition inc_query :: "'t z3_api \<Rightarrow> 't z3_solver \<Rightarrow> crr \<Rightarrow> 't \<Rightarrow> 't \<Rightarrow> 't \<Rightarrow> 't \<Rightarrow> 't scopes \<Rightarrow> ('t, 't scopes option) G" where
  "inc_query api slv c cf assm prop cmpl_acc s =
     bindM (g_eq api cf cmpl_acc) (\<lambda>e. bindM (g_not api prop) (\<lambda>np.
     let s1 = s_add np (s_add assm (s_add e (s_push s))) in
     if s_check slv s1 = Sat then ret None
     else
     bindM (liftR (s_pop s1)) (\<lambda>s2.
     bindM (GetZ3Assm api c) (\<lambda>partial_assm.
     bindM (liftR (Z3Implies api cmpl_acc partial_assm)) (\<lambda>partial_cmpl.
     bindM (GetZ3Prop api c) (\<lambda>partial_prop.
     bindM (g_and api partial_cmpl partial_assm) (\<lambda>t.
     bindM (liftR (Z3Implies api t partial_prop)) (\<lambda>lem.
     ret (Some (s_push (s_add lem s2)))))))))))"

text \<open>One path after the query: it is extended unless it must have completed.\<close>

definition inc_extend :: "'t z3_api \<Rightarrow> 't z3_solver \<Rightarrow> crr \<Rightarrow> int \<Rightarrow> int \<Rightarrow> 't scopes \<Rightarrow> uid \<Rightarrow> ('t, 't scopes) G" where
  "inc_extend api slv c step i s u =
     thenM (modify (\<lambda>g. g\<lparr>g_lo := (g_lo g)(u := g_hi g u)\<rparr>))
    (bindM (gets (\<lambda>g. g_hi g u)) (\<lambda>hi.
     if hi = i then
       bindM (GetZ3IncCmpl api c u) (\<lambda>cmpl_i.
       bindM (CheckCmpl api slv cmpl_i s) (\<lambda>(sufficient, s).
       thenM (modify (\<lambda>g. g\<lparr>g_hi := (g_hi g)(u := if sufficient then hi else hi + step)\<rparr>)) (ret s)))
     else ret s))"

text \<open>The loop over \<open>i\<close>, with its number of rounds as fuel.\<close>

fun IncCheck_loop ::
  "nat \<Rightarrow> 't z3_api \<Rightarrow> 't z3_solver \<Rightarrow> crr \<Rightarrow> 't \<Rightarrow> 't \<Rightarrow> 't \<Rightarrow> int \<Rightarrow> int \<Rightarrow> int \<Rightarrow> 't scopes \<Rightarrow> ('t, bool) G" where
  "IncCheck_loop 0 api slv c cf assm prop m step i s = (if i \<le> m then fail OutOfFuel else ret True)"
| "IncCheck_loop (Suc n) api slv c cf assm prop m step i s =
     (if i > m then ret True
      else
        bindM (gets (\<lambda>g. \<forall>u\<in>set uids. g_hi g u < i)) (\<lambda>complete.
        if complete then ret True
        else
          bindM (foldM (\<lambda>s u. bindM (gets (\<lambda>g. g_hi g u)) (\<lambda>hi.
            if hi = i then bindM (GetZ3IncFlsh api c u) (\<lambda>tran. ret (s_add tran s)) else ret s)) s uids) (\<lambda>s.
          bindM (foldM (\<lambda>acc u. bindM (GetZ3IncCmpl api c u) (\<lambda>t. g_and api acc t)) (z_bool_val api True) uids)
            (\<lambda>cmpl_acc.
          bindM (inc_query api slv c cf assm prop cmpl_acc s) (\<lambda>r.
          case r of None \<Rightarrow> ret False
          | Some s \<Rightarrow>
              bindM (foldM (inc_extend api slv c step i) s uids) (\<lambda>s.
              IncCheck_loop n api slv c cf assm prop m step (i + step) s))))))"

text \<open>The fuel is enough when the step is positive; otherwise the loop of the code need not end.\<close>

definition IncCheck :: "'t z3_api \<Rightarrow> 't z3_solver \<Rightarrow> crr \<Rightarrow> int \<Rightarrow> int \<Rightarrow> int \<Rightarrow> ('t, bool) G" where
  "IncCheck api slv c n m step =
     thenM (modify (\<lambda>g. g\<lparr>g_lo := (\<lambda>_. 0), g_hi := (\<lambda>_. n)\<rparr>))
    (bindM (gets g_stts_a) (\<lambda>sa. bindM (gets g_stts_b) (\<lambda>sb.
     bindM (inc_start api c sa sb) (\<lambda>(s, cf, assm, prop).
     IncCheck_loop (nat (m - n + 1)) api slv c cf assm prop m step n s))))"

text \<open>\<^verbatim>\<open>IncEqCheck\<close> keeps the bounds of the four paths in variables.\<close>

definition inc_bound :: "'t z3_api \<Rightarrow> 't z3_solver \<Rightarrow> int \<Rightarrow> int \<Rightarrow> (uid \<Rightarrow> 't) \<Rightarrow> (uid \<Rightarrow> int) \<times> 't scopes \<Rightarrow> uid
    \<Rightarrow> ('t, (uid \<Rightarrow> int) \<times> 't scopes) G" where
  "inc_bound api slv step i cmpl = (\<lambda>(num, s) u.
     if num u = i then
       bindM (CheckCmpl api slv (cmpl u) s) (\<lambda>(sufficient, s).
       ret (num(u := if sufficient then num u else num u + step), s))
     else ret (num, s))"

fun IncEqCheck_loop ::
  "nat \<Rightarrow> 't z3_api \<Rightarrow> 't z3_solver \<Rightarrow> crr \<Rightarrow> (uid \<Rightarrow> expr_set) \<Rightarrow> 't \<Rightarrow> 't \<Rightarrow> 't \<Rightarrow> int \<Rightarrow> int \<Rightarrow> int
    \<Rightarrow> (uid \<Rightarrow> int) \<Rightarrow> 't scopes \<Rightarrow> ('t, bool) G" where
  "IncEqCheck_loop 0 api slv c stts cf assm prop m step i num s = (if i \<le> m then fail OutOfFuel else ret True)"
| "IncEqCheck_loop (Suc n) api slv c stts cf assm prop m step i num s =
     (if i > m then ret True
      else if \<forall>u\<in>set uids. num u < i then ret True
      else
        bindM (foldM (\<lambda>s u.
          if num u = i then
            bindM (GetZ3IncUnrl api (inc_unrl u) (GetRefine c u) i step (stts u)) (\<lambda>tran. ret (s_add tran s))
          else ret s) s uids) (\<lambda>s.
        bindM (mapM (\<lambda>u. GetZ3Cmpl api (r_cmpl (GetRefine c u)) (inc_unrl u) 0 (num u)) uids) (\<lambda>cs.
        let cmpl = (\<lambda>u. the (map_of (zip uids cs) u)) in
        bindM (g_and api (cmpl A_OLD) (cmpl A_NEW)) (\<lambda>t. bindM (g_and api t (cmpl B_OLD)) (\<lambda>t.
        bindM (g_and api t (cmpl B_NEW)) (\<lambda>cmpl_acc.
        bindM (inc_query api slv c cf assm prop cmpl_acc s) (\<lambda>r.
        case r of None \<Rightarrow> ret False
        | Some s \<Rightarrow>
            bindM (foldM (inc_bound api slv step i cmpl) (num, s) uids) (\<lambda>(num, s).
            IncEqCheck_loop n api slv c stts cf assm prop m step (i + step) num s))))))))"

definition IncEqCheck :: "'t z3_api \<Rightarrow> 't z3_forall \<Rightarrow> 't z3_solver \<Rightarrow> crr \<Rightarrow> int \<Rightarrow> int \<Rightarrow> int \<Rightarrow> ('t, bool) G" where
  "IncEqCheck api fa slv c n m step =
     bindM (SanityCheck api fa slv c) (\<lambda>_.
     bindM (ila_not_null (r_coi (refine_a c))) (\<lambda>ma. bindM (ila_not_null (r_coi (refine_b c))) (\<lambda>mb.
     bindM (in_world (GetSttTree ma)) (\<lambda>sa. bindM (in_world (GetSttTree mb)) (\<lambda>sb.
     bindM (inc_start api c sa sb) (\<lambda>(s, cf, assm, prop).
     thenM (ila_assert (m \<ge> n) ''Invalid range '')
    (thenM (forM uids (\<lambda>u. thenM (set_unrl (inc_unrl u) (\<lambda>_. Unroller_New (uid_suffix u)))
                                  (add_flush (inc_unrl u) (GetRefine c u))))
     (IncEqCheck_loop (nat (m - n + 1)) api slv c (\<lambda>u. if u = A_OLD \<or> u = A_NEW then sa else sb)
        cf assm prop m step n (\<lambda>_. n) s))))))))"

end
