(* ===== verification/Comm_Sound.thy ===== *)
theory Comm_Sound
  imports Comm_Diag Bmc_Sound
begin

text \<open>
  What the check of a number of steps decides.  It asks whether the completion condition holds
  at least once and at most once on every flushed run, but asserts the second question beside
  the first, whose assertions have no model: the second has no effect.
\<close>

subsection \<open>Folds of terms\<close>

lemma fold_meaning:
  assumes "\<And>x c C. x \<in> set xs \<Longrightarrow> means tsort den c C \<Longrightarrow>
      \<exists>c'. f c x s = Inr (c', s) \<and> means tsort den c' (\<lambda>I. K (C I) (D x I))"
  shows "means tsort den c C \<Longrightarrow>
    \<exists>c'. foldM f c xs s = Inr (c', s) \<and> means tsort den c' (\<lambda>I. fold (\<lambda>x b. K b (D x I)) xs (C I))"
  using assms
proof (induction xs arbitrary: c C)
  case (Cons x xs)
  obtain c' where c': "f c x s = Inr (c', s)" "means tsort den c' (\<lambda>I. K (C I) (D x I))"
    using Cons.prems(2) [OF _ Cons.prems(1), of x] by auto
  obtain r where "foldM f c' xs s = Inr (r, s)" "means tsort den r (\<lambda>I. fold (\<lambda>x b. K b (D x I)) xs (K (C I) (D x I)))"
    using Cons.IH [OF c'(2)] Cons.prems(2) by auto
  then show ?case using c'(1) by auto
qed simp

lemma fold_or: "fold (\<lambda>x b. b \<or> P x) xs c \<longleftrightarrow> c \<or> (\<exists>x\<in>set xs. P x)"
  by (induction xs arbitrary: c) auto

subsection \<open>Frames\<close>

text \<open>An expression holds in the frame \<open>k\<close> of an unroller.\<close>

definition holds_at :: "world \<Rightarrow> string \<Rightarrow> expr \<Rightarrow> int \<Rightarrow> interp \<Rightarrow> bool" where
  "holds_at w suff e k I \<longleftrightarrow> (let c = int_to_string k @ ''_'' @ suff in eval (z3_env w c I) (z3_finterp w c I) e = VBool True)"

text \<open>A flushed run: the two terms hold, and some step completes.\<close>

definition completes :: "world \<Rightarrow> string \<Rightarrow> expr \<Rightarrow> int \<Rightarrow> int \<Rightarrow> interp \<Rightarrow> bool" where
  "completes w suff e a b I \<longleftrightarrow> (\<exists>k. a \<le> k \<and> k \<le> b \<and> holds_at w suff e k I)"

lemma holds_at_heap:
  assumes "ila_heap w' = ila_heap w"
  shows "holds_at w' = holds_at w"
  by (rule ext)+ (simp only: holds_at_def heap_names [OF assms])

lemma on_unrl_GetZ3Expr: "on_unrl u (Unroller_GetZ3Expr api e k) g =
    (case GetExpr api (g_world g) e (SuffCurr (g_unrl g u) k) of Inl x \<Rightarrow> Inl x | Inr t \<Rightarrow> Inr (t, g))"
  by (simp add: on_unrl_def Unroller_GetZ3Expr_def z_get_def z_gen_def bindM_def liftR_def gets_def split: sum.split)

context z3_solver
begin

lemma at_frame_means:
  assumes "world_ok (g_world g)" "dag S" "\<forall>x\<in>S. z3_ready (g_world g) x" "e \<in> S" "esort e = SortBool"
  shows "\<exists>t. at_frame api u (Some e) k g = Inr (t, g) \<and> means tsort den t (holds_at (g_world g) (extra_suff (g_unrl g u)) e k)"
proof -
  let ?c = "SuffCurr (g_unrl g u) k"
  obtain t where t: "GetExpr api (g_world g) e ?c = Inr t"
      "term_rel tsort den (z3_env (g_world g) ?c) (z3_finterp (g_world g) ?c) t e"
    using z3_GetExpr [OF z3_laws_axioms assms(1-4)] by blast
  have "eval (z3_env (g_world g) ?c I) (z3_finterp (g_world g) ?c I) e =
      VBool (holds_at (g_world g) (extra_suff (g_unrl g u)) e k I)" if "interp_ok I" for I
    using ready_bool_value [of "g_world g" e] assms(3-5) z3_env_ok [OF that]
    unfolding holds_at_def Let_def SuffCurr_def by blast
  then have "means tsort den t (holds_at (g_world g) (extra_suff (g_unrl g u)) e k)"
    using t(2) assms(5) by (simp add: means_def term_rel_def)
  then show ?thesis using t(1) by (simp add: at_frame_def on_unrl_GetZ3Expr not_null_def)
qed

text \<open>The constant a formula starts with.\<close>

lemma start_means:
  assumes "world_ok (g_world g)"
  shows "\<exists>t. bindM (in_world (BoolConst b)) (\<lambda>c. on_unrl u (Unroller_GetZ3Expr api c 0)) g
      = Inr (t, g\<lparr>g_world := tick (g_world g)\<rparr>) \<and> means tsort den t (\<lambda>_. b)"
proof -
  let ?n = "ExprConst (fresh_symbol (g_world g)) SortBool (BoolVal b)" and ?w = "tick (g_world g)"
  have n: "dag {?n}" "\<forall>x\<in>{?n}. z3_ready ?w x" "?n \<in> {?n}"
    by (auto simp: dag_def z3_ready_def int_node_def host_ok_def)
  have ok: "world_ok ?w" using assms by simp
  let ?c = "SuffCurr (g_unrl g u) 0"
  obtain t where t: "GetExpr api ?w ?n ?c = Inr t" "term_rel tsort den (z3_env ?w ?c) (z3_finterp ?w ?c) t ?n"
    using z3_GetExpr [OF z3_laws_axioms ok n] by blast
  then have "means tsort den t (\<lambda>_. b)" by (simp add: means_def term_rel_def)
  then show ?thesis
    using t(1) by (simp add: in_world_def BoolConst_run bindM_def on_unrl_GetZ3Expr)
qed

lemma frame_tick:
  assumes "world_ok (g_world g)" "dag S" "\<forall>x\<in>S. z3_ready (g_world g) x" "e \<in> S" "esort e = SortBool"
  shows "\<exists>t. at_frame api u (Some e) k (g\<lparr>g_world := tick (g_world g)\<rparr>) = Inr (t, g\<lparr>g_world := tick (g_world g)\<rparr>)
    \<and> means tsort den t (holds_at (g_world g) (extra_suff (g_unrl g u)) e k)"
proof -
  let ?g = "g\<lparr>g_world := tick (g_world g)\<rparr>"
  have heap: "ila_heap (g_world ?g) = ila_heap (g_world g)" by simp
  have "world_ok (g_world ?g)" "\<forall>x\<in>S. z3_ready (g_world ?g) x"
    using assms(1,3) by (simp_all add: z3_ready_heap [of "tick (g_world g)" "g_world g"])
  from at_frame_means [OF this(1) assms(2) this(2) assms(4,5), of u k]
  show ?thesis unfolding holds_at_heap [OF heap] by simp
qed

text \<open>The two formulas about the completion condition.\<close>

lemma AtLeastOnce_means:
  assumes "world_ok (g_world g)" "dag S" "\<forall>x\<in>S. z3_ready (g_world g) x" "e \<in> S" "esort e = SortBool"
  shows "\<exists>t. AtLeastOnce api u (Some e) a b g = Inr (t, g\<lparr>g_world := tick (g_world g)\<rparr>)
    \<and> means tsort den t (completes (g_world g) (extra_suff (g_unrl g u)) e a b)"
proof -
  let ?g = "g\<lparr>g_world := tick (g_world g)\<rparr>" and ?P = "\<lambda>k I. holds_at (g_world g) (extra_suff (g_unrl g u)) e k I"
  note frame = frame_tick [OF assms]
  obtain c where c: "bindM (in_world (BoolConst False)) (\<lambda>c. on_unrl u (Unroller_GetZ3Expr api c 0)) g = Inr (c, ?g)"
      "means tsort den c (\<lambda>_. False)"
    using start_means [OF assms(1)] by blast
  let ?f = "\<lambda>cstr i. bindM (at_frame api u (Some e) i) (\<lambda>t. g_or api cstr t)"
  have "\<exists>c'. ?f c i ?g = Inr (c', ?g) \<and> means tsort den c' (\<lambda>I. C I \<or> ?P i I)" if "means tsort den c C" for c C i
    using frame [of u i] or_means [OF that] by fastforce
  from fold_meaning [where f = ?f and K = "(\<or>)" and D = ?P and xs = "[a..b]", OF this c(2)] obtain t where
    t: "foldM ?f c [a..b] ?g = Inr (t, ?g)" "means tsort den t (\<lambda>I. fold (\<lambda>x b. b \<or> ?P x I) [a..b] False)" by blast
  have "(\<lambda>I. fold (\<lambda>x b. b \<or> ?P x I) [a..b] False) = completes (g_world g) (extra_suff (g_unrl g u)) e a b"
    by (auto simp: completes_def fold_or fun_eq_iff)
  moreover have "AtLeastOnce api u (Some e) a b g = Inr (t, ?g)"
    unfolding AtLeastOnce_def bindM_assoc [symmetric] by (subst bindM_run) (rule c(1), rule t(1))
  ultimately show ?thesis using t(2) by metis
qed

lemma AtMostOnce_means:
  assumes "world_ok (g_world g)" "dag S" "\<forall>x\<in>S. z3_ready (g_world g) x" "e \<in> S" "esort e = SortBool"
  shows "\<exists>t C. AtMostOnce api u (Some e) a b g = Inr (t, g\<lparr>g_world := tick (g_world g)\<rparr>) \<and> means tsort den t C"
proof -
  let ?g = "g\<lparr>g_world := tick (g_world g)\<rparr>" and ?P = "\<lambda>k I. holds_at (g_world g) (extra_suff (g_unrl g u)) e k I"
  note frame = frame_tick [OF assms]
  obtain c where c: "bindM (in_world (BoolConst True)) (\<lambda>c. on_unrl u (Unroller_GetZ3Expr api c 0)) g = Inr (c, ?g)"
      "means tsort den c (\<lambda>_. True)"
    using start_means [OF assms(1)] by blast
  let ?in = "\<lambda>ci cstr j. bindM (at_frame api u (Some e) j) (\<lambda>cmpl_j. bindM (g_not api ci) (\<lambda>ni.
       bindM (g_not api cmpl_j) (\<lambda>nj. bindM (g_or api ni nj) (\<lambda>t. g_and api cstr t))))"
  let ?f = "\<lambda>cstr i. bindM (at_frame api u (Some e) i) (\<lambda>ci. foldM (?in ci) cstr [i + 1..b])"
  have inner: "\<exists>c'. ?in ci c j ?g = Inr (c', ?g) \<and> means tsort den c' (\<lambda>I. C I \<and> (\<not> B I \<or> \<not> ?P j I))"
    if ci: "means tsort den ci B" and c: "means tsort den c C" for ci B c C j
  proof -
    obtain tj where tj: "at_frame api u (Some e) j ?g = Inr (tj, ?g)" "means tsort den tj (?P j)" using frame by blast
    obtain ni where ni: "z_apply api z3_not [ci] = Inr ni" "means tsort den ni (\<lambda>I. \<not> B I)" using not_means [OF ci] by blast
    obtain nj where nj: "z_apply api z3_not [tj] = Inr nj" "means tsort den nj (\<lambda>I. \<not> ?P j I)" using not_means [OF tj(2)] by blast
    obtain t where t: "z_apply api z3_or [ni, nj] = Inr t" "means tsort den t (\<lambda>I. \<not> B I \<or> \<not> ?P j I)"
      using or_means [OF ni(2) nj(2)] by blast
    show ?thesis using and_means [OF c t(2)] tj(1) ni(1) nj(1) t(1) by auto
  qed
  have "\<exists>c'. ?f c i ?g = Inr (c', ?g) \<and> means tsort den c' (\<lambda>I. C I \<and> (\<forall>j\<in>{i + 1..b}. \<not> ?P i I \<or> \<not> ?P j I))"
    if C: "means tsort den c C" for c C i
  proof -
    obtain ti where ti: "at_frame api u (Some e) i ?g = Inr (ti, ?g)" "means tsort den ti (?P i)" using frame by blast
    from fold_means [of "[i + 1..b]" tsort den "?in ti", OF inner [OF ti(2)] C] ti(1)
    show ?thesis by auto
  qed
  from fold_means [of "[a..b]" tsort den ?f, OF this c(2)] obtain t D where
    t: "foldM ?f c [a..b] ?g = Inr (t, ?g)" "means tsort den t D" by blast
  have "AtMostOnce api u (Some e) a b g = Inr (t, ?g)"
    unfolding AtMostOnce_def bindM_assoc [symmetric] by (subst bindM_run, rule c(1)) (simp only: bindM_assoc t(1))
  then show ?thesis using t(2) by blast
qed

text \<open>The answer of the two queries.\<close>

lemma step_queries_run:
  assumes decides: "\<And>n ts. z_check slv n ts \<noteq> Unknown"
    and g: "world_ok (g_world g)" "dag S" "\<forall>x\<in>S. z3_ready (g_world g) x" and e: "e \<in> S" "esort e = SortBool"
    and terms: "means tsort den init B" "means tsort den tran C"
  shows "\<exists>r g'. step_queries api slv u (Some e) a b init tran g = Inr (r, g')
    \<and> (r \<longleftrightarrow> (\<forall>I. interp_ok I \<longrightarrow> B I \<longrightarrow> C I \<longrightarrow> completes (g_world g) (extra_suff (g_unrl g u)) e a b I))"
proof -
  let ?w = "g_world g" and ?g1 = "g\<lparr>g_world := tick (g_world g)\<rparr>"
  let ?A = "completes ?w (extra_suff (g_unrl g u)) e a b"
  obtain t where t: "AtLeastOnce api u (Some e) a b g = Inr (t, ?g1)" "means tsort den t ?A"
    using AtLeastOnce_means [OF g e] by blast
  have g1: "world_ok (g_world ?g1)" "\<forall>x\<in>S. z3_ready (g_world ?g1) x"
    using g(1,3) by (simp_all add: z3_ready_heap [of "tick ?w" ?w])
  obtain m M where m: "AtMostOnce api u (Some e) a b ?g1 = Inr (m, ?g1\<lparr>g_world := tick (g_world ?g1)\<rparr>)" "means tsort den m M"
    using AtMostOnce_means [OF g1(1) g(2) g1(2) e] by blast
  obtain it where it: "z_apply api z3_and [init, tran] = Inr it" "means tsort den it (\<lambda>I. B I \<and> C I)"
    using and_means [OF terms] by blast
  obtain n where n: "z_apply api z3_not [t] = Inr n" "means tsort den n (\<lambda>I. \<not> ?A I)" using not_means [OF t(2)] by blast
  obtain q1 where q1: "z_apply api z3_and [it, n] = Inr q1" "means tsort den q1 (\<lambda>I. (B I \<and> C I) \<and> \<not> ?A I)"
    using and_means [OF it(2) n(2)] by blast
  obtain n' where n': "z_apply api z3_not [m] = Inr n'" "means tsort den n' (\<lambda>I. \<not> M I)" using not_means [OF m(2)] by blast
  obtain q2 where q2: "z_apply api z3_and [it, n'] = Inr q2" "means tsort den q2 (\<lambda>I. (B I \<and> C I) \<and> \<not> M I)"
    using and_means [OF it(2) n'(2)] by blast
  have sorts: "\<forall>t\<in>set [q1]. tsort t = SortBool" "\<forall>t\<in>set [q1, q2]. tsort t = SortBool"
    using q1(2) q2(2) by (simp_all add: means_def)
  have first: "z_check slv 0 [q1] = Sat \<longleftrightarrow> (\<exists>I. interp_ok I \<and> B I \<and> C I \<and> \<not> ?A I)" (is "_ \<longleftrightarrow> ?E")
  proof
    assume "z_check slv 0 [q1] = Sat"
    from sat_ok [OF this sorts(1)] show ?E using q1(2) by (auto simp: means_def)
  next
    assume ?E
    then obtain I where I: "interp_ok I" "B I" "C I" "\<not> ?A I" by blast
    then have "den I q1 = VBool True" using q1(2) by (simp add: means_def)
    then have "z_check slv 0 [q1] \<noteq> Unsat" using unsat_ok [of 0 "[q1]", OF _ sorts(1) I(1)] by auto
    then show "z_check slv 0 [q1] = Sat" using decides [of 0 "[q1]"] by (cases "z_check slv 0 [q1]") auto
  qed
  have second: ?E if s: "z_check slv 0 [q1, q2] = Sat"
  proof -
    obtain I where I: "interp_ok I" "\<forall>t\<in>set [q1, q2]. den I t = VBool True" using sat_ok [OF s sorts(2)] by blast
    then have "den I q1 = VBool True" by simp
    then show ?thesis using I(1) q1(2) by (auto simp: means_def)
  qed
  show ?thesis
    unfolding step_queries_def using t(1) m(1) it(1) n(1) q1(1) n'(1) q2(1) first second
    by (auto simp: bindM_def)
qed

end

end
