(* ===== verification/Store_Load.thy ===== *)
theory Store_Load
  imports Pass_Values
begin

text \<open>
  The pass over loads from stores (\<^verbatim>\<open>src/ila-mngr/p_rewrite_store_load.cc\<close>), as it runs and as
  it was meant.  \<^verbatim>\<open>FuncObjRewrStoreLoad::RewriteOp\<close> takes its argument by value and so does
  not override the member of the base class: the pass copies every expression node by node
  (\<open>same_shape\<close>).  The members it has but never calls are proved to keep values and to forward
  the stored word.
\<close>

subsection \<open>The pass as it runs\<close>

text \<open>Trees of the same operators over the same leaves: the inner nodes may be others.\<close>

fun same_shape :: "expr \<Rightarrow> expr \<Rightarrow> bool" where
  "same_shape (ExprOp y u s as ps f h) (ExprOp y' u' s' as' ps' f' h') =
     (u = u' \<and> s = s' \<and> ps = ps' \<and> f = f' \<and> list_all2 same_shape as as')"
| "same_shape a b = (a = b)"

lemma same_shape_refl: "same_shape e e"
  by (induction e) (auto intro!: list.rel_refl_strong)

lemma same_shape_sort: "same_shape e e' \<Longrightarrow> esort e' = esort e"
  by (induction e e' rule: same_shape.induct) auto

lemma same_shape_trans: "same_shape a b \<Longrightarrow> same_shape b c \<Longrightarrow> same_shape a c"
proof (induction a arbitrary: b c)
  case (ExprOp y u s as ps f h)
  obtain y1 bs h1 where b: "b = ExprOp y1 u s bs ps f h1" "list_all2 same_shape as bs"
    using ExprOp.prems(1) by (cases b) auto
  obtain y2 cs h2 where c: "c = ExprOp y2 u s cs ps f h2" "list_all2 same_shape bs cs"
    using ExprOp.prems(2) b(1) by (cases c) auto
  have "same_shape (as ! i) (cs ! i)" if i: "i < length as" for i
    by (rule ExprOp.IH [of "as ! i" "bs ! i"]) (use b(2) c(2) i in \<open>auto simp: list_all2_conv_all_nth\<close>)
  then have "list_all2 same_shape as cs" using b(2) c(2) by (auto simp: list_all2_conv_all_nth)
  then show ?case by (simp add: b c)
qed auto

text \<open>The copy of an operator has its shape.\<close>

lemma shape_RewriteOp:
  assumes op: "is_op e" and e: "passable e" and T: "node_heap T w"
    and m: "\<forall>a\<in>set (args e). \<exists>a'. rule (eid a) = Some (Some a') \<and> kept same_shape a a' \<and> a' \<in> T"
  shows "returns (RewriteOp rule e) T w (kept same_shape e)"
proof -
  obtain y u s as ps f h where e_def: "e = ExprOp y u s as ps f h" using op by (cases e) auto
  obtain as' where as': "list_all2 (\<lambda>a a'. rule (eid a) = Some (Some a') \<and> kept same_shape a a') as as'" "set as' \<subseteq> T"
    using args_related [of as rule "kept same_shape"] m by (auto simp: e_def)
  have s: "op_sort u (map esort as) ps f = Some s" "op_shape u ps f" "copyable u"
    using e by (auto simp: e_def)
  have am: "args_mapped rule as as'"
    by (rule list_all2_mono [OF as'(1)]) (simp add: kept_def same_shape_sort)
  obtain w1 where w1: "same_heaps w w1" "RewriteOp rule e w = Inr (Some (mk_node w1 u s as' ps f), tick w1)"
    using RewriteOp_makes [OF s am, of y h w] unfolding makes_def e_def by blast
  let ?n = "mk_node w1 u s as' ps f"
  have "list_all passable as'" "map esort as' = map esort as"
    using as'(1) by (induction rule: list_all2_induct) (auto simp: kept_def same_shape_sort)
  then have "passable ?n" using e by (simp add: e_def del: op_sort.simps)
  moreover have "same_shape e ?n"
    using as'(1) by (auto simp: e_def mk_node_def kept_def elim: list_all2_mono)
  moreover have "node_heap (insert ?n T) (tick w1)" by (rule node_heap_add [OF T w1(1) as'(2)])
  ultimately show ?thesis
    unfolding returns_def kept_def using w1 same_heaps_trans [OF w1(1) same_heaps_tick]
    by (intro exI [of _ ?n] exI [of _ "tick w1"] exI [of _ "insert ?n T"]) auto
qed

interpretation by_shape: expr_rel same_shape
proof
  show "same_shape a c" if "same_shape a b" "same_shape b c" for a b c using that by (rule same_shape_trans)
qed (rule same_shape_refl, erule same_shape_sort)

interpretation shape_copying: rewriting RewriteOp passable "kept same_shape"
  by unfold_locales (use shape_RewriteOp in \<open>unfold returns_def, blast\<close>)

interpretation storeload_values: expr_rewriter same_shape RewriteOp ..

lemma Rewr_StoreLoad_run:
  "rewr_visit RewriteOp e (rule, w) = Inr ((), (rule', w')) \<Longrightarrow> rewr_get rule' e = Inr r \<Longrightarrow>
     Rewr_StoreLoad (Some e) (rule, w) = Inr (r, (rule', w'))"
  by (simp add: Rewr_StoreLoad_def)

interpretation storeload_pass: expr_pass same_shape Rewr_StoreLoad "table_rel same_shape"
proof unfold_locales
  fix b w T e assume "table_rel same_shape b w T" "e \<in> T"
  from storeload_values.visit_sound [OF this]
  show "\<exists>e' b' w' T'. Rewr_StoreLoad (Some e) (b, w) = Inr (Some e', (b', w'))
      \<and> same_shape e e' \<and> e' \<in> T' \<and> T \<subseteq> T' \<and> table_rel same_shape b' w' T' \<and> same_heaps w w'"
    using Rewr_StoreLoad_run by blast
qed (rule table_rel_counter)

lemma StoreLoad_shape:
  "world_ok w \<Longrightarrow> i \<in> dom (ila_heap w) \<Longrightarrow> pass_ready T w i \<Longrightarrow>
   \<exists>w'. RewriteStoreLoad i w = Inr (True, w') \<and> world_rel same_shape w w'"
  unfolding RewriteStoreLoad_def
  by (rule storeload_pass.run_pass_same) (auto intro: table_rel_empty)

subsection \<open>The members that are not called\<close>

text \<open>A load from a store, on values.\<close>

lemma load_store_value:
  assumes "m = VMem aw dw f" "a = VBv aw x" "d = VBv dw v" "b = VBv aw y"
  shows "op_sem kIfThenElse [] [op_sem kEqual [] [b, a], d, op_sem kLoad [] [m, b]] =
     op_sem kLoad [] [op_sem kStore [] [m, a, d], b]"
  using assms by auto

lemma gives_Eq:
  assumes "node_heap T w" "esort a = SortBv bw" "esort b = SortBv bw" "{a, b} \<subseteq> T" "passable a" "passable b"
  shows "\<exists>n w' T'. gives (Eq a b) T w SortBool (\<lambda>\<rho> \<phi>. op_sem kEqual [] [eval \<rho> \<phi> a, eval \<rho> \<phi> b]) n w' T'"
  using gives_op [OF hub_direct(14), of a b SortBool T w] assms
  by (simp add: smt_op.simps op_shape_def copyable_def del: op_sem.simps)

text \<open>A conditional has its branches as arguments.\<close>

lemma gives_Ite_args:
  assumes "gives (Ite c a b) T w s V n w' T'" "esort c = SortBool" "esort a = s" "esort b = s"
  shows "GetUidExprOp n = Inr kIfThenElse \<and> args n = [c, a, b]"
proof -
  have "op_sort kIfThenElse (map esort [c, a, b]) [] None = Some s" using assms(2-4) by (simp add: op_sort_memory)
  from hub_contractD [OF hub_direct(27) this, of w] obtain w1 where "Ite c a b w = Inr (mk_node w1 kIfThenElse s [c, a, b] [] None, tick w1)" .
  then show ?thesis using assms(1) by (auto simp: gives_def mk_node_def)
qed

text \<open>The operator built for a load from a store.\<close>

lemma build_forward:
  assumes T: "node_heap T w" "{m, a, d, b} \<subseteq> T" and ok: "passable m" "passable a" "passable d" "passable b"
    and so: "esort m = SortMem aw dw" "esort a = SortBv aw" "esort d = SortBv dw" "esort b = SortBv aw"
    and Q: "\<And>r. passable r \<Longrightarrow> esort r = SortBv dw \<Longrightarrow> GetUidExprOp r = Inr kIfThenElse \<Longrightarrow> args r ! 1 = d \<Longrightarrow>
      (\<forall>\<rho> \<phi>. eval \<rho> \<phi> r = op_sem kIfThenElse [] [op_sem kEqual [] [eval \<rho> \<phi> b, eval \<rho> \<phi> a], eval \<rho> \<phi> d,
         op_sem kLoad [] [eval \<rho> \<phi> m, eval \<rho> \<phi> b]]) \<Longrightarrow> Q r"
  shows "returns (bindM (Eq b a) (\<lambda>c. bindM (Load m b) (\<lambda>ld. bindM (Ite c d ld) (\<lambda>r. ret (Some r))))) T w Q"
proof (rule returns_bind)
  let ?C = "\<lambda>\<rho> \<phi>. op_sem kEqual [] [eval \<rho> \<phi> b, eval \<rho> \<phi> a]"
  let ?L = "\<lambda>\<rho> \<phi>. op_sem kLoad [] [eval \<rho> \<phi> m, eval \<rho> \<phi> b]"
  show "\<exists>n w' T'. gives (Eq b a) T w SortBool ?C n w' T'"
    by (rule gives_Eq [OF T(1) so(4,2) _ ok(4,2)]) (use T(2) in auto)
  fix c w1 T1 assume 1: "gives (Eq b a) T w SortBool ?C c w1 T1"
  show "returns (bindM (Load m b) (\<lambda>ld. bindM (Ite c d ld) (\<lambda>r. ret (Some r)))) T1 w1 Q"
  proof (rule returns_bind)
    show "\<exists>n w' T'. gives (Load m b) T1 w1 (SortBv dw) ?L n w' T'"
      by (rule gives_memory(1)) (use 1 ok so T in \<open>auto simp: gives_def\<close>)
    fix ld w2 T2 assume 2: "gives (Load m b) T1 w1 (SortBv dw) ?L ld w2 T2"
    let ?I = "\<lambda>\<rho> \<phi>. op_sem kIfThenElse [] [eval \<rho> \<phi> c, eval \<rho> \<phi> d, eval \<rho> \<phi> ld]"
    show "returns (bindM (Ite c d ld) (\<lambda>r. ret (Some r))) T2 w2 Q"
    proof (rule returns_bind)
      show "\<exists>n w' T'. gives (Ite c d ld) T2 w2 (SortBv dw) ?I n w' T'"
        by (rule gives_memory(3)) (use 1 2 ok so T in \<open>auto simp: gives_def\<close>)
      fix r w3 T3 assume 3: "gives (Ite c d ld) T2 w2 (SortBv dw) ?I r w3 T3"
      have "GetUidExprOp r = Inr kIfThenElse \<and> args r = [c, d, ld]"
        by (rule gives_Ite_args [OF 3]) (use 1 2 so in \<open>simp_all add: gives_def\<close>)
      then have "Q r" by (intro Q) (use 1 2 3 in \<open>simp_all add: gives_def del: op_sem.simps\<close>)
      then show "returns (ret (Some r)) T3 w3 Q"
        by (intro returns_ret) (use 3 in \<open>auto simp: gives_def\<close>)
    qed
  qed
qed

text \<open>A load whose memory operand became a store over a leaf is answered by the stored word.\<close>

definition forwards :: "expr_map \<Rightarrow> expr \<Rightarrow> expr \<Rightarrow> bool" where
  "forwards rule e e' \<longleftrightarrow> (\<forall>m. GetUidExprOp e = Inr kLoad \<longrightarrow> rule (eid (args e ! 0)) = Some (Some m) \<longrightarrow>
     is_store m \<longrightarrow> \<not> is_op (args m ! 0) \<longrightarrow> GetUidExprOp e' = Inr kIfThenElse \<and> args e' ! 1 = args m ! 2)"

lemma returns_mono: "returns m T w P \<Longrightarrow> (\<And>r. P r \<Longrightarrow> Q r) \<Longrightarrow> returns m T w Q"
  unfolding returns_def by blast

lemma forward_RewriteOp:
  assumes op: "is_op e" and e: "passable e" "e \<in> T" and T: "node_heap T w" and m: "mapped_args rule T e"
  shows "returns (StoreLoad_RewriteOp rule e) T w (\<lambda>e'. opt_rel e e' \<and> forwards rule e e')"
proof (cases "GetUidExprOp e = Inr kLoad")
  case False
  then have "StoreLoad_RewriteOp rule e = RewriteOp rule e" "forwards rule e e'" for e'
    using op by (cases e; auto simp: StoreLoad_RewriteOp_def bindM_lift forwards_def)+
  then show ?thesis using opt_rel_RewriteOp [OF op e(1) T m] by simp
next
  case True
  then obtain y s as ps f h where e_def: "e = ExprOp y kLoad s as ps f h" by (cases e) auto
  have srt: "op_sort kLoad (map esort as) ps f = Some s" "op_shape kLoad ps f"
    using e by (simp_all add: e_def del: op_sort.simps)
  then obtain m0 b0 aw dw where as: "as = [m0, b0]" "esort m0 = SortMem aw dw" "esort b0 = SortBv aw"
      "s = SortBv dw" "ps = []" "f = None"
    by (auto simp: op_sort_memory op_shape_def simp del: op_sort.simps)
  obtain mem b where r: "rule (eid m0) = Some (Some mem)" "rule (eid b0) = Some (Some b)"
      "opt_rel m0 mem" "opt_rel b0 b" "{mem, b} \<subseteq> T"
    using m by (auto simp: e_def as)
  have so: "esort mem = SortMem aw dw" "esort b = SortBv aw" and ok: "passable mem" "passable b"
    using r as by (auto simp: opt_rel_def same_value_def)
  have get: "get_arg rule e 0 = Inr mem" "get_arg rule e 1 = Inr b"
    by (simp_all add: get_arg_def e_def as rewr_get_def at_def r)
  have run: "StoreLoad_RewriteOp rule e = RewriteLoad rule e"
    by (simp add: StoreLoad_RewriteOp_def e_def bindM_lift)
  have fw: "forwards rule e e' \<longleftrightarrow> (is_store mem \<longrightarrow> \<not> is_op (args mem ! 0) \<longrightarrow>
      GetUidExprOp e' = Inr kIfThenElse \<and> args e' ! 1 = args mem ! 2)" for e'
    using r(1) by (simp add: forwards_def e_def as)
  have st: "IsStore (Some mem) = Inr (is_store mem)" using so(1) by (simp add: IsStore_run)
  have load: "RewriteLoad rule e = (if is_var mem \<or> is_const mem then ret (Some e) else
      bindM (liftR (if is_store mem then bindR (bindR (at (args mem) 0) (\<lambda>a. Inr (is_op a))) (\<lambda>x. Inr (\<not> x)) else Inr False))
        (\<lambda>p. if p then
           bindM (liftR (at (args mem) 1)) (\<lambda>addr_store.
           bindM (Eq b addr_store) (\<lambda>cond.
           bindM (liftR (at (args mem) 0)) (\<lambda>m.
           bindM (Load m b) (\<lambda>data_load.
           bindM (liftR (at (args mem) 2)) (\<lambda>data_store.
           bindM (Ite cond data_store data_load) (\<lambda>r. ret (Some r)))))))
         else RewriteOp rule e))"
    unfolding RewriteLoad_def get bindM_lift and_then_def not_res_def st by (simp cong: if_cong)
  consider (leaf) "\<not> is_op mem" | (store) "is_store mem" "\<not> is_op (args mem ! 0)"
    | (skip) "is_op mem" "is_store mem \<Longrightarrow> is_op (args mem ! 0)" by blast
  then show ?thesis
  proof cases
    case leaf
    then have "is_var mem \<or> is_const mem" and no: "\<not> is_store mem" by (cases mem; simp add: is_store_def)+
    then have copy: "RewriteLoad rule e = ret (Some e)" by (simp only: load if_True)
    have "opt_rel e e \<and> forwards rule e e" using no e(1) by (simp add: opt_rel_def fw)
    then show ?thesis unfolding run copy by (rule returns_ret [OF T e(2)])
  next
    case store
    obtain m1 a d where p: "args mem = [m1, a, d]" "esort m1 = SortMem aw dw" "esort a = SortBv aw"
      "esort d = SortBv dw" "passable m1" "passable a" "passable d"
      "\<forall>\<rho> \<phi>. eval \<rho> \<phi> mem = op_sem kStore [] [eval \<rho> \<phi> m1, eval \<rho> \<phi> a, eval \<rho> \<phi> d]"
      using store_parts [OF store(1) ok(1) so(1)] .
    have inT: "{m1, a, d, b} \<subseteq> T" using arg_in [OF T _ p(1)] r(5) by auto
    have "\<not> is_var mem" "\<not> is_const mem" using store(1) by (cases mem; simp add: is_store_def)+
    then have body: "RewriteLoad rule e = bindM (Eq b a) (\<lambda>c. bindM (Load m1 b) (\<lambda>ld. bindM (Ite c d ld) (\<lambda>r. ret (Some r))))"
      using store p(1) by (simp add: load at_def bindM_lift)
    show ?thesis
      unfolding run body
    proof (rule build_forward [OF T inT p(5,6,7) ok(2) p(2,3,4) so(2)])
      fix n assume n: "passable n" "esort n = SortBv dw" "GetUidExprOp n = Inr kIfThenElse" "args n ! 1 = d"
        "\<forall>\<rho> \<phi>. eval \<rho> \<phi> n = op_sem kIfThenElse [] [op_sem kEqual [] [eval \<rho> \<phi> b, eval \<rho> \<phi> a], eval \<rho> \<phi> d,
           op_sem kLoad [] [eval \<rho> \<phi> m1, eval \<rho> \<phi> b]]"
      have "eval \<rho> \<phi> n = eval \<rho> \<phi> e" if env: "env_ok \<rho>" "finterp_ok \<phi>" for \<rho> \<phi>
      proof -
        obtain f where f: "eval \<rho> \<phi> m1 = VMem aw dw f" by (rule mem_value [OF p(5,2) env])
        obtain x where x: "eval \<rho> \<phi> a = VBv aw x" by (rule bv_value [OF p(6,3) env])
        obtain v where v: "eval \<rho> \<phi> d = VBv dw v" by (rule bv_value [OF p(7,4) env])
        obtain y where y: "eval \<rho> \<phi> b = VBv aw y" by (rule bv_value [OF ok(2) so(2) env])
        from load_store_value [OF f x v y]
        have "eval \<rho> \<phi> n = op_sem kLoad [] [eval \<rho> \<phi> mem, eval \<rho> \<phi> b]" using n(5) p(8) by (simp del: op_sem.simps)
        also have "\<dots> = eval \<rho> \<phi> e"
          using r(3,4) env by (simp add: e_def as opt_rel_def same_value_def del: op_sem.simps)
        finally show ?thesis .
      qed
      moreover have "esort e = SortBv dw" by (simp add: e_def as)
      ultimately have "opt_rel e n" using n(1,2) by (simp add: opt_rel_def same_value_def)
      moreover have "forwards rule e n" using n(3,4) p(1) by (simp add: fw)
      ultimately show "opt_rel e n \<and> forwards rule e n" ..
    qed
  next
    case skip
    have "\<not> is_var mem" "\<not> is_const mem" using skip(1) by (cases mem; simp)+
    moreover have "is_store mem \<Longrightarrow> 0 < length (args mem)"
      using store_parts [OF _ ok(1) so(1)] by fastforce
    ultimately have "RewriteLoad rule e = RewriteOp rule e"
      using skip by (auto simp: load at_def bindM_lift)
    then show ?thesis
      unfolding run using returns_mono [OF opt_rel_RewriteOp [OF op e(1) T m]] skip(2) by (auto simp: fw)
  qed
qed

text \<open>So the pass would keep values if it called them.\<close>

interpretation forwarding: rewriting StoreLoad_RewriteOp passable opt_rel
proof
  fix e T w rule
  assume "is_op e" "passable e" "node_heap T w" "e \<in> T" "mapped_args rule T e"
  from returns_mono [OF forward_RewriteOp [OF this(1,2,4,3,5)], of "opt_rel e"]
  show "\<exists>e' w' T'. StoreLoad_RewriteOp rule e w = Inr (Some e', w') \<and> same_heaps w w' \<and> opt_rel e e'
      \<and> T \<subseteq> T' \<and> node_heap T' w' \<and> e' \<in> T'"
    unfolding returns_def by blast
qed

interpretation forwarding_values: expr_rewriter same_value StoreLoad_RewriteOp ..

end
