(* ===== verification/No_Throw.thy ===== *)
theory No_Throw
  imports Rewrite_Passes
begin

text \<open>
  The handler of the syntactic simplification is never entered: nothing it runs throws what
  \<^verbatim>\<open>catch (...)\<close> could intercept.  So it does not matter that \<open>catchM\<close> starts the handler in
  the state before the block.
\<close>

definition calm :: "('s, 'a) action \<Rightarrow> bool" where
  "calm m \<longleftrightarrow> (\<forall>s x. m s = Inl x \<longrightarrow> \<not> catchable x)"

named_theorems calm_rules \<open>actions that do not throw\<close>

lemma calm_ret [calm_rules]: "calm (ret a)"
  by (simp add: calm_def)

lemma calm_bind [calm_rules]: "calm m \<Longrightarrow> (\<And>a. calm (f a)) \<Longrightarrow> calm (bindM m f)"
  by (auto simp: calm_def bindM_def split: sum.splits)

lemma calm_then [calm_rules]: "calm m \<Longrightarrow> calm k \<Longrightarrow> calm (thenM m k)"
  unfolding thenM_def by (rule calm_bind)

lemma calm_forM [calm_rules]: "(\<And>x. calm (f x)) \<Longrightarrow> calm (forM xs f)"
  by (induction xs) (simp_all add: calm_rules)

lemma calm_mapM [calm_rules]: "(\<And>x. x \<in> set xs \<Longrightarrow> calm (f x)) \<Longrightarrow> calm (mapM f xs)"
  by (induction xs) (simp_all add: calm_rules)

lemma calm_lift: "(\<And>x. r = Inl x \<Longrightarrow> \<not> catchable x) \<Longrightarrow> calm (liftR r)"
  by (cases r) (auto simp: calm_def)

lemma calm_basic [calm_rules]: "calm (gets g)" "calm (modify h)" "calm (fail OutOfFuel)"
  "calm (ila_assert b msg)" "calm (ila_check b msg)" "calm (ila_not_null p)"
  by (auto simp: calm_def assertR_def checkR_def not_null_def split: option.splits if_splits)

lemma calm_world [calm_rules]: "calm m \<Longrightarrow> calm (on_world m)"
  by (auto simp: calm_def on_world_def split: sum.splits)

lemma calm_catch: "calm m \<Longrightarrow> catchM m h = m"
  by (rule ext) (auto simp: calm_def catchM_def split: sum.splits)

lemma calm_objects [calm_rules]: "calm (the_ila i)" "calm (the_instr k)" "calm (upd_ila i f)" "calm (upd_instr k g)"
  by (auto simp: calm_def the_ila_def the_instr_def upd_ila_def upd_instr_def bindM_def split: option.splits sum.splits)

lemma calm_setters [calm_rules]: "calm (ForceSetValid i v)" "calm (ForceSetFetch i f)" "calm (ForceSetDecode k d)"
  "calm (ForceAddUpdate k n u)" "calm (updated_states k)" "calm (instr_update k n)"
  unfolding ForceSetValid_def ForceSetFetch_def ForceSetDecode_def ForceAddUpdate_def updated_states_def instr_update_def Unify_def
  by (intro calm_rules)+

lemma Hash_calm: "Hash P e = Inl x \<Longrightarrow> \<not> catchable x"
  by (cases "(P, e)" rule: Hash.cases) (auto split: if_splits cval.splits)

lemma calm_find [calm_rules]: "calm (em_find P msg e)"
  unfolding em_find_def by (intro calm_rules calm_lift) (rule Hash_calm)

lemma calm_node [calm_rules]: "calm (em_node P e)"
  unfolding em_node_def Let_def by (intro calm_rules calm_lift) (auto intro: calm_rules dest: Hash_calm)

lemma calm_visit [calm_rules]: "calm (em_visit P e)"
proof (induction e rule: measure_induct_rule [of size])
  case (less e)
  show ?case
    unfolding em_visit.simps [of P e] by (intro calm_rules less.IH) (rule size_args)
qed

lemma calm_GetRep [calm_rules]: "calm (GetRep P e)"
  unfolding GetRep_def by (intro calm_rules)

lemma calm_Syntactic [calm_rules]: "calm (Rewr_Syntactic e)"
  using calm_GetRep unfolding Rewr_Syntactic_def calm_def
  by (cases e) (auto simp: not_null_def split: sum.splits)

lemma calm_generic: "(\<And>e. calm (Rewr e)) \<Longrightarrow> calm (RewriteGeneric_fuel n Rewr i)"
  by (induction n arbitrary: i) (auto intro!: calm_rules split: option.splits simp: rewrite_instr_def rewrite_update_def)

lemma SimplifySyntactic_no_throw:
  "SimplifySyntactic i = bindM (the_ila i) (\<lambda>_. run_pass Rewr_Syntactic ExprMngr_New i)"
proof -
  have "calm (run_pass Rewr_Syntactic b i)" for b
    unfolding calm_def run_pass_def RewriteGeneric_def
    by (auto simp del: RewriteGeneric_fuel.simps split: sum.splits
        dest: calm_generic [OF calm_Syntactic, unfolded calm_def, rule_format])
  then show ?thesis by (simp add: SimplifySyntactic_def calm_catch)
qed

end
