(* ===== verification/Spec2Isabelle.thy ===== *)
theory Spec2Isabelle
  imports Demo_Unroll_Z3 Demo_Solver Comm_Sound Store_Load No_Throw Ila_Facts
begin

text \<open>
  A model of the core of ILAng, the platform for instruction-level abstractions (ILAs) of
  hardware: expressions, instructions and hierarchies of ILAs, the passes that rewrite them,
  and their translation to SMT formulas.  This theory holds the properties; the definitions
  and the proofs are in the theories it imports.  Paths are relative to the directory
  \<^verbatim>\<open>src\<close> of the repository; headers are under \<^verbatim>\<open>include/ilang\<close>.

  \<^bold>\<open>How the program is modelled.\<close>  An operation is a function from the \<open>world\<close> to a fault or
  a result with a new world (\<open>Prelude\<close>: the type \<open>action\<close>, \<open>bindM\<close>, loops as \<open>foldM\<close> and
  \<open>forM\<close>).  The faults are a failed \<^verbatim>\<open>ILA_ASSERT\<close>, \<^verbatim>\<open>ILA_CHECK\<close> or \<^verbatim>\<open>ILA_NOT_NULL\<close>
  (\<^verbatim>\<open>util/log.h\<close>, debug build), an access out of range, an exception, and a run that never
  ends.  The \<open>world\<close> (theory \<open>Objects\<close>) has the counter of symbol identifiers, the heap of
  instructions, the heap of ILAs, the size annotations of memories and the order in which an
  \<^verbatim>\<open>unordered_set\<close> of pointers is walked, which no theorem fixes: \<open>iter_fair\<close> only says that it
  is a permutation.  Objects are named by the identifier of their symbol; an expression is a
  tree whose nodes carry their identifier, so pointer equality is equality of identifiers.
  Machine integers keep their width: \<^verbatim>\<open>size_t\<close> and \<^verbatim>\<open>uint64_t\<close> are 64-bit words, \<^verbatim>\<open>int\<close> is
  an integer narrowed by \<open>to_int32\<close> where the code narrows.

  \<^bold>\<open>Components.\<close>
  \<^item> \<open>Containers\<close> (\<^verbatim>\<open>util/container.h\<close>): \<open>keyvec\<close> is the vector and the index map of
    \<^verbatim>\<open>KeyVec\<close>, \<open>kv_push_back\<close>, \<open>kv_find\<close> and so on its members.  The invariant \<open>kv_inv\<close> ties
    the two fields; the locale \<open>indexed_map\<close> is what the ILA layer relies on.
  \<^item> \<open>Str_Util\<close>, \<open>Str_Loops\<close> (\<^verbatim>\<open>util/str_util.cc\<close>): numbers and text at 64 bits, splitting,
    joining, replacing.  The loops are partial functions; \<open>Str_Loops\<close> proves when they end and
    that they agree with left-to-right scans.
  \<^item> \<open>Ast\<close>, \<open>Expr_Op\<close>, \<open>Ast_Hub\<close> (\<^verbatim>\<open>ila/symbol.cc\<close>, \<^verbatim>\<open>ila/ast/*.cc\<close>,
    \<^verbatim>\<open>ila/ast_hub.cc\<close>): sorts, constants, expressions, the constructor of every operator with
    its checks, and the functions of the name space \<^verbatim>\<open>asthub\<close>.  \<open>op_sort\<close> is the table of
    sorts the constructors are proved to follow.
  \<^item> \<open>Semantics\<close>: the meaning of expressions (\<open>eval\<close>), after the SMT-LIB theories of
    bit-vectors and arrays.  It models no code; it is the specification of what follows.
  \<^item> \<open>Objects\<close>, \<open>Ila\<close>, \<open>Ila_Inv\<close>, \<open>Ila_Facts\<close> (\<^verbatim>\<open>ila/instr.cc\<close>, \<^verbatim>\<open>ila/transition.cc\<close>,
    \<^verbatim>\<open>ila/instr_lvl_abs.cc\<close>): instructions, sequences, hierarchies.  \<open>api_step\<close> is the step
    relation of the construction interface, \<open>world_ok\<close> the invariant of the two heaps.
  \<^item> \<open>Rewriter\<close> (\<^verbatim>\<open>ila-mngr/u_rewrite_expr.cc\<close>): \<^verbatim>\<open>FuncObjRewrExpr\<close>; the locale
    \<open>rewriting\<close> is the contract of an override of its virtual \<^verbatim>\<open>Rewrite\<close>.
  \<^item> \<open>Abs_Knob\<close>, \<open>Abs_Knob_Inv\<close> (\<^verbatim>\<open>ila-mngr/u_abs_knob.cc\<close>, \<^verbatim>\<open>u_rewrite_ila.cc\<close>):
    collection, duplication, copying and flattening.
  \<^item> \<open>Hash_Ast\<close> (\<^verbatim>\<open>ila/hash_ast.cc\<close>): sharing of equal sub-trees by their hash.
  \<^item> \<open>Rewrite_Passes\<close>, \<open>Pass_Values\<close>, \<open>Store_Load\<close>, \<open>No_Throw\<close> (\<^verbatim>\<open>ila-mngr/p_*.cc\<close>): the
    generic pass over a hierarchy and its instances; the locale \<open>expr_pass\<close> is what a rewriting
    function promises of a relation of expressions (\<open>expr_rel\<close>).  The conditional-store pass
    keeps the value of every expression (\<open>same_value\<close>); the store-load pass only copies
    (\<open>same_shape\<close>), and the forwarding it has but never calls keeps values too.
  \<^item> \<open>Smt_Api\<close>, \<open>Z3_Adapter\<close>, \<open>Z3_Sound\<close>, \<open>Smt_Switch\<close>, \<open>Switch_Sound\<close>
    (\<^verbatim>\<open>target-smt/z3_expr_adapter.cc\<close>, \<^verbatim>\<open>smt_switch_itf.cc\<close> and the \<^verbatim>\<open>GetZ3Expr\<close> members
    of the nodes): the translations to the two SMT libraries.  A library is a record of its
    functions; \<open>z3_laws\<close> and \<open>solver_laws\<close> state their documented meaning over the denotation
    of terms and are interpreted on libraries of denotations (\<open>z3_model\<close>, \<open>switch_model\<close>).
    The traversal argument is the locale \<open>translator\<close>.
  \<^item> \<open>Unroll_Smt\<close>, \<open>Unroll_Sound\<close> (\<^verbatim>\<open>ila-mngr/u_unroller_smt.cc\<close>, \<^verbatim>\<open>target-smt/smt_shim.h\<close>):
    unrolling of a sequence of instructions.  The abstract specification is a path, a
    valuation per step (\<open>path_holds\<close>, \<open>execution\<close>); the locale \<open>shim_laws\<close> is the contract of
    \<^verbatim>\<open>SmtShim\<close>.
  \<^item> \<open>Unroll_Z3\<close>, \<open>Unroll_Z3_Sound\<close> (\<^verbatim>\<open>ila-mngr/u_unroller.cc\<close>): the older unroller.  \<open>as_unroller\<close>
    reads its members as those of the newer one; \<open>inline_env\<close> is the valuation of a step when
    the states are computed from the first one, as \<^verbatim>\<open>UnrollSubs\<close> does by substitution.
  \<^item> \<open>Realise\<close>: sequences of valuations as interpretations of names, when the names of the
    variables are apart; what turns an answer unsat into a statement about all executions.
  \<^item> \<open>Solver_Passes\<close>, \<open>Simplify_Sound\<close>, \<open>Sanity_Sound\<close> (\<^verbatim>\<open>ila-mngr/p_simplify_semantic.cc\<close>,
    \<^verbatim>\<open>p_sanity_check_and_fix.cc\<close>, \<^verbatim>\<open>p_infer_child_prog_cfg.cc\<close>, \<^verbatim>\<open>p_map_child_prog_entry.cc\<close>):
    the passes that ask a solver.  The locale \<open>z3_solver\<close> says that the answers sat and unsat
    are right and is interpreted on \<open>den_solver\<close>; \<open>simplified\<close> relates the hierarchies before
    and after the simplification, \<open>deterministic\<close> and \<open>complete\<close> are what the sanity check
    decides.
  \<^item> \<open>Legacy_Bmc\<close>, \<open>Bmc_Sound\<close> (\<^verbatim>\<open>ila-mngr/v_eq_check_bmc.cc\<close>): the bounded check of two ILAs;
    \<open>bmc_runs\<close> are the pairs of runs its query is about.
  \<^item> \<open>Comm_Diag\<close>, \<open>Comm_Sound\<close> (\<^verbatim>\<open>ila-mngr/v_refinement.cc\<close>, \<^verbatim>\<open>v_eq_check_crr.cc\<close>):
    refinement relations and the three commutation checks of \<^verbatim>\<open>CommDiag\<close>; the record \<open>diag\<close> has
    its unrollers, each a value of \<open>unrl\<close>.  \<open>holds_at\<close> and \<open>completes\<close> say when the completion
    condition holds on a flushed run; proved is what the number of steps is decided by.
  \<^item> \<open>Json\<close>, \<open>Ila_Json\<close>, \<open>Json_Ser\<close> (\<^verbatim>\<open>target-json/*.cc\<close> and the values of
    \<^verbatim>\<open>extern/json\<close>): the portable format, both directions; \<open>hier\<close> is a hierarchy as a tree,
    \<open>hier_json\<close> and \<open>node_json\<close> are what the serializer is proved to write.
  \<^item> \<open>Demo\<close>, \<open>Demo_Smt\<close>, \<open>Demo_Unroll\<close>, \<open>Demo_Unroll_Z3\<close>, \<open>Demo_Json\<close>, \<open>Demo_Solver\<close>: a small
    hierarchy, built through the interface, to which the theorems about hierarchies are applied.

  \<^bold>\<open>Bounds.\<close>  Recursion over a hierarchy (the visitors, \<open>ila_order\<close>, \<open>RewriteGeneric_fuel\<close>,
  \<open>SerInstrLvlAbsNoAst\<close>, \<open>InferChildProgCFG_fuel\<close>) takes \<open>Suc (counter w)\<close> as fuel.  It is
  enough: on a consistent heap identifiers grow from parent to child and are at most the
  counter, so no branch is longer, and the theorems about the visitors, the passes and the
  serializer show that they return; for \<open>InferChildProgCFG_fuel\<close> this is not proved.
  \<open>IncCheck_loop\<close> and \<open>IncEqCheck_loop\<close> take the length of the range as fuel, which is
  enough for a positive step.  \<^verbatim>\<open>Split\<close> and \<^verbatim>\<open>ReplaceAll\<close> are partial functions whose
  termination is proved for a non-empty pattern.  The older unroller takes steps as \<^verbatim>\<open>int\<close>: its
  theorems are about fewer than \<open>2 ^ 31\<close> steps.

  \<^bold>\<open>What is not modelled.\<close>  Printing and logging; the regular expressions of \<^verbatim>\<open>str_util.cc\<close>;
  the generators of Verilog, SystemC and verification targets, which produce text for other
  tools; the parsers of external formats; the axiomatic memory models; the reports of
  counterexamples; and the wrappers of the C++ interface.  Of the JSON library the values are modelled,
  not the reading and writing of text.  z3 and smt-switch are not part of the repository and
  are parameters of the model.  The deserializer, the inference of child control flow, the
  mapping of child programs and, of the commutation checks, all but the choice of the number of
  steps are modelled as definitions without a theorem of their own.
\<close>

text \<open>
  C1: RewriteConditionalStore terminates normally and answers true on a consistent heap whose
  hierarchy is ready for the pass: every instruction has a decode, no update is null, and all
  expressions have positive widths, meet the side conditions of the SMT operators and use no
  signed remainder or modulus, for which the rewriter has no case. In the heap it leaves,
  every instruction and every ILA is the same object with every fetch, valid, decode and state
  update replaced by an expression of the same sort and of the same value under every
  environment and every function interpretation; no other field changes.
\<close>

theorem condstore_preserves:
  assumes "world_ok w" "i \<in> dom (ila_heap w)" "pass_ready T w i"
  shows "\<exists>w'. RewriteConditionalStore i w = Inr (True, w') \<and> world_same w w'"
  by (rule CondStore_same [OF assms])

theorem condstore_preserves_witness:
  "\<exists>w'. RewriteConditionalStore 1 demo = Inr (True, w') \<and> world_same demo w'"
  by (rule condstore_preserves [OF demo_ok demo_in demo_ready])



text \<open>
  C3: RewriteStoreLoad, on a consistent heap whose hierarchy is ready for a pass, terminates
  normally, answers true and forwards nothing: every fetch, valid, decode and update becomes a
  copy with the same operators, parameters, sorts and leaves, and no other field of any ILA or
  instruction changes. The reason is that FuncObjRewrStoreLoad::RewriteOp takes its argument
  by value and so does not override the virtual member of FuncObjRewrExpr, which takes a
  reference.
\<close>

theorem storeload_pass_only_copies:
  assumes "world_ok w" "i \<in> dom (ila_heap w)" "pass_ready T w i"
  shows "\<exists>w'. RewriteStoreLoad i w = Inr (True, w') \<and> world_rel same_shape w w'"
  by (rule StoreLoad_shape [OF assms])

theorem storeload_pass_only_copies_witness:
  "\<exists>w'. RewriteStoreLoad 1 demo = Inr (True, w') \<and> world_rel same_shape demo w'"
  by (rule storeload_pass_only_copies [OF demo_ok demo_in demo_ready])

text \<open>
  C4: Z3ExprAdapter::GetExpr terminates without a fault on every translatable expression of a
  consistent heap and returns a z3 term of the sort of the expression whose value, under every
  interpretation of the names, is the value of the expression; this holds for every library
  that obeys the documented laws of the z3 functions called.
\<close>

theorem z3_translation_sound:
  assumes "z3_laws api tsort den" "world_ok w" "dag S" "\<forall>x\<in>S. z3_ready w x" "e \<in> S"
  shows "\<exists>t. GetExpr api w e sfx = Inr t
    \<and> term_rel tsort den (z3_env w sfx) (z3_finterp w sfx) t e"
  by (rule z3_GetExpr [OF assms])

theorem z3_translation_sound_witness:
  "\<exists>t. GetExpr z3_model demo e_ite ''0'' = Inr t
    \<and> term_rel fst den_term (z3_env demo ''0'') (z3_finterp demo ''0'') t e_ite"
  by (rule z3_translation_sound [OF z3_den.z3_laws_axioms demo_ok demo_dag demo_z3_ready demo_members(7)])

text \<open>
  C5: SmtSwitchItf::GetSmtTerm, from an interface without cached terms whose solver has
  declared none of the names, terminates without a fault and returns a term whose value under
  every interpretation is the value of the expression; a later query for the same expression
  returns the same term whatever suffix it asks for. It is assumed that different variables
  and functions get different names, that functions have arguments, and that constants of more
  than 64 bits (also inside memory constants) are below 2^63, since the code passes them as
  signed 64-bit numbers.
\<close>

theorem switch_translation_sound:
  assumes "solver_laws sv tsort den frank fden declared" "world_ok w" "dag S"
    "\<forall>x\<in>S. switch_ready w x" "names_apart w sfx S" "e \<in> S"
    "sw_exprs s = Map.empty" "sw_funcs s = Map.empty"
    "declared (sw_solver s) \<inter> switch_names w sfx S = {}"
  shows "\<exists>t s'. GetSmtTerm sv w e sfx s = Inr (t, s')
    \<and> term_rel tsort den (z3_env w sfx) (switch_finterp w sfx) t e
    \<and> (\<forall>sfx'. \<exists>s''. GetSmtTerm sv w e sfx' s' = Inr (t, s''))"
  by (rule switch_GetSmtTerm [OF assms])

theorem switch_translation_sound_witness:
  "\<exists>t s'. GetSmtTerm switch_model demo e_ite ''0'' switch_start = Inr (t, s')
    \<and> term_rel (\<lambda>t. fst (fst t)) sterm_den (z3_env demo ''0'') (switch_finterp demo ''0'') t e_ite
    \<and> (\<forall>sfx'. \<exists>s''. GetSmtTerm switch_model demo e_ite sfx' s' = Inr (t, s''))"
  by (rule switch_translation_sound [OF switch_den.solver_laws_axioms demo_ok demo_dag demo_switch_ready
        demo_apart demo_members(7)]) (simp_all add: switch_start_def)

text \<open>
  C6: SimplifySemantic with a solver whose answers are right (it may answer unknown) returns
  true and keeps the ILAs and everything of the instructions but their updates; in every state
  in which its ILA is valid and it is decoded, an instruction gives every state the same next
  value as before.
\<close>

theorem semantic_simplification_preserves:
  assumes "z3_solver api tsort den slv" "world_ok w" "solver_nodes w S" "i \<in> dom (ila_heap w)"
    "updates_in S (set (ila_tree w i)) w"
  shows "\<exists>w'. SimplifySemantic api slv i t w = Inr (True, w') \<and> world_ok w' \<and> ila_heap w' = ila_heap w
    \<and> (\<forall>k. map_option (\<lambda>x. x\<lparr>updates := []\<rparr>) (instr_heap w' k) = map_option (\<lambda>x. x\<lparr>updates := []\<rparr>) (instr_heap w k))
    \<and> (\<forall>k x h m v d s \<rho> \<phi>. instr_heap w k = Some x \<and> i_host x = Some h \<and> ila_heap w h = Some m
        \<and> valid m = Some v \<and> decode x = Some d \<and> env_ok \<rho> \<and> finterp_ok \<phi>
        \<and> eval \<rho> \<phi> v = VBool True \<and> eval \<rho> \<phi> d = VBool True \<longrightarrow>
          eval \<rho> \<phi> (next_state w' k s) = eval \<rho> \<phi> (next_state w k s))"
proof -
  obtain w' where w': "SimplifySemantic api slv i t w = Inr (True, w')" "world_ok w'" "simplified w w'"
    using z3_solver.SimplifySemantic_run [OF assms] by blast
  then have "ila_heap w' = ila_heap w" by (simp add: simplified_def)
  with w' simplified_rest [OF w'(3)] simplified_next [OF w'(3)] show ?thesis by (intro exI [of _ w'] conjI allI impI; blast)
qed

theorem semantic_simplification_preserves_witness:
  "\<exists>w'. SimplifySemantic z3_model den_solver 1 500 demo_ser = Inr (True, w') \<and> world_ok w' \<and> ila_heap w' = ila_heap demo_ser"
  using semantic_simplification_preserves
    [OF z3_den_solver.z3_solver_axioms demo_ser_ok demo_solver_nodes demo_ser_in(1) demo_updates_in, of 500] by blast

text \<open>
  C7: The formula PathUnroller::Unroll builds from step 0 is satisfiable if and only if the
  sequence of instructions has an execution: valuations of all variables, one for each step,
  in which every step takes its instruction and which satisfy the asserted predicates. The
  names of the variables have to differ across steps.
\<close>

theorem unrolling_finds_the_executions:
  assumes "z3_laws api tsort den" "world_ok (r_world st)" "iter_fair (r_world st)" "dag S"
    "\<forall>x\<in>S. z3_ready (r_world st) x" "unroller_ok S (r_self st)" "seq_ready S (r_world st) ks"
    "steps_apart (r_world st) (r_self st) (length ks) S"
  shows "\<exists>t st'. Unroll (z3_shim api) ks 0 st = Inr (t, st') \<and> tsort t = SortBool
    \<and> ((\<exists>I. interp_ok I \<and> den I t = VBool True) \<longleftrightarrow>
       (\<exists>\<rho> \<phi>. (\<forall>i. env_ok (\<rho> i)) \<and> finterp_ok \<phi> \<and> execution (r_world st) (r_self st) ks \<rho> \<phi>))"
  by (rule z3_Unroll_executions [OF assms])

theorem unrolling_finds_the_executions_witness:
  "\<exists>t st'. Unroll (z3_shim z3_model) [6, 6] 0 demo_start = Inr (t, st') \<and> fst t = SortBool
    \<and> ((\<exists>I. interp_ok I \<and> den_term I t = VBool True) \<longleftrightarrow>
       (\<exists>\<rho> \<phi>. (\<forall>i. env_ok (\<rho> i)) \<and> finterp_ok \<phi> \<and> execution demo demo_unroller [6, 6] \<rho> \<phi>))"
proof -
  have len: "length [6::nat, 6] = 2" by simp
  show ?thesis
    using unrolling_finds_the_executions [of z3_model fst den_term demo_start demo_nodes "[6, 6]"]
      z3_den.z3_laws_axioms demo_ok demo_fair demo_dag demo_z3_ready demo_unroller_ok demo_seq_ready
      demo_steps_apart
    by (simp only: demo_start_def run_state.simps len)
qed

text \<open>
  C8: PathUnroller::Unroll over z3 terminates without a fault and returns a Boolean term that
  is true under an interpretation of the names exactly when the valuations the suffixes name
  form a path: every step satisfies the decode of its instruction and the asserted predicates,
  and gives every state of the hosts its update, or its old value when the instruction does
  not update it.
\<close>

theorem unrolling_states_the_path:
  assumes "z3_laws api tsort den" "world_ok (r_world st)" "iter_fair (r_world st)" "dag S"
    "\<forall>x\<in>S. z3_ready (r_world st) x" "unroller_ok S (r_self st)" "seq_ready S (r_world st) ks"
  shows "\<exists>t st'. Unroll (z3_shim api) ks from st = Inr (t, st') \<and> tsort t = SortBool
    \<and> (\<forall>I. interp_ok I \<longrightarrow> den I t = VBool (path_holds (r_world st) (r_self st) ks from
          (\<lambda>sfx. z3_env (r_world st) sfx I) (\<lambda>sfx. z3_finterp (r_world st) sfx I)))"
  by (rule z3_Unroll [OF assms])

theorem unrolling_states_the_path_witness:
  "\<exists>t st'. Unroll (z3_shim z3_model) [6, 6] 3 demo_start = Inr (t, st') \<and> fst t = SortBool
    \<and> (\<forall>I. interp_ok I \<longrightarrow> den_term I t = VBool (path_holds demo demo_unroller [6, 6] 3
          (\<lambda>sfx. z3_env demo sfx I) (\<lambda>sfx. z3_finterp demo sfx I)))"
  using unrolling_states_the_path [of z3_model fst den_term demo_start demo_nodes "[6, 6]" 3]
    z3_den.z3_laws_axioms demo_ok demo_fair demo_dag demo_z3_ready demo_unroller_ok demo_seq_ready
  by (simp only: demo_start_def run_state.simps)

text \<open>
  C9: PathUnroll::PathSubs from step 0 returns a formula, in which the states between the
  steps are replaced by their values, that is satisfiable if and only if the sequence of
  instructions has an execution satisfying the asserted predicates.
\<close>

theorem path_subs_finds_the_executions:
  assumes "z3_subst_laws api tsort den sb" "world_ok w" "iter_fair w" "dag S" "\<forall>x\<in>S. z3_ready w x"
    "z_unroller_ok S u" "seq_ready S w ks" "length ks < 2 ^ 31" "steps_apart w (as_unroller u) (length ks) S"
  shows "\<exists>t st. PathSubs api sb ks 0 \<lparr>z_world = w, z_self = u\<rparr> = Inr (t, st) \<and> tsort t = SortBool
    \<and> ((\<exists>I. interp_ok I \<and> den I t = VBool True) \<longleftrightarrow>
       (\<exists>\<rho> \<phi>. (\<forall>i. env_ok (\<rho> i)) \<and> finterp_ok \<phi> \<and> execution w (as_unroller u) ks \<rho> \<phi>))"
  using z3_subs.PathSubs_executions [OF z3_subs_intro [OF assms(1-5,9)], of "\<lparr>z_world = w, z_self = u\<rparr>" ks] assms(6-9)
  by (simp only: zstate.simps)

theorem path_subs_finds_the_executions_witness:
  "\<exists>t st. PathSubs z3_model den_subst [6, 6] 0 \<lparr>z_world = demo, z_self = demo_zunroller\<rparr> = Inr (t, st) \<and> fst t = SortBool
    \<and> ((\<exists>I. interp_ok I \<and> den_term I t = VBool True) \<longleftrightarrow>
       (\<exists>\<rho> \<phi>. (\<forall>i. env_ok (\<rho> i)) \<and> finterp_ok \<phi> \<and> execution demo (as_unroller demo_zunroller) [6, 6] \<rho> \<phi>))"
proof -
  have len: "length [6::nat, 6] = 2" by simp
  have "steps_apart demo (as_unroller demo_zunroller) (length [6::nat, 6]) demo_nodes"
    unfolding len by (rule demo_zsteps_apart)
  from path_subs_finds_the_executions [OF z3_den_subst.z3_subst_laws_axioms demo_ok demo_fair demo_dag demo_z3_ready
      demo_zunroller_ok(1) demo_seq_ready _ this] show ?thesis by simp
qed

text \<open>
  C10: PathUnroll::PathAssn of the older unroller and PathUnroller::Unroll of the newer one,
  given the same predicates, sequence and first step, both return a formula, and the two
  formulas are true under the same interpretations.
\<close>

theorem path_assn_agrees_with_path_unroller:
  assumes "z3_laws api tsort den" "world_ok w" "iter_fair w" "dag S" "\<forall>x\<in>S. z3_ready w x"
    "z_unroller_ok S u" "unroller_ok S (as_unroller u)" "seq_ready S w ks" "p + length ks < 2 ^ 31"
  shows "\<exists>t st t' st'. PathAssn api ks (int p) \<lparr>z_world = w, z_self = u\<rparr> = Inr (t, st)
    \<and> Unroll (z3_shim api) ks (of_nat p) \<lparr>r_world = w, r_gen = (), r_self = as_unroller u\<rparr> = Inr (t', st')
    \<and> tsort t = SortBool \<and> tsort t' = SortBool \<and> (\<forall>I. interp_ok I \<longrightarrow> den I t = den I t')"
  by (rule PathAssn_Unroll [OF assms])

theorem path_assn_agrees_with_path_unroller_witness:
  "\<exists>t st t' st'. PathAssn z3_model [6, 6] (int 3) \<lparr>z_world = demo, z_self = demo_zunroller\<rparr> = Inr (t, st)
    \<and> Unroll (z3_shim z3_model) [6, 6] (of_nat 3) \<lparr>r_world = demo, r_gen = (), r_self = as_unroller demo_zunroller\<rparr>
       = Inr (t', st')
    \<and> fst t = SortBool \<and> fst t' = SortBool \<and> (\<forall>I. interp_ok I \<longrightarrow> den_term I t = den_term I t')"
  by (rule path_assn_agrees_with_path_unroller [OF z3_den.z3_laws_axioms demo_ok demo_fair demo_dag demo_z3_ready
        demo_zunroller_ok demo_seq_ready]) simp

text \<open>
  C11: SanityCheckAndFix with a solver that always answers returns true exactly when, in every
  ILA of the hierarchy, no two instructions are decoded in a state in which the ILA is valid,
  and every state decodes some instruction of an ILA that is valid in it; a hierarchy that is
  not complete is reported even when the default instruction could be added.
\<close>

theorem sanity_check_decides:
  assumes "z3_solver api tsort den slv" "\<And>n ts. z_check slv n ts \<noteq> Unknown" "world_ok w" "solver_nodes w S"
    "i \<in> dom (ila_heap w)" "checkable S w (set (ila_tree w i))"
  shows "\<exists>b w'. SanityCheckAndFix api slv i w = Inr (b, w') \<and> (b \<longleftrightarrow>
     (\<forall>j\<in>set (ila_tree w i). \<forall>m. ila_heap w j = Some m \<longrightarrow>
        (\<forall>p q. p < q \<and> q < length (vec (instrs m)) \<longrightarrow> \<not> (\<exists>\<rho> \<phi>. env_ok \<rho> \<and> finterp_ok \<phi> \<and> valid_holds \<rho> \<phi> m
           \<and> decoded w \<rho> \<phi> (vec (instrs m) ! p) \<and> decoded w \<rho> \<phi> (vec (instrs m) ! q))))
     \<and> (\<forall>\<rho> \<phi>. env_ok \<rho> \<and> finterp_ok \<phi> \<longrightarrow> (\<exists>j\<in>set (ila_tree w i). \<exists>m. ila_heap w j = Some m
           \<and> (\<exists>k\<in>set (vec (instrs m)). enabled w \<rho> \<phi> k))))"
proof -
  have heap: "\<forall>j\<in>set (ila_tree w i). ila_heap w j \<noteq> None" using assms(6) by (fastforce simp: checkable_def)
  show ?thesis
    using z3_solver.SanityCheck_run [OF assms] unfolding deterministic_iff complete_tree [OF heap] by blast
qed

theorem sanity_check_decides_witness:
  "\<exists>b w'. SanityCheckAndFix z3_model den_solver 1 demo_ser = Inr (b, w')"
  using sanity_check_decides
    [OF z3_den_solver.z3_solver_axioms demo_solver_decides demo_ser_ok demo_solver_nodes demo_ser_in(1) demo_checkable] by blast

text \<open>
  C12: LegacyBmc::Check of two ILAs for k0 and k1 steps, with a solver that always answers,
  says sat exactly when there are runs of k0 and of k1 steps, from states in which the initial
  conditions and the invariants hold and all states and inputs of the same name are equal,
  after which every state differs from its partner. So unsat does not show that the ILAs
  agree: one state on which all runs agree is enough for it.
\<close>

theorem bounded_check_answers:
  assumes "z3_solver api tsort den slv" "\<And>n ts. z_check slv n ts \<noteq> Unknown" "world_ok w" "dag S" "\<forall>x\<in>S. z3_ready w x"
    "apart_at w (\<lambda>j. int_to_string (int j)) (max k0 k1) S" "bmc_ready S w b i0 m0 i1 m1" "0 < k0" "0 < k1"
  shows "\<exists>r. bmc_Check api slv b i0 (int k0) i1 (int k1) w = Inr (r, w) \<and> (r = Sat \<longleftrightarrow>
    (\<exists>\<rho> \<phi>. (\<forall>j. env_ok (\<rho> j)) \<and> finterp_ok \<phi> \<and> flat_run w m0 k0 \<phi> \<rho> \<and> flat_run w m1 k1 \<phi> \<rho>
       \<and> start_equal m0 m1 \<phi> (\<rho> 0)
       \<and> (\<forall>s\<in>set (vec (states m0)). eval (\<rho> k0) \<phi> s \<noteq> eval (\<rho> k1) \<phi> (the (find_state m1 (ename s))))
       \<and> (\<forall>e\<in>set (b_inits b) \<union> set (b_invs b). eval (\<rho> 0) \<phi> e = VBool True)))"
proof -
  have "\<forall>x\<in>S. efunc x \<noteq> None \<longrightarrow> args x \<noteq> []" using assms(6) by (simp add: apart_at_def)
  with assms(3-5) have "bmc_run_axioms w S" by (intro bmc_run_axioms.intro)
  from bmc_run.bmc_Check_run [OF bmc_run.intro [OF assms(1) this] assms(7-9,6,2)]
  show ?thesis unfolding bmc_runs_def end_different_def .
qed

theorem bounded_check_answers_witness:
  "\<exists>r. bmc_Check z3_model den_solver demo_bmc 1 (int 1) 9 (int 2) demo_ser = Inr (r, demo_ser)"
proof -
  obtain m c where m: "ila_heap demo_ser 1 = Some m" "ila_heap demo_ser 9 = Some c" using demo_ser_in by blast
  have "apart_at demo_ser (\<lambda>j. int_to_string (int j)) (max 1 2) demo_nodes"
    using demo_ser_apart(1) by (simp add: numeral_2_eq_2 [symmetric])
  from bounded_check_answers [OF z3_den_solver.z3_solver_axioms demo_solver_decides demo_ser_ok demo_dag demo_ser_ready
      this demo_bmc_ready [OF m]] show ?thesis by auto
qed

text \<open>
  C13: The two queries by which CheckStepOrig and CheckStepAppl decide a number of steps, with
  a solver that always answers, pass exactly when every interpretation of the given initial
  and transition formulas has a completing frame from the first to the last. That it is the
  only one is asked of the solver but never decides: the second query is added to the
  assertions of the first, which have no model by then.
\<close>

theorem step_count_ignores_repetition:
  assumes "z3_solver api tsort den slv" "\<And>n ts. z_check slv n ts \<noteq> Unknown" "world_ok (g_world g)" "dag S"
    "\<forall>x\<in>S. z3_ready (g_world g) x" "e \<in> S" "esort e = SortBool" "means tsort den init B" "means tsort den tran C"
  shows "\<exists>r g'. step_queries api slv u (Some e) a b init tran g = Inr (r, g') \<and> (r \<longleftrightarrow>
    (\<forall>I. interp_ok I \<longrightarrow> B I \<longrightarrow> C I \<longrightarrow>
       (\<exists>k. a \<le> k \<and> k \<le> b \<and> holds_at (g_world g) (extra_suff (g_unrl g u)) e k I)))"
  by (rule z3_solver.step_queries_run [OF assms, unfolded completes_def])

theorem step_count_ignores_repetition_witness:
  "\<exists>r g'. step_queries z3_model den_solver unroll_orig (Some v_c) 0 2 (z_bool_val z3_model True) (z_bool_val z3_model True)
     (diag_start demo_ser) = Inr (r, g')"
proof -
  let ?g = "diag_start demo_ser :: (sort \<times> (interp \<Rightarrow> val)) diag"
  have w: "g_world ?g = demo_ser" by (simp add: diag_start_def)
  have c: "esort v_c = SortBool" by (simp add: v_c_def)
  show ?thesis
    using step_count_ignores_repetition [of z3_model fst den_term den_solver ?g demo_nodes v_c, OF
      z3_den_solver.z3_solver_axioms demo_solver_decides _ demo_dag _ demo_members(4) c
      z3_den_solver.true_means z3_den_solver.true_means, unfolded w, OF demo_ser_ok demo_ser_ready] by blast
qed

text \<open>
  C14: IlaSerDesMngr::Serialize of a hierarchy returns, without a fault, the JSON value of the
  hierarchy: the tree of ILAs, each with its variables, its fetch and valid functions, its
  instructions with the next value of every state, its initial conditions and its children,
  all expressions as identifiers; and a list that has every node of these expressions once,
  each after its arguments, with the functions that the nodes apply.
\<close>

theorem serializer_writes_the_hierarchy:
  assumes "ser_dom S" "world_ok w" "describes w i t" "set (hroots t) \<subseteq> S"
  shows "Serialize w i = Inr (obj_of [(''t'', hier_json t), (''a'', jarr (map node_json (nodes_of t))),
      (''f'', jarr (map func_json (applied (nodes_of t))))])
    \<and> distinct (map eid (nodes_of t)) \<and> set (nodes_of t) = (\<Union>e\<in>set (hroots t). subexprs e)
    \<and> args_first (nodes_of t)"
  by (rule Serialize_nodes [OF assms])

theorem serializer_writes_the_hierarchy_witness:
  "Serialize demo_ser 1 = Inr (obj_of [(''t'', hier_json demo_hier), (''a'', jarr (map node_json (nodes_of demo_hier))),
      (''f'', jarr (map func_json (applied (nodes_of demo_hier))))])
    \<and> distinct (map eid (nodes_of demo_hier)) \<and> set (nodes_of demo_hier) = (\<Union>e\<in>set (hroots demo_hier). subexprs e)
    \<and> args_first (nodes_of demo_hier)"
  by (rule serializer_writes_the_hierarchy [OF demo_ser_dom demo_ser_ok demo_describes demo_hroots])

text \<open>
  C15: absknob::Rewrite, the traversal with FuncObjRewrExpr, returns for an expression over
  well-formed nodes without signed remainder and modulus (for which the rewriter has no case)
  an expression of the same sort whose value in the target environment is the value of the
  original in the source environment, provided that the map relates its entries and that the
  two environments agree on the variables without an entry; the object heaps are untouched and
  every expression already built keeps its identity.
\<close>

theorem rewriting_substitutes:
  assumes "dag S" "\<forall>x\<in>S. rewritable x" "e \<in> S" "mapped (copy_rel \<rho> \<rho>' \<phi>) S T rule"
    "node_heap T w" "S \<subseteq> T" "\<forall>x\<in>subexprs e. is_var x \<longrightarrow> rule (eid x) = None \<longrightarrow> \<rho>' x = \<rho> x"
  shows "\<exists>e' w' T'. Rewrite (Some e) rule w = Inr (e', w') \<and> copy_rel \<rho> \<rho>' \<phi> e e' \<and> same_heaps w w'
    \<and> T \<subseteq> T' \<and> node_heap T' w' \<and> e' \<in> T'"
  by (rule Rewrite_copies [OF assms])

theorem rewriting_substitutes_witness:
  "\<exists>e' w' T'. Rewrite (Some e_store2) [10 \<mapsto> Some v_data] demo = Inr (e', w')
    \<and> copy_rel (\<lambda>_. VBv 8 0) (\<lambda>_. VBv 8 0) (\<lambda>_ _. VBool True) e_store2 e' \<and> same_heaps demo w'
    \<and> demo_nodes \<subseteq> T' \<and> node_heap T' w' \<and> e' \<in> T'"
  by (rule rewriting_substitutes [OF demo_dag demo_rewritable demo_members(8) demo_renaming demo_heap order_refl])
     simp

text \<open>
  C16: AbsKnob::DuplInstr of a named instruction with a decode and without null updates, whose
  expressions the expression map can rewrite (no signed remainder or modulus) and whose child
  program, if any, is mapped, creates an instruction with the next identifier, hosted by the
  destination ILA, with the name of the source, whose decode and updates evaluate, after the
  renaming the expression map describes, to what those of the source evaluate to. The
  destination lists it last unless it has an instruction of that name already, in which case
  its list is unchanged; nothing else in the heap of ILAs changes.
\<close>

theorem instruction_copied:
  assumes "world_ok w" "table_ok S \<rho> \<rho>' \<phi> emap w" "instr_heap w src = Some x" "instr_in S x"
    "sym_name (i_sym x) \<noteq> []" "ila_heap w dst = Some m" "\<forall>q. prog x = Some q \<longrightarrow> imap q \<noteq> None"
  shows "\<exists>k w' y'. DuplInstr src dst emap imap w = Inr (k, w') \<and> k = counter w + 1
    \<and> instr_heap w' k = Some y' \<and> instr_copy \<rho> \<rho>' \<phi> x y' \<and> sym_name (i_sym y') = sym_name (i_sym x)
    \<and> i_host y' = Some dst \<and> prog y' = Option.bind (prog x) imap
    \<and> ila_heap w' = (ila_heap w)(dst \<mapsto> add_instr (sym_name (i_sym x)) k m)
    \<and> vec (instrs (add_instr (sym_name (i_sym x)) k m)) =
        vec (instrs m) @ (if find_instr m (sym_name (i_sym x)) = None then [k] else [])"
proof -
  have "kv_inv (instrs m)" using ila_local_of [OF assms(1,6)] by (simp add: ila_local_def)
  then have "vec (instrs (add_instr n k m)) = vec (instrs m) @ (if find_instr m n = None then [k] else [])" for n k
    by (simp add: add_instr_def find_instr_def kv.elems_add)
  then show ?thesis using DuplInstr_copies [OF assms] by simp
qed

theorem instruction_copied_witness:
  "\<exists>k w' y'. DuplInstr 6 9 Map.empty Map.empty demo = Inr (k, w') \<and> instr_heap w' k = Some y'
    \<and> sym_name (i_sym y') = ''ST'' \<and> i_host y' = Some 9"
proof -
  obtain m where m: "ila_heap demo 9 = Some m" using demo_child by auto
  note copied = instruction_copied [OF demo_ok demo_table [of "\<lambda>_. VBool True" "\<lambda>_ _. VBool True"]
    demo_instr demo_instr_in _ m, of Map.empty]
  show ?thesis using copied by simp blast
qed

text \<open>
  C17: ExprMngr::GetRep returns, for every expression of a well-formed graph, a representative
  of the same sort and of the same value under every environment, keeps the invariant of the
  hash table and never drops an entry of it.
\<close>

theorem sharing_preserves_value:
  assumes "em_dom S" "x \<in> S" "em_inv S P m"
  shows "\<exists>r m'. GetRep P x m = Inr (r, m') \<and> em_inv S P m' \<and> m \<subseteq>\<^sub>m m'
    \<and> esort r = esort x \<and> wf_expr r \<and> (\<forall>\<rho> \<phi>. eval \<rho> \<phi> r = eval \<rho> \<phi> x)"
  using GetRep_ok [OF assms] by metis

theorem sharing_preserves_value_witness:
  "\<exists>r m'. GetRep (\<lambda>_. []) e_ite ExprMngr_New = Inr (r, m') \<and> esort r = SortMem 8 8
    \<and> (\<forall>\<rho> \<phi>. eval \<rho> \<phi> r = eval \<rho> \<phi> e_ite)"
  using sharing_preserves_value [OF demo_em_dom demo_members(7) em_inv_New, of "\<lambda>_. []"] by (auto simp: e_ite_def)

text \<open>
  C18: Two expressions get the same representative from one expression manager exactly when
  they are alike: the same variable, constants of the same sort and value, or the same
  operator over alike arguments with the same parameters and function. So hashing neither
  merges different expressions nor misses a duplicate.
\<close>

theorem sharing_is_structural:
  assumes "em_dom S" "em_inv S P m" "x \<in> S" "y \<in> S"
    and "GetRep P x m = Inr (r, m1)" "GetRep P y m1 = Inr (s, m2)"
  shows "r = s \<longleftrightarrow> alike P x y"
proof -
  note x = GetRep_represents [OF assms(1,3,2,5)]
  note y = GetRep_represents [OF assms(1,4) x(2) assms(6)]
  show ?thesis
    by (rule represents_alike [OF assms(1) y(2) assms(3,4) represents_mono [OF x(1) y(3)] y(1)])
qed

theorem sharing_is_structural_witness:
  "\<exists>r s m1 m2. GetRep (\<lambda>_. []) v_data ExprMngr_New = Inr (r, m1)
    \<and> GetRep (\<lambda>_. []) v_x m1 = Inr (s, m2) \<and> r \<noteq> s"
proof -
  let ?P = "\<lambda>_. []"
  obtain r m1 where r: "GetRep ?P v_data ExprMngr_New = Inr (r, m1)" "em_inv demo_nodes ?P m1"
    using GetRep_ok [OF demo_em_dom demo_members(3) em_inv_New] by metis
  obtain s m2 where s: "GetRep ?P v_x m1 = Inr (s, m2)"
    using GetRep_ok [OF demo_em_dom demo_members(5) r(2)] by metis
  have "r \<noteq> s"
    using sharing_is_structural [OF demo_em_dom em_inv_New demo_members(3,5) r(1) s]
    by (simp add: v_data_def v_x_def)
  with r s show ?thesis by blast
qed

text \<open>
  C19: Every heap reached from the empty one by any sequence of calls that create and fill
  ILAs and instructions is consistent: identifiers are unique and drawn from the counter, the
  name tables of an ILA match its objects, parents precede children, and instructions and
  children point back to the ILA that lists them. The calls are InstrLvlAbs::New and
  Instr::New, free or with a parent or host, NewChild, NewInstr, the new and added inputs and
  states, initial conditions, fetch, valid, decode, updates, programs and sequencing, and
  AddInstr and AddChild of an object that was made for the ILA it is added to. AddInstr and
  AddChild of other objects, which the code does not prevent and its tests do, are outside:
  such a child does not point back.
\<close>

theorem api_keeps_the_heap_consistent:
  assumes "reachable w"
  shows "world_ok w"
  by (rule reachable_world_ok [OF assms])

theorem api_keeps_the_heap_consistent_witness: "world_ok (with_ila ''m'' None init_world)"
  by (rule api_keeps_the_heap_consistent, rule reachable.step [OF reachable.init])
     (rule api_step.new_ila [OF InstrLvlAbs_New_run], simp)

text \<open>
  C20: Each of the 32 functions of asthub that make the node of one operator (all but the
  overloads on constants and the comparisons built from two of them) succeeds whenever the
  table of sorts allows the operator on its arguments, and then returns a fresh node with the
  operator, arguments, parameters and sort of the table, without touching the object heaps.
\<close>

theorem constructors_follow_the_sort_table:
  "hub_contract (Negate a) kNegate [a] [] None
    \<and> hub_contract (LogicNot a) kNot [a] [] None
    \<and> hub_contract (Complement a) kComplement [a] [] None
    \<and> hub_contract (And a b) kAnd [a, b] [] None
    \<and> hub_contract (Or a b) kOr [a, b] [] None
    \<and> hub_contract (Xor a b) kXor [a, b] [] None
    \<and> hub_contract (Shl a b) kShiftLeft [a, b] [] None
    \<and> hub_contract (Ashr a b) kArithShiftRight [a, b] [] None
    \<and> hub_contract (Lshr a b) kLogicShiftRight [a, b] [] None
    \<and> hub_contract (Add a b) kAdd [a, b] [] None
    \<and> hub_contract (Sub a b) kSubtract [a, b] [] None
    \<and> hub_contract (Div a b) kDivide [a, b] [] None
    \<and> hub_contract (SRem a b) kSignedRemainder [a, b] [] None
    \<and> hub_contract (URem a b) kUnsignedRemainder [a, b] [] None
    \<and> hub_contract (SMod a b) kSignedModular [a, b] [] None
    \<and> hub_contract (Mul a b) kMultiply [a, b] [] None
    \<and> hub_contract (Eq a b) kEqual [a, b] [] None
    \<and> hub_contract (Lt a b) kLessThan [a, b] [] None
    \<and> hub_contract (Gt a b) kGreaterThan [a, b] [] None
    \<and> hub_contract (Ult a b) kUnsignedLessThan [a, b] [] None
    \<and> hub_contract (Ugt a b) kUnsignedGreaterThan [a, b] [] None
    \<and> hub_contract (Load a b) kLoad [a, b] [] None
    \<and> hub_contract (Store a b c) kStore [a, b, c] [] None
    \<and> hub_contract (Concat a b) kConcatenate [a, b] [] None
    \<and> hub_contract (Extract a hi lo) kExtract [a] [hi, lo] None
    \<and> hub_contract (ZExt a bw) kZeroExtend [a] [bw] None
    \<and> hub_contract (SExt a bw) kSignedExtend [a] [bw] None
    \<and> hub_contract (LRotate a n) kRotateLeft [a] [n] None
    \<and> hub_contract (RRotate a n) kRotateRight [a] [n] None
    \<and> hub_contract (Imply a b) kImply [a, b] [] None
    \<and> hub_contract (Ite c a b) kIfThenElse [c, a, b] [] None
    \<and> hub_contract (AppFunc g as) kApplyFunc as [] (Some g)"
  by (intro conjI hub_run)

text \<open>
  C21: InstrLvlAbs::DepthFirstVisit applied to any action that keeps the child lists runs the
  action over the hierarchy once per node, the children of a node in order before the node, as
  the specification ila_tree lists them.
\<close>

theorem traversal_is_the_tree:
  assumes "\<And>i s u t. func i s = Inr (u, t) \<Longrightarrow> child_ids (wd t) = child_ids (wd s)"
    and "world_ok (wd s)"
  shows "DepthFirstVisit_ila wd func i s = forM (ila_tree (wd s) i) func s"
  by (rule DepthFirstVisit_ila_tree [where wd = wd and func = func]) (fact assms)+

theorem traversal_is_the_tree_witness:
  "DepthFirstVisit_ila (\<lambda>s. demo) (\<lambda>i. modify (\<lambda>xs. xs @ [i])) 1 [] = Inr ((), [9, 1])"
proof -
  have "DepthFirstVisit_ila (\<lambda>s. demo) (\<lambda>i. modify (\<lambda>xs. xs @ [i])) 1 [] =
      forM (ila_tree demo 1) (\<lambda>i. modify (\<lambda>xs. xs @ [i])) []"
    by (rule traversal_is_the_tree [where wd = "\<lambda>s. demo"]) (simp_all add: demo_ok)
  also have "\<dots> = Inr ((), [9, 1])"
    unfolding demo_tree by (simp add: thenM_def bindM_def)
  finally show ?thesis .
qed

text \<open>
  C22: AbsKnob::DuplStt into an ILA without states makes one state per state of the source,
  with the same name and sort and hosted by the destination, records the pair in the
  expression map, and changes no other object.
\<close>

theorem states_duplicated:
  assumes "world_ok w" "iter_fair w"
    and "ila_heap w src = Some ms" "inj_on eid (set (vec (states ms)))"
    and "ila_heap w dst = Some md" "vec (states md) = []"
    and "\<forall>s\<in>set (vec (states ms)). find_input md (ename s) = None \<and> emap (eid s) = None"
  shows "\<exists>emap' w' md'. DuplStt src dst emap w = Inr (emap', w')
    \<and> ila_heap w' = (ila_heap w)(dst \<mapsto> md') \<and> instr_heap w' = instr_heap w
    \<and> (\<forall>s\<in>set (vec (states ms)). stt_dupl dst md' emap' s)
    \<and> ename ` set (vec (states md')) = ename ` set (vec (states ms))
    \<and> inputs md' = inputs md \<and> emap \<subseteq>\<^sub>m emap'"
  by (rule DuplStt_fresh [OF assms])

theorem states_duplicated_witness:
  "\<exists>emap' w' md'. DuplStt 1 13 Map.empty (with_ila ''n'' None (demo\<lparr>iter_order := id\<rparr>)) = Inr (emap', w')
    \<and> ila_heap w' 13 = Some md' \<and> ename ` set (vec (states md')) = {''mem''}"
proof -
  let ?d = "demo\<lparr>iter_order := id\<rparr>"
  let ?w = "with_ila ''n'' None ?d"
  obtain ms where ms: "ila_heap ?w 1 = Some ms" "vec (states ms) = [v_mem]"
    using demo_top demo_counter by (auto simp: with_ila_def)
  have md: "ila_heap ?w 13 = Some (empty_ila (named_symbol ''n'' ?d) None)"
    using demo_counter by (simp add: with_ila_def)
  have "world_ok ?d" using demo_ok by (simp add: world_ok_def ila_at_def instr_at_def)
  then have ok: "world_ok ?w" using world_ok_with_ila [of ?d None "''n''"] by simp
  have fair: "iter_fair ?w" by (simp add: iter_fair_def with_ila_def)
  show ?thesis
    using states_duplicated [OF ok fair ms(1) _ md, of Map.empty] ms(2)
    by (auto simp: empty_ila_def find_input_def v_mem_def) (auto simp: kv_empty_def)
qed

text \<open>
  C23: InstrLvlAbs::NewChild with a fresh name creates an ILA with the next identifier whose
  parent is the caller, which starts with no instruction and exactly the states and inputs of
  its parent, in the same order and under the same names, and registers it under its name
  only.
\<close>

theorem child_inherits_variables:
  assumes "world_ok w" "ila_heap w i = Some m" "find_child m name = None"
  shows "\<exists>w' x m'. NewChild i name w = Inr (counter w + 1, w')
    \<and> ila_heap w' (counter w + 1) = Some x \<and> parent x = Some i \<and> vec (instrs x) = []
    \<and> vec (states x) = vec (states m) \<and> vec (inputs x) = vec (inputs m)
    \<and> (\<forall>n. find_state x n = find_state m n \<and> find_input x n = find_input m n)
    \<and> ila_heap w' i = Some m' \<and> find_child m' name = Some (counter w + 1)
    \<and> (\<forall>n. n \<noteq> name \<longrightarrow> find_child m' n = find_child m n)"
  by (rule NewChild_inherits [OF assms])

theorem child_inherits_variables_witness:
  "\<exists>w' x. NewChild 1 ''n'' demo = Inr (13, w') \<and> ila_heap w' 13 = Some x
    \<and> vec (states x) = [v_mem] \<and> vec (inputs x) = [v_addr, v_data, v_c]"
proof -
  have "map_option (\<lambda>m. (find_child m ''n'', vec (states m), vec (inputs m))) (ila_heap demo 1)
      = Some (None, [v_mem], [v_addr, v_data, v_c])" by code_simp
  then obtain m where "ila_heap demo 1 = Some m" "find_child m ''n'' = None"
    and m: "vec (states m) = [v_mem]" "vec (inputs m) = [v_addr, v_data, v_c]" by auto
  from child_inherits_variables [OF demo_ok this(1,2)] m demo_counter show ?thesis by auto
qed

text \<open>
  C24: KeyVec refines a finite map with insertion order in which the first entry of a key
  wins: after any sequence of push_back calls the invariant between the vector and the index
  map holds, a key is found with its first value, and the vector lists the first value of
  every key in the order of insertion.
\<close>

theorem keyvec_is_a_map:
  "kv_inv (kv.add_all kvs kv_empty) \<and> kv_find (kv.add_all kvs kv_empty) k = map_of kvs k
    \<and> vec (kv.add_all kvs kv_empty) = map snd (AList.clearjunk kvs)"
proof -
  have e: "kv_find kv_empty n = None" "vec kv_empty = []" for n by (simp_all add: kv_find_def kv_empty_def)
  show ?thesis
    using kv.lookup_add_all [of kv_empty kvs k] kv.inv_add_all [of kv_empty kvs] kv.elems_add_all [of kv_empty kvs]
    by (simp add: e)
qed

text \<open>
  C25: InstrSeq::AddTran keeps the two adjacency lists of the instruction sequence in
  agreement: every successor edge has its predecessor edge and every edge is counted once on
  either side.
\<close>

theorem sequence_edges_agree:
  assumes "seq_ok q"
  shows "seq_ok (AddTran s d c q) \<and> nexts (AddTran s d c q) a = nexts q a @ (if a = s then [d] else [])
    \<and> prevs (AddTran s d c q) a = prevs q a @ (if a = d then [s] else [])
    \<and> seq_ok (InstrSeq_clear q)"
  using seq_ok_AddTran [OF assms] nexts_AddTran prevs_AddTran by simp

theorem sequence_edges_agree_witness: "seq_ok (AddTran 6 11 v_c InstrSeq_New)"
  using sequence_edges_agree [OF seq_ok_New] by simp

text \<open>
  C26: The textual hash of ExprHash is injective on shallow structure: two expressions whose
  constants are well formed have the same key exactly when they are the same variable, the
  same constant, or the same operator with the same sorts, argument identities, parameters and
  function.
\<close>

theorem hash_separates:
  assumes "hashable a" "hashable b"
  shows "Hash P a = Hash P b \<longleftrightarrow> same_hash P a b"
  by (rule Hash_eq_iff [OF assms])

theorem hash_separates_witness: "Hash (\<lambda>_. []) e_store \<noteq> Hash (\<lambda>_. []) e_store2"
  by (subst hash_separates) (simp_all add: hashable_def demo_exprs op_ids_def)

text \<open>
  C27: AbsKnob::InsertSttTree collects exactly the states of every ILA of the hierarchy, in
  the order of the traversal, and leaves the heap alone.
\<close>

theorem state_collection:
  assumes "world_ok w" "i \<in> dom (ila_heap w)"
  shows "InsertSttTree i xs w =
     Inr (fold (\<lambda>j. fold set_insert (vec (states (the (ila_heap w j))))) (ila_tree w i) xs, w)"
  by (rule InsertSttTree_run [OF assms])

theorem state_collection_witness: "InsertSttTree 1 [] demo = Inr ([v_mem], demo)"
proof -
  have "fold (\<lambda>j. fold set_insert (vec (states (the (ila_heap demo j))))) (ila_tree demo 1) [] = [v_mem]"
    by code_simp
  then show ?thesis using state_collection [OF demo_ok demo_in, of "[]"] by simp
qed

text \<open>
  C28: AbsKnob::GetInstrTree returns the instructions of every ILA of the hierarchy, children
  before their parent, each list in its order of declaration.
\<close>

theorem instruction_collection:
  assumes "world_ok w" "i \<in> dom (ila_heap w)"
  shows "GetInstrTree i w =
     Inr (concat (map (\<lambda>j. vec (instrs (the (ila_heap w j)))) (ila_tree w i)), w)"
  by (rule GetInstrTree_run [OF assms])

theorem instruction_collection_witness: "GetInstrTree 1 demo = Inr ([11, 6], demo)"
proof -
  have "concat (map (\<lambda>j. vec (instrs (the (ila_heap demo j)))) (ila_tree demo 1)) = [11, 6]"
    by code_simp
  then show ?thesis using instruction_collection [OF demo_ok demo_in] by simp
qed

text \<open>
  C29: IlaSerDesMngr::Serialize returns a value only for a hierarchy in which every ILA has a
  valid function and every instruction a decode function: a missing one is dereferenced, so
  the call never returns a partial value.
\<close>

theorem written_hierarchies_are_complete:
  assumes "Serialize w i = Inr j" "c \<in> set (ila_tree w i)"
  shows "\<exists>m. ila_heap w c = Some m \<and> valid m \<noteq> None
    \<and> (\<forall>k\<in>set (vec (instrs m)). \<exists>x. instr_heap w k = Some x \<and> decode x \<noteq> None)"
  by (rule Serialize_written [OF assms])

theorem written_hierarchies_are_complete_witness:
  "\<exists>m. ila_heap demo_ser 9 = Some m \<and> valid m \<noteq> None
    \<and> (\<forall>k\<in>set (vec (instrs m)). \<exists>x. instr_heap demo_ser k = Some x \<and> decode x \<noteq> None)"
  by (rule written_hierarchies_are_complete
      [OF Serialize_run [OF demo_ser_dom demo_ser_ok demo_describes demo_hroots]]) (simp only: demo_ser_tree list.set insert_iff simp_thms)

text \<open>
  C30: InstrLvlAbs::NewInstr with a name the ILA already has returns a new instruction object
  that the ILA does not list: KeyVec::push_back ignores the second entry and nobody looks at
  its result.
\<close>

theorem taken_name_is_ignored:
  assumes "world_ok w" "ila_heap w i = Some m" "find_instr m name = Some k" "name \<noteq> []"
  shows "\<exists>w'. NewInstr i name w = Inr (counter w + 1, w') \<and> ila_heap w' = ila_heap w
    \<and> (\<exists>x. instr_heap w' (counter w + 1) = Some x \<and> sym_name (i_sym x) = name)
    \<and> counter w + 1 \<notin> set (vec (instrs m))"
  by (rule NewInstr_taken [OF assms])

theorem taken_name_is_ignored_witness:
  "\<exists>w'. NewInstr 1 ''ST'' demo = Inr (13, w') \<and> ila_heap w' = ila_heap demo"
proof -
  have "map_option (\<lambda>m. find_instr m ''ST'') (ila_heap demo 1) = Some (Some 6)" by code_simp
  then obtain m where "ila_heap demo 1 = Some m" "find_instr m ''ST'' = Some 6" by auto
  from taken_name_is_ignored [OF demo_ok this] demo_counter show ?thesis by auto
qed

text \<open>
  C31: absknob::Rewrite of an expression whose operator is the signed remainder or the signed
  modulus stops with the assertion "Fail rewriting", provided that the map has no entry for it
  and that its arguments were rewritten: FuncObjRewrExpr::RewriteOp has no case for either
  operator, and its default case only logs an error and returns a null pointer, which becomes
  the entry of the node.
\<close>

theorem rewriting_lacks_signed:
  assumes "u = kSignedRemainder \<or> u = kSignedModular"
    and "forM as (rewr_visit RewriteOp) (rule, w) = Inr ((), (rule', w'))"
    and "rule (sym_id y) = None" "rule' (sym_id y) = None"
  shows "Rewrite (Some (ExprOp y u s as ps f h)) rule w = Inl (AssertFail ''Fail rewriting'')"
  by (rule Rewrite_uncopyable [OF assms])

theorem rewriting_lacks_signed_witness:
  "Rewrite (Some (ExprOp \<lparr>sym_name = ''e'', sym_id = 20\<rparr> kSignedRemainder (SortBv 8) [v_data, v_data] [] None None))
     [4 \<mapsto> Some v_x] init_world = Inl (AssertFail ''Fail rewriting'')"
  by (rule rewriting_lacks_signed [where rule' = "[4 \<mapsto> Some v_x]" and w' = init_world])
     (simp_all add: rewr_visit_def DepthFirstVisitPrePost.simps rewr_pre_def v_data_def)

text \<open>
  C32: The mixed-sort logic operators (Boolean and one-bit vector) end: two nested calls of
  And, Or and Xor are always enough, on every pair of expressions and every state of the
  counter.
\<close>

theorem mixed_logic_ends:
  "And l r w \<noteq> Inl OutOfFuel \<and> Or l r w \<noteq> Inl OutOfFuel \<and> Xor l r w \<noteq> Inl OutOfFuel"
  unfolding And_def Or_def Xor_def by (intro conjI promote_ends logic_ends)

text \<open>
  C33: InstrLvlAbs::GetRootName walks the parents of an ILA and ends: on a consistent heap the
  name is found for every ILA, because a parent is always older than its child.
\<close>

theorem root_name_found:
  assumes "world_ok w" "i \<in> dom (ila_heap w)"
  shows "GetRootName w i \<noteq> None"
  by (rule GetRootName_total [OF assms])

theorem root_name_found_witness: "GetRootName demo 1 \<noteq> None"
  by (rule root_name_found [OF demo_ok demo_in])

text \<open>
  C34: StrToULongLong reads back what IntToStrCustomBase prints, for every 64-bit value, every
  base from 2 to 36 and either letter case.
\<close>

theorem number_text_round_trip:
  assumes "1 < b" "b \<le> 36"
  shows "\<exists>s. IntToStrCustomBase v b up = Inr s \<and> StrToULongLong s b = v"
proof (cases "v = 0")
  case False
  then have "unat v \<noteq> 0" by (simp add: unat_eq_zero)
  from parse_c_int_to_str_loop [OF assms this] assms False show ?thesis
    by (simp add: IntToStrCustomBase_def StrToULongLong_def)
qed (use assms parse_c_zero in \<open>simp add: IntToStrCustomBase_def StrToULongLong_def\<close>)

theorem number_text_round_trip_witness:
  "\<exists>s. IntToStrCustomBase 255 16 True = Inr s \<and> StrToULongLong s 16 = 255"
  by (rule number_text_round_trip) simp_all

text \<open>
  C35: ReplaceAll computes the left-to-right replacement of the structural definition
  replace_ref when the pattern is not empty; with an empty pattern its loop never ends.
\<close>

theorem replace_all_meets_its_specification:
  "ReplaceAll s a b = (if a = [] then None else Some (replace_ref a b s))"
  by (simp add: ReplaceAll_ref ReplaceAll_empty)

text \<open>
  C36: Split ends exactly when the delimiter is not empty or there is nothing to split; it
  then returns the non-empty pieces between the delimiters, as the structural definition
  split_ref lists them.
\<close>

theorem split_meets_its_specification:
  "Split s d = (if d \<noteq> [] then Some (split_ref d [] s) else if s = [] then Some [] else None)"
  by (simp add: Split_ref Split_empty)

text \<open>
  C37: Split returns the pieces Join has glued, for pieces that are not empty and do not
  contain the delimiter character.
\<close>

theorem split_undoes_join:
  assumes "\<forall>s\<in>set ss. s \<noteq> [] \<and> c \<notin> set s"
  shows "Split (Join ss [c]) [c] = Some ss"
  by (rule Split_Join [OF assms])

theorem split_undoes_join_witness:
  "Split (Join [''top'', ''core''] [CHR ''.'']) [CHR ''.''] = Some [''top'', ''core'']"
  by (rule split_undoes_join) simp

text \<open>
  C38: MemVal::set_data does not overwrite: on a sorted map it stores the word at an address
  that has none and leaves the one that is there, for all 64-bit addresses and words.
\<close>

theorem memory_constant_keeps_first_write:
  assumes "omap_ok (<) m"
  shows "map_of (set_data m k d) = (if map_of m k = None then (map_of m)(k \<mapsto> d) else map_of m)
    \<and> omap_ok (<) (set_data m k d)"
  using omap_emplace_lookup [OF strict_linear_word assms] omap_ok_emplace [OF strict_linear_word assms]
  by (simp add: set_data_def)

theorem memory_constant_keeps_first_write_witness:
  "map_of (set_data [(1, 7)] 1 9) 1 = Some 7"
  using memory_constant_keeps_first_write [of "[(1, 7)]" 1 9] by simp

text \<open>
  C39: AbsKnob::GetVar returns the variables that occur in an expression, all of them and each
  once, when identities are unique.
\<close>

theorem variables_collected:
  assumes "inj_on eid (subexprs e)"
  shows "\<exists>vs. GetVar e = Inr vs \<and> set vs = {v \<in> subexprs e. is_var v} \<and> distinct (map eid vs)"
  using GetVar_set [OF assms] by metis

theorem variables_collected_witness:
  "\<exists>vs. GetVar e_store = Inr vs \<and> set vs = {v_mem, v_addr, v_data}"
proof -
  have "inj_on eid (subexprs e_store)" using demo_dag demo_members(6) dag_subexprs [of demo_nodes e_store]
    by (auto simp: dag_def intro: inj_on_subset)
  from variables_collected [OF this] obtain vs where
    vs: "GetVar e_store = Inr vs" "set vs = {v \<in> subexprs e_store. is_var v}" by blast
  have "post_order e_store = [v_mem, v_addr, v_data, e_store]" by code_simp
  then have "{v \<in> subexprs e_store. is_var v} = {v_mem, v_addr, v_data}"
    by (auto simp: subexprs_def demo_exprs)
  with vs show ?thesis by blast
qed


end
